(* ===== verification/Prelude.thy ===== *)
theory Prelude
  imports Main "HOL-Library.Product_Lexorder" "HOL-Library.Multiset"
begin

text \<open>
  Shared vocabulary of the development: the result type of a fallible service call, the failure
  classes the Python raises, tables as lists of rows with a primary key, and the collections of
  facts that the component proofs hand to the simplifier.

  A service method of the program opens a session and runs its body in one database transaction.
  Its model is a function from the tables to a \<open>result\<close>: \<open>Inl e\<close> is a raised exception
  (the session rolls back, so the tables are the old ones, see \<open>atomically\<close>) and \<open>Inr\<close>
  carries the new tables together with the returned value.
\<close>

section \<open>Basic types\<close>

text \<open>
  A UUID is its 128-bit integer, which orders exactly as PostgreSQL orders the \<open>uuid\<close> column
  and as Python orders \<open>str(uuid)\<close>. An instant is the number of microseconds since the epoch
  in UTC (the resolution of Python's and PostgreSQL's timestamps). Money is a number of
  ten-thousandths, the unit of a \<open>NUMERIC(19, 4)\<close> column.
\<close>

type_synonym uuid = nat
type_synonym instant = int
type_synonym money = int

text \<open>A Python datetime at an untrusted boundary: only an aware one denotes an instant.\<close>

datatype py_datetime = Naive int | Aware instant

section \<open>Failures\<close>

text \<open>
  One constructor per exception class; the first argument is the stable public code, the second
  the input field it names. The message of an exception is a constant of its code and is left out.
\<close>

datatype error =
    LedgerValidationError string "string option"
  | LedgerNotFoundError string "string option"
  | LedgerConflictError string "string option"
  | ReconciliationNotFoundError string
  | ReconciliationConflictError string
  | IngestionConflictError string
  | ConnectorContentError string
  | ConnectorUnavailableError string
  | ProposalReviewError string
  | AIProviderError string
  | AIOutputError string
  | JobError string nat
  | ValueError
  | OverflowError
  | InvalidOperation
  | RuntimeError string
  | IntegrityError string
  | AgentAccessError
  | AgentLimitError
  | TimeoutError
  | AuthError string
  | TypeError
  | CsvError
  | RecursionError

type_synonym 'a result = "error + 'a"

fun bindE :: "'a result \<Rightarrow> ('a \<Rightarrow> 'b result) \<Rightarrow> 'b result" where
  "bindE (Inl e) f = Inl e"
| "bindE (Inr x) f = f x"

definition require :: "error \<Rightarrow> 'a option \<Rightarrow> 'a result" where
  "require e x = (case x of None \<Rightarrow> Inl e | Some v \<Rightarrow> Inr v)"

definition ensure :: "bool \<Rightarrow> error \<Rightarrow> unit result" where
  "ensure ok e = (if ok then Inr () else Inl e)"

text \<open>The transaction boundary \<open>session.begin()\<close>: an exception restores the old tables.\<close>

definition atomically :: "('db \<Rightarrow> ('db \<times> 'a) result) \<Rightarrow> 'db \<Rightarrow> 'db \<times> 'a result" where
  "atomically body db = (case body db of Inl e \<Rightarrow> (db, Inl e) | Inr (db', v) \<Rightarrow> (db', Inr v))"

text \<open>A fallible step over a list, stopping at the first failure.\<close>

fun mapE :: "('a \<Rightarrow> 'b result) \<Rightarrow> 'a list \<Rightarrow> ('b list) result" where
  "mapE f [] = Inr []"
| "mapE f (x # xs) = bindE (f x) (\<lambda>y. bindE (mapE f xs) (\<lambda>ys. Inr (y # ys)))"

named_theorems result_simps \<open>rewrites of monadic bodies\<close>
named_theorems table_simps \<open>rewrites of table operations\<close>

lemma bindE_Inr [result_simps]: "bindE m f = Inr y \<longleftrightarrow> (\<exists>x. m = Inr x \<and> f x = Inr y)"
  by (cases m) auto

lemma bindE_Inl [result_simps]:
  "bindE m f = Inl e \<longleftrightarrow> m = Inl e \<or> (\<exists>x. m = Inr x \<and> f x = Inl e)"
  by (cases m) auto

lemma bindE_assoc: "bindE (bindE m f) g = bindE m (\<lambda>x. bindE (f x) g)"
  by (cases m) auto

lemma require_Inr [result_simps]: "require e x = Inr v \<longleftrightarrow> x = Some v"
  by (auto simp: require_def split: option.splits)

lemma require_Inl [result_simps]: "require e x = Inl e' \<longleftrightarrow> x = None \<and> e' = e"
  by (auto simp: require_def split: option.splits)

lemma require_simps [simp]: "require e (Some v) = Inr v" "require e None = Inl e"
  by (simp_all add: require_def)

lemma ensure_Inr [result_simps]: "ensure ok e = Inr u \<longleftrightarrow> ok"
  by (auto simp: ensure_def)

lemma ensure_Inl [result_simps]: "ensure ok e = Inl e' \<longleftrightarrow> \<not> ok \<and> e' = e"
  by (auto simp: ensure_def)

lemma ensure_simps [simp]: "ensure True e = Inr ()" "ensure False e = Inl e"
  by (simp_all add: ensure_def)

lemma mapE_Inr: "mapE f xs = Inr ys \<longleftrightarrow> length ys = length xs \<and> (\<forall>i < length xs. f (xs ! i) = Inr (ys ! i))"
proof (induction xs arbitrary: ys)
  case (Cons x xs)
  have "mapE f (x # xs) = Inr ys \<longleftrightarrow> (\<exists>z zs. ys = z # zs \<and> f x = Inr z \<and> mapE f xs = Inr zs)"
    by (auto simp: bindE_Inr)
  then show ?case
    by (cases ys) (simp_all add: Cons All_less_Suc2, blast)
qed auto

lemma atomically_Inl: "body db = Inl e \<Longrightarrow> atomically body db = (db, Inl e)"
  by (simp add: atomically_def)

lemma atomically_Inr: "body db = Inr (db', v) \<Longrightarrow> atomically body db = (db', Inr v)"
  by (simp add: atomically_def)

lemma map_of_sort_key:
  assumes "distinct (map fst xs)"
  shows "map_of (sort_key k xs) = map_of xs"
proof
  fix x
  have "distinct (map fst (sort_key k xs))"
    using assms by (metis mset_map mset_eq_imp_distinct_iff mset_sort)
  then have "map_of (sort_key k xs) x = Some y \<longleftrightarrow> map_of xs x = Some y" for y
    using assms by (simp only: map_of_eq_Some_iff set_sort)
  then show "map_of (sort_key k xs) x = map_of xs x"
    by (metis not_Some_eq)
qed

section \<open>Tables\<close>

text \<open>
  A table is the list of its rows in insertion order. \<open>select_one\<close> is a query by a unique key,
  \<open>insert_row\<close> an \<open>INSERT\<close> whose primary key must be new, \<open>modify_rows\<close> an \<open>UPDATE\<close>.
\<close>

definition select_one :: "('r \<Rightarrow> bool) \<Rightarrow> 'r list \<Rightarrow> 'r option" where
  "select_one P rows = List.find P rows"

definition insert_row :: "('r \<Rightarrow> uuid) \<Rightarrow> 'r \<Rightarrow> 'r list \<Rightarrow> ('r list) result" where
  "insert_row key r rows =
     (if key r \<in> set (map key rows) then Inl (IntegrityError ''primary_key'') else Inr (rows @ [r]))"

definition modify_rows :: "('r \<Rightarrow> bool) \<Rightarrow> ('r \<Rightarrow> 'r) \<Rightarrow> 'r list \<Rightarrow> 'r list" where
  "modify_rows P f rows = map (\<lambda>r. if P r then f r else r) rows"

definition sum_rows :: "('r \<Rightarrow> int) \<Rightarrow> 'r list \<Rightarrow> int" where
  "sum_rows f rows = sum_list (map f rows)"

lemma select_one_Nil [simp]: "select_one P [] = None"
  by (simp add: select_one_def)

lemma select_one_Cons [simp]:
  "select_one P (r # rows) = (if P r then Some r else select_one P rows)"
  by (simp add: select_one_def)

lemma select_one_SomeD: "select_one P rows = Some r \<Longrightarrow> r \<in> set rows \<and> P r"
  by (induction rows) (auto split: if_splits)

lemma select_one_None: "select_one P rows = None \<longleftrightarrow> (\<forall>r \<in> set rows. \<not> P r)"
  by (induction rows) auto

lemma select_one_ex: "select_one P rows \<noteq> None \<longleftrightarrow> (\<exists>r \<in> set rows. P r)"
  by (auto simp: select_one_None)

lemma select_one_append:
  "select_one P (xs @ ys) = (case select_one P xs of None \<Rightarrow> select_one P ys | Some r \<Rightarrow> Some r)"
  by (induction xs) auto

lemma select_one_unique:
  assumes "distinct (map key rows)" "r \<in> set rows" "\<And>x. P x \<Longrightarrow> key x = key r" "P r"
  shows "select_one P rows = Some r"
  using assms
proof (induction rows)
  case Nil
  then show ?case by simp
next
  case (Cons a rows)
  show ?case
  proof (cases "P a")
    case True
    from Cons.prems(3) [OF True] have k: "key a = key r" .
    have "key a \<notin> key ` set rows" using Cons.prems(1) by simp
    with k Cons.prems(2) have "a = r" by auto
    with True show ?thesis by simp
  next
    case False
    with Cons.prems have "r \<in> set rows" "distinct (map key rows)" by auto
    with Cons.prems(3,4) have "select_one P rows = Some r" by (intro Cons.IH)
    with False show ?thesis by simp
  qed
qed

lemma insert_row_Inr [table_simps]:
  "insert_row key r rows = Inr rows' \<longleftrightarrow> key r \<notin> key ` set rows \<and> rows' = rows @ [r]"
  by (auto simp: insert_row_def)

lemma insert_row_new: "key r \<notin> key ` set rows \<Longrightarrow> insert_row key r rows = Inr (rows @ [r])"
  by (simp add: insert_row_def)

text \<open>\<open>ORDER BY k LIMIT 1\<close> is the first of the sorted rows.\<close>

lemma sort_key_first:
  assumes "sort_key k xs = r # rs"
  shows "r \<in> set xs \<and> (\<forall>x \<in> set xs. k r \<le> k x)"
proof -
  have "set (r # rs) = set xs" using set_sort [of k xs] assms by simp
  moreover have "sorted (map k (r # rs))" using sorted_sort_key [of k xs] assms by simp
  ultimately show ?thesis by (metis (no_types, lifting) insert_iff list.simps(15) list.simps(9) order_refl
        sorted_simps(2) image_eqI list.set_map)
qed

lemma sort_key_nonempty: "x \<in> set xs \<Longrightarrow> \<exists>r rs. sort_key k xs = r # rs"
  using set_sort [of k xs] by (cases "sort_key k xs") auto

lemma select_one_sorted:
  "sorted (map k rows) \<Longrightarrow> select_one P rows = Some r \<Longrightarrow> \<forall>x \<in> set rows. P x \<longrightarrow> k r \<le> k x"
  by (induction rows) (auto split: if_splits dest: select_one_SomeD)

lemma modify_rows_Nil [simp]: "modify_rows P f [] = []"
  by (simp add: modify_rows_def)

lemma modify_rows_Cons [simp]:
  "modify_rows P f (r # rows) = (if P r then f r else r) # modify_rows P f rows"
  by (simp add: modify_rows_def)

lemma modify_rows_append [simp]:
  "modify_rows P f (xs @ ys) = modify_rows P f xs @ modify_rows P f ys"
  by (simp add: modify_rows_def)

lemma length_modify_rows [simp]: "length (modify_rows P f rows) = length rows"
  by (simp add: modify_rows_def)

lemma map_key_modify_rows [table_simps]:
  "(\<And>r. P r \<Longrightarrow> key (f r) = key r) \<Longrightarrow> map key (modify_rows P f rows) = map key rows"
  by (induction rows) auto

lemma set_modify_rows: "set (modify_rows P f rows) = (\<lambda>r. if P r then f r else r) ` set rows"
  by (simp add: modify_rows_def)

lemma modify_rows_cong:
  "(\<And>r. r \<in> set rows \<Longrightarrow> P r = Q r) \<Longrightarrow> (\<And>r. r \<in> set rows \<Longrightarrow> P r \<Longrightarrow> f r = g r) \<Longrightarrow>
    modify_rows P f rows = modify_rows Q g rows"
  by (induction rows) auto

lemma filter_modify_rows:
  assumes "\<And>r. P r \<Longrightarrow> \<not> Q r" "\<And>r. P r \<Longrightarrow> \<not> Q (f r)"
  shows "filter Q (modify_rows P f rows) = filter Q rows"
  using assms by (induction rows) auto

lemma select_one_modify_rows:
  assumes "\<And>r. P r \<Longrightarrow> Q (f r) = Q r"
  shows "select_one Q (modify_rows P f rows) =
    map_option (\<lambda>r. if P r then f r else r) (select_one Q rows)"
  using assms by (induction rows) auto

lemma sum_rows_Nil [simp]: "sum_rows f [] = 0"
  by (simp add: sum_rows_def)

lemma sum_rows_Cons [simp]: "sum_rows f (r # rows) = f r + sum_rows f rows"
  by (simp add: sum_rows_def)

lemma sum_rows_append [simp]: "sum_rows f (xs @ ys) = sum_rows f xs + sum_rows f ys"
  by (simp add: sum_rows_def)

lemma sum_rows_nonneg: "(\<And>r. r \<in> set rows \<Longrightarrow> 0 \<le> f r) \<Longrightarrow> 0 \<le> sum_rows f rows"
  by (induction rows) auto

lemma sum_rows_cong: "(\<And>r. r \<in> set rows \<Longrightarrow> f r = g r) \<Longrightarrow> sum_rows f rows = sum_rows g rows"
  by (induction rows) auto

lemma sum_rows_filter_split:
  "sum_rows f (filter P rows) + sum_rows f (filter (\<lambda>r. \<not> P r) rows) = sum_rows f rows"
  by (induction rows) auto

lemma sum_rows_partition:
  assumes "distinct keys" "\<And>r. r \<in> set rows \<Longrightarrow> k r \<in> set keys"
  shows "(\<Sum>x\<leftarrow>keys. sum_rows f (filter (\<lambda>r. k r = x) rows)) = sum_rows f rows"
  using assms
proof (induction keys arbitrary: rows)
  case Nil
  then show ?case by (cases rows) auto
next
  case (Cons x keys)
  let ?rest = "filter (\<lambda>r. k r \<noteq> x) rows"
  have rest: "filter (\<lambda>r. k r = y) rows = filter (\<lambda>r. k r = y) ?rest" if "y \<in> set keys" for y
    using that Cons.prems(1) by (auto intro!: filter_cong)
  have "(\<Sum>y\<leftarrow>keys. sum_rows f (filter (\<lambda>r. k r = y) rows)) =
        (\<Sum>y\<leftarrow>keys. sum_rows f (filter (\<lambda>r. k r = y) ?rest))"
    by (intro arg_cong [where f = sum_list] map_cong refl arg_cong [where f = "sum_rows f"] rest)
  also have "\<dots> = sum_rows f ?rest"
    using Cons.prems by (intro Cons.IH) auto
  finally show ?case
    using sum_rows_filter_split [of f "\<lambda>r. k r = x" rows] by simp
qed

lemma map_filter_total:
  "(\<And>x. x \<in> set xs \<Longrightarrow> f x = Some (g x)) \<Longrightarrow> List.map_filter f xs = map g xs"
  by (induction xs) (simp_all add: List.map_filter_simps)

lemma sum_rows_mset: "mset xs = mset ys \<Longrightarrow> sum_rows f xs = sum_rows f ys"
  unfolding sum_rows_def by (metis mset_map sum_mset_sum_list)

lemma map_filter_cong_on: "(\<And>x. x \<in> set xs \<Longrightarrow> f x = g x) \<Longrightarrow> List.map_filter f xs = List.map_filter g xs"
  by (induction xs) (simp_all add: List.map_filter_simps split: option.split)

lemma filter_modify_rows_on:
  "(\<And>r. r \<in> set rows \<Longrightarrow> P r \<Longrightarrow> \<not> Q r \<and> \<not> Q (f r)) \<Longrightarrow> filter Q (modify_rows P f rows) = filter Q rows"
  by (induction rows) auto

end
