(* ===== verification/Enums.thy ===== *)
theory Enums
  imports Prelude
begin

text \<open>
  The persisted vocabularies of \<open>domain/enums.py\<close>. Every \<open>StrEnum\<close> is a datatype with the
  source's members (prefixed where two enums share a member name), its stored value and the list
  of its members in declaration order; \<open>enum_values\<close> is what SQLAlchemy is given to build the
  column's check constraint, and \<open>enum_of_value\<close> reads a stored value back.
\<close>

section \<open>The vocabularies\<close>

text \<open>\<open>TransactionType\<close>: economic direction of a ledger transaction.\<close>

datatype transaction_type = EXPENSE | INCOME | TRANSFER | REFUND | SHARED_EXPENSE

primrec transaction_type_value :: "transaction_type \<Rightarrow> string" where
  "transaction_type_value EXPENSE = ''expense''"
| "transaction_type_value INCOME = ''income''"
| "transaction_type_value TRANSFER = ''transfer''"
| "transaction_type_value REFUND = ''refund''"
| "transaction_type_value SHARED_EXPENSE = ''shared_expense''"

definition transaction_type_members :: "transaction_type list" where
  "transaction_type_members = [EXPENSE, INCOME, TRANSFER, REFUND, SHARED_EXPENSE]"

text \<open>\<open>TransactionStatus\<close>: posting lifecycle for a ledger transaction.\<close>

datatype transaction_status = PENDING | POSTED | VOIDED

primrec transaction_status_value :: "transaction_status \<Rightarrow> string" where
  "transaction_status_value PENDING = ''pending''"
| "transaction_status_value POSTED = ''posted''"
| "transaction_status_value VOIDED = ''voided''"

definition transaction_status_members :: "transaction_status list" where
  "transaction_status_members = [PENDING, POSTED, VOIDED]"

text \<open>\<open>TransactionSource\<close>: normalized origin of a transaction in the current phase.\<close>

datatype transaction_source = MANUAL | INGESTION

primrec transaction_source_value :: "transaction_source \<Rightarrow> string" where
  "transaction_source_value MANUAL = ''manual''"
| "transaction_source_value INGESTION = ''ingestion''"

definition transaction_source_members :: "transaction_source list" where
  "transaction_source_members = [MANUAL, INGESTION]"

text \<open>\<open>CategorizationSource\<close>: explainable source of a transaction's current category assignment.\<close>

datatype categorization_source = USER_RULE | MERCHANT_MAP | VERIFIED_CORRECTION | RETRIEVAL | MODEL | USER_OVERRIDE

primrec categorization_source_value :: "categorization_source \<Rightarrow> string" where
  "categorization_source_value USER_RULE = ''user_rule''"
| "categorization_source_value MERCHANT_MAP = ''merchant_map''"
| "categorization_source_value VERIFIED_CORRECTION = ''verified_correction''"
| "categorization_source_value RETRIEVAL = ''retrieval''"
| "categorization_source_value MODEL = ''model''"
| "categorization_source_value USER_OVERRIDE = ''user_override''"

definition categorization_source_members :: "categorization_source list" where
  "categorization_source_members = [USER_RULE, MERCHANT_MAP, VERIFIED_CORRECTION, RETRIEVAL, MODEL, USER_OVERRIDE]"

text \<open>\<open>ConnectorType\<close>: stable connector registry keys persisted with source connections.\<close>

datatype connector_type = MANUAL_NOTE | CSV_IMPORT | MOCK_RECEIPT | GMAIL | GOOGLE_KEEP_TAKEOUT

primrec connector_type_value :: "connector_type \<Rightarrow> string" where
  "connector_type_value MANUAL_NOTE = ''manual_note''"
| "connector_type_value CSV_IMPORT = ''csv_import''"
| "connector_type_value MOCK_RECEIPT = ''mock_receipt''"
| "connector_type_value GMAIL = ''gmail''"
| "connector_type_value GOOGLE_KEEP_TAKEOUT = ''google_keep_takeout''"

definition connector_type_members :: "connector_type list" where
  "connector_type_members = [MANUAL_NOTE, CSV_IMPORT, MOCK_RECEIPT, GMAIL, GOOGLE_KEEP_TAKEOUT]"

text \<open>\<open>SourceConnectionStatus\<close>: lifecycle of one user-owned source authorization or import channel.\<close>

datatype source_connection_status = CONN_ACTIVE | CONN_PAUSED | CONN_ERROR | CONN_DISCONNECTED

primrec source_connection_status_value :: "source_connection_status \<Rightarrow> string" where
  "source_connection_status_value CONN_ACTIVE = ''active''"
| "source_connection_status_value CONN_PAUSED = ''paused''"
| "source_connection_status_value CONN_ERROR = ''error''"
| "source_connection_status_value CONN_DISCONNECTED = ''disconnected''"

definition source_connection_status_members :: "source_connection_status list" where
  "source_connection_status_members = [CONN_ACTIVE, CONN_PAUSED, CONN_ERROR, CONN_DISCONNECTED]"

text \<open>\<open>RawEventState\<close>: explicit replay-safe ingestion processing states.\<close>

datatype raw_event_state = RECEIVED | NORMALIZED | PROCESSED | NEEDS_REVIEW | FAILED

primrec raw_event_state_value :: "raw_event_state \<Rightarrow> string" where
  "raw_event_state_value RECEIVED = ''received''"
| "raw_event_state_value NORMALIZED = ''normalized''"
| "raw_event_state_value PROCESSED = ''processed''"
| "raw_event_state_value NEEDS_REVIEW = ''needs_review''"
| "raw_event_state_value FAILED = ''failed''"

definition raw_event_state_members :: "raw_event_state list" where
  "raw_event_state_members = [RECEIVED, NORMALIZED, PROCESSED, NEEDS_REVIEW, FAILED]"

text \<open>\<open>NormalizedEventKind\<close>: provider-neutral financial meanings produced by normalizers.\<close>

datatype normalized_event_kind = KIND_EXPENSE | KIND_INCOME | KIND_TRANSFER | KIND_REFUND | KIND_SHARED_EXPENSE | KIND_RECEIVABLE | KIND_PAYABLE | KIND_RECURRING | KIND_UNKNOWN

primrec normalized_event_kind_value :: "normalized_event_kind \<Rightarrow> string" where
  "normalized_event_kind_value KIND_EXPENSE = ''expense''"
| "normalized_event_kind_value KIND_INCOME = ''income''"
| "normalized_event_kind_value KIND_TRANSFER = ''transfer''"
| "normalized_event_kind_value KIND_REFUND = ''refund''"
| "normalized_event_kind_value KIND_SHARED_EXPENSE = ''shared_expense''"
| "normalized_event_kind_value KIND_RECEIVABLE = ''receivable''"
| "normalized_event_kind_value KIND_PAYABLE = ''payable''"
| "normalized_event_kind_value KIND_RECURRING = ''recurring''"
| "normalized_event_kind_value KIND_UNKNOWN = ''unknown''"

definition normalized_event_kind_members :: "normalized_event_kind list" where
  "normalized_event_kind_members = [KIND_EXPENSE, KIND_INCOME, KIND_TRANSFER, KIND_REFUND, KIND_SHARED_EXPENSE, KIND_RECEIVABLE, KIND_PAYABLE, KIND_RECURRING, KIND_UNKNOWN]"

text \<open>\<open>EvidenceKind\<close>: how a canonical record is supported by source data.\<close>

datatype evidence_kind = SOURCE_EVENT

primrec evidence_kind_value :: "evidence_kind \<Rightarrow> string" where
  "evidence_kind_value SOURCE_EVENT = ''source_event''"

definition evidence_kind_members :: "evidence_kind list" where
  "evidence_kind_members = [SOURCE_EVENT]"

text \<open>\<open>ProposalStatus\<close>: human-review lifecycle for untrusted extracted financial events.\<close>

datatype proposal_status = PROPOSAL_NEEDS_REVIEW | PROPOSAL_RECONCILIATION_REVIEW | PROPOSAL_APPROVED | PROPOSAL_REJECTED

primrec proposal_status_value :: "proposal_status \<Rightarrow> string" where
  "proposal_status_value PROPOSAL_NEEDS_REVIEW = ''needs_review''"
| "proposal_status_value PROPOSAL_RECONCILIATION_REVIEW = ''reconciliation_review''"
| "proposal_status_value PROPOSAL_APPROVED = ''approved''"
| "proposal_status_value PROPOSAL_REJECTED = ''rejected''"

definition proposal_status_members :: "proposal_status list" where
  "proposal_status_members = [PROPOSAL_NEEDS_REVIEW, PROPOSAL_RECONCILIATION_REVIEW, PROPOSAL_APPROVED, PROPOSAL_REJECTED]"

text \<open>\<open>ReconciliationDecision\<close>: initial deterministic duplicate decision for one normalized event.\<close>

datatype reconciliation_decision = MERGE | POSSIBLE_DUPLICATE | NEW_TRANSACTION

primrec reconciliation_decision_value :: "reconciliation_decision \<Rightarrow> string" where
  "reconciliation_decision_value MERGE = ''merge''"
| "reconciliation_decision_value POSSIBLE_DUPLICATE = ''possible_duplicate''"
| "reconciliation_decision_value NEW_TRANSACTION = ''new_transaction''"

definition reconciliation_decision_members :: "reconciliation_decision list" where
  "reconciliation_decision_members = [MERGE, POSSIBLE_DUPLICATE, NEW_TRANSACTION]"

text \<open>\<open>ReconciliationStatus\<close>: current owner-review lifecycle for a reconciliation case.\<close>

datatype reconciliation_status = CASE_PENDING | CASE_MERGED | CASE_KEPT_SEPARATE | CASE_UNMERGED

primrec reconciliation_status_value :: "reconciliation_status \<Rightarrow> string" where
  "reconciliation_status_value CASE_PENDING = ''pending''"
| "reconciliation_status_value CASE_MERGED = ''merged''"
| "reconciliation_status_value CASE_KEPT_SEPARATE = ''kept_separate''"
| "reconciliation_status_value CASE_UNMERGED = ''unmerged''"

definition reconciliation_status_members :: "reconciliation_status list" where
  "reconciliation_status_members = [CASE_PENDING, CASE_MERGED, CASE_KEPT_SEPARATE, CASE_UNMERGED]"

text \<open>\<open>ReconciliationActionType\<close>: append-only audit vocabulary for reconciliation state changes.\<close>

datatype reconciliation_action_type = CANDIDATE_FLAGGED | AUTO_MERGED | CREATED_NEW | USER_MERGED | USER_KEPT_SEPARATE | USER_UNMERGED

primrec reconciliation_action_type_value :: "reconciliation_action_type \<Rightarrow> string" where
  "reconciliation_action_type_value CANDIDATE_FLAGGED = ''candidate_flagged''"
| "reconciliation_action_type_value AUTO_MERGED = ''auto_merged''"
| "reconciliation_action_type_value CREATED_NEW = ''created_new''"
| "reconciliation_action_type_value USER_MERGED = ''user_merged''"
| "reconciliation_action_type_value USER_KEPT_SEPARATE = ''user_kept_separate''"
| "reconciliation_action_type_value USER_UNMERGED = ''user_unmerged''"

definition reconciliation_action_type_members :: "reconciliation_action_type list" where
  "reconciliation_action_type_members = [CANDIDATE_FLAGGED, AUTO_MERGED, CREATED_NEW, USER_MERGED, USER_KEPT_SEPARATE, USER_UNMERGED]"

text \<open>\<open>ObligationStatus\<close>: settlement lifecycle for receivables and payables.\<close>

datatype obligation_status = OPEN | PARTIALLY_PAID | PAID | OVERDUE | CANCELLED

primrec obligation_status_value :: "obligation_status \<Rightarrow> string" where
  "obligation_status_value OPEN = ''open''"
| "obligation_status_value PARTIALLY_PAID = ''partially_paid''"
| "obligation_status_value PAID = ''paid''"
| "obligation_status_value OVERDUE = ''overdue''"
| "obligation_status_value CANCELLED = ''cancelled''"

definition obligation_status_members :: "obligation_status list" where
  "obligation_status_members = [OPEN, PARTIALLY_PAID, PAID, OVERDUE, CANCELLED]"

text \<open>\<open>RecurrenceRule\<close>: manually managed recurrence rules supported in Phase 1.\<close>

datatype recurrence_rule = WEEKLY | MONTHLY | QUARTERLY | YEARLY

primrec recurrence_rule_value :: "recurrence_rule \<Rightarrow> string" where
  "recurrence_rule_value WEEKLY = ''weekly''"
| "recurrence_rule_value MONTHLY = ''monthly''"
| "recurrence_rule_value QUARTERLY = ''quarterly''"
| "recurrence_rule_value YEARLY = ''yearly''"

definition recurrence_rule_members :: "recurrence_rule list" where
  "recurrence_rule_members = [WEEKLY, MONTHLY, QUARTERLY, YEARLY]"

text \<open>\<open>RecurringPaymentStatus\<close>: lifecycle for an expected recurring payment.\<close>

datatype recurring_payment_status = RECURRING_ACTIVE | RECURRING_PAUSED | RECURRING_ENDED | RECURRING_NEEDS_REVIEW

primrec recurring_payment_status_value :: "recurring_payment_status \<Rightarrow> string" where
  "recurring_payment_status_value RECURRING_ACTIVE = ''active''"
| "recurring_payment_status_value RECURRING_PAUSED = ''paused''"
| "recurring_payment_status_value RECURRING_ENDED = ''ended''"
| "recurring_payment_status_value RECURRING_NEEDS_REVIEW = ''needs_review''"

definition recurring_payment_status_members :: "recurring_payment_status list" where
  "recurring_payment_status_members = [RECURRING_ACTIVE, RECURRING_PAUSED, RECURRING_ENDED, RECURRING_NEEDS_REVIEW]"

section \<open>Storing and reading members\<close>

text \<open>\<open>enum_values\<close>: the stable values of an enum, in member order.\<close>

definition enum_values :: "('e \<Rightarrow> string) \<Rightarrow> 'e list \<Rightarrow> string list" where
  "enum_values val members = map val members"

definition enum_of_value :: "('e \<Rightarrow> string) \<Rightarrow> 'e list \<Rightarrow> string \<Rightarrow> 'e option" where
  "enum_of_value val members s = select_one (\<lambda>m. val m = s) members"

text \<open>
  The contract of a stored vocabulary: the members are all of the type and their values are
  pairwise different, so reading a stored value gives the member that was written.
\<close>

locale stored_enum =
  fixes val :: "'e \<Rightarrow> string" and members :: "'e list"
  assumes complete: "m \<in> set members"
    and distinct_values: "distinct (map val members)"
begin

lemma value_inj:
  assumes "val a = val b"
  shows "a = b"
proof -
  have "inj_on val (set members)" using distinct_values by (simp add: distinct_map)
  from inj_onD [OF this assms complete complete] show ?thesis .
qed

lemma read_stored: "enum_of_value val members (val m) = Some m"
  unfolding enum_of_value_def
  by (rule select_one_unique [where key = val]) (auto simp: distinct_values complete)

lemma read_Some: "enum_of_value val members s = Some m \<longleftrightarrow> val m = s"
proof
  assume "enum_of_value val members s = Some m"
  then show "val m = s" by (auto simp: enum_of_value_def dest: select_one_SomeD)
next
  assume "val m = s"
  then show "enum_of_value val members s = Some m" using read_stored [of m] by simp
qed

lemma read_unknown: "s \<notin> set (enum_values val members) \<Longrightarrow> enum_of_value val members s = None"
  by (auto simp: enum_of_value_def enum_values_def select_one_None)

end

interpretation transaction_type_store: stored_enum transaction_type_value transaction_type_members
proof unfold_locales
  show "m \<in> set transaction_type_members" for m by (cases m) (simp_all add: transaction_type_members_def)
  show "distinct (map transaction_type_value transaction_type_members)" by (simp add: transaction_type_members_def)
qed

interpretation transaction_status_store: stored_enum transaction_status_value transaction_status_members
proof unfold_locales
  show "m \<in> set transaction_status_members" for m by (cases m) (simp_all add: transaction_status_members_def)
  show "distinct (map transaction_status_value transaction_status_members)" by (simp add: transaction_status_members_def)
qed

interpretation transaction_source_store: stored_enum transaction_source_value transaction_source_members
proof unfold_locales
  show "m \<in> set transaction_source_members" for m by (cases m) (simp_all add: transaction_source_members_def)
  show "distinct (map transaction_source_value transaction_source_members)" by (simp add: transaction_source_members_def)
qed

interpretation categorization_source_store: stored_enum categorization_source_value categorization_source_members
proof unfold_locales
  show "m \<in> set categorization_source_members" for m by (cases m) (simp_all add: categorization_source_members_def)
  show "distinct (map categorization_source_value categorization_source_members)" by (simp add: categorization_source_members_def)
qed

interpretation connector_type_store: stored_enum connector_type_value connector_type_members
proof unfold_locales
  show "m \<in> set connector_type_members" for m by (cases m) (simp_all add: connector_type_members_def)
  show "distinct (map connector_type_value connector_type_members)" by (simp add: connector_type_members_def)
qed

interpretation source_connection_status_store: stored_enum source_connection_status_value source_connection_status_members
proof unfold_locales
  show "m \<in> set source_connection_status_members" for m by (cases m) (simp_all add: source_connection_status_members_def)
  show "distinct (map source_connection_status_value source_connection_status_members)" by (simp add: source_connection_status_members_def)
qed

interpretation raw_event_state_store: stored_enum raw_event_state_value raw_event_state_members
proof unfold_locales
  show "m \<in> set raw_event_state_members" for m by (cases m) (simp_all add: raw_event_state_members_def)
  show "distinct (map raw_event_state_value raw_event_state_members)" by (simp add: raw_event_state_members_def)
qed

interpretation normalized_event_kind_store: stored_enum normalized_event_kind_value normalized_event_kind_members
proof unfold_locales
  show "m \<in> set normalized_event_kind_members" for m by (cases m) (simp_all add: normalized_event_kind_members_def)
  show "distinct (map normalized_event_kind_value normalized_event_kind_members)" by (simp add: normalized_event_kind_members_def)
qed

interpretation evidence_kind_store: stored_enum evidence_kind_value evidence_kind_members
proof unfold_locales
  show "m \<in> set evidence_kind_members" for m by (cases m) (simp_all add: evidence_kind_members_def)
  show "distinct (map evidence_kind_value evidence_kind_members)" by (simp add: evidence_kind_members_def)
qed

interpretation proposal_status_store: stored_enum proposal_status_value proposal_status_members
proof unfold_locales
  show "m \<in> set proposal_status_members" for m by (cases m) (simp_all add: proposal_status_members_def)
  show "distinct (map proposal_status_value proposal_status_members)" by (simp add: proposal_status_members_def)
qed

interpretation reconciliation_decision_store: stored_enum reconciliation_decision_value reconciliation_decision_members
proof unfold_locales
  show "m \<in> set reconciliation_decision_members" for m by (cases m) (simp_all add: reconciliation_decision_members_def)
  show "distinct (map reconciliation_decision_value reconciliation_decision_members)" by (simp add: reconciliation_decision_members_def)
qed

interpretation reconciliation_status_store: stored_enum reconciliation_status_value reconciliation_status_members
proof unfold_locales
  show "m \<in> set reconciliation_status_members" for m by (cases m) (simp_all add: reconciliation_status_members_def)
  show "distinct (map reconciliation_status_value reconciliation_status_members)" by (simp add: reconciliation_status_members_def)
qed

interpretation reconciliation_action_type_store: stored_enum reconciliation_action_type_value reconciliation_action_type_members
proof unfold_locales
  show "m \<in> set reconciliation_action_type_members" for m by (cases m) (simp_all add: reconciliation_action_type_members_def)
  show "distinct (map reconciliation_action_type_value reconciliation_action_type_members)" by (simp add: reconciliation_action_type_members_def)
qed

interpretation obligation_status_store: stored_enum obligation_status_value obligation_status_members
proof unfold_locales
  show "m \<in> set obligation_status_members" for m by (cases m) (simp_all add: obligation_status_members_def)
  show "distinct (map obligation_status_value obligation_status_members)" by (simp add: obligation_status_members_def)
qed

interpretation recurrence_rule_store: stored_enum recurrence_rule_value recurrence_rule_members
proof unfold_locales
  show "m \<in> set recurrence_rule_members" for m by (cases m) (simp_all add: recurrence_rule_members_def)
  show "distinct (map recurrence_rule_value recurrence_rule_members)" by (simp add: recurrence_rule_members_def)
qed

interpretation recurring_payment_status_store: stored_enum recurring_payment_status_value recurring_payment_status_members
proof unfold_locales
  show "m \<in> set recurring_payment_status_members" for m by (cases m) (simp_all add: recurring_payment_status_members_def)
  show "distinct (map recurring_payment_status_value recurring_payment_status_members)" by (simp add: recurring_payment_status_members_def)
qed

end
