(* ===== verification/Text_Normalization.thy ===== *)
theory Text_Normalization
  imports Prelude
begin

text \<open>
  \<open>domain/normalization.py\<close> and the currency half of \<open>domain/money.py\<close>, on ASCII text.

  A string is a list of characters. On code points below 128 Unicode's NFKC form is the text
  itself, \<open>casefold\<close> and \<open>lower\<close> map \<open>A..Z\<close> to \<open>a..z\<close>, and the characters that
  \<open>str.split()\<close> and \<open>str.strip()\<close> drop are 9..13 and 28..32; the definitions below say this
  and nothing is claimed about text with other characters. \<open>len\<close> is \<open>length\<close>.
\<close>

section \<open>The string methods the program uses\<close>

definition is_space :: "char \<Rightarrow> bool" where
  "is_space c = (let n = (of_char c :: nat) in (9 \<le> n \<and> n \<le> 13) \<or> (28 \<le> n \<and> n \<le> 32))"

definition ascii_lower :: "char \<Rightarrow> char" where
  "ascii_lower c = (let n = (of_char c :: nat) in if 65 \<le> n \<and> n \<le> 90 then char_of (n + 32) else c)"

definition ascii_upper :: "char \<Rightarrow> char" where
  "ascii_upper c = (let n = (of_char c :: nat) in if 97 \<le> n \<and> n \<le> 122 then char_of (n - 32) else c)"

definition casefold :: "string \<Rightarrow> string" where
  "casefold s = map ascii_lower s"

definition upper :: "string \<Rightarrow> string" where
  "upper s = map ascii_upper s"

definition strip :: "string \<Rightarrow> string" where
  "strip s = rev (dropWhile is_space (rev (dropWhile is_space s)))"

text \<open>\<open>s.split()\<close>: the maximal runs of non-space characters.\<close>

function split_words :: "string \<Rightarrow> string list" where
  "split_words [] = []"
| "split_words (c # cs) =
     (if is_space c then split_words cs
      else (c # takeWhile (\<lambda>x. \<not> is_space x) cs) # split_words (dropWhile (\<lambda>x. \<not> is_space x) cs))"
  by pat_completeness auto
termination
  by (relation "measure length") (auto simp: le_imp_less_Suc length_dropWhile_le)

text \<open>\<open>' '.join(words)\<close>.\<close>

fun join_spaces :: "string list \<Rightarrow> string" where
  "join_spaces [] = []"
| "join_spaces [w] = w"
| "join_spaces (w # ws) = w @ CHR '' '' # join_spaces ws"

section \<open>The program's normalizers\<close>

definition normalize_display_text :: "string \<Rightarrow> string" where
  "normalize_display_text v = join_spaces (split_words v)"

definition normalize_lookup_text :: "string \<Rightarrow> string" where
  "normalize_lookup_text v = casefold (normalize_display_text v)"

definition normalize_email :: "string \<Rightarrow> string" where
  "normalize_email v = casefold (strip v)"

definition is_upper_letter :: "char \<Rightarrow> bool" where
  "is_upper_letter c = (let n = (of_char c :: nat) in 65 \<le> n \<and> n \<le> 90)"

text \<open>The pattern \<open>^[A-Z]{3}$\<close> under \<open>fullmatch\<close>.\<close>

definition currency_pattern :: "string \<Rightarrow> bool" where
  "currency_pattern s = (length s = 3 \<and> list_all is_upper_letter s)"

definition normalize_currency_code :: "string \<Rightarrow> string result" where
  "normalize_currency_code v =
     (let normalized = upper (strip v)
      in if currency_pattern normalized then Inr normalized else Inl ValueError)"

section \<open>Facts about words\<close>

definition is_word :: "string \<Rightarrow> bool" where
  "is_word w = (w \<noteq> [] \<and> list_all (\<lambda>c. \<not> is_space c) w)"

lemma is_space_blank [simp]: "is_space CHR '' ''"
  by (simp add: is_space_def)

lemma takeWhile_word: "\<not> is_space c \<Longrightarrow> is_word (c # takeWhile (\<lambda>x. \<not> is_space x) cs)"
  by (auto simp: is_word_def list_all_iff dest!: set_takeWhileD)

lemma words_of: "list_all is_word (split_words s)"
  by (induction s rule: split_words.induct) (simp_all add: takeWhile_word)

lemma split_words_word:
  assumes "is_word w"
  shows "split_words w = [w]"
proof -
  from assms obtain c cs where w: "w = c # cs" "\<not> is_space c" "\<forall>x \<in> set cs. \<not> is_space x"
    by (cases w) (auto simp: is_word_def list_all_iff)
  then have "takeWhile (\<lambda>x. \<not> is_space x) cs = cs" and d: "dropWhile (\<lambda>x. \<not> is_space x) cs = []"
    by (simp_all add: takeWhile_eq_all_conv dropWhile_eq_Nil_conv)
  with w show ?thesis by (simp add: d)
qed

lemma split_words_append:
  assumes "is_word w"
  shows "split_words (w @ CHR '' '' # s) = w # split_words s"
proof -
  from assms obtain c cs where w: "w = c # cs" "\<not> is_space c" "\<forall>x \<in> set cs. \<not> is_space x"
    by (cases w) (auto simp: is_word_def list_all_iff)
  then have "takeWhile (\<lambda>x. \<not> is_space x) (cs @ CHR '' '' # s) = cs"
    and "dropWhile (\<lambda>x. \<not> is_space x) (cs @ CHR '' '' # s) = CHR '' '' # s"
    by (simp_all add: takeWhile_append2 dropWhile_append2)
  with w show ?thesis by simp
qed

lemma split_join: "list_all is_word ws \<Longrightarrow> split_words (join_spaces ws) = ws"
  by (induction ws rule: join_spaces.induct) (simp_all add: split_words_word split_words_append)

lemma join_words_inj:
  "list_all is_word us \<Longrightarrow> list_all is_word vs \<Longrightarrow> join_spaces us = join_spaces vs \<Longrightarrow> us = vs"
  by (metis split_join)

lemma split_normalize [simp]: "split_words (normalize_display_text v) = split_words v"
  by (simp add: normalize_display_text_def split_join words_of)

lemma normalize_idem [simp]:
  "normalize_display_text (normalize_display_text v) = normalize_display_text v"
  using split_normalize [of v] by (simp add: normalize_display_text_def)

lemma join_spaces_Nil_iff: "list_all is_word ws \<Longrightarrow> join_spaces ws = [] \<longleftrightarrow> ws = []"
  by (induction ws rule: join_spaces.induct) (auto simp: is_word_def)

lemma normalize_blank_iff: "normalize_display_text v = [] \<longleftrightarrow> (\<forall>c \<in> set v. is_space c)"
proof -
  have "split_words v = [] \<longleftrightarrow> (\<forall>c \<in> set v. is_space c)"
    by (induction v rule: split_words.induct) auto
  then show ?thesis by (simp add: normalize_display_text_def join_spaces_Nil_iff words_of)
qed

text \<open>Normalizing never makes a text longer, and a normalized text starts with a word.\<close>

lemma length_join_split:
  "length (join_spaces (split_words s)) + (if s \<noteq> [] \<and> is_space (hd s) \<and> split_words s \<noteq> [] then 1 else 0) \<le> length s"
proof (induction s rule: split_words.induct)
  case (2 c cs)
  show ?case
  proof (cases "is_space c")
    case True
    with 2(1) show ?thesis by (auto split: if_splits)
  next
    case False
    let ?w = "takeWhile (\<lambda>x. \<not> is_space x) cs" and ?rest = "dropWhile (\<lambda>x. \<not> is_space x) cs"
    have len: "length ?w + length ?rest = length cs" by (metis length_append takeWhile_dropWhile_id)
    have hd: "?rest \<noteq> [] \<Longrightarrow> is_space (hd ?rest)" using hd_dropWhile by metis
    show ?thesis
    proof (cases "split_words ?rest")
      case Nil
      with len False show ?thesis by simp
    next
      case (Cons x xs)
      then have "?rest \<noteq> []" by (metis list.distinct(1) split_words.simps(1))
      with 2(2) [OF False] len False hd Cons show ?thesis by simp
    qed
  qed
qed simp

lemma length_normalize: "length (normalize_display_text v) \<le> length v"
  using length_join_split [of v] by (simp add: normalize_display_text_def split: if_splits)

lemma normalized_starts: "normalize_display_text v \<noteq> [] \<Longrightarrow> \<not> is_space (hd (normalize_display_text v))"
proof -
  assume v: "normalize_display_text v \<noteq> []"
  then obtain w ws where "split_words v = w # ws" by (cases "split_words v") (auto simp: normalize_display_text_def)
  with words_of [of v] show ?thesis
    by (cases ws) (auto simp: normalize_display_text_def is_word_def list_all_iff hd_append)
qed

section \<open>Case folding\<close>

lemma ascii_lower_code:
  "(of_char (ascii_lower c) :: nat) =
     (let n = (of_char c :: nat) in if 65 \<le> n \<and> n \<le> 90 then n + 32 else n)"
proof -
  have "n \<le> 90 \<Longrightarrow> (n + 32) mod 256 = n + 32" for n :: nat by simp
  then show ?thesis by (simp add: ascii_lower_def Let_def)
qed

lemma ascii_lower_idem [simp]: "ascii_lower (ascii_lower c) = ascii_lower c"
proof -
  have "\<not> (65 \<le> (of_char (ascii_lower c) :: nat) \<and> (of_char (ascii_lower c) :: nat) \<le> 90)"
    by (simp add: ascii_lower_code Let_def)
  then show ?thesis by (subst ascii_lower_def) (auto simp: Let_def)
qed

lemma is_space_lower [simp]: "is_space (ascii_lower c) = is_space c"
  using ascii_lower_code [of c] by (auto simp: is_space_def Let_def split: if_splits)

lemma casefold_idem [simp]: "casefold (casefold s) = casefold s"
  by (simp add: casefold_def)

lemma length_casefold [simp]: "length (casefold s) = length s"
  by (simp add: casefold_def)

lemma casefold_Nil [simp]: "casefold s = [] \<longleftrightarrow> s = []"
  by (simp add: casefold_def)

lemma split_casefold: "split_words (casefold s) = map casefold (split_words s)"
proof (induction s rule: split_words.induct)
  case 1
  then show ?case by (simp add: casefold_def)
next
  case (2 c cs)
  have tw: "takeWhile (\<lambda>x. \<not> is_space x) (map ascii_lower cs) =
      map ascii_lower (takeWhile (\<lambda>x. \<not> is_space x) cs)"
    by (simp add: takeWhile_map o_def)
  have dw: "dropWhile (\<lambda>x. \<not> is_space x) (map ascii_lower cs) =
      map ascii_lower (dropWhile (\<lambda>x. \<not> is_space x) cs)"
    by (simp add: dropWhile_map o_def)
  show ?case using 2 by (simp add: casefold_def tw dw)
qed

lemma join_casefold: "join_spaces (map casefold ws) = casefold (join_spaces ws)"
proof (induction ws rule: join_spaces.induct)
  case (3 w v ws)
  have "ascii_lower CHR '' '' = CHR '' ''" by (simp add: ascii_lower_def)
  with 3 show ?case by (simp add: casefold_def)
qed (simp_all add: casefold_def)

lemma normalize_casefold: "normalize_display_text (casefold s) = casefold (normalize_display_text s)"
  by (simp add: normalize_display_text_def split_casefold join_casefold)

lemma normalize_lookup_display: "normalize_lookup_text (normalize_display_text v) = normalize_lookup_text v"
  by (simp add: normalize_lookup_text_def)

end
