(* ===== verification/Decimals.thy ===== *)
theory Decimals
  imports Complex_Main Text_Normalization
begin

text \<open>
  Python's \<open>decimal.Decimal\<close> as far as the program uses it, and \<open>domain/money.py\<close>.

  A finite decimal \<open>Dec c e\<close> is the number \<open>c * 10 ^ e\<close> with its written exponent. The
  arithmetic context is Python's default one, which the program never changes: 28 significant
  digits, half-even rounding, subnormal results below \<open>10 ^ -999999\<close>. Amounts at rest are
  \<open>money\<close>, ten-thousandths of a unit, which is what a \<open>NUMERIC(19, 4)\<close> column stores.
\<close>

section \<open>Values and literals\<close>

datatype decimal = Dec int int | DecInf | DecNaN

text \<open>\<open>at_scale c e s\<close> is the fraction \<open>c * 10 ^ (e + s)\<close> as numerator and denominator.\<close>

definition at_scale :: "int \<Rightarrow> int \<Rightarrow> int \<Rightarrow> int \<times> int" where
  "at_scale c e s = (c * 10 ^ nat (e + s), 10 ^ nat (- (e + s)))"

definition dec_value :: "int \<Rightarrow> int \<Rightarrow> rat" where
  "dec_value c e = (let (n, d) = at_scale c e 0 in of_int n / of_int d)"

definition is_digit :: "char \<Rightarrow> bool" where
  "is_digit c = (let n = (of_char c :: nat) in 48 \<le> n \<and> n \<le> 57)"

definition digit_value :: "char \<Rightarrow> int" where
  "digit_value c = int (of_char c) - 48"

definition digits_value :: "string \<Rightarrow> int" where
  "digits_value ds = foldl (\<lambda>a c. 10 * a + digit_value c) 0 ds"

fun parse_sign :: "string \<Rightarrow> bool \<times> string" where
  "parse_sign (c # cs) =
     (if c = CHR ''-'' then (True, cs) else if c = CHR ''+'' then (False, cs) else (False, c # cs))"
| "parse_sign [] = (False, [])"

fun parse_exponent :: "string \<Rightarrow> int option" where
  "parse_exponent [] = Some 0"
| "parse_exponent (c # cs) =
     (if c = CHR ''e'' \<or> c = CHR ''E''
      then (let (neg, ds) = parse_sign cs
            in if ds \<noteq> [] \<and> list_all is_digit ds
               then Some (if neg then - digits_value ds else digits_value ds) else None)
      else None)"

definition parse_number :: "string \<Rightarrow> (int \<times> int) option" where
  "parse_number s =
     (let ip = takeWhile is_digit s; r = dropWhile is_digit s;
          (fp, r') = (case r of
              c # t \<Rightarrow> if c = CHR ''.'' then (takeWhile is_digit t, dropWhile is_digit t) else ([], r)
            | [] \<Rightarrow> ([], r))
      in if ip @ fp = [] then None
         else map_option (\<lambda>x. (digits_value (ip @ fp), x - int (length fp))) (parse_exponent r'))"

definition is_nan_literal :: "string \<Rightarrow> bool" where
  "is_nan_literal s =
     (let t = casefold s; u = (if take 1 t = ''s'' then drop 1 t else t)
      in take 3 u = ''nan'' \<and> list_all is_digit (drop 3 u))"

text \<open>
  \<open>Decimal(raw)\<close>: surrounding white space and all underscores are dropped, then the numeric
  string grammar applies; \<open>None\<close> is \<open>InvalidOperation\<close>. (The C implementation also rejects
  exponents beyond \<open>10 ^ 18\<close>; every such literal is refused by the range checks below.)
\<close>

definition parse_decimal :: "string \<Rightarrow> decimal option" where
  "parse_decimal raw =
     (let s = filter (\<lambda>c. c \<noteq> CHR ''_'') (strip raw); (neg, t) = parse_sign s
      in if casefold t = ''inf'' \<or> casefold t = ''infinity'' then Some DecInf
         else if is_nan_literal t then Some DecNaN
         else map_option (\<lambda>(c, e). Dec (if neg then - c else c) e) (parse_number t))"

section \<open>Rounding\<close>

function ndigits :: "int \<Rightarrow> nat" where
  "ndigits n = (if n < 10 then 1 else Suc (ndigits (n div 10)))"
  by pat_completeness auto
termination
  by (relation "measure nat") auto

declare ndigits.simps [simp del]

text \<open>Nearest integer to \<open>n / m\<close> for \<open>0 \<le> n\<close>, \<open>0 < m\<close>: ties to even, and ties away from zero.\<close>

definition half_even :: "int \<Rightarrow> int \<Rightarrow> int" where
  "half_even n m =
     (let q = n div m; r = n mod m in if 2 * r < m \<or> (2 * r = m \<and> even q) then q else q + 1)"

definition half_up :: "int \<Rightarrow> int \<Rightarrow> int" where
  "half_up n m = sgn n * ((2 * \<bar>n\<bar> + m) div (2 * m))"

definition half_even_signed :: "int \<Rightarrow> int \<Rightarrow> int" where
  "half_even_signed n m = sgn n * half_even \<bar>n\<bar> m"

abbreviation "PREC \<equiv> (28 :: int)"
abbreviation "ETINY \<equiv> (-1000026 :: int)"

text \<open>Rounding of an exact result to the context (a result in range is never too large here).\<close>

definition context_round :: "int \<Rightarrow> int \<Rightarrow> int \<times> int" where
  "context_round c e =
     (let exp_min = max (int (ndigits \<bar>c\<bar>) + e - PREC) ETINY
      in if c = 0 \<or> exp_min \<le> e then (c, e)
         else (half_even_signed c (10 ^ nat (exp_min - e)), exp_min))"

function strip_zeros :: "int \<Rightarrow> int \<Rightarrow> int \<times> int" where
  "strip_zeros c e =
     (if c = 0 then (0, 0) else if c mod 10 = 0 then strip_zeros (c div 10) (e + 1) else (c, e))"
  by pat_completeness auto
termination
proof (relation "measure (\<lambda>(c, e). nat \<bar>c\<bar>)")
  show "wf (measure (\<lambda>(c :: int, e :: int). nat \<bar>c\<bar>))" by simp
  show "((c div 10, e + 1), (c, e)) \<in> measure (\<lambda>(c, e). nat \<bar>c\<bar>)"
    if "c \<noteq> 0" "c mod 10 = 0" for c e :: int
    using that by auto
qed

declare strip_zeros.simps [simp del]

definition normalize_decimal :: "int \<Rightarrow> int \<Rightarrow> int \<times> int" where
  "normalize_decimal c e = (let (c', e') = context_round c e in strip_zeros c' e')"

section \<open>Money at the boundary\<close>

definition MONEY_PRECISION :: int where "MONEY_PRECISION = 19"
definition MONEY_SCALE :: int where "MONEY_SCALE = 4"

definition max_absolute_amount :: rat where
  "max_absolute_amount = 10 ^ nat (MONEY_PRECISION - MONEY_SCALE)"

fun validate_positive_money :: "decimal \<Rightarrow> decimal result" where
  "validate_positive_money (Dec c e) =
     (if dec_value c e \<le> 0 then Inl ValueError
      else if dec_value c e \<ge> max_absolute_amount then Inl ValueError
      else let (_, exponent) = normalize_decimal c e;
               fractional_digits = max (- exponent) 0
           in if fractional_digits > MONEY_SCALE then Inl ValueError else Inr (Dec c e))"
| "validate_positive_money DecInf = Inl ValueError"
| "validate_positive_money DecNaN = Inl ValueError"

text \<open>What PostgreSQL stores for a decimal in a \<open>NUMERIC(19, 4)\<close> column (ties away from zero).\<close>

fun numeric_19_4 :: "decimal \<Rightarrow> money" where
  "numeric_19_4 (Dec c e) = (let (n, d) = at_scale c e MONEY_SCALE in half_up n d)"
| "numeric_19_4 _ = 0"

text \<open>\<open>value.quantize(Decimal('0.0001'))\<close>, default rounding, in ten-thousandths.\<close>

fun quantize_4 :: "decimal \<Rightarrow> int" where
  "quantize_4 (Dec c e) = (let (n, d) = at_scale c e 4 in half_even_signed n d)"
| "quantize_4 _ = 0"

text \<open>\<open>format(value, 'f')\<close> of a stored amount, and the decimal a stored amount is read as.\<close>

definition digit_char :: "int \<Rightarrow> char" where
  "digit_char d = char_of (nat d + 48)"

function show_digits :: "int \<Rightarrow> string" where
  "show_digits n =
     (if n < 10 then [digit_char n] else show_digits (n div 10) @ [digit_char (n mod 10)])"
  by pat_completeness auto
termination
  by (relation "measure nat") auto

declare show_digits.simps [simp del]

definition stored_decimal :: "money \<Rightarrow> decimal" where
  "stored_decimal u = Dec u (-4)"

definition four_digits :: "int \<Rightarrow> string" where
  "four_digits f =
     [digit_char (f div 1000), digit_char (f div 100 mod 10), digit_char (f div 10 mod 10),
      digit_char (f mod 10)]"

definition format_f :: "money \<Rightarrow> string" where
  "format_f u =
     (let n = \<bar>u\<bar>
      in (if u < 0 then ''-'' else []) @ show_digits (n div 10000)
         @ CHR ''.'' # four_digits (n mod 10000))"

section \<open>Division in the 28-digit context\<close>

text \<open>
  \<open>a / b\<close> for \<open>0 < a\<close>, \<open>0 < b\<close>: the quotient scaled to 28 significant digits and rounded
  half-even. The result is \<open>(c, k)\<close>, the number \<open>c / 10 ^ k\<close>.
\<close>

definition div_scale :: "int \<Rightarrow> int \<Rightarrow> int" where
  "div_scale a b =
     (let k = PREC + int (ndigits b) - int (ndigits a)
      in if a * 10 ^ nat k < 10 ^ 28 * b * 10 ^ nat (- k) then k else k - 1)"

definition context_div :: "int \<Rightarrow> int \<Rightarrow> int \<times> int" where
  "context_div a b =
     (let k = div_scale a b in (half_even (a * 10 ^ nat k) (b * 10 ^ nat (- k)), k))"

text \<open>
  \<open>((amount / total) * 100).quantize(Decimal('1'), ROUND_HALF_UP)\<close> as an integer, for \<open>0 < whole\<close>
  (the product by 100 only moves the point, so it is exact).
\<close>

definition percent_of :: "money \<Rightarrow> money \<Rightarrow> int" where
  "percent_of amount whole =
     (if amount = 0 then 0
      else let (c, k) = context_div \<bar>amount\<bar> whole; (n, d) = at_scale c (- k) 2
           in sgn amount * half_up n d)"

section \<open>Facts about values, rounding and literals\<close>


lemma dec_value_powi: "dec_value c e = of_int c * 10 powi e"
proof (cases "0 \<le> e")
  case True
  then show ?thesis by (simp add: dec_value_def at_scale_def power_int_def)
next
  case False
  then have "(10 :: rat) powi e = inverse (10 ^ nat (- e))"
    by (simp only: power_int_def power_inverse if_False)
  with False show ?thesis by (simp add: dec_value_def at_scale_def divide_inverse)
qed

lemma dec_value_scale:
  "dec_value c e * 10 ^ k = of_int (c * 10 ^ nat (e + int k)) / of_int (10 ^ nat (- (e + int k)))"
proof -
  have "dec_value c e * 10 ^ k = dec_value c (e + int k)"
    by (simp add: dec_value_powi power_int_add)
  then show ?thesis by (simp add: dec_value_def at_scale_def)
qed

lemma dec_value_shift: "e \<le> e' \<Longrightarrow> dec_value (c * 10 ^ nat (e' - e)) e = dec_value c e'"
  using power_int_add [of "10 :: rat" "e' - e" e]
  by (simp add: dec_value_powi flip: power_int_of_nat)

lemma strip_zeros_spec:
  assumes "c \<noteq> 0" "strip_zeros c e = (c', e')"
  shows "e \<le> e' \<and> c = c' * 10 ^ nat (e' - e) \<and> c' mod 10 \<noteq> 0"
  using assms
proof (induction c e rule: strip_zeros.induct)
  case (1 c e)
  show ?case
  proof (cases "c mod 10 = 0")
    case True
    then have c: "c = c div 10 * 10" using div_mult_mod_eq [of c 10] by simp
    with 1 True have IH: "e + 1 \<le> e'" "c div 10 = c' * 10 ^ nat (e' - (e + 1))" "c' mod 10 \<noteq> 0"
      by (auto simp: strip_zeros.simps [of c e])
    have "nat (e' - e) = Suc (nat (e' - (e + 1)))" using IH(1) by simp
    with IH(2) have "c div 10 * 10 = c' * 10 ^ nat (e' - e)" by simp
    with c IH show ?thesis by simp
  next
    case False
    with 1 show ?thesis by (simp add: strip_zeros.simps [of c e])
  qed
qed

lemma scaled_integer_iff:
  assumes "c mod 10 \<noteq> 0"
  shows "dec_value c e * 10 ^ 4 \<in> \<int> \<longleftrightarrow> - e \<le> 4"
proof
  assume int: "dec_value c e * 10 ^ 4 \<in> \<int>"
  show "- e \<le> 4"
  proof (rule ccontr)
    assume "\<not> - e \<le> 4"
    define n where "n = nat (- e - 5)"
    with \<open>\<not> - e \<le> 4\<close> have n: "- e = int n + 5" by simp
    from int obtain k where "dec_value c e * 10 ^ 4 = of_int k" by (auto elim: Ints_cases)
    moreover have "dec_value c e * 10 ^ 4 = of_int c / 10 ^ Suc n"
    proof -
      have "e = - int (Suc n + 4)" using n by simp
      then have "(10 :: rat) powi e = inverse (10 ^ (Suc n + 4))"
        by (simp only: power_int_minus power_int_of_nat)
      moreover have "inverse (10 ^ (Suc n + 4)) * 10 ^ 4 = inverse (10 ^ Suc n :: rat)"
        by (simp only: power_add inverse_mult_distrib mult.assoc) simp
      ultimately show ?thesis
        by (simp only: dec_value_powi divide_inverse mult.assoc)
    qed
    ultimately have "(of_int c :: rat) = of_int (k * 10 ^ Suc n)" by (simp add: divide_eq_eq)
    then have "c = k * 10 ^ Suc n" by (rule of_int_eq_iff [THEN iffD1])
    with assms show False by simp
  qed
next
  assume "- e \<le> 4"
  have "dec_value c e * 10 ^ 4 = of_int c * 10 powi (e + 4)"
    using power_int_add [of "10 :: rat" e 4] by (simp add: dec_value_powi)
  also have "\<dots> = of_int (c * 10 ^ nat (e + 4))"
    using \<open>- e \<le> 4\<close> by (simp add: power_int_def)
  finally show "dec_value c e * 10 ^ 4 \<in> \<int>" by simp
qed

lemma context_round_exact:
  "ndigits \<bar>c\<bar> \<le> 28 \<Longrightarrow> ETINY \<le> e \<Longrightarrow> context_round c e = (c, e)"
  by (simp add: context_round_def)

lemma normalize_exponent_iff:
  assumes "c \<noteq> 0" "ndigits \<bar>c\<bar> \<le> 28" "ETINY \<le> e"
  shows "- snd (normalize_decimal c e) \<le> 4 \<longleftrightarrow> dec_value c e * 10 ^ 4 \<in> \<int>"
proof -
  obtain c' e' where s: "strip_zeros c e = (c', e')" by fastforce
  note spec = strip_zeros_spec [OF assms(1) s]
  then have "dec_value c e = dec_value c' e'" using dec_value_shift [of e e' c'] by simp
  moreover have "normalize_decimal c e = (c', e')"
    using s assms by (simp add: normalize_decimal_def context_round_exact)
  moreover have "c' mod 10 \<noteq> 0" using spec by simp
  ultimately show ?thesis using scaled_integer_iff [of c' e'] by (metis snd_conv)
qed

lemma validate_bounds:
  assumes "validate_positive_money d = Inr d'"
  shows "\<exists>c e. d = Dec c e \<and> d' = d \<and> 0 < dec_value c e \<and> dec_value c e < 10 ^ 15"
  using assms
  by (cases d) (auto simp: max_absolute_amount_def MONEY_PRECISION_def MONEY_SCALE_def Let_def
      split: if_splits prod.splits)

lemma validate_iff:
  assumes "ndigits \<bar>c\<bar> \<le> 28" "ETINY \<le> e"
  shows "validate_positive_money (Dec c e) = Inr (Dec c e) \<longleftrightarrow>
    0 < dec_value c e \<and> dec_value c e < 10 ^ 15 \<and> dec_value c e * 10 ^ 4 \<in> \<int>"
proof (cases "c = 0")
  case True
  then show ?thesis by (simp add: dec_value_powi)
next
  case False
  from normalize_exponent_iff [OF False assms] show ?thesis
    by (auto simp: max_absolute_amount_def MONEY_PRECISION_def MONEY_SCALE_def Let_def
        split: prod.splits)
qed

lemma half_up_exact: "0 < m \<Longrightarrow> half_up (k * m) m = k"
proof -
  assume m: "0 < m"
  have "(2 * (j * m) + m) div (2 * m) = j" if "0 \<le> j" for j
  proof -
    have "(2 * (j * m) + m) div (2 * m) = (m + j * (2 * m)) div (2 * m)" by (simp add: algebra_simps)
    also have "\<dots> = j + m div (2 * m)" using m by (subst div_mult_self1) auto
    finally show ?thesis using m by simp
  qed
  from this [of "\<bar>k\<bar>"] m show ?thesis
    by (simp add: half_up_def abs_mult sgn_mult) (simp add: sgn_mult_abs)
qed

lemma numeric_exact:
  assumes "dec_value c e * 10 ^ 4 \<in> \<int>"
  shows "of_int (numeric_19_4 (Dec c e)) = dec_value c e * 10 ^ 4"
proof -
  from assms obtain k where k: "dec_value c e * 10 ^ 4 = of_int k" by (auto elim: Ints_cases)
  let ?n = "c * 10 ^ nat (e + 4)" and ?d = "10 ^ nat (- (e + 4)) :: int"
  have "dec_value c e * 10 ^ 4 = of_int ?n / of_int ?d"
    using dec_value_scale [of c e 4] by (simp only: of_nat_numeral)
  with k have "(of_int ?n :: rat) = of_int (k * ?d)" by (simp add: field_simps)
  then have "?n = k * ?d" by (rule of_int_eq_iff [THEN iffD1])
  then show ?thesis
    using k half_up_exact [of ?d k] by (simp add: at_scale_def MONEY_SCALE_def)
qed


lemma ndigits_bounds:
  assumes "0 < n"
  shows "10 ^ (ndigits n - 1) \<le> n \<and> n < 10 ^ ndigits n \<and> 0 < ndigits n"
  using assms
proof (induction n rule: ndigits.induct)
  case (1 n)
  show ?case
  proof (cases "n < 10")
    case True
    with 1 show ?thesis by (simp add: ndigits.simps [of n])
  next
    case False
    then have "0 < n div 10" by linarith
    from "1.IH" [OF False this] have IH: "10 ^ (ndigits (n div 10) - 1) \<le> n div 10"
      "n div 10 < 10 ^ ndigits (n div 10)" "0 < ndigits (n div 10)" by auto
    have "10 * 10 ^ (ndigits (n div 10) - 1) \<le> n" using IH(1) by linarith
    moreover have "n < 10 * 10 ^ ndigits (n div 10)" using IH(2) by linarith
    moreover have "(10 :: int) * 10 ^ (ndigits (n div 10) - 1) = 10 ^ ndigits (n div 10)"
      using IH(3) by (metis Suc_diff_1 power_Suc)
    ultimately show ?thesis using False by (simp add: ndigits.simps [of n])
  qed
qed

lemma ndigits_le: "0 < n \<Longrightarrow> n < 10 ^ k \<Longrightarrow> ndigits n \<le> k"
proof (rule ccontr)
  assume n: "0 < n" "n < 10 ^ k" "\<not> ndigits n \<le> k"
  then have "(10 :: int) ^ k \<le> 10 ^ (ndigits n - 1)" by (intro power_increasing) auto
  with n ndigits_bounds [OF n(1)] show False by linarith
qed

lemma half_even_error: "0 < m \<Longrightarrow> \<bar>2 * (half_even n m * m - n)\<bar> \<le> m"
proof -
  assume m: "0 < m"
  have "n = n div m * m + n mod m" "0 \<le> n mod m" "n mod m < m" using m by simp_all
  then have "(n div m) * m - n = - (n mod m)" "(n div m + 1) * m - n = m - n mod m"
    by (simp_all add: algebra_simps)
  with m \<open>0 \<le> n mod m\<close> \<open>n mod m < m\<close> show ?thesis
    unfolding half_even_def Let_def by (cases "2 * (n mod m) < m \<or> (2 * (n mod m) = m \<and> even (n div m))") auto
qed

lemma div_scale_bounds:
  assumes "0 < a" "a < 10 ^ 24" "0 < b"
  shows "4 \<le> div_scale a b \<and> 1000 * b < 10 ^ nat (div_scale a b)"
proof -
  have a: "ndigits a \<le> 24" using ndigits_le assms(1,2) .
  have b: "b < 10 ^ ndigits b" "0 < ndigits b" using ndigits_bounds [OF assms(3)] by auto
  let ?k = "div_scale a b"
  have k: "int (ndigits b) + 3 \<le> ?k" using a by (simp add: div_scale_def Let_def)
  then have "(10 :: int) ^ (ndigits b + 3) \<le> 10 ^ nat ?k" by (intro power_increasing) auto
  with b k show ?thesis by (simp add: power_add)
qed

lemma even_gap: "even x \<Longrightarrow> even y \<Longrightarrow> x - 1 \<le> y \<Longrightarrow> x \<le> y" for x y :: int
  by presburger

lemma half_up_nonneg: "0 \<le> n \<Longrightarrow> 0 < m \<Longrightarrow> half_up n m = (2 * n + m) div (2 * m)"
  by (auto simp: half_up_def sgn_if)

lemma round_through_quotient:
  fixes a w c d :: int
  assumes "0 \<le> a" "0 < w" "10 * w < d" "even d" "\<bar>2 * (c * w - a * (100 * d))\<bar> \<le> w"
  shows "(2 * c + d) div (2 * d) = (200 * a + w) div (2 * w)"
proof -
  define j where "j = (200 * a + w) div (2 * w)"
  have "j * (2 * w) + (200 * a + w) mod (2 * w) = 200 * a + w" unfolding j_def by (rule div_mult_mod_eq)
  moreover have "0 \<le> (200 * a + w) mod (2 * w)" "(200 * a + w) mod (2 * w) < 2 * w"
    using assms(2) by simp_all
  ultimately have lo: "2 * w * j \<le> 200 * a + w" and hi: "200 * a + w \<le> 2 * w * j + 2 * w - 1"
    by (simp_all add: algebra_simps)
  have d: "0 < d" using assms by linarith
  from mult_left_mono [OF hi, of d] mult_left_mono [OF lo, of d] d
  have hi': "d * (200 * a + w) \<le> d * (2 * w * j + 2 * w - 1)"
    and lo': "d * (2 * w * j) \<le> d * (200 * a + w)" by simp_all
  have e: "2 * (c * w) \<le> 200 * (a * d) + w" "200 * (a * d) - w \<le> 2 * (c * w)"
    using assms(5) by (simp_all add: abs_le_iff algebra_simps)
  have "w * (2 * c + d) < w * (2 * d * (j + 1))"
    using hi' e assms(2,3) by (simp add: algebra_simps)
  then have up: "2 * c + d < 2 * d * (j + 1)" using assms(2) by simp
  have "w * (2 * d * j - 1) \<le> w * (2 * c + d)"
    using lo' e by (simp add: algebra_simps)
  then have "2 * d * j - 1 \<le> 2 * c + d" using assms(2) by simp
  moreover have "even (2 * d * j)" "even (2 * c + d)" using assms(4) by simp_all
  ultimately have low: "2 * d * j \<le> 2 * c + d" by (rule even_gap [rotated 2])
  have "(2 * c + d) div (2 * d) = j"
    by (rule int_div_pos_eq [of _ _ _ "2 * c + d - 2 * d * j"])
       (use up low d in \<open>simp_all add: algebra_simps\<close>)
  then show ?thesis by (simp add: j_def)
qed

lemma percent_of_exact:
  assumes "\<bar>a\<bar> < 10 ^ 24" "0 < w"
  shows "percent_of a w = half_up (100 * a) w"
proof (cases "a = 0")
  case True
  then show ?thesis by (simp add: percent_of_def half_up_def)
next
  case False
  let ?k = "div_scale \<bar>a\<bar> w"
  let ?d = "10 ^ nat (?k - 2) :: int"
  let ?c = "half_even (\<bar>a\<bar> * 10 ^ nat ?k) w"
  have k: "4 \<le> ?k" "1000 * w < 10 ^ nat ?k"
    using div_scale_bounds [of "\<bar>a\<bar>" w] False assms by auto
  have "nat ?k = Suc (Suc (nat (?k - 2)))" using k(1) by simp
  then have d: "(10 :: int) ^ nat ?k = 100 * ?d" by simp
  have div: "context_div \<bar>a\<bar> w = (?c, ?k)" using k(1) by (simp add: context_div_def Let_def)
  have scale: "at_scale ?c (- ?k) 2 = (?c, ?d)" using k(1) by (simp add: at_scale_def)
  have "(2 * ?c + ?d) div (2 * ?d) = (200 * \<bar>a\<bar> + w) div (2 * w)"
  proof (rule round_through_quotient)
    show "10 * w < ?d" using k(2) d by linarith
    show "even ?d" using k(1) by simp
    show "\<bar>2 * (?c * w - \<bar>a\<bar> * (100 * ?d))\<bar> \<le> w"
      using half_even_error [OF assms(2), of "\<bar>a\<bar> * 10 ^ nat ?k"] d by simp
  qed (use assms in auto)
  moreover have "0 \<le> ?c" 
    using assms(2) by (auto simp: half_even_def Let_def pos_imp_zdiv_nonneg_iff)
  ultimately show ?thesis using False
    by (simp add: percent_of_def div scale half_up_nonneg) (simp add: half_up_def sgn_mult abs_mult)
qed


lemma digit_char_facts:
  assumes "0 \<le> d" "d < 10"
  shows "is_digit (digit_char d)" "digit_value (digit_char d) = d"
  using assms by (simp_all add: is_digit_def digit_value_def digit_char_def Let_def)

lemma digits_value_Cons: "digits_value (y # ys) = foldl (\<lambda>a c. 10 * a + digit_value c) (digit_value y) ys"
  by (simp add: digits_value_def)

lemma digits_value_append:
  "digits_value (xs @ ys) = digits_value xs * 10 ^ length ys + digits_value ys"
proof -
  have "foldl (\<lambda>a c. 10 * a + digit_value c) a ys = a * 10 ^ length ys + digits_value ys" for a
  proof (induction ys arbitrary: a)
    case Nil
    then show ?case by (simp add: digits_value_def)
  next
    case (Cons y ys)
    show ?case unfolding digits_value_Cons foldl_Cons Cons [of "10 * a + digit_value y"]
        Cons [of "digit_value y"]
      by (simp add: algebra_simps)
  qed
  then show ?thesis unfolding digits_value_def [of "xs @ ys"] by (simp add: digits_value_def [of xs])
qed

lemma show_digits_facts:
  assumes "0 \<le> n"
  shows "list_all is_digit (show_digits n) \<and> digits_value (show_digits n) = n \<and> show_digits n \<noteq> []"
  using assms
proof (induction n rule: show_digits.induct)
  case (1 n)
  show ?case
  proof (cases "n < 10")
    case True
    with 1 digit_char_facts [of n] show ?thesis
      by (simp add: show_digits.simps [of n] digits_value_def)
  next
    case False
    with 1 have "list_all is_digit (show_digits (n div 10))"
      "digits_value (show_digits (n div 10)) = n div 10" by auto
    moreover have "digits_value [digit_char (n mod 10)] = n mod 10"
      using digit_char_facts [of "n mod 10"] by (simp add: digits_value_def)
    ultimately show ?thesis using False digit_char_facts [of "n mod 10"]
      by (simp add: show_digits.simps [of n] digits_value_append)
  qed
qed
lemma four_digits_facts:
  assumes "0 \<le> f" "f < 10000"
  shows "list_all is_digit (four_digits f)" "digits_value (four_digits f) = f"
    "length (four_digits f) = 4"
proof -
  have "f div 1000 < 10" using assms by auto
  then have v: "digits_value (four_digits f) =
    10 * (10 * (10 * (f div 1000) + f div 100 mod 10) + f div 10 mod 10) + f mod 10"
    and "list_all is_digit (four_digits f)"
    using assms by (simp_all add: four_digits_def digits_value_def digit_char_facts)
  then show "list_all is_digit (four_digits f)" by simp
  have nested: "f div 100 = f div 10 div 10" "f div 1000 = f div 10 div 10 div 10"
    using zdiv_zmult2_eq [of 10 f 10] zdiv_zmult2_eq [of 10 f 100] zdiv_zmult2_eq [of 10 "f div 10" 10]
    by simp_all
  then show "digits_value (four_digits f) = f"
    by (simp only: v nested mult_div_mod_eq)
qed (simp add: four_digits_def)

definition plain_char :: "char \<Rightarrow> bool" where
  "plain_char c \<longleftrightarrow> is_digit c \<or> c = CHR ''.''"

lemma plain_char_facts:
  assumes "plain_char c"
  shows "\<not> is_space c" "c \<noteq> CHR ''_''" "c \<noteq> CHR ''-''" "c \<noteq> CHR ''+''"
    "c \<noteq> CHR ''i''" "c \<noteq> CHR ''s''"  "c \<noteq> CHR ''n''" "ascii_lower c = c"
  using assms by (auto simp: plain_char_def is_digit_def is_space_def ascii_lower_def Let_def)

lemma strip_plain: "list_all plain_char s \<Longrightarrow> strip s = s"
  by (simp add: strip_def list_all_iff plain_char_facts dropWhile_eq_self_iff)
    (metis dropWhile_eq_self_iff hd_in_set plain_char_facts(1) rev_rev_ident set_rev)

lemma casefold_plain: "list_all plain_char s \<Longrightarrow> casefold s = s"
  by (simp add: casefold_def list_all_iff plain_char_facts map_idI)

lemma parse_plain:
  assumes "list_all is_digit xs" "xs \<noteq> []" "list_all is_digit ys"
  shows "parse_decimal (xs @ CHR ''.'' # ys) = Some (Dec (digits_value (xs @ ys)) (- int (length ys)))"
proof -
  let ?s = "xs @ CHR ''.'' # ys"
  have plain: "list_all plain_char ?s"
    using assms by (auto simp: list_all_iff plain_char_def)
  obtain c cs where c: "?s = c # cs" "plain_char c"
    using assms plain by (cases xs) auto
  have nound: "filter (\<lambda>c. c \<noteq> CHR ''_'') ?s = ?s"
    using plain by (intro filter_True) (auto simp: list_all_iff plain_char_facts)
  have "parse_sign ?s = (False, ?s)" using c by (simp add: plain_char_facts)
  moreover have "casefold ?s \<noteq> ''inf''" "casefold ?s \<noteq> ''infinity''"
    using c casefold_plain [OF plain] by (auto simp: plain_char_facts)
  moreover have "\<not> is_nan_literal ?s"
  proof -
    from c have "c \<noteq> CHR ''s''" "c \<noteq> CHR ''n''" by (simp_all add: plain_char_facts)
    then show ?thesis using casefold_plain [OF plain] unfolding is_nan_literal_def Let_def c(1)
      by (simp add: numeral_3_eq_3)
  qed
  moreover have "parse_number ?s = Some (digits_value (xs @ ys), - int (length ys))"
  proof -
    have d: "\<not> is_digit CHR ''.''" by (simp add: is_digit_def)
    have "takeWhile is_digit ?s = xs" "dropWhile is_digit ?s = CHR ''.'' # ys"
      using assms(1) d by (simp_all add: list_all_iff)
    moreover have "takeWhile is_digit ys = ys" "dropWhile is_digit ys = []"
      using assms(3) by (simp_all only: list_all_iff takeWhile_eq_all_conv dropWhile_eq_Nil_conv)
    ultimately show ?thesis using assms(2)
      by (simp only: parse_number_def Let_def list.case) simp
  qed
  ultimately show ?thesis
    unfolding parse_decimal_def Let_def strip_plain [OF plain] nound by simp
qed

lemma parse_format:
  assumes "0 \<le> u"
  shows "parse_decimal (format_f u) = Some (stored_decimal u)"
proof -
  let ?f = "u mod 10000"
  have f: "0 \<le> ?f" "?f < 10000" by simp_all
  have xs: "list_all is_digit (show_digits (u div 10000))" "show_digits (u div 10000) \<noteq> []"
    "digits_value (show_digits (u div 10000)) = u div 10000"
    using assms show_digits_facts [of "u div 10000"] by (simp_all add: pos_imp_zdiv_nonneg_iff)
  have "digits_value (show_digits (u div 10000) @ four_digits ?f) = u"
    by (simp add: digits_value_append four_digits_facts [OF f] xs)
  with parse_plain [OF xs(1,2) four_digits_facts(1) [OF f]] assms show ?thesis
    by (simp add: format_f_def stored_decimal_def four_digits_facts [OF f])
qed

lemma stored_in_range:
  assumes "0 < u" "u < 10 ^ 19"
  shows "validate_positive_money (stored_decimal u) = Inr (stored_decimal u)"
proof -
  have "ndigits u \<le> 19" using ndigits_le [OF assms] .
  moreover have "dec_value u (-4) * 10 ^ 4 = of_int u" by (simp add: dec_value_def at_scale_def)
  moreover have "(of_int u :: rat) < 10 ^ 19" using assms(2) by (metis of_int_less_iff of_int_numeral of_int_power)
  ultimately show ?thesis using assms(1) validate_iff [of u "-4"]
    by (simp add: stored_decimal_def dec_value_def at_scale_def)
qed

lemma numeric_stored [simp]: "numeric_19_4 (stored_decimal u) = u"
  using half_up_exact [of 1 u] by (simp add: stored_decimal_def at_scale_def MONEY_SCALE_def)

section \<open>Properties\<close>

text \<open>
  C27: for a literal of at most 28 significant digits, \<open>validate_positive_money\<close> accepts exactly
  the amounts above zero and below \<open>10 ^ 15\<close> that are a whole number of ten-thousandths, and an
  accepted amount is stored by the \<open>NUMERIC(19, 4)\<close> column without rounding.
\<close>

theorem money_validation_exact:
  assumes "ndigits \<bar>c\<bar> \<le> 28" "ETINY \<le> e"
  shows "(validate_positive_money (Dec c e) = Inr (Dec c e) \<longleftrightarrow>
      0 < dec_value c e \<and> dec_value c e < 10 ^ 15 \<and> dec_value c e * 10 ^ 4 \<in> \<int>) \<and>
    (validate_positive_money (Dec c e) = Inr (Dec c e) \<longrightarrow>
      of_int (numeric_19_4 (Dec c e)) = dec_value c e * 10 ^ 4)"
  using validate_iff [OF assms] numeric_exact by blast

theorem money_validation_exact_witness:
  "validate_positive_money (Dec 123450 (-5)) = Inr (Dec 123450 (-5)) \<and>
    numeric_19_4 (Dec 123450 (-5)) = 12345"
proof -
  have n: "ndigits \<bar>123450\<bar> \<le> 28" by (simp add: ndigits.simps)
  have v: "dec_value 123450 (-5) = 12345 / 10 ^ 4" by (simp add: dec_value_def at_scale_def)
  have i: "(12345 / 10 ^ 4 * 10 ^ 4 :: rat) \<in> \<int>" by simp
  have "0 < dec_value 123450 (-5)" "dec_value 123450 (-5) < 10 ^ 15"
    "dec_value 123450 (-5) * 10 ^ 4 \<in> \<int>" unfolding v using i by simp_all
  with money_validation_exact [of 123450 "-5", OF n] show ?thesis
    by (simp del: validate_positive_money.simps)
      (simp add: at_scale_def half_up_def MONEY_SCALE_def)
qed

text \<open>
  C28: an amount at rest, written with \<open>format(value, 'f')\<close>, is read back by \<open>Decimal(raw)\<close> as
  the same stored decimal, passes \<open>validate_positive_money\<close> and is stored as the same amount, for
  every amount a \<open>NUMERIC(19, 4)\<close> column can hold above zero.
\<close>

theorem money_text_roundtrip:
  assumes "0 < u" "u < 10 ^ 19"
  shows "\<exists>d. parse_decimal (format_f u) = Some d \<and> validate_positive_money d = Inr d \<and>
    numeric_19_4 d = u"
  using parse_format [of u] stored_in_range [OF assms] assms by simp

theorem money_text_roundtrip_witness:
  "\<exists>d. parse_decimal (format_f 1234567) = Some d \<and> validate_positive_money d = Inr d \<and>
    numeric_19_4 d = 1234567"
  by (rule money_text_roundtrip) simp_all

text \<open>
  The bound on the digits matters: \<open>Decimal.normalize\<close> rounds to the 28 digits of the context, so
  an amount with more digits is accepted although the column has to round it.
\<close>

lemma long_amount_accepted:
  "validate_positive_money (Dec 100000000000000000000000000001 (-29)) =
      Inr (Dec 100000000000000000000000000001 (-29)) \<and>
    of_int (numeric_19_4 (Dec 100000000000000000000000000001 (-29))) \<noteq>
      dec_value 100000000000000000000000000001 (-29) * 10 ^ 4"
  by (simp add: dec_value_def at_scale_def half_up_def MONEY_SCALE_def MONEY_PRECISION_def
      max_absolute_amount_def normalize_decimal_def context_round_def ndigits.simps
      half_even_signed_def half_even_def strip_zeros.simps)

end
