(* ===== verification/Calendar.thy ===== *)
theory Calendar
  imports Enums
begin

text \<open>
  Calendar dates as Python's \<open>datetime.date\<close> has them (proleptic Gregorian, years 1 to 9999),
  the time zone database as a parameter, and \<open>ledger/periods.py\<close>: months of the user's calendar
  and the UTC instants that delimit them. Also \<open>advance_expected_date\<close> of
  \<open>ledger/recurring_service.py\<close>, which is pure date arithmetic.
\<close>

section \<open>Dates\<close>

datatype date = Date (year: int) (month: int) (day: int)

instantiation date :: linorder
begin

definition less_eq_date :: "date \<Rightarrow> date \<Rightarrow> bool" where
  "less_eq_date a b \<longleftrightarrow> (year a, month a, day a) \<le> (year b, month b, day b)"

definition less_date :: "date \<Rightarrow> date \<Rightarrow> bool" where
  "less_date a b \<longleftrightarrow> (year a, month a, day a) < (year b, month b, day b)"

instance
proof
  fix a b c :: date
  show "a < b \<longleftrightarrow> a \<le> b \<and> \<not> b \<le> a" by (auto simp: less_eq_date_def less_date_def)
  show "a \<le> a" by (simp add: less_eq_date_def)
  show "a \<le> b \<Longrightarrow> b \<le> c \<Longrightarrow> a \<le> c" unfolding less_eq_date_def by (rule order_trans)
  show "a \<le> b \<Longrightarrow> b \<le> a \<Longrightarrow> a = b" by (cases a; cases b) (auto simp: less_eq_date_def)
  show "a \<le> b \<or> b \<le> a" by (auto simp: less_eq_date_def)
qed

end

definition leap_year :: "int \<Rightarrow> bool" where
  "leap_year y \<longleftrightarrow> y mod 4 = 0 \<and> (y mod 100 \<noteq> 0 \<or> y mod 400 = 0)"

definition days_in_month :: "int \<Rightarrow> int \<Rightarrow> int" where
  "days_in_month y m =
     (if m = 2 then (if leap_year y then 29 else 28)
      else if m = 4 \<or> m = 6 \<or> m = 9 \<or> m = 11 then 30 else 31)"

definition valid_date :: "date \<Rightarrow> bool" where
  "valid_date d \<longleftrightarrow> 1 \<le> year d \<and> year d \<le> 9999 \<and> 1 \<le> month d \<and> month d \<le> 12 \<and>
     1 \<le> day d \<and> day d \<le> days_in_month (year d) (month d)"

text \<open>The same without Python's bounds on the year.\<close>

definition proper_date :: "date \<Rightarrow> bool" where
  "proper_date d \<longleftrightarrow> 1 \<le> month d \<and> month d \<le> 12 \<and> 1 \<le> day d \<and> day d \<le> days_in_month (year d) (month d)"

lemma valid_proper: "valid_date d \<Longrightarrow> proper_date d"
  by (simp add: valid_date_def proper_date_def)

text \<open>\<open>date(year, month, day)\<close>.\<close>

definition mk_date :: "int \<Rightarrow> int \<Rightarrow> int \<Rightarrow> date result" where
  "mk_date y m d = (if valid_date (Date y m d) then Inr (Date y m d) else Inl ValueError)"

section \<open>Day numbers\<close>

text \<open>
  \<open>date.toordinal\<close> and \<open>date.fromordinal\<close>: day 1 is 1 January of year 1. The year of a day
  number is found by stripping whole 400-year cycles and then walking at most 400 years.
\<close>

definition year_length :: "int \<Rightarrow> int" where
  "year_length y = (if leap_year y then 366 else 365)"

definition days_before_year :: "int \<Rightarrow> int" where
  "days_before_year y = (y - 1) * 365 + (y - 1) div 4 - (y - 1) div 100 + (y - 1) div 400"

definition days_before_month :: "int \<Rightarrow> int \<Rightarrow> int" where
  "days_before_month y m = sum_list (map (days_in_month y) [1..m - 1])"

definition to_ordinal :: "date \<Rightarrow> int" where
  "to_ordinal d = days_before_year (year d) + days_before_month (year d) (month d) + day d"

function year_walk :: "int \<Rightarrow> int \<Rightarrow> int \<times> int" where
  "year_walk y n = (if n \<le> year_length y then (y, n) else year_walk (y + 1) (n - year_length y))"
  by pat_completeness auto
termination
  by (relation "measure (\<lambda>(y, n). nat n)") (auto simp: year_length_def split: if_splits)

function month_walk :: "int \<Rightarrow> int \<Rightarrow> int \<Rightarrow> int \<times> int" where
  "month_walk y m n =
     (if n \<le> days_in_month y m \<or> 12 \<le> m then (m, n) else month_walk y (m + 1) (n - days_in_month y m))"
  by pat_completeness auto
termination
  by (relation "measure (\<lambda>(y, m, n). nat (12 - m))") auto

declare year_walk.simps [simp del] month_walk.simps [simp del]

definition from_ordinal :: "int \<Rightarrow> date" where
  "from_ordinal n =
     (let (y, k) = year_walk (400 * ((n - 1) div 146097) + 1) ((n - 1) mod 146097 + 1);
          (m, d) = month_walk y 1 k
      in Date y m d)"

text \<open>\<open>date + timedelta(days=n)\<close>.\<close>

definition add_days :: "date \<Rightarrow> int \<Rightarrow> date result" where
  "add_days d n =
     (let k = to_ordinal d + n in if 1 \<le> k \<and> k \<le> 3652059 then Inr (from_ordinal k) else Inl OverflowError)"

lemma div_pred:
  fixes y m :: int
  assumes "0 < m"
  shows "y div m = (y - 1) div m + (if m dvd y then 1 else 0)"
proof (cases "m dvd y")
  case True
  then obtain q where "y = m * q" by (auto elim: dvdE)
  moreover have "(m * q - 1) div m = q - 1"
    using assms by (intro int_div_pos_eq [of _ _ _ "m - 1"]) (auto simp: algebra_simps)
  ultimately show ?thesis using assms by simp
next
  case False
  then have r: "0 < y mod m"
    using pos_mod_sign [OF assms, of y] by (simp add: dvd_eq_mod_eq_0 order_less_le)
  have "(y - 1) div m = y div m"
  proof (rule int_div_pos_eq [of _ _ _ "y mod m - 1"])
    show "y - 1 = m * (y div m) + (y mod m - 1)" by simp
  qed (use r pos_mod_bound [OF assms, of y] in simp_all)
  with False show ?thesis by simp
qed

lemma leap_day_count:
  fixes y A B C :: int
  assumes "R \<Longrightarrow> Q" "Q \<Longrightarrow> P"
  shows "y * 365 + (A + (if P then 1 else 0)) - (B + (if Q then 1 else 0)) + (C + (if R then 1 else 0)) =
    (y - 1) * 365 + A - B + C + (if P \<and> (\<not> Q \<or> R) then 366 else 365)"
  using assms by (cases P; cases Q; cases R) simp_all

lemma days_before_year_Suc: "days_before_year (y + 1) = days_before_year y + year_length y"
proof -
  have dvd: "400 dvd y \<Longrightarrow> 100 dvd y" "100 dvd y \<Longrightarrow> 4 dvd y"
    by (auto intro: dvd_trans [of 100 400 y] dvd_trans [of 4 100 y])
  have "days_before_year (y + 1) = y * 365 + y div 4 - y div 100 + y div 400"
    by (simp add: days_before_year_def)
  also have "\<dots> = (y - 1) * 365 + (y - 1) div 4 - (y - 1) div 100 + (y - 1) div 400 +
      (if 4 dvd y \<and> (\<not> 100 dvd y \<or> 400 dvd y) then 366 else 365)"
    unfolding div_pred [of 4 y, OF zero_less_numeral] div_pred [of 100 y, OF zero_less_numeral]
      div_pred [of 400 y, OF zero_less_numeral]
    by (rule leap_day_count [OF dvd])
  also have "\<dots> = days_before_year y + year_length y"
    by (simp only: days_before_year_def year_length_def leap_year_def mod_eq_0_iff_dvd)
  finally show ?thesis .
qed

lemma days_before_month_Suc:
  "1 \<le> m \<Longrightarrow> days_before_month y (m + 1) = days_before_month y m + days_in_month y m"
  using upto_rec2 [of 1 m] by (simp add: days_before_month_def)

lemma days_in_month_bounds: "28 \<le> days_in_month y m \<and> days_in_month y m \<le> 31"
  by (simp add: days_in_month_def)

lemma year_length_months: "days_before_month y 13 = year_length y"
  by (simp add: days_before_month_def year_length_def days_in_month_def upto_rec1)

lemma year_walk_spec:
  assumes "1 \<le> n" "year_walk y n = (y', k)"
  shows "y \<le> y' \<and> days_before_year y + n = days_before_year y' + k \<and> 1 \<le> k \<and> k \<le> year_length y'"
  using assms
proof (induction y n rule: year_walk.induct)
  case (1 y n)
  show ?case
  proof (cases "n \<le> year_length y")
    case True
    with 1 show ?thesis by (simp add: year_walk.simps [of y n])
  next
    case False
    with 1 have "y + 1 \<le> y' \<and> days_before_year (y + 1) + (n - year_length y) = days_before_year y' + k \<and>
        1 \<le> k \<and> k \<le> year_length y'"
      by (simp add: year_walk.simps [of y n])
    then show ?thesis by (simp add: days_before_year_Suc)
  qed
qed

lemma month_walk_spec:
  assumes "1 \<le> m" "m \<le> 12" "1 \<le> n" "days_before_month y m + n \<le> year_length y"
    "month_walk y m n = (m', d)"
  shows "1 \<le> m' \<and> m' \<le> 12 \<and> 1 \<le> d \<and> d \<le> days_in_month y m' \<and>
    days_before_month y m + n = days_before_month y m' + d"
  using assms
proof (induction y m n rule: month_walk.induct)
  case (1 y m n)
  show ?case
  proof (cases "n \<le> days_in_month y m \<or> 12 \<le> m")
    case True
    moreover have "n \<le> days_in_month y m" if "12 \<le> m"
      using that 1 days_before_month_Suc [of 12 y] year_length_months [of y] by auto
    ultimately show ?thesis using 1 by (auto simp: month_walk.simps [of y m n])
  next
    case False
    with 1 show ?thesis
      by (simp add: month_walk.simps [of y m n] days_before_month_Suc)
  qed
qed

lemma cycle_days: "days_before_year (400 * c + 1) = 146097 * c"
  by (simp add: days_before_year_def)

lemma from_ordinal_spec:
  "to_ordinal (from_ordinal n) = n \<and> 1 \<le> month (from_ordinal n) \<and> month (from_ordinal n) \<le> 12 \<and>
    1 \<le> day (from_ordinal n) \<and> day (from_ordinal n) \<le> days_in_month (year (from_ordinal n)) (month (from_ordinal n))"
proof -
  let ?c = "(n - 1) div 146097" and ?r = "(n - 1) mod 146097 + 1"
  obtain y k where y: "year_walk (400 * ?c + 1) ?r = (y, k)" by fastforce
  obtain m d where m: "month_walk y 1 k = (m, d)" by fastforce
  have r: "1 \<le> ?r" by simp
  note ys = year_walk_spec [OF r y]
  have zero: "days_before_month y 1 = 0" by (simp add: days_before_month_def)
  with month_walk_spec [OF _ _ _ _ m] ys have ms: "1 \<le> m" "m \<le> 12" "1 \<le> d" "d \<le> days_in_month y m"
    "k = days_before_month y m + d" by auto
  have "146097 * ?c + ((n - 1) mod 146097) = n - 1" by (rule mult_div_mod_eq)
  then have "n = days_before_year y + k" using ys cycle_days [of ?c] by linarith
  with ms(5) have "to_ordinal (Date y m d) = n" by (simp add: to_ordinal_def)
  moreover have "from_ordinal n = Date y m d" by (simp add: from_ordinal_def y m)
  ultimately show ?thesis using ms by simp
qed

lemma days_before_year_mono: "y < y' \<Longrightarrow> days_before_year y + year_length y \<le> days_before_year y'"
proof (induction y' rule: int_gr_induct)
  case base
  then show ?case by (simp add: days_before_year_Suc)
next
  case (step i)
  then show ?case by (simp add: days_before_year_Suc year_length_def split: if_splits)
qed

lemma days_before_month_mono:
  "m < m' \<Longrightarrow> 1 \<le> m \<Longrightarrow> days_before_month y m + days_in_month y m \<le> days_before_month y m'"
proof (induction m' rule: int_gr_induct)
  case base
  then show ?case by (simp add: days_before_month_Suc)
next
  case (step i)
  then show ?case using days_in_month_bounds [of y i] by (simp add: days_before_month_Suc)
qed

lemma days_before_month_nonneg: "0 \<le> days_before_month y m"
proof -
  have "0 \<le> days_in_month y k" for k using days_in_month_bounds [of y k] by linarith
  then show ?thesis unfolding days_before_month_def by (intro sum_list_nonneg) auto
qed

lemma day_of_year_bounds:
  assumes "proper_date d"
  shows "1 \<le> days_before_month (year d) (month d) + day d"
    "days_before_month (year d) (month d) + day d \<le> year_length (year d)"
proof -
  from assms have m: "1 \<le> month d" "month d < 13" and d: "1 \<le> day d" "day d \<le> days_in_month (year d) (month d)"
    by (auto simp: proper_date_def)
  from days_before_month_nonneg [of "year d" "month d"] d
  show "1 \<le> days_before_month (year d) (month d) + day d" by linarith
  show "days_before_month (year d) (month d) + day d \<le> year_length (year d)"
    using days_before_month_mono [OF m(2,1), of "year d"] d by (simp add: year_length_months)
qed

lemma to_ordinal_less:
  assumes "proper_date a" "proper_date b" "a < b"
  shows "to_ordinal a < to_ordinal b"
proof (cases "year a < year b")
  case True
  then show ?thesis
    using days_before_year_mono [OF True] day_of_year_bounds [OF assms(1)] day_of_year_bounds [OF assms(2)]
    by (simp add: to_ordinal_def)
next
  case False
  with assms(3) have y: "year a = year b" and "month a < month b \<or> month a = month b \<and> day a < day b"
    by (auto simp: less_date_def)
  then show ?thesis
    using days_before_month_mono [of "month a" "month b" "year b"] assms(1,2)
    by (auto simp: to_ordinal_def proper_date_def)
qed

lemma to_ordinal_less_iff:
  "proper_date a \<Longrightarrow> proper_date b \<Longrightarrow> to_ordinal a < to_ordinal b \<longleftrightarrow> a < b"
  using to_ordinal_less [of a b] to_ordinal_less [of b a] by (cases a b rule: linorder_cases) auto

lemma from_ordinal_proper: "proper_date (from_ordinal n)"
  using from_ordinal_spec [of n] by (simp add: proper_date_def)

lemma from_ordinal_valid:
  assumes "1 \<le> n" "n \<le> 3652059"
  shows "valid_date (from_ordinal n)"
proof -
  let ?d = "from_ordinal n"
  note s = from_ordinal_spec [of n]
  have lo: "days_before_year (year ?d) < n" and hi: "n \<le> days_before_year (year ?d) + year_length (year ?d)"
  proof -
    have "days_before_month (year ?d) (month ?d) + days_in_month (year ?d) (month ?d) \<le> year_length (year ?d)"
      using days_before_month_mono [of "month ?d" 13 "year ?d"] s by (simp add: year_length_months)
    with days_before_month_nonneg [of "year ?d" "month ?d"] show "days_before_year (year ?d) < n" "n \<le> days_before_year (year ?d) + year_length (year ?d)"
      using s by (simp_all add: to_ordinal_def)
  qed
  have "year ?d < 10000"
  proof (rule ccontr)
    assume "\<not> year ?d < 10000"
    then have "days_before_year 10000 \<le> days_before_year (year ?d)"
      using days_before_year_mono [of 10000 "year ?d"] by (cases "year ?d = 10000") (auto simp: year_length_def split: if_splits)
    with lo assms(2) show False by (simp add: days_before_year_def [of 10000])
  qed
  moreover have "0 < year ?d"
  proof (rule ccontr)
    assume "\<not> 0 < year ?d"
    with days_before_year_mono [of "year ?d" 1] hi assms(1) show False
      by (simp add: days_before_year_def [of 1])
  qed
  ultimately show ?thesis using s by (simp add: valid_date_def)
qed

lemma add_days_spec:
  assumes "add_days d n = Inr d'"
  shows "valid_date d' \<and> to_ordinal d' = to_ordinal d + n"
  using assms from_ordinal_valid from_ordinal_spec
  by (auto simp: add_days_def Let_def split: if_splits)

section \<open>Time zones\<close>

text \<open>
  The IANA database behind \<open>ZoneInfo\<close> (and behind PostgreSQL's \<open>timezone()\<close>) is a parameter:
  whether a name resolves, the wall clock of an instant (microseconds since 1970 as if the wall
  clock were UTC), and the instant of a wall clock (\<open>fold = 0\<close>).
\<close>

datatype zone_lookup = Zone_Found | Zone_Not_Found | Zone_Bad_Key

record tzdata =
  tz_lookup :: "string \<Rightarrow> zone_lookup"
  tz_local :: "string \<Rightarrow> instant \<Rightarrow> int"
  tz_instant :: "string \<Rightarrow> int \<Rightarrow> instant"

definition parse_timezone :: "tzdata \<Rightarrow> string \<Rightarrow> string result" where
  "parse_timezone tz name =
     (case tz_lookup tz name of
        Zone_Found \<Rightarrow> Inr name
      | Zone_Not_Found \<Rightarrow> Inl (LedgerValidationError ''INVALID_TIMEZONE'' (Some ''timezone''))
      | Zone_Bad_Key \<Rightarrow> Inl ValueError)"

abbreviation "DAY_US \<equiv> (86400000000 :: int)"
abbreviation "EPOCH_ORDINAL \<equiv> (719163 :: int)"

text \<open>The date of a wall clock and the wall clock of a date's midnight.\<close>

definition wall_date :: "int \<Rightarrow> date" where
  "wall_date w = from_ordinal (w div DAY_US + EPOCH_ORDINAL)"

definition midnight :: "date \<Rightarrow> int" where
  "midnight d = (to_ordinal d - EPOCH_ORDINAL) * DAY_US"

lemma less_mult_iff_div:
  fixes w k n :: int
  assumes "0 < n"
  shows "w < k * n \<longleftrightarrow> w div n < k"
proof
  assume "w < k * n"
  show "w div n < k"
  proof (rule ccontr)
    assume "\<not> w div n < k"
    then have "k * n \<le> w div n * n" using assms by (intro mult_right_mono) auto
    with \<open>w < k * n\<close> div_mult_mod_eq [of w n] pos_mod_sign [OF assms, of w] show False by linarith
  qed
next
  assume "w div n < k"
  then have "(w div n + 1) * n \<le> k * n" using assms by (intro mult_right_mono) auto
  with div_mult_mod_eq [of w n] pos_mod_bound [OF assms, of w] show "w < k * n"
    unfolding distrib_right by linarith
qed

lemma wall_before_midnight: "w < midnight d \<longleftrightarrow> to_ordinal (wall_date w) < to_ordinal d"
  using from_ordinal_spec [of "w div DAY_US + EPOCH_ORDINAL"]
  unfolding wall_date_def midnight_def less_mult_iff_div [OF zero_less_numeral] by auto

section \<open>Months of the user's calendar\<close>

datatype year_month = YearMonth (ym_year: int) (ym_month: int)

definition mk_year_month :: "int \<Rightarrow> int \<Rightarrow> year_month result" where
  "mk_year_month y m =
     (if y < 2000 \<or> y > 2100 then Inl (LedgerValidationError ''INVALID_YEAR'' (Some ''year''))
      else if m < 1 \<or> m > 12 then Inl (LedgerValidationError ''INVALID_MONTH'' (Some ''month''))
      else Inr (YearMonth y m))"

definition containing :: "tzdata \<Rightarrow> py_datetime \<Rightarrow> string \<Rightarrow> year_month result" where
  "containing tz dt zone_name =
     bindE (parse_timezone tz zone_name) (\<lambda>zone.
       case dt of
         Naive _ \<Rightarrow> Inl ValueError
       | Aware t \<Rightarrow> (let local = wall_date (tz_local tz zone t) in mk_year_month (year local) (month local)))"

definition next_month :: "year_month \<Rightarrow> year_month result" where
  "next_month ym =
     (if ym_month ym = 12 then mk_year_month (ym_year ym + 1) 1
      else mk_year_month (ym_year ym) (ym_month ym + 1))"

definition previous_month :: "year_month \<Rightarrow> year_month result" where
  "previous_month ym =
     (if ym_month ym = 1 then mk_year_month (ym_year ym - 1) 12
      else mk_year_month (ym_year ym) (ym_month ym - 1))"

record month_period =
  mp_month :: year_month
  mp_start_date :: date
  mp_end_date :: date
  mp_start_utc :: instant
  mp_end_utc :: instant

definition month_period :: "tzdata \<Rightarrow> year_month \<Rightarrow> string \<Rightarrow> month_period result" where
  "month_period tz m zone_name =
     bindE (parse_timezone tz zone_name) (\<lambda>zone.
     bindE (next_month m) (\<lambda>following.
     bindE (mk_date (ym_year m) (ym_month m) 1) (\<lambda>start_date.
     bindE (mk_date (ym_year following) (ym_month following) 1) (\<lambda>end_date.
       Inr \<lparr>mp_month = m, mp_start_date = start_date, mp_end_date = end_date,
            mp_start_utc = tz_instant tz zone (midnight start_date),
            mp_end_utc = tz_instant tz zone (midnight end_date)\<rparr>))))"

function months_loop :: "int \<Rightarrow> year_month list \<Rightarrow> (year_month list) result" where
  "months_loop wanted months =
     (if int (length months) < wanted
      then (case previous_month (last months) of
              Inl e \<Rightarrow> Inl e
            | Inr p \<Rightarrow> months_loop wanted (months @ [p]))
      else Inr months)"
  by pat_completeness auto
termination
  by (relation "measure (\<lambda>(wanted, months). nat (wanted - int (length months)))") auto

declare months_loop.simps [simp del]

definition previous_months :: "year_month \<Rightarrow> int \<Rightarrow> (year_month list) result" where
  "previous_months ending wanted =
     (if wanted < 1 \<or> wanted > 24
      then Inl (LedgerValidationError ''INVALID_MONTH_COUNT'' (Some ''months''))
      else bindE (months_loop wanted [ending]) (\<lambda>months. Inr (rev months)))"

section \<open>Advancing a recurrence\<close>

definition months_of_rule :: "recurrence_rule \<Rightarrow> int" where
  "months_of_rule rule = (case rule of MONTHLY \<Rightarrow> 1 | QUARTERLY \<Rightarrow> 3 | YEARLY \<Rightarrow> 12 | WEEKLY \<Rightarrow> 0)"

definition advance_expected_date :: "date \<Rightarrow> recurrence_rule \<Rightarrow> date result" where
  "advance_expected_date current rule =
     (if rule = WEEKLY then add_days current 7
      else let absolute_month = year current * 12 + month current - 1 + months_of_rule rule;
               target_year = absolute_month div 12;
               target_month = absolute_month mod 12 + 1;
               source_month_end = days_in_month (year current) (month current);
               target_month_end = days_in_month target_year target_month;
               target_day = (if day current = source_month_end then target_month_end
                             else min (day current) target_month_end)
           in mk_date target_year target_month target_day)"

section \<open>Facts about months and recurrences\<close>

text \<open>
  A regular zone: an instant is on or after the instant of a month's first midnight exactly when
  its wall clock is. Zones whose offset does not change around a month's first midnight have it.
\<close>

definition regular_zone :: "tzdata \<Rightarrow> string \<Rightarrow> bool" where
  "regular_zone tz zone \<longleftrightarrow>
     (\<forall>t y m. tz_instant tz zone (midnight (Date y m 1)) \<le> t \<longleftrightarrow> midnight (Date y m 1) \<le> tz_local tz zone t)"

lemma mk_year_month_Inr:
  "mk_year_month y m = Inr ym \<longleftrightarrow> 2000 \<le> y \<and> y \<le> 2100 \<and> 1 \<le> m \<and> m \<le> 12 \<and> ym = YearMonth y m"
  by (auto simp: mk_year_month_def)

definition valid_month :: "year_month \<Rightarrow> bool" where
  "valid_month ym \<longleftrightarrow> 2000 \<le> ym_year ym \<and> ym_year ym \<le> 2100 \<and> 1 \<le> ym_month ym \<and> ym_month ym \<le> 12"

text \<open>Months counted from January 2000.\<close>

definition month_index :: "year_month \<Rightarrow> int" where
  "month_index ym = (ym_year ym - 2000) * 12 + ym_month ym - 1"

lemma month_index_inj:
  assumes "valid_month a" "valid_month b"
  shows "month_index a = month_index b \<longleftrightarrow> a = b"
proof
  assume "month_index a = month_index b"
  then have "ym_year a * 12 + ym_month a = ym_year b * 12 + ym_month b" by (simp add: month_index_def)
  moreover from this have "\<not> ym_year a < ym_year b" "\<not> ym_year b < ym_year a"
    using assms unfolding valid_month_def by linarith+
  ultimately have "ym_year a = ym_year b \<and> ym_month a = ym_month b" by linarith
  then show "a = b" by (simp add: year_month.expand)
qed simp

lemma valid_month_index: "valid_month ym \<Longrightarrow> 0 \<le> month_index ym \<and> month_index ym \<le> 1211"
  by (auto simp: valid_month_def month_index_def)

lemma next_month_total:
  assumes "valid_month ym" "month_index ym < 1211"
  shows "\<exists>ym'. next_month ym = Inr ym' \<and> valid_month ym' \<and> month_index ym' = month_index ym + 1"
  using assms
  by (cases ym) (auto simp: next_month_def mk_year_month_def valid_month_def month_index_def)

lemma previous_month_total:
  assumes "valid_month ym" "0 < month_index ym"
  shows "\<exists>ym'. previous_month ym = Inr ym' \<and> valid_month ym' \<and> month_index ym' = month_index ym - 1"
  using assms
  by (cases ym) (auto simp: previous_month_def mk_year_month_def valid_month_def month_index_def)

lemma next_month_spec:
  assumes "valid_month ym"
  shows "next_month ym = Inr ym' \<longleftrightarrow> valid_month ym' \<and> month_index ym' = month_index ym + 1"
proof
  assume "next_month ym = Inr ym'"
  with assms show "valid_month ym' \<and> month_index ym' = month_index ym + 1"
    by (cases ym) (auto simp: next_month_def mk_year_month_def valid_month_def month_index_def
        split: if_splits)
next
  assume ym': "valid_month ym' \<and> month_index ym' = month_index ym + 1"
  with valid_month_index [of ym'] next_month_total [OF assms] obtain k where
    "next_month ym = Inr k" "valid_month k" "month_index k = month_index ym + 1" by auto
  with ym' month_index_inj [of k ym'] show "next_month ym = Inr ym'" by simp
qed

lemma previous_month_spec:
  assumes "valid_month ym"
  shows "previous_month ym = Inr ym' \<longleftrightarrow> valid_month ym' \<and> month_index ym' = month_index ym - 1"
proof
  assume "previous_month ym = Inr ym'"
  with assms show "valid_month ym' \<and> month_index ym' = month_index ym - 1"
    by (cases ym) (auto simp: previous_month_def mk_year_month_def valid_month_def month_index_def
        split: if_splits)
next
  assume ym': "valid_month ym' \<and> month_index ym' = month_index ym - 1"
  with valid_month_index [of ym'] previous_month_total [OF assms] obtain k where
    "previous_month ym = Inr k" "valid_month k" "month_index k = month_index ym - 1" by auto
  with ym' month_index_inj [of k ym'] show "previous_month ym = Inr ym'" by simp
qed

lemma months_loop_spec:
  assumes "months \<noteq> []" "\<forall>i < length months. valid_month (months ! i) \<and> month_index (months ! i) = s - int i"
    "int (length months) \<le> wanted" "months_loop wanted months = Inr ms"
  shows "int (length ms) = wanted \<and> (\<forall>i < length ms. valid_month (ms ! i) \<and> month_index (ms ! i) = s - int i)"
  using assms
proof (induction wanted months rule: months_loop.induct)
  case (1 wanted months)
  show ?case
  proof (cases "int (length months) < wanted")
    case True
    with 1 obtain p where p: "previous_month (last months) = Inr p" and
      run: "months_loop wanted (months @ [p]) = Inr ms"
      by (auto simp: months_loop.simps [of wanted months] split: sum.splits)
    have l: "valid_month (last months)" "month_index (last months) = s - int (length months - 1)"
      using 1 by (simp_all add: last_conv_nth)
    have "valid_month p \<and> month_index p = s - int (length months)"
      using p l "1.prems"(1) by (simp add: previous_month_spec [OF l(1)] of_nat_diff Suc_leI)
    with "1.IH" [OF True p _ _ _ run] "1.prems" True show ?thesis
      by (simp add: nth_append less_Suc_eq all_conj_distrib)
  next
    case False
    with 1 show ?thesis by (simp add: months_loop.simps [of wanted months])
  qed
qed

lemma months_loop_total:
  assumes "months \<noteq> []" "valid_month (last months)" "wanted - int (length months) \<le> month_index (last months)"
  shows "\<exists>ms. months_loop wanted months = Inr ms"
  using assms
proof (induction wanted months rule: months_loop.induct)
  case (1 wanted months)
  show ?case
  proof (cases "int (length months) < wanted")
    case True
    with 1 previous_month_total [of "last months"] obtain p where
      p: "previous_month (last months) = Inr p" "valid_month p" "month_index p = month_index (last months) - 1"
      by auto
    with "1.IH" [OF True p(1)] "1.prems" True show ?thesis
      by (simp add: months_loop.simps [of wanted months])
  next
    case False
    then show ?thesis by (simp add: months_loop.simps [of wanted months])
  qed
qed

lemma previous_months_Inr:
  assumes "previous_months ending wanted = Inr ms" "valid_month ending"
  shows "1 \<le> wanted \<and> wanted \<le> 24 \<and> int (length ms) = wanted \<and>
    (\<forall>i < length ms. valid_month (ms ! i) \<and> month_index (ms ! i) = month_index ending - wanted + 1 + int i)"
proof -
  from assms(1) obtain rs where rs: "months_loop wanted [ending] = Inr rs" "ms = rev rs" and n: "1 \<le> wanted" "wanted \<le> 24"
    by (auto simp: previous_months_def result_simps split: if_splits)
  with months_loop_spec [of "[ending]" "month_index ending" wanted rs] assms(2) have
    len: "int (length rs) = wanted" and
    idx: "\<And>i. i < length rs \<Longrightarrow> valid_month (rs ! i) \<and> month_index (rs ! i) = month_index ending - int i"
    by auto
  have "valid_month (ms ! i) \<and> month_index (ms ! i) = month_index ending - wanted + 1 + int i"
    if "i < length ms" for i
    using that idx [of "length rs - Suc i"] len rs(2) by (auto simp: rev_nth)
  with len rs(2) n show ?thesis by simp
qed

lemma month_start_le:
  assumes "valid_month a" "valid_month b" "month_index a \<le> month_index b"
  shows "Date (ym_year a) (ym_month a) 1 \<le> Date (ym_year b) (ym_month b) 1"
proof -
  have "\<not> ym_year b < ym_year a"
    using assms by (auto simp: valid_month_def month_index_def)
  moreover have "ym_year a = ym_year b \<Longrightarrow> ym_month a \<le> ym_month b"
    using assms(3) by (simp add: month_index_def)
  ultimately show ?thesis by (auto simp: less_eq_date_def)
qed

lemma first_day_valid: "valid_month m \<Longrightarrow> valid_date (Date (ym_year m) (ym_month m) 1)"
  using days_in_month_bounds [of "ym_year m" "ym_month m"]
  by (simp add: valid_month_def valid_date_def)

lemma month_period_Inr:
  assumes "month_period tz m zone = Inr p"
  shows "tz_lookup tz zone = Zone_Found \<and> mp_month p = m \<and> mp_start_date p = Date (ym_year m) (ym_month m) 1 \<and>
    (\<exists>m'. next_month m = Inr m' \<and> mp_end_date p = Date (ym_year m') (ym_month m') 1) \<and>
    mp_start_utc p = tz_instant tz zone (midnight (mp_start_date p)) \<and>
    mp_end_utc p = tz_instant tz zone (midnight (mp_end_date p))"
  using assms
  by (auto simp: month_period_def result_simps parse_timezone_def mk_date_def
      split: zone_lookup.splits if_splits)

lemma month_period_adjacent:
  assumes "month_period tz m zone = Inr p" "next_month m = Inr m'" "month_period tz m' zone = Inr p'"
  shows "mp_end_date p = mp_start_date p' \<and> mp_end_utc p = mp_start_utc p'"
  using month_period_Inr [OF assms(1)] month_period_Inr [OF assms(3)] assms(2) by auto

lemma in_month_period:
  assumes "month_period tz m zone = Inr p" "valid_month m" "regular_zone tz zone"
  shows "mp_start_utc p \<le> t \<and> t < mp_end_utc p \<longleftrightarrow>
    (let d = wall_date (tz_local tz zone t) in Date (year d) (month d) 1) = mp_start_date p"
proof -
  let ?d = "wall_date (tz_local tz zone t)"
  note p = month_period_Inr [OF assms(1)]
  then obtain m' where m': "next_month m = Inr m'" "mp_end_date p = Date (ym_year m') (ym_month m') 1" by blast
  then have vm': "valid_month m'" "month_index m' = month_index m + 1" using next_month_spec [OF assms(2)] by auto
  have d: "proper_date ?d" by (simp add: wall_date_def from_ordinal_proper)
  have start: "proper_date (mp_start_date p)" "proper_date (mp_end_date p)"
    using p m' valid_proper first_day_valid [OF assms(2)] first_day_valid [OF vm'(1)] by auto
  have law: "tz_instant tz zone (midnight (Date y k 1)) \<le> t \<longleftrightarrow> midnight (Date y k 1) \<le> tz_local tz zone t" for y k
    using assms(3) unfolding regular_zone_def by blast
  have "mp_start_utc p \<le> t \<and> t < mp_end_utc p \<longleftrightarrow>
      midnight (mp_start_date p) \<le> tz_local tz zone t \<and> tz_local tz zone t < midnight (mp_end_date p)"
    using p m' law by (metis linorder_not_le)
  also have "\<dots> \<longleftrightarrow> mp_start_date p \<le> ?d \<and> ?d < mp_end_date p"
    using to_ordinal_less_iff [OF d start(1)] to_ordinal_less_iff [OF d start(2)]
    by (metis linorder_not_le wall_before_midnight)
  also have "\<dots> \<longleftrightarrow> year ?d = ym_year m \<and> month ?d = ym_month m"
  proof -
    have "12 * ym_year m' + ym_month m' = 12 * ym_year m + ym_month m + 1"
      using vm'(2) by (simp add: month_index_def)
    moreover have "1 \<le> month ?d" "month ?d \<le> 12" "1 \<le> day ?d" using d by (auto simp: proper_date_def)
    moreover note assms(2) vm'(1)
    ultimately show ?thesis
      unfolding conjunct1 [OF conjunct2 [OF conjunct2 [OF p]]] m'(2) less_eq_date_def less_date_def valid_month_def
      by (simp add: less_eq_prod_def less_prod_def) (safe; linarith)
  qed
  finally show ?thesis using p by (simp add: Let_def)
qed

lemma advance_weekly:
  "advance_expected_date d WEEKLY = Inr d' \<Longrightarrow> valid_date d' \<and> to_ordinal d' = to_ordinal d + 7"
  using add_days_spec [of d 7 d'] by (simp add: advance_expected_date_def)

lemma advance_monthly:
  assumes "valid_date d" "rule \<noteq> WEEKLY" "advance_expected_date d rule = Inr d'"
  shows "valid_date d' \<and> year d' * 12 + month d' = year d * 12 + month d + months_of_rule rule \<and>
    day d' = (if day d = days_in_month (year d) (month d) then days_in_month (year d') (month d')
              else min (day d) (days_in_month (year d') (month d')))"
proof -
  let ?n = "year d * 12 + month d - 1 + months_of_rule rule"
  have "d' = Date (?n div 12) (?n mod 12 + 1)
      (if day d = days_in_month (year d) (month d) then days_in_month (?n div 12) (?n mod 12 + 1)
       else min (day d) (days_in_month (?n div 12) (?n mod 12 + 1)))" "valid_date d'"
    using assms(2,3) by (auto simp: advance_expected_date_def mk_date_def Let_def split: if_splits)
  then show ?thesis using div_mult_mod_eq [of ?n 12] by simp
qed

lemma advance_later:
  assumes "valid_date d" "advance_expected_date d rule = Inr d'"
  shows "valid_date d' \<and> d < d'"
proof (cases "rule = WEEKLY")
  case True
  then show ?thesis using advance_weekly [of d d'] assms to_ordinal_less_iff [of d d'] valid_proper [of d] valid_proper [of d'] by simp
next
  case False
  note m = advance_monthly [OF assms(1) False assms(2)]
  have "1 \<le> months_of_rule rule" using False by (cases rule) (simp_all add: months_of_rule_def)
  with m assms(1) have "year d < year d' \<or> year d = year d' \<and> month d < month d'"
    unfolding valid_date_def by linarith
  then have "d < d'" by (auto simp: less_date_def)
  with m show ?thesis by simp
qed

lemma advance_total:
  assumes "valid_date d" "year d < 9999"
  shows "\<exists>d'. advance_expected_date d rule = Inr d'"
proof (cases "rule = WEEKLY")
  case True
  have "to_ordinal d + 7 \<le> 3652059"
    using days_before_year_mono [of "year d" 9999] day_of_year_bounds(2) [OF valid_proper [OF assms(1)]] assms(2)
    by (simp add: to_ordinal_def days_before_year_def [of 9999])
  moreover have "0 \<le> days_before_year (year d)"
    using days_before_year_mono [of 1 "year d"] assms(1)
    by (cases "year d = 1") (auto simp: valid_date_def days_before_year_def [of 1] year_length_def split: if_splits)
  moreover have "1 \<le> to_ordinal d"
    using day_of_year_bounds(1) [OF valid_proper [OF assms(1)]] calculation(2) by (simp add: to_ordinal_def)
  ultimately show ?thesis using True by (simp add: advance_expected_date_def add_days_def Let_def)
next
  case False
  let ?n = "year d * 12 + month d - 1 + months_of_rule rule"
  have "1 \<le> months_of_rule rule" "months_of_rule rule \<le> 12"
    using False by (cases rule; simp add: months_of_rule_def)+
  with assms have y: "1 \<le> ?n div 12" "?n div 12 \<le> 9999" unfolding valid_date_def by auto
  have m: "1 \<le> ?n mod 12 + 1" "?n mod 12 + 1 \<le> 12" by simp_all
  have "1 \<le> day d" using assms(1) by (simp add: valid_date_def)
  with y m days_in_month_bounds [of "?n div 12" "?n mod 12 + 1"] False show ?thesis
    by (simp add: advance_expected_date_def mk_date_def Let_def valid_date_def)
qed

section \<open>Properties\<close>

text \<open>
  C26: for every real date, \<open>advance_expected_date\<close> returns a real, strictly later date (or fails
  past the year 9999, which cannot happen before that year): seven days later for a weekly rule,
  and exactly 1, 3 or 12 calendar months later otherwise, on the same day of the month clipped to
  the length of the target month, a last day of the month going to a last day of the month.
\<close>

theorem recurrence_advances:
  assumes "valid_date d" "year d < 9999"
  shows "\<exists>d'. advance_expected_date d rule = Inr d' \<and> valid_date d' \<and> d < d' \<and>
    (if rule = WEEKLY then to_ordinal d' = to_ordinal d + 7
     else year d' * 12 + month d' = year d * 12 + month d + months_of_rule rule \<and>
       day d' = (if day d = days_in_month (year d) (month d) then days_in_month (year d') (month d')
                 else min (day d) (days_in_month (year d') (month d'))))"
proof -
  from advance_total [OF assms] obtain d' where d': "advance_expected_date d rule = Inr d'" ..
  with advance_later [OF assms(1) d'] advance_monthly [OF assms(1) _ d'] advance_weekly [of d d']
  show ?thesis by auto
qed

theorem recurrence_advances_witness:
  "\<exists>d'. advance_expected_date (Date 2027 1 31) MONTHLY = Inr d' \<and> d' = Date 2027 2 28"
  using recurrence_advances [of "Date 2027 1 31" MONTHLY]
  by (simp add: advance_expected_date_def mk_date_def valid_date_def days_in_month_def
      leap_year_def months_of_rule_def)

text \<open>
  A monthly payment due on the 30th is therefore due on 31 March after one February: the advance
  only sees the clipped date, and takes the last day of February for a last-day-of-month rule.
\<close>

lemma monthly_day_drifts:
  "bindE (advance_expected_date (Date 2027 1 30) MONTHLY) (\<lambda>d. advance_expected_date d MONTHLY) =
    Inr (Date 2027 3 31)"
  by (simp add: advance_expected_date_def mk_date_def valid_date_def days_in_month_def
      leap_year_def months_of_rule_def)

text \<open>
  \<open>previous_months\<close> succeeds for every admissible count whose months all lie in the supported
  years, and returns that many consecutive months in ascending order ending with the given one.
\<close>

theorem previous_months_consecutive:
  assumes "valid_month ending" "1 \<le> wanted" "wanted \<le> 24" "wanted - 1 \<le> month_index ending"
  shows "\<exists>ms. previous_months ending wanted = Inr ms \<and> int (length ms) = wanted \<and> last ms = ending \<and>
    (\<forall>i < length ms. valid_month (ms ! i) \<and> month_index (ms ! i) = month_index ending - wanted + 1 + int i) \<and>
    (\<forall>i. Suc i < length ms \<longrightarrow> next_month (ms ! i) = Inr (ms ! Suc i))"
proof -
  from assms months_loop_total [of "[ending]" wanted] obtain rs where "months_loop wanted [ending] = Inr rs" by auto
  then have ms: "previous_months ending wanted = Inr (rev rs)"
    using assms by (simp add: previous_months_def)
  note spec = previous_months_Inr [OF ms assms(1)]
  then have "0 < length rs" by auto
  with spec have "month_index (last (rev rs)) = month_index ending" "valid_month (last (rev rs))"
    by (simp_all add: last_conv_nth)
  with assms(1) have "last (rev rs) = ending" using month_index_inj by blast
  moreover have "next_month (rev rs ! i) = Inr (rev rs ! Suc i)" if "Suc i < length (rev rs)" for i
    using that spec by (simp add: next_month_spec)
  ultimately show ?thesis using ms spec by (intro exI [of _ "rev rs"]) blast
qed

theorem previous_months_consecutive_witness:
  "\<exists>ms. previous_months (YearMonth 2026 1) 3 = Inr ms \<and> int (length ms) = 3 \<and> last ms = YearMonth 2026 1"
  using previous_months_consecutive [of "YearMonth 2026 1" 3]
  by (auto simp: valid_month_def month_index_def)

text \<open>
  The last supported month has no period: \<open>next\<close> leaves the supported years.
\<close>

lemma last_month_has_no_period:
  "mk_year_month 2100 12 = Inr (YearMonth 2100 12) \<and>
    month_period \<lparr>tz_lookup = \<lambda>_. Zone_Found, tz_local = \<lambda>_ t. t, tz_instant = \<lambda>_ w. w\<rparr>
      (YearMonth 2100 12) ''UTC'' = Inl (LedgerValidationError ''INVALID_YEAR'' (Some ''year''))"
  by (simp add: mk_year_month_def month_period_def parse_timezone_def next_month_def)

end
