(* ===== verification/Ledger_Store.thy ===== *)
theory Ledger_Store
  imports Decimals Calendar "HOL-Library.Multiset"
begin

text \<open>
  The ledger's commands, tables and owner-scoped queries: \<open>ledger/commands.py\<close>, the models
  \<open>User\<close>, \<open>Category\<close>, \<open>Merchant\<close> and \<open>LedgerTransaction\<close>, and \<open>ledger/repository.py\<close>.

  A row is a record with the columns the program reads. An amount column holds \<open>money\<close>, a
  confidence column ten-thousandths. A view returned right after an insert shows the stored
  amount. \<open>uuid4\<close> draws are arguments of the inserting operations, and \<open>now\<close> is the start of
  the database transaction. Sorting by a name goes through \<open>coll\<close>, the database's collation key.
\<close>

section \<open>Commands\<close>

definition SUPPORTED_CURRENCIES :: "string list" where
  "SUPPORTED_CURRENCIES =
     [''AED'', ''AUD'', ''CAD'', ''CHF'', ''CNY'', ''EUR'', ''GBP'', ''HKD'', ''INR'', ''JPY'',
      ''NZD'', ''SGD'', ''USD'']"

record create_transaction_command =
  ct_amount :: decimal
  ct_currency :: string
  ct_type :: transaction_type
  ct_description :: string
  ct_date :: instant
  ct_status :: transaction_status
  ct_category_id :: "uuid option"
  ct_merchant_name :: "string option"
  ct_merchant_normalized :: "string option"
  ct_source :: transaction_source
  ct_confidence :: "int option"
  ct_category_source :: "categorization_source option"
  ct_category_version :: "string option"
  ct_category_confidence :: "int option"
  ct_category_overridden :: bool

record create_category_command =
  cc_name :: string
  cc_normalized :: string
  cc_parent :: "uuid option"

definition ledger_invalid :: "string \<Rightarrow> string \<Rightarrow> error" where
  "ledger_invalid code field = LedgerValidationError code (Some field)"

definition parse_amount :: "string \<Rightarrow> decimal result" where
  "parse_amount raw =
     (if raw = [] then Inl (ledger_invalid ''INVALID_AMOUNT'' ''amount'')
      else if raw \<noteq> strip raw \<or> hd raw = CHR ''+'' \<or> hd raw = CHR ''-''
      then Inl (ledger_invalid ''INVALID_AMOUNT'' ''amount'')
      else case parse_decimal raw of
          None \<Rightarrow> Inl (ledger_invalid ''INVALID_AMOUNT'' ''amount'')
        | Some d \<Rightarrow> (case validate_positive_money d of
              Inl _ \<Rightarrow> Inl (ledger_invalid ''INVALID_AMOUNT'' ''amount'')
            | Inr v \<Rightarrow> Inr v))"

definition parse_currency :: "string \<Rightarrow> string result" where
  "parse_currency raw =
     (case normalize_currency_code raw of
        Inl _ \<Rightarrow> Inl (ledger_invalid ''INVALID_CURRENCY'' ''currency'')
      | Inr currency \<Rightarrow>
          if currency \<in> set SUPPORTED_CURRENCIES then Inr currency
          else Inl (ledger_invalid ''UNSUPPORTED_CURRENCY'' ''currency''))"

fun parse_optional_merchant_name :: "string option \<Rightarrow> (string option \<times> string option) result" where
  "parse_optional_merchant_name None = Inr (None, None)"
| "parse_optional_merchant_name (Some v) =
     (let display_name = normalize_display_text v
      in if display_name = [] then Inr (None, None)
         else if length display_name > 160
         then Inl (ledger_invalid ''INVALID_MERCHANT_NAME'' ''merchantName'')
         else Inr (Some display_name, Some (casefold display_name)))"

fun parse_optional_confidence :: "decimal option \<Rightarrow> (int option) result" where
  "parse_optional_confidence None = Inr None"
| "parse_optional_confidence (Some (Dec c e)) =
     (if dec_value c e < 0 \<or> dec_value c e > 1
      then Inl (ledger_invalid ''INVALID_CONFIDENCE'' ''confidence'')
      else Inr (Some (quantize_4 (Dec c e))))"
| "parse_optional_confidence (Some _) = Inl (ledger_invalid ''INVALID_CONFIDENCE'' ''confidence'')"

definition parse_create_transaction ::
  "string \<Rightarrow> string \<Rightarrow> transaction_type \<Rightarrow> string \<Rightarrow> py_datetime \<Rightarrow> transaction_status \<Rightarrow> uuid option \<Rightarrow>
   string option \<Rightarrow> transaction_source \<Rightarrow> decimal option \<Rightarrow> create_transaction_command result" where
  "parse_create_transaction amount currency ty description dt status category_id merchant_name source confidence =
     bindE (parse_amount amount) (\<lambda>parsed_amount.
     bindE (parse_currency currency) (\<lambda>parsed_currency.
       let parsed_description = normalize_display_text description in
     bindE (ensure (parsed_description \<noteq> []) (ledger_invalid ''INVALID_DESCRIPTION'' ''description'')) (\<lambda>_.
     bindE (ensure (length parsed_description \<le> 500) (ledger_invalid ''INVALID_DESCRIPTION'' ''description'')) (\<lambda>_.
     bindE (case dt of Naive _ \<Rightarrow> Inl (ledger_invalid ''INVALID_TRANSACTION_DATE'' ''transactionDate'')
                     | Aware t \<Rightarrow> Inr t) (\<lambda>t.
     bindE (parse_optional_merchant_name merchant_name) (\<lambda>(parsed_name, parsed_lookup).
     bindE (parse_optional_confidence confidence) (\<lambda>parsed_confidence.
       Inr \<lparr>ct_amount = parsed_amount, ct_currency = parsed_currency, ct_type = ty,
            ct_description = parsed_description, ct_date = t, ct_status = status,
            ct_category_id = category_id, ct_merchant_name = parsed_name,
            ct_merchant_normalized = parsed_lookup, ct_source = source,
            ct_confidence = parsed_confidence,
            ct_category_source = (if category_id \<noteq> None then Some USER_OVERRIDE else None),
            ct_category_version = (if category_id \<noteq> None then Some ''explicit-user-v1'' else None),
            ct_category_confidence = (if category_id \<noteq> None then Some 10000 else None),
            ct_category_overridden = (category_id \<noteq> None)\<rparr>)))))))"

definition parse_create_category :: "string \<Rightarrow> uuid option \<Rightarrow> create_category_command result" where
  "parse_create_category name parent =
     (let parsed_name = normalize_display_text name
      in if parsed_name = [] then Inl (ledger_invalid ''INVALID_CATEGORY_NAME'' ''name'')
         else if length parsed_name > 80 then Inl (ledger_invalid ''INVALID_CATEGORY_NAME'' ''name'')
         else Inr \<lparr>cc_name = parsed_name, cc_normalized = casefold parsed_name, cc_parent = parent\<rparr>)"

section \<open>Rows and tables\<close>

record user_row =
  usr_id :: uuid
  usr_email :: string
  usr_name :: string
  usr_default_currency :: string
  usr_timezone :: string

record category_row =
  cat_id :: uuid
  cat_user :: "uuid option"
  cat_name :: string
  cat_normalized :: string
  cat_parent :: "uuid option"

record merchant_row =
  mer_id :: uuid
  mer_normalized :: string
  mer_display :: string

record transaction_row =
  tx_id :: uuid
  tx_user :: uuid
  tx_amount :: money
  tx_currency :: string
  tx_type :: transaction_type
  tx_merchant :: "uuid option"
  tx_category :: "uuid option"
  tx_description :: string
  tx_date :: instant
  tx_source :: transaction_source
  tx_confidence :: "int option"
  tx_status :: transaction_status
  tx_category_source :: "categorization_source option"
  tx_category_version :: "string option"
  tx_category_confidence :: "int option"
  tx_category_overridden :: bool

record ledger_db =
  users :: "user_row list"
  categories :: "category_row list"
  merchants :: "merchant_row list"
  transactions :: "transaction_row list"

section \<open>Constraints\<close>

text \<open>A foreign key: the referenced row exists.\<close>

definition fk_user :: "'a ledger_db_scheme \<Rightarrow> uuid \<Rightarrow> bool" where
  "fk_user db u \<longleftrightarrow> u \<in> set (map usr_id (users db))"

definition fk_category :: "'a ledger_db_scheme \<Rightarrow> uuid option \<Rightarrow> bool" where
  "fk_category db c = (case c of None \<Rightarrow> True | Some i \<Rightarrow> i \<in> set (map cat_id (categories db)))"

definition fk_merchant :: "'a ledger_db_scheme \<Rightarrow> uuid option \<Rightarrow> bool" where
  "fk_merchant db m = (case m of None \<Rightarrow> True | Some i \<Rightarrow> i \<in> set (map mer_id (merchants db)))"

text \<open>\<open>char_length(btrim(s)) > 0\<close>: \<open>btrim\<close> drops spaces only.\<close>

definition not_blank :: "string \<Rightarrow> bool" where
  "not_blank s \<longleftrightarrow> \<not> list_all (\<lambda>c. c = CHR '' '') s"

text \<open>
  The CHECK constraints of a \<open>transactions\<close> row, with the range of \<open>NUMERIC(19, 4)\<close> and the
  widths of the \<open>String\<close> columns.
\<close>

definition transaction_checks :: "transaction_row \<Rightarrow> bool" where
  "transaction_checks t \<longleftrightarrow>
     0 < tx_amount t \<and> tx_amount t < 10 ^ 19 \<and> currency_pattern (tx_currency t) \<and>
     not_blank (tx_description t) \<and> length (tx_description t) \<le> 500 \<and>
     (case tx_confidence t of None \<Rightarrow> True | Some c \<Rightarrow> 0 \<le> c \<and> c \<le> 10000) \<and>
     (case tx_category_version t of None \<Rightarrow> True | Some v \<Rightarrow> length v \<le> 40)"

definition merchant_checks :: "merchant_row \<Rightarrow> bool" where
  "merchant_checks m \<longleftrightarrow>
     not_blank (mer_normalized m) \<and> length (mer_normalized m) \<le> 160 \<and>
     not_blank (mer_display m) \<and> length (mer_display m) \<le> 160"

definition category_checks :: "category_row \<Rightarrow> bool" where
  "category_checks c \<longleftrightarrow>
     not_blank (cat_name c) \<and> length (cat_name c) \<le> 80 \<and>
     not_blank (cat_normalized c) \<and> length (cat_normalized c) \<le> 80 \<and>
     cat_parent c \<noteq> Some (cat_id c)"

definition insert_category :: "category_row \<Rightarrow> 'a ledger_db_scheme \<Rightarrow> 'a ledger_db_scheme result" where
  "insert_category c db =
     bindE (ensure (category_checks c \<and> fk_category db (cat_parent c) \<and>
              (case cat_user c of None \<Rightarrow> True | Some u \<Rightarrow> fk_user db u)) (IntegrityError ''categories'')) (\<lambda>_.
     bindE (ensure ((cat_user c, cat_normalized c) \<notin> set (map (\<lambda>r. (cat_user r, cat_normalized r)) (categories db)))
              (IntegrityError ''uq_categories_user_normalized_name'')) (\<lambda>_.
     bindE (insert_row cat_id c (categories db)) (\<lambda>rows. Inr (db\<lparr>categories := rows\<rparr>))))"

definition insert_transaction :: "transaction_row \<Rightarrow> 'a ledger_db_scheme \<Rightarrow> 'a ledger_db_scheme result" where
  "insert_transaction t db =
     bindE (ensure (transaction_checks t \<and> fk_user db (tx_user t) \<and> fk_category db (tx_category t) \<and>
              fk_merchant db (tx_merchant t)) (IntegrityError ''transactions'')) (\<lambda>_.
     bindE (insert_row tx_id t (transactions db)) (\<lambda>rows. Inr (db\<lparr>transactions := rows\<rparr>)))"

section \<open>Views\<close>

record user_view =
  uv_id :: uuid
  uv_name :: string
  uv_default_currency :: string
  uv_timezone :: string

record transaction_view =
  tv_id :: uuid
  tv_amount :: money
  tv_currency :: string
  tv_type :: transaction_type
  tv_description :: string
  tv_date :: instant
  tv_status :: transaction_status
  tv_merchant_name :: "string option"
  tv_category_name :: "string option"
  tv_category_source :: "categorization_source option"
  tv_category_version :: "string option"
  tv_category_confidence :: "int option"
  tv_category_overridden :: bool

text \<open>\<open>category_view\<close> is the pair of id and name.\<close>

type_synonym category_view = "uuid \<times> string"

record transaction_cursor =
  cur_occurred_at :: instant
  cur_transaction_id :: uuid

section \<open>The repository\<close>

definition get_user :: "uuid \<Rightarrow> 'a ledger_db_scheme \<Rightarrow> user_view option" where
  "get_user user_id db =
     map_option (\<lambda>u. \<lparr>uv_id = usr_id u, uv_name = usr_name u,
         uv_default_currency = usr_default_currency u, uv_timezone = usr_timezone u\<rparr>)
       (select_one (\<lambda>u. usr_id u = user_id) (users db))"

text \<open>\<open>Category.user_id IS NULL OR Category.user_id = :user_id\<close>.\<close>

definition visible_to :: "uuid \<Rightarrow> category_row \<Rightarrow> bool" where
  "visible_to user_id c \<longleftrightarrow> cat_user c = None \<or> cat_user c = Some user_id"

definition repo_list_categories ::
  "(string \<Rightarrow> 'k::linorder) \<Rightarrow> uuid \<Rightarrow> 'a ledger_db_scheme \<Rightarrow> category_view list" where
  "repo_list_categories coll user_id db =
     map (\<lambda>c. (cat_id c, cat_name c))
       (sort_key (\<lambda>c. (coll (cat_name c), cat_id c)) (filter (visible_to user_id) (categories db)))"

definition category_is_visible :: "uuid \<Rightarrow> uuid \<Rightarrow> 'a ledger_db_scheme \<Rightarrow> bool" where
  "category_is_visible user_id category_id db \<longleftrightarrow>
     select_one (\<lambda>c. cat_id c = category_id \<and> visible_to user_id c) (categories db) \<noteq> None"

definition category_name_is_visible :: "uuid \<Rightarrow> string \<Rightarrow> 'a ledger_db_scheme \<Rightarrow> bool" where
  "category_name_is_visible user_id normalized_name db \<longleftrightarrow>
     select_one (\<lambda>c. cat_normalized c = normalized_name \<and> visible_to user_id c) (categories db) \<noteq> None"

definition find_visible_category_id :: "uuid \<Rightarrow> string \<Rightarrow> 'a ledger_db_scheme \<Rightarrow> uuid option" where
  "find_visible_category_id user_id normalized_name db =
     (case sort_key (\<lambda>c. case cat_user c of None \<Rightarrow> (0, 0) | Some u \<Rightarrow> (1 :: nat, u))
        (filter (\<lambda>c. cat_normalized c = normalized_name \<and> visible_to user_id c) (categories db)) of
        [] \<Rightarrow> None
      | c # _ \<Rightarrow> Some (cat_id c))"

definition repo_create_category ::
  "uuid \<Rightarrow> create_category_command \<Rightarrow> uuid \<Rightarrow> 'a ledger_db_scheme \<Rightarrow>
   ('a ledger_db_scheme \<times> category_view) result" where
  "repo_create_category user_id command new_id db =
     bindE (insert_category \<lparr>cat_id = new_id, cat_user = Some user_id, cat_name = cc_name command,
         cat_normalized = cc_normalized command, cat_parent = cc_parent command\<rparr> db) (\<lambda>db'.
       Inr (db', (new_id, cc_name command)))"

text \<open>
  \<open>_get_or_create_merchant\<close>: an upsert on \<open>normalized_name\<close>, which keeps the display name of an
  existing merchant. PostgreSQL checks the row before it looks for a conflict.
\<close>

definition upsert_merchant ::
  "string \<Rightarrow> string \<Rightarrow> uuid \<Rightarrow> 'a ledger_db_scheme \<Rightarrow> ('a ledger_db_scheme \<times> uuid) result" where
  "upsert_merchant display_name normalized_name new_id db =
     (let row = \<lparr>mer_id = new_id, mer_normalized = normalized_name, mer_display = display_name\<rparr>
      in bindE (ensure (merchant_checks row) (IntegrityError ''merchants'')) (\<lambda>_.
         case select_one (\<lambda>m. mer_normalized m = normalized_name) (merchants db) of
           Some m \<Rightarrow> Inr (db, mer_id m)
         | None \<Rightarrow>
             bindE (insert_row mer_id row (merchants db)) (\<lambda>rows. Inr (db\<lparr>merchants := rows\<rparr>, new_id))))"

definition get_or_create_merchant ::
  "create_transaction_command \<Rightarrow> uuid \<Rightarrow> 'a ledger_db_scheme \<Rightarrow>
   ('a ledger_db_scheme \<times> uuid option) result" where
  "get_or_create_merchant command new_id db =
     (case (ct_merchant_name command, ct_merchant_normalized command) of
        (Some display_name, Some normalized_name) \<Rightarrow>
          bindE (upsert_merchant display_name normalized_name new_id db) (\<lambda>(db', m). Inr (db', Some m))
      | _ \<Rightarrow> Inr (db, None))"

definition merchant_display :: "'a ledger_db_scheme \<Rightarrow> uuid option \<Rightarrow> string option" where
  "merchant_display db m =
     Option.bind m (\<lambda>i. map_option mer_display (select_one (\<lambda>r. mer_id r = i) (merchants db)))"

definition category_display :: "'a ledger_db_scheme \<Rightarrow> uuid option \<Rightarrow> string option" where
  "category_display db c =
     Option.bind c (\<lambda>i. map_option cat_name (select_one (\<lambda>r. cat_id r = i) (categories db)))"

definition transaction_view :: "'a ledger_db_scheme \<Rightarrow> transaction_row \<Rightarrow> transaction_view" where
  "transaction_view db t =
     \<lparr>tv_id = tx_id t, tv_amount = tx_amount t, tv_currency = tx_currency t, tv_type = tx_type t,
      tv_description = tx_description t, tv_date = tx_date t, tv_status = tx_status t,
      tv_merchant_name = merchant_display db (tx_merchant t),
      tv_category_name = category_display db (tx_category t),
      tv_category_source = tx_category_source t, tv_category_version = tx_category_version t,
      tv_category_confidence = tx_category_confidence t,
      tv_category_overridden = tx_category_overridden t\<rparr>"

definition repo_get_transaction :: "uuid \<Rightarrow> uuid \<Rightarrow> 'a ledger_db_scheme \<Rightarrow> transaction_view option" where
  "repo_get_transaction user_id transaction_id db =
     map_option (transaction_view db)
       (select_one (\<lambda>t. tx_user t = user_id \<and> tx_id t = transaction_id) (transactions db))"

definition project_transaction :: "uuid \<Rightarrow> uuid \<Rightarrow> 'a ledger_db_scheme \<Rightarrow> transaction_view result" where
  "project_transaction user_id transaction_id db =
     require (RuntimeError ''inserted_transaction_not_visible'') (repo_get_transaction user_id transaction_id db)"

definition transaction_of_command ::
  "uuid \<Rightarrow> create_transaction_command \<Rightarrow> uuid option \<Rightarrow> uuid \<Rightarrow> transaction_row" where
  "transaction_of_command user_id command merchant_id new_id =
     \<lparr>tx_id = new_id, tx_user = user_id, tx_amount = numeric_19_4 (ct_amount command),
      tx_currency = ct_currency command, tx_type = ct_type command, tx_merchant = merchant_id,
      tx_category = ct_category_id command, tx_description = ct_description command,
      tx_date = ct_date command, tx_source = ct_source command, tx_confidence = ct_confidence command,
      tx_status = ct_status command, tx_category_source = ct_category_source command,
      tx_category_version = ct_category_version command,
      tx_category_confidence = ct_category_confidence command,
      tx_category_overridden = ct_category_overridden command\<rparr>"

text \<open>The two fresh ids are the one of a merchant, drawn only when the upsert inserts, and the transaction's.\<close>

definition repo_create_transaction ::
  "uuid \<Rightarrow> create_transaction_command \<Rightarrow> uuid \<times> uuid \<Rightarrow> 'a ledger_db_scheme \<Rightarrow>
   ('a ledger_db_scheme \<times> transaction_view) result" where
  "repo_create_transaction user_id command ids db =
     bindE (get_or_create_merchant command (fst ids) db) (\<lambda>(db1, merchant_id).
     bindE (insert_transaction (transaction_of_command user_id command merchant_id (snd ids)) db1) (\<lambda>db2.
     bindE (project_transaction user_id (snd ids) db2) (\<lambda>v. Inr (db2, v))))"

text \<open>The keyset predicate and the page query.\<close>

definition after_cursor :: "transaction_cursor option \<Rightarrow> transaction_row \<Rightarrow> bool" where
  "after_cursor after t =
     (case after of
        None \<Rightarrow> True
      | Some c \<Rightarrow> tx_date t < cur_occurred_at c \<or>
          tx_date t = cur_occurred_at c \<and> tx_id t < cur_transaction_id c)"

definition timeline_key :: "transaction_row \<Rightarrow> int \<times> int" where
  "timeline_key t = (- tx_date t, - int (tx_id t))"

definition repo_list_transactions ::
  "uuid \<Rightarrow> nat \<Rightarrow> transaction_cursor option \<Rightarrow> 'a ledger_db_scheme \<Rightarrow> transaction_view list" where
  "repo_list_transactions user_id limit after db =
     map (transaction_view db)
       (take limit (sort_key timeline_key
          (filter (\<lambda>t. tx_user t = user_id \<and> after_cursor after t) (transactions db))))"

section \<open>Aggregates\<close>

definition spending_types :: "transaction_type list" where
  "spending_types = [EXPENSE, SHARED_EXPENSE, REFUND]"

text \<open>The three \<open>CASE\<close> expressions of the repository.\<close>

definition spending_amount :: "transaction_row \<Rightarrow> money" where
  "spending_amount t =
     (if tx_type t = EXPENSE \<or> tx_type t = SHARED_EXPENSE then tx_amount t else - tx_amount t)"

definition summary_spending :: "transaction_row \<Rightarrow> money" where
  "summary_spending t =
     (if tx_type t = EXPENSE \<or> tx_type t = SHARED_EXPENSE then tx_amount t
      else if tx_type t = REFUND then - tx_amount t else 0)"

definition summary_income :: "transaction_row \<Rightarrow> money" where
  "summary_income t = (if tx_type t = INCOME then tx_amount t else 0)"

definition posted_in :: "uuid \<Rightarrow> string \<Rightarrow> instant \<Rightarrow> instant \<Rightarrow> transaction_row \<Rightarrow> bool" where
  "posted_in user_id currency start_utc end_utc t \<longleftrightarrow>
     tx_user t = user_id \<and> tx_currency t = currency \<and> tx_status t = POSTED \<and>
     start_utc \<le> tx_date t \<and> tx_date t < end_utc"

definition spending_rows ::
  "uuid \<Rightarrow> string \<Rightarrow> instant \<Rightarrow> instant \<Rightarrow> 'a ledger_db_scheme \<Rightarrow> transaction_row list" where
  "spending_rows user_id currency start_utc end_utc db =
     filter (\<lambda>t. posted_in user_id currency start_utc end_utc t \<and> tx_type t \<in> set spending_types)
       (transactions db)"

definition financial_totals ::
  "uuid \<Rightarrow> string \<Rightarrow> month_period \<Rightarrow> 'a ledger_db_scheme \<Rightarrow> money \<times> money \<times> nat" where
  "financial_totals user_id currency p db =
     (let rows = filter (posted_in user_id currency (mp_start_utc p) (mp_end_utc p)) (transactions db)
      in (sum_rows summary_spending rows, sum_rows summary_income rows, length rows))"

text \<open>\<open>GROUP BY key\<close> with a sum per group, one entry per key in order of first occurrence.\<close>

definition group_sums :: "('r \<Rightarrow> 'k) \<Rightarrow> ('r \<Rightarrow> int) \<Rightarrow> 'r list \<Rightarrow> ('k \<times> int) list" where
  "group_sums key f rows =
     map (\<lambda>k. (k, sum_rows f (filter (\<lambda>r. key r = k) rows))) (remdups (map key rows))"

text \<open>\<open>ORDER BY total DESC, name ASC\<close>; an absent name sorts last.\<close>

definition total_order_key ::
  "(string \<Rightarrow> 'k::linorder) \<Rightarrow> (uuid option \<times> string option) \<times> int \<Rightarrow> int \<times> bool \<times> 'k" where
  "total_order_key coll g =
     (- snd g, snd (fst g) = None, case snd (fst g) of None \<Rightarrow> coll [] | Some n \<Rightarrow> coll n)"

definition coalesce_name :: "string \<Rightarrow> (uuid option \<times> string option) \<times> int \<Rightarrow> uuid option \<times> string \<times> money" where
  "coalesce_name unnamed g =
     (fst (fst g), case snd (fst g) of None \<Rightarrow> unnamed | Some n \<Rightarrow> n, snd g)"

definition merchant_totals ::
  "(string \<Rightarrow> 'k::linorder) \<Rightarrow> uuid \<Rightarrow> string \<Rightarrow> month_period \<Rightarrow> 'a ledger_db_scheme \<Rightarrow>
   (uuid option \<times> string \<times> money) list" where
  "merchant_totals coll user_id currency p db =
     map (coalesce_name ''No merchant'') (sort_key (total_order_key coll)
       (group_sums (\<lambda>t. (tx_merchant t, merchant_display db (tx_merchant t))) spending_amount
          (spending_rows user_id currency (mp_start_utc p) (mp_end_utc p) db)))"

definition category_totals ::
  "(string \<Rightarrow> 'k::linorder) \<Rightarrow> uuid \<Rightarrow> string \<Rightarrow> month_period \<Rightarrow> 'a ledger_db_scheme \<Rightarrow>
   (uuid option \<times> string \<times> money) list" where
  "category_totals coll user_id currency p db =
     map (coalesce_name ''Uncategorized'') (sort_key (total_order_key coll)
       (group_sums (\<lambda>t. (tx_category t, category_display db (tx_category t))) spending_amount
          (spending_rows user_id currency (mp_start_utc p) (mp_end_utc p) db)))"

text \<open>\<open>date_trunc('month', timezone(name, t))\<close> as a date.\<close>

definition local_month :: "tzdata \<Rightarrow> string \<Rightarrow> transaction_row \<Rightarrow> date" where
  "local_month tz zone t = (let d = wall_date (tz_local tz zone (tx_date t)) in Date (year d) (month d) 1)"

definition monthly_totals ::
  "tzdata \<Rightarrow> uuid \<Rightarrow> string \<Rightarrow> string \<Rightarrow> instant \<Rightarrow> instant \<Rightarrow> 'a ledger_db_scheme \<Rightarrow> (date \<times> money) list" where
  "monthly_totals tz user_id currency zone start_utc end_utc db =
     sort_key fst (group_sums (local_month tz zone) spending_amount
       (spending_rows user_id currency start_utc end_utc db))"

section \<open>The store invariant\<close>

text \<open>
  Keys are unique, every row satisfies its constraints, and the category a transaction names is
  one its owner may see.
\<close>

definition transaction_ok :: "'a ledger_db_scheme \<Rightarrow> transaction_row \<Rightarrow> bool" where
  "transaction_ok db t \<longleftrightarrow>
     transaction_checks t \<and> fk_user db (tx_user t) \<and> fk_merchant db (tx_merchant t) \<and>
     (case tx_category t of None \<Rightarrow> True | Some c \<Rightarrow> category_is_visible (tx_user t) c db)"

definition ledger_wf :: "'a ledger_db_scheme \<Rightarrow> bool" where
  "ledger_wf db \<longleftrightarrow>
     distinct (map usr_id (users db)) \<and> distinct (map cat_id (categories db)) \<and>
     distinct (map (\<lambda>c. (cat_user c, cat_normalized c)) (categories db)) \<and>
     distinct (map mer_id (merchants db)) \<and> distinct (map mer_normalized (merchants db)) \<and>
     distinct (map tx_id (transactions db)) \<and> list_all (transaction_ok db) (transactions db)"

lemma category_is_visible_iff:
  "category_is_visible u c db \<longleftrightarrow> (\<exists>r \<in> set (categories db). cat_id r = c \<and> visible_to u r)"
  by (simp only: category_is_visible_def select_one_ex)

lemma category_is_visible_fk: "category_is_visible u c db \<Longrightarrow> fk_category db (Some c)"
  by (auto simp: category_is_visible_iff fk_category_def)

lemma category_name_is_visible_iff:
  "category_name_is_visible u n db \<longleftrightarrow> (\<exists>r \<in> set (categories db). cat_normalized r = n \<and> visible_to u r)"
  by (simp only: category_name_is_visible_def select_one_ex)

lemma get_user_Some: "get_user u db = Some v \<Longrightarrow> fk_user db u \<and> uv_id v = u"
  by (auto simp: get_user_def fk_user_def dest!: select_one_SomeD)

lemma transaction_ok_cong:
  assumes "transaction_ok db t" "set (map usr_id (users db)) \<subseteq> set (map usr_id (users db'))"
    "set (categories db) \<subseteq> set (categories db')" "set (map mer_id (merchants db)) \<subseteq> set (map mer_id (merchants db'))"
  shows "transaction_ok db' t"
  using assms
  by (auto simp: transaction_ok_def fk_user_def fk_merchant_def category_is_visible_iff split: option.splits)

lemma insert_category_Inr:
  "insert_category c db = Inr db' \<longleftrightarrow>
    category_checks c \<and> fk_category db (cat_parent c) \<and>
    (case cat_user c of None \<Rightarrow> True | Some u \<Rightarrow> fk_user db u) \<and>
    (cat_user c, cat_normalized c) \<notin> (\<lambda>r. (cat_user r, cat_normalized r)) ` set (categories db) \<and>
    cat_id c \<notin> cat_id ` set (categories db) \<and> db' = db\<lparr>categories := categories db @ [c]\<rparr>"
  by (auto simp: insert_category_def result_simps table_simps)

lemma insert_transaction_Inr:
  "insert_transaction t db = Inr db' \<longleftrightarrow>
    transaction_checks t \<and> fk_user db (tx_user t) \<and> fk_category db (tx_category t) \<and> fk_merchant db (tx_merchant t) \<and>
    tx_id t \<notin> tx_id ` set (transactions db) \<and> db' = db\<lparr>transactions := transactions db @ [t]\<rparr>"
  by (auto simp: insert_transaction_def result_simps table_simps)

lemma insert_category_wf:
  assumes "insert_category c db = Inr db'" "ledger_wf db"
  shows "ledger_wf db'"
  using assms transaction_ok_cong [of db _ db']
  by (auto simp: insert_category_Inr ledger_wf_def list_all_iff)

lemma insert_transaction_wf:
  assumes "insert_transaction t db = Inr db'" "ledger_wf db" "transaction_ok db t"
  shows "ledger_wf db'"
  using assms transaction_ok_cong [of db _ db']
  by (auto simp: insert_transaction_Inr ledger_wf_def list_all_iff)

lemma upsert_merchant_Inr:
  assumes "upsert_merchant display_name normalized_name new_id db = Inr (db', m)"
  shows "(\<exists>r \<in> set (merchants db). mer_normalized r = normalized_name \<and> m = mer_id r \<and> db' = db) \<or>
    normalized_name \<notin> mer_normalized ` set (merchants db) \<and> new_id \<notin> mer_id ` set (merchants db) \<and> m = new_id \<and>
    db' = db\<lparr>merchants := merchants db @ [\<lparr>mer_id = new_id, mer_normalized = normalized_name,
      mer_display = display_name\<rparr>]\<rparr>"
  using assms
  by (auto simp: upsert_merchant_def Let_def result_simps table_simps select_one_None image_iff
      split: option.splits dest: select_one_SomeD)

lemma upsert_merchant_wf:
  assumes "upsert_merchant display_name normalized_name new_id db = Inr (db', m)" "ledger_wf db"
  shows "ledger_wf db' \<and> fk_merchant db' (Some m) \<and>
    (\<exists>r \<in> set (merchants db'). mer_id r = m \<and> mer_normalized r = normalized_name) \<and>
    set (merchants db) \<subseteq> set (merchants db')"
  using upsert_merchant_Inr [OF assms(1)] assms(2) transaction_ok_cong [of db _ db']
  by (auto simp: ledger_wf_def list_all_iff fk_merchant_def subset_insertI)

lemma upsert_merchant_frame:
  assumes "upsert_merchant display_name normalized_name new_id db = Inr (db', m)"
  shows "users db' = users db \<and> categories db' = categories db \<and> transactions db' = transactions db \<and>
    ledger_db.more db' = ledger_db.more db"
  using upsert_merchant_Inr [OF assms] by auto

lemma get_or_create_merchant_wf:
  assumes "get_or_create_merchant command new_id db = Inr (db', m)" "ledger_wf db"
  shows "ledger_wf db' \<and> fk_merchant db' m \<and> set (merchants db) \<subseteq> set (merchants db')"
  using assms upsert_merchant_wf
  by (auto simp: get_or_create_merchant_def result_simps fk_merchant_def split: option.splits) blast+

lemma get_or_create_merchant_frame:
  assumes "get_or_create_merchant command new_id db = Inr (db', m)"
  shows "users db' = users db \<and> categories db' = categories db \<and> transactions db' = transactions db \<and>
    ledger_db.more db' = ledger_db.more db"
  using assms upsert_merchant_frame
  by (auto simp: get_or_create_merchant_def result_simps split: option.splits) blast+

lemma repo_create_transaction_Inr:
  assumes "repo_create_transaction u command ids db = Inr (db', v)"
  shows "\<exists>db1 m. get_or_create_merchant command (fst ids) db = Inr (db1, m) \<and>
    insert_transaction (transaction_of_command u command m (snd ids)) db1 = Inr db' \<and>
    repo_get_transaction u (snd ids) db' = Some v"
  using assms by (auto simp: repo_create_transaction_def project_transaction_def result_simps)

lemma repo_create_transaction_wf:
  assumes "repo_create_transaction u command ids db = Inr (db', v)" "ledger_wf db"
    "case ct_category_id command of None \<Rightarrow> True | Some c \<Rightarrow> category_is_visible u c db"
  shows "ledger_wf db'"
proof -
  from repo_create_transaction_Inr [OF assms(1)] obtain db1 m where
    g: "get_or_create_merchant command (fst ids) db = Inr (db1, m)" and
    i: "insert_transaction (transaction_of_command u command m (snd ids)) db1 = Inr db'" by blast
  from g get_or_create_merchant_wf assms(2) have wf: "ledger_wf db1" by blast
  from get_or_create_merchant_frame [OF g] assms(3)
  have "case ct_category_id command of None \<Rightarrow> True | Some c \<Rightarrow> category_is_visible u c db1"
    by (simp add: category_is_visible_def split: option.splits)
  with i have "transaction_ok db1 (transaction_of_command u command m (snd ids))"
    by (simp add: insert_transaction_Inr transaction_ok_def transaction_of_command_def split: option.splits)
  from insert_transaction_wf [OF i wf this] show ?thesis .
qed

lemma group_sums_total: "sum_list (map snd (group_sums key f rows)) = sum_rows f rows"
proof -
  have "sum_list (map snd (group_sums key f rows)) =
      (\<Sum>k\<leftarrow>remdups (map key rows). sum_rows f (filter (\<lambda>r. key r = k) rows))"
    by (simp add: group_sums_def comp_def)
  also have "\<dots> = sum_rows f rows"
    by (rule sum_rows_partition) auto
  finally show ?thesis .
qed

lemma group_sums_keys: "distinct (map fst (group_sums key f rows))"
  by (simp add: group_sums_def comp_def)

lemma map_of_group_sums:
  "map_of (group_sums key f rows) k =
    (if k \<in> key ` set rows then Some (sum_rows f (filter (\<lambda>r. key r = k) rows)) else None)"
  by (auto simp: group_sums_def map_of_map_restrict restrict_map_def)

lemma sum_list_map_sort: "sum_list (map f (sort_key k xs)) = sum_list (map f xs)" for f :: "'b \<Rightarrow> int"
proof -
  have "mset (map f (sort_key k xs)) = mset (map f xs)" by simp
  then show ?thesis by (metis sum_mset_sum_list)
qed

section \<open>A sample store\<close>

text \<open>
  Two users, a system category, a private category of each, one merchant and one transaction: a
  concrete store for the instances of the properties.
\<close>

definition sample_users :: "user_row list" where
  "sample_users =
     [\<lparr>usr_id = 1, usr_email = ''a@x.io'', usr_name = ''A'', usr_default_currency = ''INR'', usr_timezone = ''UTC''\<rparr>,
      \<lparr>usr_id = 2, usr_email = ''b@x.io'', usr_name = ''B'', usr_default_currency = ''USD'', usr_timezone = ''UTC''\<rparr>]"

definition sample_categories :: "category_row list" where
  "sample_categories =
     [\<lparr>cat_id = 10, cat_user = None, cat_name = ''Food'', cat_normalized = ''food'', cat_parent = None\<rparr>,
      \<lparr>cat_id = 11, cat_user = Some 1, cat_name = ''Cafe'', cat_normalized = ''cafe'', cat_parent = None\<rparr>,
      \<lparr>cat_id = 12, cat_user = Some 2, cat_name = ''Cafe'', cat_normalized = ''cafe'', cat_parent = None\<rparr>]"

definition sample_merchants :: "merchant_row list" where
  "sample_merchants = [\<lparr>mer_id = 20, mer_normalized = ''blue tokai'', mer_display = ''Blue Tokai''\<rparr>]"

definition sample_transaction :: transaction_row where
  "sample_transaction =
     \<lparr>tx_id = 30, tx_user = 1, tx_amount = 2500000, tx_currency = ''INR'', tx_type = EXPENSE,
      tx_merchant = Some 20, tx_category = Some 10, tx_description = ''Lunch'', tx_date = 1778500000000000,
      tx_source = MANUAL, tx_confidence = None, tx_status = POSTED, tx_category_source = None,
      tx_category_version = None, tx_category_confidence = None, tx_category_overridden = False\<rparr>"

lemmas sample_defs = sample_users_def sample_categories_def sample_merchants_def sample_transaction_def

end
