(* ===== verification/Categorization.thy ===== *)
theory Categorization
  imports Ledger_Store "HOL-Library.Sublist"
begin

text \<open>
  Categorization of transactions: the pure retrieval policy (\<open>categorization/policy.py\<close>), the
  tables of \<open>models/categorization.py\<close>, the classification cascade and the audited corrections
  of \<open>categorization/repository.py\<close>, and the use cases of \<open>categorization/service.py\<close>.
\<close>

section \<open>Retrieval policy\<close>

definition CLASSIFIER_VERSION :: string where "CLASSIFIER_VERSION = ''categorization-v1''"
definition RETRIEVAL_THRESHOLD :: int where "RETRIEVAL_THRESHOLD = 6000"

record category_assignment =
  as_category :: uuid
  as_source :: categorization_source
  as_version :: string
  as_confidence :: int
  as_overridden :: bool

definition normalized_words :: "string \<Rightarrow> string list" where
  "normalized_words v = remdups (filter (\<lambda>w. 1 < length w) (split_words (casefold v)))"

text \<open>\<open>(Decimal(n) / Decimal(m)).quantize(Decimal("0.0001"))\<close> for \<open>0 < m\<close>, in ten-thousandths.\<close>

definition quotient_4 :: "int \<Rightarrow> int \<Rightarrow> int" where
  "quotient_4 n m =
     (if n = 0 then 0
      else let (c, k) = context_div n m; (p, d) = at_scale c (- k) 4 in half_even p d)"

definition jaccard :: "string \<Rightarrow> string \<Rightarrow> int" where
  "jaccard left right =
     (let left_words = normalized_words left; right_words = normalized_words right;
          union = remdups (left_words @ right_words)
      in if union = [] then 0
         else quotient_4 (int (length (filter (\<lambda>w. w \<in> set right_words) left_words))) (int (length union)))"

definition retrieval_assignment :: "string \<Rightarrow> (string \<times> uuid) list \<Rightarrow> category_assignment option" where
  "retrieval_assignment description candidates =
     (let scored = map (\<lambda>(candidate, category_id). (jaccard description candidate, category_id)) candidates;
          eligible = filter (\<lambda>(score, category_id). RETRIEVAL_THRESHOLD \<le> score) scored
      in if eligible = [] then None
         else let best_score = Max (set (map fst eligible));
                  best_categories = remdups (map snd (filter (\<lambda>(score, category_id). score = best_score) eligible))
              in if length best_categories \<noteq> 1 then None
                 else Some \<lparr>as_category = hd best_categories, as_source = RETRIEVAL,
                        as_version = CLASSIFIER_VERSION, as_confidence = best_score, as_overridden = False\<rparr>)"

section \<open>Tables\<close>

record category_rule_row =
  crl_id :: uuid
  crl_user :: uuid
  crl_pattern :: string
  crl_category :: uuid
  crl_priority :: int
  crl_enabled :: bool
  crl_created_at :: instant

record merchant_map_row =
  mcm_id :: uuid
  mcm_user :: uuid
  mcm_merchant :: uuid
  mcm_category :: uuid
  mcm_verified :: bool

record correction_row =
  cor_id :: uuid
  cor_user :: uuid
  cor_transaction :: uuid
  cor_previous :: "uuid option"
  cor_corrected :: uuid
  cor_merchant :: "uuid option"
  cor_description :: string
  cor_version :: string
  cor_confidence :: int
  cor_created_at :: instant

record categorization_db = ledger_db +
  category_rules :: "category_rule_row list"
  merchant_maps :: "merchant_map_row list"
  corrections :: "correction_row list"

record correction_view =
  cv_id :: uuid
  cv_transaction :: uuid
  cv_previous_name :: "string option"
  cv_corrected_name :: string
  cv_version :: string
  cv_confidence :: int
  cv_created_at :: instant

record category_rule_view =
  rv_id :: uuid
  rv_pattern :: string
  rv_category :: uuid
  rv_category_name :: string
  rv_priority :: int
  rv_enabled :: bool

section \<open>Classification\<close>

definition assignment :: "uuid \<Rightarrow> categorization_source \<Rightarrow> category_assignment" where
  "assignment c source =
     \<lparr>as_category = c, as_source = source, as_version = CLASSIFIER_VERSION, as_confidence = 10000,
      as_overridden = False\<rparr>"

definition enabled_rules :: "uuid \<Rightarrow> 'a categorization_db_scheme \<Rightarrow> category_rule_row list" where
  "enabled_rules user_id db =
     sort_key (\<lambda>r. (crl_priority r, crl_created_at r, crl_id r))
       (filter (\<lambda>r. crl_user r = user_id \<and> crl_enabled r) (category_rules db))"

definition mapped_category :: "uuid \<Rightarrow> string option \<Rightarrow> 'a categorization_db_scheme \<Rightarrow> uuid option" where
  "mapped_category user_id merchant_normalized db =
     (case merchant_normalized of
        None \<Rightarrow> None
      | Some n \<Rightarrow>
          if n = [] then None
          else Option.bind (map_option mer_id (select_one (\<lambda>m. mer_normalized m = n) (merchants db))) (\<lambda>i.
            map_option mcm_category (select_one (\<lambda>m. mcm_user m = user_id \<and> mcm_merchant m = i \<and> mcm_verified m)
              (merchant_maps db))))"

definition exact_correction :: "uuid \<Rightarrow> string \<Rightarrow> 'a categorization_db_scheme \<Rightarrow> uuid option" where
  "exact_correction user_id normalized db =
     (case sort_key (\<lambda>r. (- cor_created_at r, - int (cor_id r)))
        (filter (\<lambda>r. cor_user r = user_id \<and> cor_description r = normalized) (corrections db)) of
        [] \<Rightarrow> None
      | r # _ \<Rightarrow> Some (cor_corrected r))"

definition recent_corrections :: "uuid \<Rightarrow> 'a categorization_db_scheme \<Rightarrow> (string \<times> uuid) list" where
  "recent_corrections user_id db =
     map (\<lambda>r. (cor_description r, cor_corrected r))
       (take 200 (sort_key (\<lambda>r. - cor_created_at r) (filter (\<lambda>r. cor_user r = user_id) (corrections db))))"

definition classify ::
  "uuid \<Rightarrow> string \<Rightarrow> string option \<Rightarrow> 'a categorization_db_scheme \<Rightarrow> category_assignment option" where
  "classify user_id description merchant_normalized db =
     (let normalized = casefold description
      in case select_one (\<lambda>r. sublist (crl_pattern r) normalized) (enabled_rules user_id db) of
          Some r \<Rightarrow> Some (assignment (crl_category r) USER_RULE)
        | None \<Rightarrow>
      case mapped_category user_id merchant_normalized db of
          Some c \<Rightarrow> Some (assignment c MERCHANT_MAP)
        | None \<Rightarrow>
      case exact_correction user_id normalized db of
          Some c \<Rightarrow> Some (assignment c VERIFIED_CORRECTION)
        | None \<Rightarrow> retrieval_assignment normalized (recent_corrections user_id db))"

section \<open>Corrections and rules\<close>

definition corrected_transaction :: "uuid \<Rightarrow> transaction_row \<Rightarrow> transaction_row" where
  "corrected_transaction category_id t =
     t\<lparr>tx_category := Some category_id, tx_category_source := Some USER_OVERRIDE,
       tx_category_version := Some CLASSIFIER_VERSION, tx_category_confidence := Some 10000,
       tx_category_overridden := True\<rparr>"

text \<open>\<open>INSERT ... ON CONFLICT (user_id, merchant_id) DO UPDATE\<close>.\<close>

definition upsert_merchant_map ::
  "uuid \<Rightarrow> uuid \<Rightarrow> uuid \<Rightarrow> uuid \<Rightarrow> merchant_map_row list \<Rightarrow> (merchant_map_row list) result" where
  "upsert_merchant_map user_id merchant_id category_id new_id rows =
     (if list_ex (\<lambda>m. mcm_user m = user_id \<and> mcm_merchant m = merchant_id) rows
      then Inr (modify_rows (\<lambda>m. mcm_user m = user_id \<and> mcm_merchant m = merchant_id)
                  (\<lambda>m. m\<lparr>mcm_category := category_id, mcm_verified := True\<rparr>) rows)
      else insert_row mcm_id \<lparr>mcm_id = new_id, mcm_user = user_id, mcm_merchant = merchant_id,
             mcm_category = category_id, mcm_verified = True\<rparr> rows)"

definition correction_of ::
  "uuid \<Rightarrow> transaction_row \<Rightarrow> uuid \<Rightarrow> instant \<Rightarrow> uuid \<Rightarrow> correction_row" where
  "correction_of user_id t category_id now new_id =
     \<lparr>cor_id = new_id, cor_user = user_id, cor_transaction = tx_id t, cor_previous = tx_category t,
      cor_corrected = category_id, cor_merchant = tx_merchant t,
      cor_description = casefold (tx_description t), cor_version = CLASSIFIER_VERSION,
      cor_confidence = 10000, cor_created_at = now\<rparr>"

definition repo_correct ::
  "uuid \<Rightarrow> uuid \<Rightarrow> uuid \<Rightarrow> instant \<Rightarrow> uuid \<times> uuid \<Rightarrow> 'a categorization_db_scheme \<Rightarrow>
   ('a categorization_db_scheme \<times> correction_view option) result" where
  "repo_correct user_id transaction_id category_id now ids db =
     (case select_one (\<lambda>t. tx_user t = user_id \<and> tx_id t = transaction_id) (transactions db) of
        None \<Rightarrow> Inr (db, None)
      | Some t \<Rightarrow>
          let correction = correction_of user_id t category_id now (fst ids) in
          bindE (ensure (fk_category db (Some category_id) \<and> not_blank (cor_description correction))
                   (IntegrityError ''user_corrections'')) (\<lambda>_.
          bindE (insert_row cor_id correction (corrections db)) (\<lambda>correction_rows.
          bindE (case tx_merchant t of
                   None \<Rightarrow> Inr (merchant_maps db)
                 | Some m \<Rightarrow> upsert_merchant_map user_id m category_id (snd ids) (merchant_maps db)) (\<lambda>map_rows.
          bindE (require (RuntimeError ''KeyError'') (category_display db (Some category_id))) (\<lambda>corrected_name.
            Inr (db\<lparr>transactions := modify_rows (\<lambda>r. tx_id r = transaction_id) (corrected_transaction category_id)
                                     (transactions db),
                    merchant_maps := map_rows, corrections := correction_rows\<rparr>,
                 Some \<lparr>cv_id = fst ids, cv_transaction = tx_id t,
                   cv_previous_name = category_display db (tx_category t), cv_corrected_name = corrected_name,
                   cv_version = CLASSIFIER_VERSION, cv_confidence = 10000, cv_created_at = now\<rparr>))))))"

definition repo_list_corrections :: "uuid \<Rightarrow> 'a categorization_db_scheme \<Rightarrow> correction_view list" where
  "repo_list_corrections user_id db =
     List.map_filter (\<lambda>r. map_option (\<lambda>name.
         \<lparr>cv_id = cor_id r, cv_transaction = cor_transaction r,
          cv_previous_name = category_display db (cor_previous r), cv_corrected_name = name,
          cv_version = cor_version r, cv_confidence = cor_confidence r, cv_created_at = cor_created_at r\<rparr>)
         (category_display db (Some (cor_corrected r))))
       (take 100 (sort_key (\<lambda>r. (- cor_created_at r, - int (cor_id r)))
          (filter (\<lambda>r. cor_user r = user_id \<and> category_display db (Some (cor_corrected r)) \<noteq> None)
             (corrections db))))"

definition repo_create_rule ::
  "uuid \<Rightarrow> string \<Rightarrow> uuid \<Rightarrow> int \<Rightarrow> instant \<Rightarrow> uuid \<Rightarrow> 'a categorization_db_scheme \<Rightarrow>
   ('a categorization_db_scheme \<times> category_rule_view) result" where
  "repo_create_rule user_id pattern category_id priority now new_id db =
     bindE (ensure (fk_user db user_id \<and> fk_category db (Some category_id) \<and> not_blank pattern)
              (IntegrityError ''category_rules'')) (\<lambda>_.
     bindE (ensure (\<not> list_ex (\<lambda>r. crl_user r = user_id \<and> crl_pattern r = pattern) (category_rules db))
              (IntegrityError ''uq_category_rules_user_pattern'')) (\<lambda>_.
     bindE (insert_row crl_id \<lparr>crl_id = new_id, crl_user = user_id, crl_pattern = pattern,
         crl_category = category_id, crl_priority = priority, crl_enabled = True, crl_created_at = now\<rparr>
         (category_rules db)) (\<lambda>rows.
     bindE (require (RuntimeError ''KeyError'') (category_display db (Some category_id))) (\<lambda>name.
       Inr (db\<lparr>category_rules := rows\<rparr>,
            \<lparr>rv_id = new_id, rv_pattern = pattern, rv_category = category_id, rv_category_name = name,
             rv_priority = priority, rv_enabled = True\<rparr>)))))"

section \<open>The service\<close>

definition category_not_found :: "string \<Rightarrow> error" where
  "category_not_found field = LedgerNotFoundError ''CATEGORY_NOT_FOUND'' (Some field)"

definition correct_transaction ::
  "uuid \<Rightarrow> uuid \<Rightarrow> uuid \<Rightarrow> instant \<Rightarrow> uuid \<times> uuid \<Rightarrow> 'a categorization_db_scheme \<Rightarrow>
   ('a categorization_db_scheme \<times> correction_view) result" where
  "correct_transaction user_id transaction_id category_id now ids db =
     bindE (ensure (category_is_visible user_id category_id db) (category_not_found ''categoryId'')) (\<lambda>_.
     bindE (repo_correct user_id transaction_id category_id now ids db) (\<lambda>(db', v).
     bindE (require (LedgerNotFoundError ''TRANSACTION_NOT_FOUND'' (Some ''transactionId'')) v) (\<lambda>view.
       Inr (db', view))))"

definition list_corrections :: "uuid \<Rightarrow> 'a categorization_db_scheme \<Rightarrow> correction_view list" where
  "list_corrections user_id db = repo_list_corrections user_id db"

definition create_rule ::
  "uuid \<Rightarrow> string \<Rightarrow> uuid \<Rightarrow> int \<Rightarrow> instant \<Rightarrow> uuid \<Rightarrow> 'a categorization_db_scheme \<Rightarrow>
   ('a categorization_db_scheme \<times> category_rule_view) result" where
  "create_rule user_id pattern category_id priority now new_id db =
     (let parsed = casefold (normalize_display_text pattern)
      in if parsed = [] \<or> 120 < length parsed
         then Inl (ledger_invalid ''INVALID_RULE_PATTERN'' ''pattern'')
         else if priority < 0 \<or> 1000 < priority
         then Inl (ledger_invalid ''INVALID_RULE_PRIORITY'' ''priority'')
         else bindE (ensure (category_is_visible user_id category_id db) (category_not_found ''categoryId'')) (\<lambda>_.
           repo_create_rule user_id parsed category_id priority now new_id db))"

section \<open>Tenant safety of what is learned\<close>

text \<open>
  On top of the store invariant: every rule, merchant map and correction names a category its
  owner may see, and a user has one map per merchant.
\<close>

definition learned_ok :: "'a categorization_db_scheme \<Rightarrow> bool" where
  "learned_ok db \<longleftrightarrow>
     list_all (\<lambda>r. category_is_visible (crl_user r) (crl_category r) db) (category_rules db) \<and>
     list_all (\<lambda>m. category_is_visible (mcm_user m) (mcm_category m) db) (merchant_maps db) \<and>
     list_all (\<lambda>r. category_is_visible (cor_user r) (cor_corrected r) db) (corrections db) \<and>
     distinct (map (\<lambda>m. (mcm_user m, mcm_merchant m)) (merchant_maps db))"

definition categorization_wf :: "'a categorization_db_scheme \<Rightarrow> bool" where
  "categorization_wf db \<longleftrightarrow> ledger_wf db \<and> learned_ok db"

lemma learned_ok_cong:
  assumes "learned_ok db" "set (categories db) \<subseteq> set (categories db')"
    "category_rules db' = category_rules db" "merchant_maps db' = merchant_maps db"
    "corrections db' = corrections db"
  shows "learned_ok db'"
  using assms by (auto simp: learned_ok_def list_all_iff category_is_visible_iff) blast+

lemma retrieval_assignment_Some:
  assumes "retrieval_assignment d candidates = Some a"
  shows "\<exists>line. (line, as_category a) \<in> set candidates \<and> as_confidence a = jaccard d line \<and>
    RETRIEVAL_THRESHOLD \<le> as_confidence a \<and> as_source a = RETRIEVAL \<and> as_overridden a = False \<and>
    (\<forall>(line2, c') \<in> set candidates. jaccard d line2 \<le> as_confidence a \<and>
       (jaccard d line2 = as_confidence a \<longrightarrow> c' = as_category a))"
proof -
  let ?scored = "map (\<lambda>(candidate, category_id). (jaccard d candidate, category_id)) candidates"
  let ?eligible = "filter (\<lambda>(score, category_id). RETRIEVAL_THRESHOLD \<le> score) ?scored"
  let ?best = "Max (set (map fst ?eligible))"
  let ?cats = "remdups (map snd (filter (\<lambda>(score, category_id). score = ?best) ?eligible))"
  from assms have ne: "?eligible \<noteq> []" and one: "length ?cats = 1" and
    a: "a = \<lparr>as_category = hd ?cats, as_source = RETRIEVAL, as_version = CLASSIFIER_VERSION,
      as_confidence = ?best, as_overridden = False\<rparr>"
    by (simp_all add: retrieval_assignment_def Let_def split: if_splits)
  obtain c where c: "?cats = [c]" using one by (cases ?cats) auto
  then have cs: "set (map snd (filter (\<lambda>(score, category_id). score = ?best) ?eligible)) = {c}"
    by (metis empty_set list.simps(15) set_remdups)
  have fin: "finite (set (map fst ?eligible))" "set (map fst ?eligible) \<noteq> {}"
    using ne by (simp_all only: set_empty map_is_Nil_conv finite_set not_False_eq_True)
  have thr: "RETRIEVAL_THRESHOLD \<le> ?best" using Max_in [OF fin] by auto
  have top: "jaccard d line2 \<le> ?best \<and> (jaccard d line2 = ?best \<longrightarrow> c' = c)"
    if "(line2, c') \<in> set candidates" for line2 c'
  proof (cases "RETRIEVAL_THRESHOLD \<le> jaccard d line2")
    case True
    with that have e: "(jaccard d line2, c') \<in> set ?eligible" by force
    then have "jaccard d line2 \<in> set (map fst ?eligible)" by force
    with fin have "jaccard d line2 \<le> ?best" by simp
    moreover have "c' = c" if "jaccard d line2 = ?best"
    proof -
      have "c' \<in> set (map snd (filter (\<lambda>(score, category_id). score = ?best) ?eligible))"
        using e that by force
      with cs show ?thesis by simp
    qed
    ultimately show ?thesis by simp
  next
    case False
    with thr show ?thesis by simp
  qed
  have "c \<in> set (map snd (filter (\<lambda>(score, category_id). score = ?best) ?eligible))" using cs by simp
  then obtain line where line: "(line, c) \<in> set candidates" "jaccard d line = ?best" by auto
  have best: "as_confidence a = ?best" and cat: "as_category a = c"
    and rest: "as_source a = RETRIEVAL" "as_overridden a = False"
    by (simp_all only: a c list.sel category_assignment.simps)
  have top': "jaccard d line2 \<le> as_confidence a \<and> (jaccard d line2 = as_confidence a \<longrightarrow> c' = as_category a)"
    if "(line2, c') \<in> set candidates" for line2 c'
    unfolding best cat by (rule top [OF that])
  from line thr have "(line, as_category a) \<in> set candidates" "as_confidence a = jaccard d line"
    "RETRIEVAL_THRESHOLD \<le> as_confidence a"
    unfolding best cat by simp_all
  with rest top' show ?thesis by (intro exI [of _ line] conjI) blast+
qed

lemma enabled_rules_set:
  "r \<in> set (enabled_rules u db) \<longleftrightarrow> r \<in> set (category_rules db) \<and> crl_user r = u \<and> crl_enabled r"
  by (auto simp: enabled_rules_def)

lemma mapped_category_Some:
  "mapped_category u n db = Some c \<Longrightarrow> \<exists>m \<in> set (merchant_maps db). mcm_user m = u \<and> mcm_category m = c"
  by (auto simp: mapped_category_def bind_eq_Some_conv split: option.splits if_splits dest!: select_one_SomeD)

lemma exact_correction_Some:
  assumes "exact_correction u n db = Some c"
  shows "\<exists>r \<in> set (corrections db). cor_user r = u \<and> cor_description r = n \<and> cor_corrected r = c"
proof -
  let ?rows = "filter (\<lambda>r. cor_user r = u \<and> cor_description r = n) (corrections db)"
  from assms obtain r rs where "sort_key (\<lambda>r. (- cor_created_at r, - int (cor_id r))) ?rows = r # rs" "cor_corrected r = c"
    by (auto simp: exact_correction_def split: list.splits)
  with sort_key_first [OF this(1)] show ?thesis by auto
qed

lemma recent_corrections_mem:
  "(line, c) \<in> set (recent_corrections u db) \<Longrightarrow> \<exists>r \<in> set (corrections db). cor_user r = u \<and> cor_corrected r = c"
  by (auto simp: recent_corrections_def dest!: in_set_takeD)

lemma classify_visible:
  assumes "learned_ok db" "classify u d n db = Some a"
  shows "category_is_visible u (as_category a) db"
proof -
  consider (rule) r where "r \<in> set (category_rules db)" "crl_user r = u" "as_category a = crl_category r"
    | (mapped) m where "m \<in> set (merchant_maps db)" "mcm_user m = u" "as_category a = mcm_category m"
    | (learned) r where "r \<in> set (corrections db)" "cor_user r = u" "as_category a = cor_corrected r"
    using assms(2)
    by (auto simp: classify_def Let_def assignment_def enabled_rules_set split: option.splits
        dest!: select_one_SomeD mapped_category_Some exact_correction_Some retrieval_assignment_Some
          recent_corrections_mem)
  then show ?thesis using assms(1) by cases (auto simp: learned_ok_def list_all_iff)
qed

lemma classify_version: "classify u d n db = Some a \<Longrightarrow> as_version a = CLASSIFIER_VERSION"
  by (auto simp: classify_def Let_def assignment_def retrieval_assignment_def split: option.splits if_splits)

lemma transaction_ok_corrected:
  assumes "transaction_ok db t" "category_is_visible (tx_user t) c db"
  shows "transaction_ok db (corrected_transaction c t)"
  using assms by (simp add: transaction_ok_def corrected_transaction_def transaction_checks_def CLASSIFIER_VERSION_def)

lemma repo_correct_Some:
  assumes "repo_correct u t c now ids db = Inr (db', Some v)"
  shows "\<exists>row rows. select_one (\<lambda>r. tx_user r = u \<and> tx_id r = t) (transactions db) = Some row \<and>
    fst ids \<notin> cor_id ` set (corrections db) \<and>
    (case tx_merchant row of None \<Rightarrow> rows = merchant_maps db
     | Some m \<Rightarrow> upsert_merchant_map u m c (snd ids) (merchant_maps db) = Inr rows) \<and>
    db' = db\<lparr>transactions := modify_rows (\<lambda>r. tx_id r = t) (corrected_transaction c) (transactions db),
      merchant_maps := rows, corrections := corrections db @ [correction_of u row c now (fst ids)]\<rparr> \<and>
    cv_transaction v = t \<and> cv_id v = fst ids"
  using assms
  by (auto simp: repo_correct_def Let_def result_simps table_simps correction_of_def split: option.splits
      dest!: select_one_SomeD)

lemma upsert_merchant_map_spec:
  assumes "upsert_merchant_map u m c i rows = Inr rows'"
    "distinct (map (\<lambda>m. (mcm_user m, mcm_merchant m)) rows)"
  shows "distinct (map (\<lambda>m. (mcm_user m, mcm_merchant m)) rows') \<and>
    (\<forall>r \<in> set rows'. r \<in> set rows \<or> mcm_user r = u \<and> mcm_merchant r = m \<and> mcm_category r = c \<and> mcm_verified r) \<and>
    (\<exists>r \<in> set rows'. mcm_user r = u \<and> mcm_merchant r = m \<and> mcm_category r = c \<and> mcm_verified r) \<and>
    (\<forall>r \<in> set rows'. mcm_user r = u \<and> mcm_merchant r = m \<longrightarrow> mcm_category r = c)"
proof (cases "list_ex (\<lambda>m'. mcm_user m' = u \<and> mcm_merchant m' = m) rows")
  case True
  then have rows': "rows' = modify_rows (\<lambda>m'. mcm_user m' = u \<and> mcm_merchant m' = m)
      (\<lambda>m'. m'\<lparr>mcm_category := c, mcm_verified := True\<rparr>) rows"
    using assms(1) by (simp add: upsert_merchant_map_def)
  have "map (\<lambda>m. (mcm_user m, mcm_merchant m)) rows' = map (\<lambda>m. (mcm_user m, mcm_merchant m)) rows"
    unfolding rows' by (rule map_key_modify_rows) simp
  moreover obtain m0 where "m0 \<in> set rows" "mcm_user m0 = u" "mcm_merchant m0 = m"
    using True by (auto simp: list_ex_iff)
  then have "m0\<lparr>mcm_category := c, mcm_verified := True\<rparr> \<in> set rows'"
    by (force simp: rows' set_modify_rows)
  then have "\<exists>r \<in> set rows'. mcm_user r = u \<and> mcm_merchant r = m \<and> mcm_category r = c \<and> mcm_verified r"
    using \<open>mcm_user m0 = u\<close> \<open>mcm_merchant m0 = m\<close> by (intro bexI) auto
  ultimately show ?thesis using assms(2)
    by (auto simp: rows' set_modify_rows split: if_splits)
next
  case False
  with assms(1) have "rows' = rows @ [\<lparr>mcm_id = i, mcm_user = u, mcm_merchant = m, mcm_category = c, mcm_verified = True\<rparr>]"
    by (simp only: upsert_merchant_map_def if_False insert_row_Inr)
  with False assms(2) show ?thesis by (auto simp: list_ex_iff image_iff)
qed

lemma repo_correct_wf:
  assumes "repo_correct u t c now ids db = Inr (db', Some v)" "category_is_visible u c db" "categorization_wf db"
  shows "categorization_wf db'"
proof -
  from repo_correct_Some [OF assms(1)] obtain row rows where
    row: "select_one (\<lambda>r. tx_user r = u \<and> tx_id r = t) (transactions db) = Some row" and
    rows: "case tx_merchant row of None \<Rightarrow> rows = merchant_maps db
       | Some m \<Rightarrow> upsert_merchant_map u m c (snd ids) (merchant_maps db) = Inr rows" and
    db': "db' = db\<lparr>transactions := modify_rows (\<lambda>r. tx_id r = t) (corrected_transaction c) (transactions db),
      merchant_maps := rows, corrections := corrections db @ [correction_of u row c now (fst ids)]\<rparr>"
    by blast
  from select_one_SomeD [OF row] have r: "row \<in> set (transactions db)" "tx_user row = u" "tx_id row = t" by auto
  have wf: "ledger_wf db" and ok: "learned_ok db" using assms(3) by (auto simp: categorization_wf_def)
  have cong: "transaction_ok db' x = transaction_ok db x" for x
    by (auto simp: db' transaction_ok_def fk_user_def fk_merchant_def category_is_visible_def split: option.splits)
  have owner: "tx_user x = u" if "x \<in> set (transactions db)" "tx_id x = t" for x
    using that r wf by (auto simp: ledger_wf_def distinct_map inj_on_def)
  have ids: "map tx_id (transactions db') = map tx_id (transactions db)"
    unfolding db' by (simp add: map_key_modify_rows corrected_transaction_def)
  have "transaction_ok db x" if "x \<in> set (transactions db')" for x
    using that wf owner transaction_ok_corrected [of db _ c] assms(2)
    by (auto simp: db' set_modify_rows ledger_wf_def list_all_iff split: if_splits)
  with wf ids cong have "ledger_wf db'"
    by (simp add: ledger_wf_def list_all_iff) (simp add: db')
  moreover have "learned_ok db'"
  proof -
    have vis: "category_is_visible a b db' = category_is_visible a b db" for a b
      by (simp add: db' category_is_visible_def)
    have "distinct (map (\<lambda>m. (mcm_user m, mcm_merchant m)) rows) \<and>
      (\<forall>m \<in> set rows. m \<in> set (merchant_maps db) \<or> mcm_user m = u \<and> mcm_category m = c)"
      using rows ok upsert_merchant_map_spec [of u _ c "snd ids" "merchant_maps db" rows]
      by (auto simp: learned_ok_def split: option.splits)
    with ok assms(2) show ?thesis
      unfolding learned_ok_def vis by (auto simp: db' list_all_iff correction_of_def)
  qed
  ultimately show ?thesis by (simp add: categorization_wf_def)
qed

lemma correct_transaction_Inr:
  "correct_transaction u t c now ids db = Inr (db', v) \<longleftrightarrow>
    category_is_visible u c db \<and> repo_correct u t c now ids db = Inr (db', Some v)"
  by (auto simp: correct_transaction_def result_simps)

lemma create_rule_Inr:
  assumes "create_rule u pattern c priority now new_id db = Inr (db', v)"
  shows "category_is_visible u c db \<and> 0 \<le> priority \<and> priority \<le> 1000 \<and>
    db' = db\<lparr>category_rules := category_rules db @ [\<lparr>crl_id = new_id, crl_user = u,
      crl_pattern = casefold (normalize_display_text pattern), crl_category = c, crl_priority = priority,
      crl_enabled = True, crl_created_at = now\<rparr>]\<rparr>"
  using assms
  by (auto simp: create_rule_def repo_create_rule_def result_simps table_simps Let_def split: if_splits)

lemma create_rule_wf:
  assumes "create_rule u pattern c priority now new_id db = Inr (db', v)" "categorization_wf db"
  shows "categorization_wf db'"
proof -
  note r = create_rule_Inr [OF assms(1)]
  have "transaction_ok db' x = transaction_ok db x" for x
    using r by (auto simp: transaction_ok_def fk_user_def fk_merchant_def category_is_visible_def split: option.splits)
  moreover have "category_is_visible a b db' = category_is_visible a b db" for a b
    using r by (auto simp: category_is_visible_def)
  moreover have "ledger_wf db" "learned_ok db" using assms(2) by (simp_all add: categorization_wf_def)
  ultimately have "ledger_wf db'" "learned_ok db'"
    using r by (simp_all add: ledger_wf_def learned_ok_def list_all_iff)
  then show ?thesis by (simp add: categorization_wf_def)
qed

lemma half_even_upper: "0 < m \<Longrightarrow> n \<le> b * m \<Longrightarrow> half_even n m \<le> b"
proof (rule ccontr)
  assume m: "0 < m" and n: "n \<le> b * m" and "\<not> half_even n m \<le> b"
  then have "(b + 1) * m \<le> half_even n m * m" by (intro mult_right_mono) auto
  with half_even_error [OF m, of n] n m show False by (simp add: abs_le_iff algebra_simps)
qed

lemma half_even_lower: "0 < m \<Longrightarrow> 0 \<le> n \<Longrightarrow> 0 \<le> half_even n m"
  by (auto simp: half_even_def Let_def pos_imp_zdiv_nonneg_iff)

lemma quotient_4_bounds:
  assumes "0 \<le> n" "n \<le> m" "0 < m"
  shows "0 \<le> quotient_4 n m \<and> quotient_4 n m \<le> 10000"
proof (cases "n = 0")
  case True
  then show ?thesis by (simp add: quotient_4_def)
next
  case False
  let ?k = "div_scale n m"
  let ?c = "half_even (n * 10 ^ nat ?k) m" and ?d = "10 ^ nat (?k - 4) :: int"
  have "ndigits n \<le> ndigits m"
    using ndigits_le [of n "ndigits m"] ndigits_bounds [OF assms(3)] False assms by simp
  then have k: "4 \<le> ?k" by (simp add: div_scale_def Let_def)
  have q: "quotient_4 n m = half_even ?c ?d"
    using False k by (simp add: quotient_4_def context_div_def at_scale_def Let_def)
  have "nat ?k = nat (?k - 4) + 4" using k by simp
  then have d: "(10 :: int) ^ nat ?k = 10000 * ?d" by (simp add: power_add)
  have "n * 10 ^ nat ?k \<le> 10 ^ nat ?k * m" using assms by (simp add: mult.commute mult_left_mono)
  then have "?c \<le> 10000 * ?d" using half_even_upper [OF assms(3)] d by simp
  then have "half_even ?c ?d \<le> 10000" by (rule half_even_upper [rotated]) simp
  moreover have "0 \<le> ?c" using assms by (intro half_even_lower) simp_all
  then have "0 \<le> half_even ?c ?d" by (rule half_even_lower [rotated]) simp
  ultimately show ?thesis by (simp only: q)
qed

lemma jaccard_bounds: "0 \<le> jaccard l r \<and> jaccard l r \<le> 10000"
proof -
  let ?l = "normalized_words l" and ?r = "normalized_words r"
  have "length (filter (\<lambda>w. w \<in> set ?r) ?l) = card (set ?l \<inter> set ?r)"
    by (subst distinct_card [symmetric]) (auto simp: normalized_words_def Int_def conj_commute)
  also have "\<dots> \<le> card (set (?l @ ?r))" by (intro card_mono) auto
  also have "\<dots> = length (remdups (?l @ ?r))" by (rule length_remdups_card_conv [symmetric])
  finally show ?thesis
    using quotient_4_bounds [of "int (length (filter (\<lambda>w. w \<in> set ?r) ?l))" "int (length (remdups (?l @ ?r)))"]
    by (auto simp: jaccard_def Let_def)
qed

lemma rule_first:
  assumes "r \<in> set (category_rules db)" "crl_user r = u" "crl_enabled r" "sublist (crl_pattern r) (casefold d)"
  shows "\<exists>s \<in> set (category_rules db). crl_user s = u \<and> crl_enabled s \<and> sublist (crl_pattern s) (casefold d) \<and>
    classify u d n db = Some (assignment (crl_category s) USER_RULE) \<and>
    (crl_priority s, crl_created_at s, crl_id s) \<le> (crl_priority r, crl_created_at r, crl_id r)"
proof -
  let ?P = "\<lambda>r. sublist (crl_pattern r) (casefold d)"
  have mem: "r \<in> set (enabled_rules u db)" using assms by (simp add: enabled_rules_set)
  then obtain s where s: "select_one ?P (enabled_rules u db) = Some s"
    using assms(4) select_one_ex [of ?P "enabled_rules u db"] by auto
  have "sorted (map (\<lambda>r. (crl_priority r, crl_created_at r, crl_id r)) (enabled_rules u db))"
    by (simp add: enabled_rules_def)
  from select_one_sorted [OF this s] mem assms(4) have
    "(crl_priority s, crl_created_at s, crl_id s) \<le> (crl_priority r, crl_created_at r, crl_id r)" by blast
  moreover have "classify u d n db = Some (assignment (crl_category s) USER_RULE)"
    using s by (simp add: classify_def)
  ultimately show ?thesis using select_one_SomeD [OF s] by (auto simp: enabled_rules_set)
qed

definition sample_categorization :: categorization_db where
  "sample_categorization =
     \<lparr>users = sample_users, categories = sample_categories, merchants = sample_merchants,
      transactions = [sample_transaction],
      category_rules = [\<lparr>crl_id = 40, crl_user = 1, crl_pattern = ''metro'', crl_category = 11,
        crl_priority = 100, crl_enabled = True, crl_created_at = 3\<rparr>],
      merchant_maps = [], corrections = []\<rparr>"

lemma sample_categorization_wf: "categorization_wf sample_categorization"
  by (simp add: categorization_wf_def ledger_wf_def learned_ok_def sample_categorization_def sample_defs
      transaction_ok_def transaction_checks_def fk_user_def fk_merchant_def category_is_visible_def
      visible_to_def currency_pattern_def is_upper_letter_def not_blank_def)

lemma sample_correction:
  "\<exists>db' v. correct_transaction 1 30 11 5 (50, 51) sample_categorization = Inr (db', v)"
  by (simp add: correct_transaction_def repo_correct_def sample_categorization_def sample_defs
      category_is_visible_def visible_to_def fk_category_def not_blank_def correction_of_def
      upsert_merchant_map_def insert_row_def category_display_def casefold_def ascii_lower_def)

section \<open>Properties\<close>

text \<open>
  An enabled rule of the user whose pattern occurs in the case-folded description decides the
  category, whatever maps and corrections say, and among the matching rules the one with the
  smallest priority, then the oldest, then the smallest id.
\<close>

theorem user_rule_decides:
  assumes "r \<in> set (category_rules db)" "crl_user r = u" "crl_enabled r" "sublist (crl_pattern r) (casefold d)"
  shows "\<exists>s \<in> set (category_rules db). crl_user s = u \<and> crl_enabled s \<and> sublist (crl_pattern s) (casefold d) \<and>
    classify u d n db = Some (assignment (crl_category s) USER_RULE) \<and>
    (crl_priority s, crl_created_at s, crl_id s) \<le> (crl_priority r, crl_created_at r, crl_id r)"
  by (rule rule_first [OF assms])

theorem user_rule_decides_witness:
  "\<exists>s. classify 1 ''METRO card'' (Some ''blue tokai'') sample_categorization = Some (assignment s USER_RULE)"
proof -
  let ?r = "hd (category_rules sample_categorization)"
  have "?r \<in> set (category_rules sample_categorization)" "crl_user ?r = 1" "crl_enabled ?r"
    by (simp_all add: sample_categorization_def)
  moreover have "sublist ''metro'' (casefold ''METRO card'')" by code_simp
  then have "sublist (crl_pattern ?r) (casefold ''METRO card'')" by (simp add: sample_categorization_def)
  ultimately show ?thesis using user_rule_decides [of ?r sample_categorization 1 "''METRO card''"] by blast
qed

text \<open>
  C25: a correction is learned: after a user corrects a transaction of a known merchant, the same
  user's next transaction with that merchant gets the corrected category unless a rule decides,
  with source \<open>MERCHANT_MAP\<close>; without a merchant, a transaction with the same description gets it
  with source \<open>VERIFIED_CORRECTION\<close> (the new correction being the latest).
\<close>

theorem correction_is_learned:
  assumes "categorization_wf db"
    "correct_transaction u t c now ids db = Inr (db', v)"
    "select_one (\<lambda>r. tx_user r = u \<and> tx_id r = t) (transactions db) = Some row"
    "\<forall>r \<in> set (enabled_rules u db). \<not> sublist (crl_pattern r) (casefold d)"
    "\<forall>r \<in> set (corrections db). cor_created_at r < now"
  shows "(\<forall>m \<in> set (merchants db). tx_merchant row = Some (mer_id m) \<and> mer_normalized m \<noteq> [] \<longrightarrow>
      classify u d (Some (mer_normalized m)) db' = Some (assignment c MERCHANT_MAP)) \<and>
    (casefold d = casefold (tx_description row) \<longrightarrow>
      classify u d None db' = Some (assignment c VERIFIED_CORRECTION))"
proof -
  from assms(2,3) repo_correct_Some [of u t c now ids db db' v] obtain rows where
    rows: "case tx_merchant row of None \<Rightarrow> rows = merchant_maps db
      | Some m \<Rightarrow> upsert_merchant_map u m c (snd ids) (merchant_maps db) = Inr rows" and
    db': "db' = db\<lparr>transactions := modify_rows (\<lambda>r. tx_id r = t) (corrected_transaction c) (transactions db),
      merchant_maps := rows, corrections := corrections db @ [correction_of u row c now (fst ids)]\<rparr>"
    by (auto simp: correct_transaction_Inr)
  have "enabled_rules u db' = enabled_rules u db" by (simp add: enabled_rules_def db')
  with assms(4) have norule: "select_one (\<lambda>r. sublist (crl_pattern r) (casefold d)) (enabled_rules u db') = None"
    by (simp add: select_one_None)
  have mapped: "mapped_category u (Some (mer_normalized m)) db' = Some c"
    if "m \<in> set (merchants db)" "tx_merchant row = Some (mer_id m)" "mer_normalized m \<noteq> []" for m
  proof -
    have dist: "distinct (map mer_normalized (merchants db))" "distinct (map (\<lambda>m. (mcm_user m, mcm_merchant m)) (merchant_maps db))"
      using assms(1) by (auto simp: categorization_wf_def ledger_wf_def learned_ok_def)
    have m: "select_one (\<lambda>x. mer_normalized x = mer_normalized m) (merchants db) = Some m"
      using dist(1) that(1) by (intro select_one_unique [where key = mer_normalized]) auto
    from rows that(2) have "upsert_merchant_map u (mer_id m) c (snd ids) (merchant_maps db) = Inr rows" by simp
    note spec = upsert_merchant_map_spec [OF this dist(2)]
    let ?Q = "\<lambda>x. mcm_user x = u \<and> mcm_merchant x = mer_id m \<and> mcm_verified x"
    from spec have "select_one ?Q rows \<noteq> None" unfolding select_one_ex by blast
    then obtain r where "select_one ?Q rows = Some r" by blast
    with spec select_one_SomeD [OF this] m that(3) show ?thesis
      by (simp add: mapped_category_def db')
  qed
  have exact: "exact_correction u (casefold (tx_description row)) db' = Some c"
  proof -
    let ?rows = "filter (\<lambda>r. cor_user r = u \<and> cor_description r = casefold (tx_description row)) (corrections db')"
    let ?k = "\<lambda>r. (- cor_created_at r, - int (cor_id r))" and ?new = "correction_of u row c now (fst ids)"
    have new: "?new \<in> set ?rows" by (simp add: db' correction_of_def)
    from sort_key_nonempty [OF new] obtain r rs where r: "sort_key ?k ?rows = r # rs" by blast
    have "r = ?new"
    proof (rule ccontr)
      assume "r \<noteq> ?new"
      moreover have "r \<in> insert ?new (set (corrections db))"
        using sort_key_first [OF r] by (auto simp: db' split: if_splits)
      ultimately have "cor_created_at r < now" using assms(5) by blast
      moreover have "?k r \<le> ?k ?new" using sort_key_first [OF r] new by blast
      ultimately show False by (auto simp: correction_of_def)
    qed
    with r show ?thesis by (simp add: exact_correction_def correction_of_def)
  qed
  show ?thesis
    using norule mapped exact by (auto simp: classify_def mapped_category_def [of u None])
qed

theorem correction_is_learned_witness:
  "\<exists>db' v. correct_transaction 1 30 11 5 (50, 51) sample_categorization = Inr (db', v) \<and>
    classify 1 ''Dinner'' (Some ''blue tokai'') db' = Some (assignment 11 MERCHANT_MAP) \<and>
    classify 1 ''Lunch'' None db' = Some (assignment 11 VERIFIED_CORRECTION)"
proof -
  obtain db' v where run: "correct_transaction 1 30 11 5 (50, 51) sample_categorization = Inr (db', v)"
    using sample_correction by blast
  have row: "select_one (\<lambda>r. tx_user r = 1 \<and> tx_id r = 30) (transactions sample_categorization) = Some sample_transaction"
    by (simp add: sample_categorization_def sample_transaction_def)
  have norule: "\<forall>r \<in> set (enabled_rules 1 sample_categorization). \<not> sublist (crl_pattern r) (casefold d)"
    if "d = ''Dinner'' \<or> d = ''Lunch''" for d
  proof -
    have "\<not> sublist ''metro'' (casefold ''Dinner'')" "\<not> sublist ''metro'' (casefold ''Lunch'')"
      by code_simp+
    with that show ?thesis by (auto simp: enabled_rules_def sample_categorization_def)
  qed
  have early: "\<forall>r \<in> set (corrections sample_categorization). cor_created_at r < 5"
    by (simp add: sample_categorization_def)
  note learned = correction_is_learned [OF sample_categorization_wf run row _ early]
  from learned [OF norule [of "''Dinner''"]] learned [OF norule [of "''Lunch''"]] run show ?thesis
    by (auto simp: sample_categorization_def sample_defs)
qed

text \<open>
  A correction keeps the store's tenant safety: no transaction, rule, map or correction of a
  user ever names another user's private category, keys stay unique and every transaction row keeps
  its constraints.
\<close>

theorem correction_keeps_tenants_apart:
  assumes "categorization_wf db" "correct_transaction u t c now ids db = Inr (db', v)"
  shows "categorization_wf db'"
  using assms repo_correct_wf [of u t c now ids db db' v] by (simp add: correct_transaction_Inr)

theorem correction_keeps_tenants_apart_witness:
  "\<exists>db' v. correct_transaction 1 30 11 5 (50, 51) sample_categorization = Inr (db', v) \<and> categorization_wf db'"
  using sample_correction correction_keeps_tenants_apart [OF sample_categorization_wf] by blast

text \<open>
  Retrieval only answers with the category of the best-scoring past correction, when all best
  candidates agree on it, with a confidence between 0.6 and 1.
\<close>

theorem retrieval_is_unambiguous:
  assumes "retrieval_assignment d candidates = Some a"
  shows "6000 \<le> as_confidence a \<and> as_confidence a \<le> 10000 \<and>
    (\<exists>line. (line, as_category a) \<in> set candidates \<and> jaccard d line = as_confidence a) \<and>
    (\<forall>(line, c) \<in> set candidates. jaccard d line \<le> as_confidence a \<and>
       (jaccard d line = as_confidence a \<longrightarrow> c = as_category a))"
  using retrieval_assignment_Some [OF assms] jaccard_bounds [of d]
  by (fastforce simp: RETRIEVAL_THRESHOLD_def)

theorem retrieval_is_unambiguous_witness:
  "\<exists>a. retrieval_assignment ''weekly metro pass'' [(''metro pass'', 11), (''rent'', 10)] = Some a \<and>
    as_confidence a = 6667 \<and> (\<exists>line. (line, as_category a) \<in> set [(''metro pass'', 11), (''rent'', 10)])"
proof -
  have words: "normalized_words ''weekly metro pass'' = [''weekly'', ''metro'', ''pass'']"
    "normalized_words ''metro pass'' = [''metro'', ''pass'']" "normalized_words ''rent'' = [''rent'']"
    by (simp_all add: normalized_words_def casefold_def ascii_lower_def is_space_def)
  have "quotient_4 2 3 = 6667"
    by (simp add: quotient_4_def context_div_def div_scale_def ndigits.simps at_scale_def half_even_def)
  then have "jaccard ''weekly metro pass'' ''metro pass'' = 6667" "jaccard ''weekly metro pass'' ''rent'' = 0"
    by (simp_all add: jaccard_def words Let_def quotient_4_def)
  then have run: "retrieval_assignment ''weekly metro pass'' [(''metro pass'', 11), (''rent'', 10)] =
    Some \<lparr>as_category = 11, as_source = RETRIEVAL, as_version = CLASSIFIER_VERSION, as_confidence = 6667,
      as_overridden = False\<rparr>"
    by (simp add: retrieval_assignment_def RETRIEVAL_THRESHOLD_def)
  from retrieval_is_unambiguous [OF run] run show ?thesis by auto
qed

end
