(* ===== verification/Keyset.thy ===== *)
theory Keyset
  imports Prelude "HOL-Library.Multiset"
begin

text \<open>
  The contract of a keyset-paginated query, and what following its cursors gives. A provider names
  the sort key of a row, the cursor a row is represented by, and the predicate its query adds for a
  cursor; the law says that the predicate selects the rows with a larger key.
\<close>

lemma filter_after_nth:
  assumes "sorted (map key xs)" "distinct (map key xs)" "i < length xs"
  shows "filter (\<lambda>r. key (xs ! i) < key r) xs = drop (Suc i) xs"
  using assms
proof (induction xs arbitrary: i)
  case Nil
  then show ?case by simp
next
  case (Cons x xs)
  have gt: "key x < key r" if "r \<in> set xs" for r
    using that Cons.prems(1,2) by (auto simp: order_less_le)
  show ?case
  proof (cases i)
    case 0
    with gt show ?thesis by simp
  next
    case (Suc j)
    with Cons.prems(3) have "xs ! j \<in> set xs" by simp
    from gt [OF this] Suc Cons show ?thesis by auto
  qed
qed

locale keyset =
  fixes key :: "'r \<Rightarrow> 'k::linorder"
    and cursor_of :: "'r \<Rightarrow> 'c"
    and after :: "'c option \<Rightarrow> 'r \<Rightarrow> bool"
  assumes after_None: "after None r"
    and after_Some: "after (Some (cursor_of s)) r \<longleftrightarrow> key s < key r"
begin

definition ordered :: "'r list \<Rightarrow> 'r list" where
  "ordered rows = sort_key key rows"

definition page :: "nat \<Rightarrow> 'c option \<Rightarrow> 'r list \<Rightarrow> 'r list" where
  "page n c rows = take n (sort_key key (filter (after c) rows))"

lemma page_first: "page n None rows = take n (ordered rows)"
  by (simp add: page_def ordered_def after_None)

lemma page_after:
  assumes "distinct (map key rows)" "0 < m" "m \<le> length rows"
  shows "page n (Some (cursor_of (ordered rows ! (m - 1)))) rows = take n (drop m (ordered rows))"
proof -
  let ?xs = "ordered rows"
  have mset: "mset (map key ?xs) = mset (map key rows)" by (simp add: ordered_def)
  then have "distinct (map key ?xs)" using assms(1) by (metis mset_eq_imp_distinct_iff)
  moreover have "sorted (map key ?xs)" "m - 1 < length ?xs" using assms by (simp_all add: ordered_def)
  ultimately have "filter (\<lambda>r. key (?xs ! (m - 1)) < key r) ?xs = drop (Suc (m - 1)) ?xs"
    by (intro filter_after_nth)
  moreover have "after (Some (cursor_of s)) = (\<lambda>r. key s < key r)" for s
    by (rule ext) (rule after_Some)
  ultimately show ?thesis
    using assms(2) by (simp add: page_def filter_sort ordered_def)
qed

end

end
