(* ===== verification/Ledger_Service.thy ===== *)
theory Ledger_Service
  imports Categorization Keyset
begin

text \<open>
  The ledger use cases of \<open>ledger/service.py\<close> over the store of \<open>Ledger_Store\<close>: profiles,
  categories, transactions and their paginated timeline, and the exact monthly aggregates.

  A read returns its value, a command the new tables and its value. The clock is an argument and
  may return a naive datetime, which the service refuses. A cursor is the pair of sort keys that
  \<open>encode_transaction_cursor\<close> writes and \<open>decode_transaction_cursor\<close> reads back.
\<close>

section \<open>Results\<close>

record transaction_page =
  pg_edges :: "(transaction_cursor \<times> transaction_view) list"
  pg_has_next :: bool
  pg_end_cursor :: "transaction_cursor option"

record financial_summary =
  fs_currency :: string
  fs_period_start :: date
  fs_period_end :: date
  fs_spent :: money
  fs_income :: money
  fs_count :: nat

text \<open>One row of \<open>CategorySpending\<close> or \<open>MerchantSpending\<close>.\<close>

record group_spending =
  gs_id :: "uuid option"
  gs_name :: string
  gs_amount :: money
  gs_currency :: string
  gs_share :: int

record monthly_spending =
  ms_month_start :: date
  ms_amount :: money
  ms_currency :: string

section \<open>Profiles and categories\<close>

definition profile_not_found :: error where
  "profile_not_found = LedgerNotFoundError ''PROFILE_NOT_FOUND'' None"

definition require_user :: "uuid \<Rightarrow> 'a ledger_db_scheme \<Rightarrow> user_view result" where
  "require_user user_id db = require profile_not_found (get_user user_id db)"

definition list_categories ::
  "(string \<Rightarrow> 'k::linorder) \<Rightarrow> uuid \<Rightarrow> 'a ledger_db_scheme \<Rightarrow> (category_view list) result" where
  "list_categories coll user_id db =
     bindE (require_user user_id db) (\<lambda>_. Inr (repo_list_categories coll user_id db))"

definition create_category ::
  "uuid \<Rightarrow> create_category_command \<Rightarrow> uuid \<Rightarrow> 'a ledger_db_scheme \<Rightarrow>
   ('a ledger_db_scheme \<times> category_view) result" where
  "create_category user_id command new_id db =
     bindE (require_user user_id db) (\<lambda>_.
     bindE (ensure (case cc_parent command of None \<Rightarrow> True | Some p \<Rightarrow> category_is_visible user_id p db)
              (category_not_found ''parentCategoryId'')) (\<lambda>_.
     bindE (ensure (\<not> category_name_is_visible user_id (cc_normalized command) db)
              (LedgerConflictError ''CATEGORY_ALREADY_EXISTS'' (Some ''name''))) (\<lambda>_.
       repo_create_category user_id command new_id db)))"

section \<open>Transactions\<close>

definition with_assignment :: "category_assignment \<Rightarrow> create_transaction_command \<Rightarrow> create_transaction_command" where
  "with_assignment a command =
     command\<lparr>ct_category_id := Some (as_category a), ct_category_source := Some (as_source a),
       ct_category_version := Some (as_version a), ct_category_confidence := Some (as_confidence a),
       ct_category_overridden := as_overridden a\<rparr>"

definition select_category ::
  "uuid \<Rightarrow> create_transaction_command \<Rightarrow> 'a categorization_db_scheme \<Rightarrow> create_transaction_command" where
  "select_category user_id command db =
     (if ct_category_id command = None
      then (case classify user_id (ct_description command) (ct_merchant_normalized command) db of
              None \<Rightarrow> command
            | Some a \<Rightarrow> with_assignment a command)
      else command)"

definition create_transaction ::
  "uuid \<Rightarrow> create_transaction_command \<Rightarrow> uuid \<times> uuid \<Rightarrow> 'a categorization_db_scheme \<Rightarrow>
   ('a categorization_db_scheme \<times> transaction_view) result" where
  "create_transaction user_id command ids db =
     bindE (require_user user_id db) (\<lambda>_.
     bindE (ensure (case ct_category_id command of None \<Rightarrow> True | Some c \<Rightarrow> category_is_visible user_id c db)
              (category_not_found ''categoryId'')) (\<lambda>_.
       repo_create_transaction user_id (select_category user_id command db) ids db))"

definition get_transaction :: "uuid \<Rightarrow> uuid \<Rightarrow> 'a ledger_db_scheme \<Rightarrow> transaction_view result" where
  "get_transaction user_id transaction_id db =
     require (LedgerNotFoundError ''TRANSACTION_NOT_FOUND'' None) (repo_get_transaction user_id transaction_id db)"

definition MAX_PAGE_SIZE :: int where "MAX_PAGE_SIZE = 100"

definition validate_page_size :: "int \<Rightarrow> nat result" where
  "validate_page_size first =
     (if first < 1 \<or> first > MAX_PAGE_SIZE then Inl (ledger_invalid ''INVALID_PAGE_SIZE'' ''first'')
      else Inr (nat first))"

definition cursor_of_view :: "transaction_view \<Rightarrow> transaction_cursor" where
  "cursor_of_view v = \<lparr>cur_occurred_at = tv_date v, cur_transaction_id = tv_id v\<rparr>"

definition list_transactions ::
  "uuid \<Rightarrow> int \<Rightarrow> transaction_cursor option \<Rightarrow> 'a ledger_db_scheme \<Rightarrow> transaction_page result" where
  "list_transactions user_id first after db =
     bindE (validate_page_size first) (\<lambda>page_size.
     bindE (require_user user_id db) (\<lambda>_.
       let rows = repo_list_transactions user_id (page_size + 1) after db;
           edges = map (\<lambda>v. (cursor_of_view v, v)) (take page_size rows)
       in Inr \<lparr>pg_edges = edges, pg_has_next = (page_size < length rows),
               pg_end_cursor = (if edges = [] then None else Some (fst (last edges)))\<rparr>))"

section \<open>Aggregates\<close>

definition service_now :: "py_datetime \<Rightarrow> instant result" where
  "service_now clock = (case clock of Naive _ \<Rightarrow> Inl (RuntimeError ''naive_clock'') | Aware t \<Rightarrow> Inr t)"

definition percentage :: "money \<Rightarrow> money \<Rightarrow> int" where
  "percentage amount whole = (if whole \<le> 0 then 0 else percent_of amount whole)"

definition selected_currency :: "string option \<Rightarrow> user_view \<Rightarrow> string result" where
  "selected_currency currency user =
     parse_currency (case currency of None \<Rightarrow> uv_default_currency user
       | Some c \<Rightarrow> if c = [] then uv_default_currency user else c)"

text \<open>
  The three monthly reports start alike: the user, the currency, the month (the current local one
  by default) and its period.
\<close>

definition report_scope ::
  "tzdata \<Rightarrow> py_datetime \<Rightarrow> uuid \<Rightarrow> string option \<Rightarrow> year_month option \<Rightarrow> 'a ledger_db_scheme \<Rightarrow>
   (string \<times> month_period) result" where
  "report_scope tz clock user_id currency chosen db =
     bindE (require_user user_id db) (\<lambda>user.
     bindE (selected_currency currency user) (\<lambda>cur.
     bindE (case chosen of
              Some m \<Rightarrow> Inr m
            | None \<Rightarrow> bindE (service_now clock) (\<lambda>t. containing tz (Aware t) (uv_timezone user))) (\<lambda>m.
     bindE (month_period tz m (uv_timezone user)) (\<lambda>p. Inr (cur, p)))))"

definition financial_summary ::
  "tzdata \<Rightarrow> py_datetime \<Rightarrow> uuid \<Rightarrow> string option \<Rightarrow> year_month option \<Rightarrow> 'a ledger_db_scheme \<Rightarrow>
   financial_summary result" where
  "financial_summary tz clock user_id currency chosen db =
     bindE (report_scope tz clock user_id currency chosen db) (\<lambda>(cur, p).
       let (spent, income, n) = financial_totals user_id cur p db
       in Inr \<lparr>fs_currency = cur, fs_period_start = mp_start_date p, fs_period_end = mp_end_date p,
               fs_spent = spent, fs_income = income, fs_count = n\<rparr>)"

definition shares :: "string \<Rightarrow> (uuid option \<times> string \<times> money) list \<Rightarrow> group_spending list" where
  "shares cur totals =
     (let denominator = sum_list (map (\<lambda>(_, _, amount). amount) totals)
      in map (\<lambda>(i, name, amount).
           \<lparr>gs_id = i, gs_name = name, gs_amount = amount, gs_currency = cur,
            gs_share = percentage amount denominator\<rparr>) totals)"

definition spending_by_category ::
  "(string \<Rightarrow> 'k::linorder) \<Rightarrow> tzdata \<Rightarrow> py_datetime \<Rightarrow> uuid \<Rightarrow> string option \<Rightarrow> year_month option \<Rightarrow>
   'a ledger_db_scheme \<Rightarrow> (group_spending list) result" where
  "spending_by_category coll tz clock user_id currency chosen db =
     bindE (report_scope tz clock user_id currency chosen db) (\<lambda>(cur, p).
       Inr (shares cur (category_totals coll user_id cur p db)))"

definition spending_by_merchant ::
  "(string \<Rightarrow> 'k::linorder) \<Rightarrow> tzdata \<Rightarrow> py_datetime \<Rightarrow> uuid \<Rightarrow> string option \<Rightarrow> year_month option \<Rightarrow>
   'a ledger_db_scheme \<Rightarrow> (group_spending list) result" where
  "spending_by_merchant coll tz clock user_id currency chosen db =
     bindE (report_scope tz clock user_id currency chosen db) (\<lambda>(cur, p).
       Inr (shares cur (merchant_totals coll user_id cur p db)))"

definition monthly_spending ::
  "tzdata \<Rightarrow> py_datetime \<Rightarrow> uuid \<Rightarrow> string option \<Rightarrow> int \<Rightarrow> 'a ledger_db_scheme \<Rightarrow>
   (monthly_spending list) result" where
  "monthly_spending tz clock user_id currency months db =
     bindE (require_user user_id db) (\<lambda>user.
     bindE (selected_currency currency user) (\<lambda>cur.
     bindE (service_now clock) (\<lambda>t.
     bindE (containing tz (Aware t) (uv_timezone user)) (\<lambda>ending_month.
     bindE (previous_months ending_month months) (\<lambda>selected_months.
     bindE (mapE (\<lambda>m. month_period tz m (uv_timezone user)) selected_months) (\<lambda>periods.
       let totals = map_of (monthly_totals tz user_id cur (uv_timezone user)
             (mp_start_utc (hd periods)) (mp_end_utc (last periods)) db)
       in Inr (map (\<lambda>p. \<lparr>ms_month_start = mp_start_date p,
            ms_amount = (case totals (mp_start_date p) of None \<Rightarrow> 0 | Some a \<Rightarrow> a),
            ms_currency = cur\<rparr>) periods)))))))"

section \<open>What parsing guarantees\<close>

lemma not_blank_word: "c \<in> set s \<Longrightarrow> \<not> is_space c \<Longrightarrow> not_blank s"
  using is_space_blank unfolding not_blank_def list_all_iff by metis

lemma normalized_not_blank:
  assumes "normalize_display_text v \<noteq> []"
  shows "not_blank (normalize_display_text v) \<and> not_blank (casefold (normalize_display_text v))"
proof -
  from assms normalize_blank_iff [of "normalize_display_text v"] obtain c where
    "c \<in> set (normalize_display_text v)" "\<not> is_space c" by auto
  then show ?thesis
    using not_blank_word [of "ascii_lower c" "casefold (normalize_display_text v)"]
    by (auto simp: casefold_def intro: not_blank_word)
qed

lemma parse_amount_Inr:
  assumes "parse_amount raw = Inr d"
  shows "parse_decimal raw = Some d \<and> validate_positive_money d = Inr d"
proof -
  from assms obtain d' where "parse_decimal raw = Some d'" "validate_positive_money d' = Inr d"
    unfolding parse_amount_def by (auto split: if_splits option.splits sum.splits)
  with validate_bounds [of d' d] show ?thesis by auto
qed

lemma stored_amount_bounds:
  assumes "validate_positive_money (Dec c e) = Inr (Dec c e)" "ndigits \<bar>c\<bar> \<le> 28" "ETINY \<le> e"
  shows "0 < numeric_19_4 (Dec c e) \<and> numeric_19_4 (Dec c e) < 10 ^ 19"
proof -
  from validate_iff [OF assms(2,3)] assms(1) have v: "0 < dec_value c e" "dec_value c e < 10 ^ 15"
    "dec_value c e * 10 ^ 4 \<in> \<int>" by auto
  have n: "of_int (numeric_19_4 (Dec c e)) = dec_value c e * 10 ^ 4" by (rule numeric_exact [OF v(3)])
  have "dec_value c e * 10 ^ 4 < 10 ^ 15 * 10 ^ 4" using v(2) by simp
  then have "(of_int (numeric_19_4 (Dec c e)) :: rat) < of_int (10 ^ 19)" unfolding n by simp
  moreover have "(0 :: rat) < of_int (numeric_19_4 (Dec c e))" unfolding n using v(1) by simp
  ultimately show ?thesis by (simp only: of_int_less_iff of_int_0_less_iff)
qed

lemma parse_currency_Inr: "parse_currency raw = Inr cur \<Longrightarrow> currency_pattern cur \<and> cur \<in> set SUPPORTED_CURRENCIES"
  by (auto simp: parse_currency_def normalize_currency_code_def Let_def split: sum.splits if_splits)

lemma half_even_nonneg: "0 < m \<Longrightarrow> 0 \<le> n \<Longrightarrow> half_even_signed n m = half_even n m"
  using half_even_lower [of m n] by (auto simp: half_even_signed_def sgn_if half_even_def)

lemma quantized_confidence:
  assumes "0 \<le> dec_value c e" "dec_value c e \<le> 1"
  shows "0 \<le> quantize_4 (Dec c e) \<and> quantize_4 (Dec c e) \<le> 10000"
proof -
  let ?n = "c * 10 ^ nat (e + 4)" and ?d = "10 ^ nat (- (e + 4)) :: int"
  have v: "dec_value c e * 10 ^ 4 = of_int ?n / of_int ?d"
    using dec_value_scale [of c e 4] by (simp only: of_nat_numeral)
  then have eq: "(of_int ?n :: rat) = dec_value c e * 10 ^ 4 * of_int ?d" by simp
  have "(0 :: rat) \<le> of_int ?n" unfolding eq using assms(1) by simp
  moreover have "(of_int ?n :: rat) \<le> of_int (10000 * ?d)"
  proof -
    have "dec_value c e * 10 ^ 4 * of_int ?d \<le> 10000 * of_int ?d"
      using assms(2) by (intro mult_right_mono) simp_all
    then show ?thesis unfolding eq by (simp only: of_int_mult of_int_numeral)
  qed
  ultimately have n: "0 \<le> ?n" "?n \<le> 10000 * ?d" by (simp_all only: of_int_le_iff of_int_0_le_iff)
  have "quantize_4 (Dec c e) = half_even ?n ?d"
    using half_even_nonneg [of ?d ?n] n(1) by (simp add: at_scale_def)
  moreover have "0 \<le> half_even ?n ?d" using n(1) by (intro half_even_lower) simp_all
  moreover have "half_even ?n ?d \<le> 10000" by (rule half_even_upper [OF _ n(2)]) simp
  ultimately show ?thesis by simp
qed

lemma parse_optional_confidence_Inr:
  "parse_optional_confidence c = Inr r \<Longrightarrow> case r of None \<Rightarrow> True | Some x \<Rightarrow> 0 \<le> x \<and> x \<le> 10000"
  using quantized_confidence
  by (cases c rule: parse_optional_confidence.cases) (auto simp del: quantize_4.simps split: if_splits)

lemma parse_optional_merchant_Inr:
  assumes "parse_optional_merchant_name m = Inr (display, lookup)"
  shows "(display = None \<and> lookup = None) \<or>
    (\<exists>d. display = Some d \<and> lookup = Some (casefold d) \<and> not_blank d \<and> not_blank (casefold d) \<and> length d \<le> 160)"
  using assms normalized_not_blank
  by (cases m) (auto simp: Let_def split: if_splits)

text \<open>A command whose values the tables accept.\<close>

definition command_ok :: "create_transaction_command \<Rightarrow> bool" where
  "command_ok c \<longleftrightarrow>
     0 < numeric_19_4 (ct_amount c) \<and> numeric_19_4 (ct_amount c) < 10 ^ 19 \<and> currency_pattern (ct_currency c) \<and>
     not_blank (ct_description c) \<and> length (ct_description c) \<le> 500 \<and>
     (case ct_confidence c of None \<Rightarrow> True | Some x \<Rightarrow> 0 \<le> x \<and> x \<le> 10000) \<and>
     (case ct_category_version c of None \<Rightarrow> True | Some v \<Rightarrow> length v \<le> 40) \<and>
     (case (ct_merchant_name c, ct_merchant_normalized c) of
        (Some d, Some n) \<Rightarrow> not_blank d \<and> not_blank n \<and> length d \<le> 160 \<and> length n \<le> 160 | _ \<Rightarrow> True)"

definition exact_literal :: "decimal \<Rightarrow> bool" where
  "exact_literal d = (case d of Dec c e \<Rightarrow> ndigits \<bar>c\<bar> \<le> 28 \<and> ETINY \<le> e | _ \<Rightarrow> False)"

lemma parse_create_transaction_ok:
  assumes "parse_create_transaction amount cur ty desc dt status category merchant source conf = Inr c"
    "exact_literal (ct_amount c)"
  shows "command_ok c"
proof -
  from assms(1) obtain d l where
    a: "parse_amount amount = Inr (ct_amount c)" and
    cur: "parse_currency cur = Inr (ct_currency c)" and
    d: "normalize_display_text desc \<noteq> []" "length (normalize_display_text desc) \<le> 500"
      "ct_description c = normalize_display_text desc" and
    m: "parse_optional_merchant_name merchant = Inr (d, l)" "ct_merchant_name c = d" "ct_merchant_normalized c = l" and
    conf: "parse_optional_confidence conf = Inr (ct_confidence c)"
    by (auto simp: parse_create_transaction_def Let_def result_simps)
  from assms(2) obtain x e where x: "ct_amount c = Dec x e" "ndigits \<bar>x\<bar> \<le> 28" "ETINY \<le> e"
    by (auto simp: exact_literal_def split: decimal.splits)
  from parse_amount_Inr [OF a] x stored_amount_bounds [of x e]
  have "0 < numeric_19_4 (ct_amount c)" "numeric_19_4 (ct_amount c) < 10 ^ 19" by auto
  moreover note parse_currency_Inr [OF cur] normalized_not_blank [OF d(1)] d(2,3)
    parse_optional_confidence_Inr [OF conf]
  moreover have "case (ct_merchant_name c, ct_merchant_normalized c) of
      (Some d, Some n) \<Rightarrow> not_blank d \<and> not_blank n \<and> length d \<le> 160 \<and> length n \<le> 160 | _ \<Rightarrow> True"
    using parse_optional_merchant_Inr [OF m(1)] m(2,3) by auto
  moreover have "case ct_category_version c of None \<Rightarrow> True | Some v \<Rightarrow> length v \<le> 40"
    using assms(1) by (auto simp: parse_create_transaction_def Let_def result_simps)
  ultimately show ?thesis by (simp add: command_ok_def)
qed

section \<open>Creating\<close>

lemma require_user_Inr: "require_user u db = Inr v \<longleftrightarrow> get_user u db = Some v"
  by (simp add: require_user_def result_simps)

lemma learned_ok_frame:
  "categories db' = categories db \<Longrightarrow> ledger_db.more db' = ledger_db.more db \<Longrightarrow> learned_ok db' = learned_ok db"
  by (cases db; cases db') (simp add: learned_ok_def category_is_visible_def)

lemma select_category_ok: "command_ok c \<Longrightarrow> command_ok (select_category u c db)"
  by (auto simp: select_category_def with_assignment_def command_ok_def CLASSIFIER_VERSION_def
      dest!: classify_version split: option.splits)

lemma select_category_fields:
  "ct_amount (select_category u c db) = ct_amount c" "ct_date (select_category u c db) = ct_date c"
  "ct_merchant_name (select_category u c db) = ct_merchant_name c" "ct_type (select_category u c db) = ct_type c"
  "ct_merchant_normalized (select_category u c db) = ct_merchant_normalized c"
  "ct_currency (select_category u c db) = ct_currency c" "ct_status (select_category u c db) = ct_status c"
  "ct_description (select_category u c db) = ct_description c"
  "ct_source (select_category u c db) = ct_source c" "ct_confidence (select_category u c db) = ct_confidence c"
  by (auto simp: select_category_def with_assignment_def split: option.splits)

lemma select_category_visible:
  assumes "learned_ok db" "case ct_category_id c of None \<Rightarrow> True | Some i \<Rightarrow> category_is_visible u i db"
  shows "case ct_category_id (select_category u c db) of None \<Rightarrow> True | Some i \<Rightarrow> category_is_visible u i db"
  using assms classify_visible [OF assms(1)]
  by (auto simp: select_category_def with_assignment_def split: option.splits)

lemma create_transaction_Inr:
  "create_transaction u command ids db = Inr (db', v) \<longleftrightarrow>
    get_user u db \<noteq> None \<and> (case ct_category_id command of None \<Rightarrow> True | Some c \<Rightarrow> category_is_visible u c db) \<and>
    repo_create_transaction u (select_category u command db) ids db = Inr (db', v)"
  by (auto simp: create_transaction_def result_simps require_user_Inr)

lemma repo_create_transaction_frame:
  assumes "repo_create_transaction u command ids db = Inr (db', v)"
  shows "\<exists>m. users db' = users db \<and> categories db' = categories db \<and> ledger_db.more db' = ledger_db.more db \<and>
    transactions db' = transactions db @ [transaction_of_command u command m (snd ids)] \<and>
    snd ids \<notin> tx_id ` set (transactions db) \<and> repo_get_transaction u (snd ids) db' = Some v"
proof -
  from repo_create_transaction_Inr [OF assms] obtain db1 m where
    g: "get_or_create_merchant command (fst ids) db = Inr (db1, m)" and
    i: "insert_transaction (transaction_of_command u command m (snd ids)) db1 = Inr db'" and
    v: "repo_get_transaction u (snd ids) db' = Some v" by blast
  from get_or_create_merchant_frame [OF g] i v show ?thesis
    by (intro exI [of _ m]) (simp add: insert_transaction_Inr transaction_of_command_def)
qed

lemma create_transaction_wf:
  assumes "create_transaction u command ids db = Inr (db', v)" "categorization_wf db"
  shows "categorization_wf db'"
proof -
  from assms(1) have vis: "case ct_category_id command of None \<Rightarrow> True | Some c \<Rightarrow> category_is_visible u c db" and
    run: "repo_create_transaction u (select_category u command db) ids db = Inr (db', v)"
    by (auto simp: create_transaction_Inr)
  have "ledger_wf db" "learned_ok db" using assms(2) by (auto simp: categorization_wf_def)
  then show ?thesis
    using repo_create_transaction_wf [OF run] select_category_visible [OF _ vis]
      repo_create_transaction_frame [OF run] learned_ok_frame [of db' db]
    by (auto simp: categorization_wf_def)
qed

text \<open>The components that extend the tables are left alone by the two commands.\<close>

lemma create_transaction_more:
  "create_transaction u tc ids db = Inr (db', tv) \<Longrightarrow> ledger_db.more db' = ledger_db.more db"
  using repo_create_transaction_frame by (fastforce simp: create_transaction_Inr)

lemma correct_transaction_frame:
  "correct_transaction u i c now ids db = Inr (db', cv) \<Longrightarrow>
    \<exists>ts ms cs. db' = db\<lparr>transactions := ts, merchant_maps := ms, corrections := cs\<rparr>"
  using repo_correct_Some by (fastforce simp: correct_transaction_Inr)

lemma transaction_keeps_merchants:
  assumes "create_transaction u c ids db = Inr (db', v)" "ledger_wf db"
  shows "set (map mer_id (merchants db)) \<subseteq> set (map mer_id (merchants db'))"
proof -
  from assms(1) obtain db1 m where
    g: "get_or_create_merchant (select_category u c db) (fst ids) db = Inr (db1, m)" and
    i: "insert_transaction (transaction_of_command u (select_category u c db) m (snd ids)) db1 = Inr db'"
    using repo_create_transaction_Inr by (fastforce simp: create_transaction_Inr)
  show ?thesis using get_or_create_merchant_wf [OF g assms(2)] i by (auto simp: insert_transaction_Inr)
qed

lemma upsert_merchant_total:
  assumes "not_blank display" "not_blank n" "length display \<le> 160" "length n \<le> 160"
    "new_id \<notin> mer_id ` set (merchants db)"
  shows "\<exists>r. upsert_merchant display n new_id db = Inr r"
proof (cases "select_one (\<lambda>m. mer_normalized m = n) (merchants db)")
  case None
  with assms show ?thesis by (simp add: upsert_merchant_def merchant_checks_def insert_row_new)
qed (use assms in \<open>simp add: upsert_merchant_def merchant_checks_def\<close>)

lemma get_or_create_merchant_total:
  assumes "command_ok c" "new_id \<notin> mer_id ` set (merchants db)"
  shows "\<exists>db' m. get_or_create_merchant c new_id db = Inr (db', m)"
proof (cases "ct_merchant_name c = None \<or> ct_merchant_normalized c = None")
  case True
  then show ?thesis by (auto simp: get_or_create_merchant_def split: option.splits)
next
  case False
  then obtain d n where dn: "ct_merchant_name c = Some d" "ct_merchant_normalized c = Some n" by auto
  with assms upsert_merchant_total [of d n new_id db] obtain r where "upsert_merchant d n new_id db = Inr r"
    by (auto simp: command_ok_def)
  with dn show ?thesis by (cases r) (simp add: get_or_create_merchant_def)
qed

lemma repo_create_transaction_total:
  assumes "categorization_wf db" "command_ok c" "get_user u db \<noteq> None"
    "case ct_category_id c of None \<Rightarrow> True | Some i \<Rightarrow> category_is_visible u i db"
    "fst ids \<notin> mer_id ` set (merchants db)" "snd ids \<notin> tx_id ` set (transactions db)"
  shows "\<exists>db' v. repo_create_transaction u c ids db = Inr (db', v)"
proof -
  from get_or_create_merchant_total [OF assms(2,5)]
  obtain db1 m where g: "get_or_create_merchant c (fst ids) db = Inr (db1, m)" by blast
  note frame = get_or_create_merchant_frame [OF g]
  have wf: "ledger_wf db" using assms(1) by (auto simp: categorization_wf_def)
  from get_or_create_merchant_wf [OF g wf] have "fk_merchant db1 m" by blast
  moreover have "fk_category db1 (ct_category_id c)"
    using assms(4) category_is_visible_fk [of u _ db] frame by (auto simp: fk_category_def split: option.splits)
  moreover have "fk_user db1 u" using assms(3) frame get_user_Some [of u db] by (auto simp: fk_user_def)
  ultimately have "insert_transaction (transaction_of_command u c m (snd ids)) db1 =
      Inr (db1\<lparr>transactions := transactions db1 @ [transaction_of_command u c m (snd ids)]\<rparr>)"
    using assms(2,6) frame
    by (simp add: insert_transaction_Inr transaction_of_command_def transaction_checks_def command_ok_def)
  with g assms(6) frame show ?thesis
    by (auto simp: repo_create_transaction_def project_transaction_def repo_get_transaction_def select_one_append
        select_one_None transaction_of_command_def image_iff split: option.splits)
qed

lemma create_transaction_total:
  assumes "categorization_wf db" "command_ok c" "get_user u db \<noteq> None"
    "case ct_category_id c of None \<Rightarrow> True | Some i \<Rightarrow> category_is_visible u i db"
    "fst ids \<notin> mer_id ` set (merchants db)" "snd ids \<notin> tx_id ` set (transactions db)"
  shows "\<exists>db' v. create_transaction u c ids db = Inr (db', v)"
proof -
  have "learned_ok db" using assms(1) by (simp add: categorization_wf_def)
  then show ?thesis
    using repo_create_transaction_total [OF assms(1) select_category_ok [OF assms(2)] assms(3) _ assms(5,6), of u db]
      select_category_visible [OF _ assms(4)] assms(3,4)
    by (simp add: create_transaction_Inr)
qed

section \<open>What is recorded of the inputs\<close>

text \<open>The merchant a user names (a blank name names none), and how the row refers to it.\<close>

definition merchant_given :: "string option \<Rightarrow> string option" where
  "merchant_given merchant =
     (case merchant of
        None \<Rightarrow> None
      | Some name \<Rightarrow> if normalize_display_text name = [] then None else Some (normalize_display_text name))"

definition merchant_recorded ::
  "string option \<Rightarrow> uuid \<Rightarrow> 'a ledger_db_scheme \<Rightarrow> 'a ledger_db_scheme \<Rightarrow> transaction_row \<Rightarrow> bool" where
  "merchant_recorded given new_id db db' row =
     (case given of
        None \<Rightarrow> tx_merchant row = None \<and> merchants db' = merchants db
      | Some name \<Rightarrow>
          (\<exists>m \<in> set (merchants db). mer_normalized m = casefold name \<and> tx_merchant row = Some (mer_id m) \<and>
             merchants db' = merchants db) \<or>
          casefold name \<notin> mer_normalized ` set (merchants db) \<and> tx_merchant row = Some new_id \<and>
          merchants db' = merchants db @ [\<lparr>mer_id = new_id, mer_normalized = casefold name, mer_display = name\<rparr>])"

definition category_of_row ::
  "transaction_row \<Rightarrow> uuid option \<times> categorization_source option \<times> string option \<times> int option \<times> bool" where
  "category_of_row t =
     (tx_category t, tx_category_source t, tx_category_version t, tx_category_confidence t, tx_category_overridden t)"

definition assigned_fields ::
  "category_assignment option \<Rightarrow> uuid option \<times> categorization_source option \<times> string option \<times> int option \<times> bool" where
  "assigned_fields assigned =
     (case assigned of
        None \<Rightarrow> (None, None, None, None, False)
      | Some a \<Rightarrow> (Some (as_category a), Some (as_source a), Some (as_version a), Some (as_confidence a), as_overridden a))"

lemma parsed_fields:
  assumes "parse_create_transaction amount cur ty desc dt status category merchant source conf = Inr c"
  shows "parse_amount amount = Inr (ct_amount c)" "parse_currency cur = Inr (ct_currency c)" "ct_type c = ty"
    "ct_status c = status" "dt = Aware (ct_date c)" "ct_category_id c = category" "ct_source c = source"
    "ct_description c = normalize_display_text desc" "ct_confidence c = map_option quantize_4 conf"
    "ct_merchant_name c = merchant_given merchant"
    "ct_merchant_normalized c = map_option casefold (merchant_given merchant)"
proof -
  have m: "parse_optional_merchant_name merchant = Inr (d, l) \<Longrightarrow>
      d = merchant_given merchant \<and> l = map_option casefold (merchant_given merchant)" for d l
    by (cases merchant) (auto simp: merchant_given_def Let_def split: if_splits)
  have q: "parse_optional_confidence conf = Inr r \<Longrightarrow> r = map_option quantize_4 conf" for r
    by (cases conf rule: parse_optional_confidence.cases) (auto simp del: quantize_4.simps split: if_splits)
  from assms show "parse_amount amount = Inr (ct_amount c)" "parse_currency cur = Inr (ct_currency c)" "ct_type c = ty"
    "ct_status c = status" "dt = Aware (ct_date c)" "ct_category_id c = category" "ct_source c = source"
    "ct_description c = normalize_display_text desc" "ct_confidence c = map_option quantize_4 conf"
    "ct_merchant_name c = merchant_given merchant"
    "ct_merchant_normalized c = map_option casefold (merchant_given merchant)"
    by (auto simp: parse_create_transaction_def Let_def result_simps split: py_datetime.splits dest!: m q)
qed

lemma parsed_amount:
  assumes "parse_amount raw = Inr d" "exact_literal d"
  shows "parse_decimal raw = Some d \<and>
    (\<exists>c e. parse_decimal raw = Some (Dec c e) \<and> of_int (numeric_19_4 d) = dec_value c e * 10 ^ 4)"
proof -
  from assms(2) obtain c e where d: "d = Dec c e" "ndigits \<bar>c\<bar> \<le> 28" "ETINY \<le> e"
    by (auto simp: exact_literal_def split: decimal.splits)
  from parse_amount_Inr [OF assms(1)] validate_iff [OF d(2,3)] d(1) have
    "parse_decimal raw = Some (Dec c e)" "dec_value c e * 10 ^ 4 \<in> \<int>" by auto
  with numeric_exact [of c e] d(1) show ?thesis by auto
qed

lemma selected_fields:
  assumes "parse_create_transaction amount cur ty desc dt status category merchant source conf = Inr c"
  shows "category_of_row (transaction_of_command u (select_category u c db) m i) =
    (case category of
       Some x \<Rightarrow> (Some x, Some USER_OVERRIDE, Some ''explicit-user-v1'', Some 10000, True)
     | None \<Rightarrow> assigned_fields
         (classify u (normalize_display_text desc) (map_option casefold (merchant_given merchant)) db))"
proof -
  from assms have "ct_category_source c = (if category \<noteq> None then Some USER_OVERRIDE else None)"
    "ct_category_version c = (if category \<noteq> None then Some ''explicit-user-v1'' else None)"
    "ct_category_confidence c = (if category \<noteq> None then Some 10000 else None)"
    "ct_category_overridden c = (category \<noteq> None)"
    by (auto simp: parse_create_transaction_def Let_def result_simps)
  with parsed_fields [OF assms] show ?thesis
    by (auto simp: category_of_row_def transaction_of_command_def select_category_def with_assignment_def
        assigned_fields_def split: option.splits)
qed

lemma merchant_of_command:
  assumes "get_or_create_merchant c new_id db = Inr (db', m)" "ct_merchant_normalized c = map_option casefold (ct_merchant_name c)"
    "tx_merchant row = m"
  shows "merchant_recorded (ct_merchant_name c) new_id db db' row"
proof (cases "ct_merchant_name c")
  case None
  with assms show ?thesis by (simp add: get_or_create_merchant_def merchant_recorded_def)
next
  case (Some name)
  with assms obtain i where "upsert_merchant name (casefold name) new_id db = Inr (db', i)" "m = Some i"
    by (auto simp: get_or_create_merchant_def result_simps)
  with upsert_merchant_Inr [OF this(1)] Some assms(3) show ?thesis by (auto simp: merchant_recorded_def)
qed

lemma created_row:
  assumes "create_transaction u c ids db = Inr (db', v)" "ct_merchant_name c = given"
    "ct_merchant_normalized c = map_option casefold given"
  shows "\<exists>m. transactions db' = transactions db @ [transaction_of_command u (select_category u c db) m (snd ids)] \<and>
    users db' = users db \<and> categories db' = categories db \<and> ledger_db.more db' = ledger_db.more db \<and>
    get_transaction u (snd ids) db' = Inr v \<and>
    v = transaction_view db' (transaction_of_command u (select_category u c db) m (snd ids)) \<and>
    merchant_recorded given (fst ids) db db' (transaction_of_command u (select_category u c db) m (snd ids))"
proof -
  let ?c = "select_category u c db"
  from assms(1) have run: "repo_create_transaction u ?c ids db = Inr (db', v)" by (simp add: create_transaction_Inr)
  from repo_create_transaction_Inr [OF this] obtain db1 m where
    g: "get_or_create_merchant ?c (fst ids) db = Inr (db1, m)" and
    i: "insert_transaction (transaction_of_command u ?c m (snd ids)) db1 = Inr db'" and
    v: "repo_get_transaction u (snd ids) db' = Some v" by blast
  note frame = get_or_create_merchant_frame [OF g]
  let ?row = "transaction_of_command u ?c m (snd ids)"
  have "tx_merchant ?row = m" "tx_user ?row = u" "tx_id ?row = snd ids" by (simp_all add: transaction_of_command_def)
  with merchant_of_command [OF g, of ?row] assms(2,3) have "merchant_recorded given (fst ids) db db1 ?row"
    by (simp add: select_category_fields)
  moreover have "select_one (\<lambda>t. tx_user t = u \<and> tx_id t = snd ids) (transactions db) = None"
    using i frame by (force simp: insert_transaction_Inr select_one_None transaction_of_command_def)
  with v i frame \<open>tx_user ?row = u\<close> \<open>tx_id ?row = snd ids\<close> have "v = transaction_view db' ?row"
    by (simp add: repo_get_transaction_def insert_transaction_Inr select_one_append)
  ultimately show ?thesis
    using i v frame by (intro exI [of _ m]) (auto simp: insert_transaction_Inr get_transaction_def merchant_recorded_def split: option.splits)
qed

section \<open>The timeline\<close>

definition row_cursor :: "transaction_row \<Rightarrow> transaction_cursor" where
  "row_cursor t = \<lparr>cur_occurred_at = tx_date t, cur_transaction_id = tx_id t\<rparr>"

interpretation timeline: keyset timeline_key row_cursor after_cursor
  by unfold_locales (auto simp: after_cursor_def row_cursor_def timeline_key_def)

definition own_rows :: "uuid \<Rightarrow> 'a ledger_db_scheme \<Rightarrow> transaction_row list" where
  "own_rows u db = filter (\<lambda>t. tx_user t = u) (transactions db)"

definition own_timeline :: "uuid \<Rightarrow> 'a ledger_db_scheme \<Rightarrow> transaction_row list" where
  "own_timeline u db = sort_key timeline_key (own_rows u db)"

lemma repo_list_page:
  "repo_list_transactions u n c db = map (transaction_view db) (timeline.page n c (own_rows u db))"
  by (simp add: repo_list_transactions_def timeline.page_def own_rows_def conj_commute)

lemma own_keys_distinct: "distinct (map tx_id (transactions db)) \<Longrightarrow> distinct (map timeline_key (own_rows u db))"
  by (auto simp: own_rows_def distinct_map inj_on_def timeline_key_def)

lemma length_own_timeline [simp]: "length (own_timeline u db) = length (own_rows u db)"
  by (simp add: own_timeline_def)

definition timeline_cursor :: "nat \<Rightarrow> uuid \<Rightarrow> 'a ledger_db_scheme \<Rightarrow> transaction_cursor option" where
  "timeline_cursor m u db = (if m = 0 then None else Some (row_cursor (own_timeline u db ! (m - 1))))"

lemma page_at:
  assumes "distinct (map tx_id (transactions db))" "m \<le> length (own_rows u db)"
  shows "timeline.page n (timeline_cursor m u db) (own_rows u db) = take n (drop m (own_timeline u db))"
  using timeline.page_after [OF own_keys_distinct [OF assms(1)], of m u n] timeline.page_first [of n "own_rows u db"] assms(2)
  by (auto simp: timeline_cursor_def own_timeline_def timeline.ordered_def)

text \<open>
  A client that follows the cursors, for at most \<open>fuel\<close> pages: a specification of how the pages are used,
  not code of the program.
\<close>

fun follow_pages ::
  "nat \<Rightarrow> uuid \<Rightarrow> int \<Rightarrow> transaction_cursor option \<Rightarrow> 'a ledger_db_scheme \<Rightarrow> (transaction_view list) result" where
  "follow_pages 0 u first after db = Inr []"
| "follow_pages (Suc fuel) u first after db =
     bindE (list_transactions u first after db) (\<lambda>pg.
       if pg_has_next pg
       then bindE (follow_pages fuel u first (pg_end_cursor pg) db) (\<lambda>rest. Inr (map snd (pg_edges pg) @ rest))
       else Inr (map snd (pg_edges pg)))"

lemma list_transactions_at:
  assumes "distinct (map tx_id (transactions db))" "m \<le> length (own_rows u db)" "get_user u db \<noteq> None"
    "1 \<le> first" "first \<le> 100"
  shows "\<exists>pg. list_transactions u first (timeline_cursor m u db) db = Inr pg \<and>
    map snd (pg_edges pg) = map (transaction_view db) (take (nat first) (drop m (own_timeline u db))) \<and>
    pg_has_next pg = (nat first < length (drop m (own_timeline u db))) \<and>
    (pg_has_next pg \<longrightarrow> pg_end_cursor pg = timeline_cursor (m + nat first) u db)"
proof -
  let ?n = "nat first" and ?rest = "drop m (own_timeline u db)"
  have n: "0 < ?n" using assms(4) by simp
  have rows: "repo_list_transactions u (?n + 1) (timeline_cursor m u db) db =
      map (transaction_view db) (take (?n + 1) ?rest)"
    by (simp only: repo_list_page page_at [OF assms(1,2)])
  have size: "validate_page_size first = Inr ?n"
    using assms(4,5) by (simp add: validate_page_size_def MAX_PAGE_SIZE_def)
  obtain v where v: "require_user u db = Inr v" using assms(3) by (auto simp: require_user_Inr)
  let ?edges = "map (\<lambda>v. (cursor_of_view v, v)) (map (transaction_view db) (take ?n ?rest))"
  let ?pg = "\<lparr>pg_edges = ?edges, pg_has_next = (?n < length (map (transaction_view db) (take (?n + 1) ?rest))),
    pg_end_cursor = (if ?edges = [] then None else Some (fst (last ?edges)))\<rparr>"
  have run: "list_transactions u first (timeline_cursor m u db) db = Inr ?pg"
    unfolding list_transactions_def size v bindE.simps rows Let_def take_map take_take
    by (simp add: min_absorb1)
  have next_iff: "pg_has_next ?pg = (?n < length ?rest)" by simp
  have "pg_end_cursor ?pg = timeline_cursor (m + ?n) u db" if "pg_has_next ?pg"
  proof -
    from that have l: "?n < length ?rest" by simp
    then have "take ?n ?rest \<noteq> []" using n by auto
    moreover have "last (take ?n ?rest) = own_timeline u db ! (m + ?n - 1)"
      using l n \<open>take ?n ?rest \<noteq> []\<close> assms(2) by (simp add: last_conv_nth min_absorb2 add_ac)
    ultimately show ?thesis
      using n by (simp add: timeline_cursor_def last_map cursor_of_view_def transaction_view_def row_cursor_def)
  qed
  with run next_iff show ?thesis by (intro exI [of _ ?pg]) (simp add: comp_def)
qed

lemma follow_pages_at:
  assumes "distinct (map tx_id (transactions db))" "m \<le> length (own_rows u db)" "get_user u db \<noteq> None"
    "1 \<le> first" "first \<le> 100" "length (own_rows u db) - m < fuel"
  shows "follow_pages fuel u first (timeline_cursor m u db) db =
    Inr (map (transaction_view db) (drop m (own_timeline u db)))"
  using assms(2,6)
proof (induction fuel arbitrary: m)
  case 0
  then show ?case by simp
next
  case (Suc fuel)
  let ?n = "nat first" and ?rest = "drop m (own_timeline u db)"
  from list_transactions_at [OF assms(1) Suc.prems(1) assms(3-5)] obtain pg where
    pg: "list_transactions u first (timeline_cursor m u db) db = Inr pg"
      "map snd (pg_edges pg) = map (transaction_view db) (take ?n ?rest)"
      "pg_has_next pg = (?n < length ?rest)"
      "pg_has_next pg \<longrightarrow> pg_end_cursor pg = timeline_cursor (m + ?n) u db" by blast
  show ?case
  proof (cases "?n < length ?rest")
    case True
    with Suc.prems assms(4) have "m + ?n \<le> length (own_rows u db)" "length (own_rows u db) - (m + ?n) < fuel"
      by simp_all
    from Suc.IH [OF this] have "follow_pages fuel u first (timeline_cursor (m + ?n) u db) db =
      Inr (map (transaction_view db) (drop ?n ?rest))" by (simp add: add.commute)
    moreover have "map (transaction_view db) (take ?n ?rest) @ map (transaction_view db) (drop ?n ?rest) =
        map (transaction_view db) ?rest"
      by (simp only: append_take_drop_id flip: map_append)
    ultimately show ?thesis using pg True by (simp del: drop_drop)
  next
    case False
    with pg show ?thesis by simp
  qed
qed

section \<open>Aggregates agree\<close>

lemma sum_totals:
  "sum_list (map (\<lambda>(_, _, a). a) (map (coalesce_name z) (sort_key k (group_sums key f rows)))) = sum_rows f rows"
proof -
  have "map (\<lambda>(_, _, a). a) (map (coalesce_name z) gs) = map snd gs"
    for gs :: "((uuid option \<times> string option) \<times> int) list"
    by (simp add: coalesce_name_def comp_def)
  then show ?thesis by (simp only: sum_list_map_sort group_sums_total)
qed

lemma spending_rows_total:
  "sum_rows spending_amount (spending_rows u cur a b db) =
    sum_rows summary_spending (filter (posted_in u cur a b) (transactions db))"
proof -
  have "sum_rows spending_amount (filter (\<lambda>t. P t \<and> tx_type t \<in> set spending_types) rows) =
      sum_rows summary_spending (filter P rows)" for P rows
  proof (induction rows)
    case (Cons t rows)
    then show ?case
      by (cases "tx_type t") (simp_all add: spending_types_def spending_amount_def summary_spending_def)
  qed simp
  then show ?thesis by (simp add: spending_rows_def)
qed

lemma category_totals_sum:
  "sum_list (map (\<lambda>(_, _, a). a) (category_totals coll u cur p db)) = fst (financial_totals u cur p db)"
  by (simp only: category_totals_def sum_totals spending_rows_total financial_totals_def Let_def fst_conv)

lemma merchant_totals_sum:
  "sum_list (map (\<lambda>(_, _, a). a) (merchant_totals coll u cur p db)) = fst (financial_totals u cur p db)"
  by (simp only: merchant_totals_def sum_totals spending_rows_total financial_totals_def Let_def fst_conv)

lemma financial_summary_Inr:
  assumes "financial_summary tz clock u currency chosen db = Inr fs"
  shows "\<exists>cur p. report_scope tz clock u currency chosen db = Inr (cur, p) \<and>
    fs_spent fs = fst (financial_totals u cur p db)"
proof (cases "report_scope tz clock u currency chosen db")
  case (Inr s)
  obtain cur p where "s = (cur, p)" by (cases s)
  with Inr assms show ?thesis
    by (cases "financial_totals u cur p db") (auto simp: financial_summary_def)
qed (use assms in \<open>simp add: financial_summary_def\<close>)

lemma shares_amounts: "map gs_amount (shares cur totals) = map (\<lambda>(_, _, a). a) totals"
  by (auto simp: shares_def Let_def comp_def)

lemma shares_mem:
  "g \<in> set (shares cur totals) \<Longrightarrow> gs_share g = percentage (gs_amount g) (sum_list (map (\<lambda>(_, _, a). a) totals))"
  by (auto simp: shares_def Let_def)

text \<open>Each month of the series is the summary of that month.\<close>

lemma containing_valid: "containing tz (Aware t) zone = Inr m \<Longrightarrow> valid_month m"
  by (auto simp: containing_def result_simps mk_year_month_Inr Let_def valid_month_def)

lemma monthly_window:
  assumes "valid_month a" "valid_month m" "valid_month b" "month_index a \<le> month_index m" "month_index m \<le> month_index b"
    "month_period tz a zone = Inr pa" "month_period tz m zone = Inr p" "month_period tz b zone = Inr pb"
    "regular_zone tz zone" "mp_start_utc p \<le> t" "t < mp_end_utc p"
  shows "mp_start_utc pa \<le> t \<and> t < mp_end_utc pb"
proof -
  have law: "tz_instant tz zone (midnight (Date y k 1)) \<le> t \<longleftrightarrow> midnight (Date y k 1) \<le> tz_local tz zone t" for y k
    using assms(9) unfolding regular_zone_def by blast
  have mono: "midnight (Date (ym_year x) (ym_month x) 1) \<le> midnight (Date (ym_year y) (ym_month y) 1)"
    if "valid_month x" "valid_month y" "month_index x \<le> month_index y" for x y
  proof -
    note le = month_start_le [OF that]
    from to_ordinal_less_iff [OF valid_proper valid_proper, OF first_day_valid [OF that(2)] first_day_valid [OF that(1)]] le
    have "to_ordinal (Date (ym_year x) (ym_month x) 1) \<le> to_ordinal (Date (ym_year y) (ym_month y) 1)"
      by (metis linorder_not_le)
    then show ?thesis by (simp add: midnight_def)
  qed
  from month_period_Inr [OF assms(7)] obtain m' where m': "next_month m = Inr m'"
    "mp_end_utc p = tz_instant tz zone (midnight (Date (ym_year m') (ym_month m') 1))"
    "mp_start_utc p = tz_instant tz zone (midnight (Date (ym_year m) (ym_month m) 1))" by auto
  from month_period_Inr [OF assms(8)] obtain b' where b': "next_month b = Inr b'"
    "mp_end_utc pb = tz_instant tz zone (midnight (Date (ym_year b') (ym_month b') 1))" by auto
  have a: "mp_start_utc pa = tz_instant tz zone (midnight (Date (ym_year a) (ym_month a) 1))"
    using month_period_Inr [OF assms(6)] by auto
  have after: "valid_month m'" "valid_month b'" "month_index m' \<le> month_index b'"
    using m'(1) b'(1) next_month_spec [OF assms(2)] next_month_spec [OF assms(3)] assms(5) by auto
  have "mp_start_utc pa \<le> t"
    using assms(10) mono [OF assms(1,2,4)] law unfolding a m'(3) by (meson order_trans)
  moreover have "t < mp_end_utc pb"
    using assms(11) mono [OF after] law unfolding b'(2) m'(2) by (meson linorder_not_le order_trans)
  ultimately show ?thesis ..
qed

lemma monthly_totals_at:
  assumes "valid_month m" "month_period tz m zone = Inr p" "regular_zone tz zone"
    "\<And>t. mp_start_utc p \<le> t \<Longrightarrow> t < mp_end_utc p \<Longrightarrow> a \<le> t \<and> t < b"
  shows "(case map_of (monthly_totals tz u cur zone a b db) (mp_start_date p) of None \<Rightarrow> 0 | Some x \<Rightarrow> x) =
    fst (financial_totals u cur p db)"
proof -
  let ?rows = "spending_rows u cur a b db"
  have iff: "local_month tz zone t = mp_start_date p \<longleftrightarrow> mp_start_utc p \<le> tx_date t \<and> tx_date t < mp_end_utc p" for t
    using in_month_period [OF assms(2,1,3), of "tx_date t"] by (simp add: local_month_def Let_def)
  have "filter (\<lambda>t. local_month tz zone t = mp_start_date p) ?rows =
      spending_rows u cur (mp_start_utc p) (mp_end_utc p) db"
    using assms(4) by (auto simp: spending_rows_def iff posted_in_def intro!: filter_cong)
  moreover have "(case map_of (monthly_totals tz u cur zone a b db) (mp_start_date p) of None \<Rightarrow> 0 | Some x \<Rightarrow> x) =
      sum_rows spending_amount (filter (\<lambda>t. local_month tz zone t = mp_start_date p) ?rows)"
  proof (cases "mp_start_date p \<in> local_month tz zone ` set ?rows")
    case False
    then have "filter (\<lambda>t. local_month tz zone t = mp_start_date p) ?rows = []"
      by (auto simp: filter_empty_conv image_iff)
    with False show ?thesis
      by (simp add: monthly_totals_def map_of_sort_key [OF group_sums_keys] map_of_group_sums)
  qed (simp add: monthly_totals_def map_of_sort_key [OF group_sums_keys] map_of_group_sums)
  ultimately have "(case map_of (monthly_totals tz u cur zone a b db) (mp_start_date p) of None \<Rightarrow> 0 | Some x \<Rightarrow> x) =
      sum_rows spending_amount (spending_rows u cur (mp_start_utc p) (mp_end_utc p) db)"
    by simp
  then show ?thesis by (simp add: spending_rows_total financial_totals_def Let_def)
qed

lemma monthly_spending_Inr:
  assumes "monthly_spending tz clock u currency months db = Inr ms"
  shows "\<exists>user cur t ending mons periods. get_user u db = Some user \<and> selected_currency currency user = Inr cur \<and>
    clock = Aware t \<and> containing tz (Aware t) (uv_timezone user) = Inr ending \<and>
    previous_months ending months = Inr mons \<and>
    mapE (\<lambda>m. month_period tz m (uv_timezone user)) mons = Inr periods \<and>
    ms = map (\<lambda>p. \<lparr>ms_month_start = mp_start_date p,
      ms_amount = (case map_of (monthly_totals tz u cur (uv_timezone user) (mp_start_utc (hd periods))
        (mp_end_utc (last periods)) db) (mp_start_date p) of None \<Rightarrow> 0 | Some a \<Rightarrow> a), ms_currency = cur\<rparr>) periods"
  using assms
  by (auto simp: monthly_spending_def result_simps require_user_Inr service_now_def Let_def split: py_datetime.splits)

lemma monthly_series:
  assumes "monthly_spending tz clock u currency months db = Inr ms"
    "\<And>user. get_user u db = Some user \<Longrightarrow> regular_zone tz (uv_timezone user)"
  shows "int (length ms) = months \<and> (\<forall>e \<in> set ms. \<exists>m fs.
    financial_summary tz clock u currency (Some m) db = Inr fs \<and> fs_period_start fs = ms_month_start e \<and>
    fs_currency fs = ms_currency e \<and> fs_spent fs = ms_amount e)"
proof -
  from monthly_spending_Inr [OF assms(1)] obtain user cur t ending mons periods where
    user: "get_user u db = Some user" and cur: "selected_currency currency user = Inr cur" and
    ending: "containing tz (Aware t) (uv_timezone user) = Inr ending" and
    mons: "previous_months ending months = Inr mons" and
    periods: "mapE (\<lambda>m. month_period tz m (uv_timezone user)) mons = Inr periods" and
    ms: "ms = map (\<lambda>p. \<lparr>ms_month_start = mp_start_date p,
      ms_amount = (case map_of (monthly_totals tz u cur (uv_timezone user) (mp_start_utc (hd periods))
        (mp_end_utc (last periods)) db) (mp_start_date p) of None \<Rightarrow> 0 | Some a \<Rightarrow> a), ms_currency = cur\<rparr>) periods"
    by blast
  note spec = previous_months_Inr [OF mons containing_valid [OF ending]]
  have len: "length periods = length mons" and
    nth: "\<And>i. i < length mons \<Longrightarrow> month_period tz (mons ! i) (uv_timezone user) = Inr (periods ! i)"
    using periods by (auto simp: mapE_Inr)
  have pos: "0 < length mons" using spec by linarith
  have ends: "hd periods = periods ! 0" "last periods = periods ! (length mons - 1)"
    using pos len by (simp_all add: hd_conv_nth last_conv_nth flip: length_greater_0_conv)
  have entry: "\<exists>m fs. financial_summary tz clock u currency (Some m) db = Inr fs \<and>
      fs_period_start fs = mp_start_date (periods ! i) \<and> fs_currency fs = cur \<and>
      fs_spent fs = (case map_of (monthly_totals tz u cur (uv_timezone user) (mp_start_utc (hd periods))
        (mp_end_utc (last periods)) db) (mp_start_date (periods ! i)) of None \<Rightarrow> 0 | Some a \<Rightarrow> a)"
    if i: "i < length mons" for i
  proof -
    let ?m = "mons ! i" and ?p = "periods ! i"
    have l: "length mons - 1 < length mons" using pos by simp
    have win: "mp_start_utc (hd periods) \<le> t \<and> t < mp_end_utc (last periods)"
      if "mp_start_utc ?p \<le> t" "t < mp_end_utc ?p" for t
      unfolding ends using spec i pos that
      by (intro monthly_window [OF _ _ _ _ _ nth [OF pos] nth [OF i] nth [OF l] assms(2) [OF user]]) auto
    have vm: "valid_month ?m" using spec i by blast
    from monthly_totals_at [OF vm nth [OF i] assms(2) [OF user] win]
    have "(case map_of (monthly_totals tz u cur (uv_timezone user) (mp_start_utc (hd periods))
        (mp_end_utc (last periods)) db) (mp_start_date ?p) of None \<Rightarrow> 0 | Some a \<Rightarrow> a) =
      fst (financial_totals u cur ?p db)" .
    moreover have "report_scope tz clock u currency (Some ?m) db = Inr (cur, ?p)"
      using user cur nth [OF i] by (simp add: report_scope_def require_user_def)
    ultimately show ?thesis
      by (intro exI [of _ ?m]) (simp add: financial_summary_def split: prod.splits)
  qed
  have "\<exists>m fs. financial_summary tz clock u currency (Some m) db = Inr fs \<and> fs_period_start fs = ms_month_start e \<and>
      fs_currency fs = ms_currency e \<and> fs_spent fs = ms_amount e" if e: "e \<in> set ms" for e
  proof -
    from e len obtain i where i: "i < length mons" "e = ms ! i" by (auto simp: in_set_conv_nth ms)
    with entry [OF i(1)] len show ?thesis by (simp add: ms)
  qed
  moreover have "int (length ms) = months" using spec len by (simp add: ms)
  ultimately show ?thesis by blast
qed

section \<open>Tenant isolation\<close>

text \<open>Everything the ledger's reads show a user besides the shared categories.\<close>

definition same_ledger_view :: "uuid \<Rightarrow> 'a ledger_db_scheme \<Rightarrow> 'a ledger_db_scheme \<Rightarrow> bool" where
  "same_ledger_view u db db' \<longleftrightarrow>
     (\<forall>n c. repo_list_transactions u n c db' = repo_list_transactions u n c db) \<and>
     (\<forall>i. i \<in> tx_id ` set (transactions db) \<longrightarrow> repo_get_transaction u i db' = repo_get_transaction u i db) \<and>
     (\<forall>cur p. financial_totals u cur p db' = financial_totals u cur p db)"

lemma merchant_display_kept:
  assumes "get_or_create_merchant c i db = Inr (db', m)" "fk_merchant db x"
  shows "merchant_display db' x = merchant_display db x"
proof -
  have "merchants db' = merchants db \<or> (\<exists>r. merchants db' = merchants db @ [r] \<and> mer_id r \<notin> mer_id ` set (merchants db))"
    using assms(1)
    by (auto simp: get_or_create_merchant_def result_simps split: option.splits dest!: upsert_merchant_Inr)
  then show ?thesis
  proof (elim disjE exE conjE)
    fix r assume r: "merchants db' = merchants db @ [r]" "mer_id r \<notin> mer_id ` set (merchants db)"
    show ?thesis
    proof (cases x)
      case (Some i)
      with assms(2) have "\<exists>r \<in> set (merchants db). mer_id r = i" by (auto simp: fk_merchant_def)
      then have "select_one (\<lambda>r. mer_id r = i) (merchants db) \<noteq> None" by (simp only: select_one_ex)
      with Some r show ?thesis by (auto simp: merchant_display_def select_one_append)
    qed (simp add: merchant_display_def)
  qed (simp add: merchant_display_def)
qed

lemma other_user_view:
  assumes "create_transaction w command ids db = Inr (db', v)" "ledger_wf db" "w \<noteq> u"
  shows "same_ledger_view u db db'"
proof -
  from assms(1) have run: "repo_create_transaction w (select_category w command db) ids db = Inr (db', v)"
    by (simp add: create_transaction_Inr)
  from repo_create_transaction_Inr [OF run] obtain db1 m where
    g: "get_or_create_merchant (select_category w command db) (fst ids) db = Inr (db1, m)" and
    i: "insert_transaction (transaction_of_command w (select_category w command db) m (snd ids)) db1 = Inr db'" by blast
  let ?new = "transaction_of_command w (select_category w command db) m (snd ids)"
  note frame = get_or_create_merchant_frame [OF g]
  have rows: "transactions db' = transactions db @ [?new]" and same: "merchants db' = merchants db1" "categories db' = categories db"
    using i frame by (auto simp: insert_transaction_Inr)
  have view: "transaction_view db' t = transaction_view db t" if "t \<in> set (transactions db)" for t
  proof -
    have "fk_merchant db (tx_merchant t)" using that assms(2) by (auto simp: ledger_wf_def list_all_iff transaction_ok_def)
    with merchant_display_kept [OF g] have "merchant_display db1 (tx_merchant t) = merchant_display db (tx_merchant t)" .
    with same show ?thesis by (simp add: transaction_view_def merchant_display_def category_display_def)
  qed
  have foreign: "tx_user ?new \<noteq> u" using assms(3) by (simp add: transaction_of_command_def)
  have "repo_list_transactions u n c db' = repo_list_transactions u n c db" for n c
    using foreign view
    by (auto simp: repo_list_transactions_def rows dest!: in_set_takeD)
  moreover have "repo_get_transaction u j db' = repo_get_transaction u j db" if "j \<in> tx_id ` set (transactions db)" for j
    using foreign view
    by (auto simp: repo_get_transaction_def rows select_one_append split: option.splits dest!: select_one_SomeD)
  moreover have "financial_totals u cur p db' = financial_totals u cur p db" for cur p
    using foreign by (simp add: financial_totals_def rows posted_in_def)
  ultimately show ?thesis by (simp add: same_ledger_view_def)
qed

lemma create_category_Inr:
  assumes "create_category u command new_id db = Inr (db', v)"
  shows "get_user u db \<noteq> None \<and> \<not> category_name_is_visible u (cc_normalized command) db \<and>
    (case cc_parent command of None \<Rightarrow> True | Some p \<Rightarrow> category_is_visible u p db) \<and>
    insert_category \<lparr>cat_id = new_id, cat_user = Some u, cat_name = cc_name command,
      cat_normalized = cc_normalized command, cat_parent = cc_parent command\<rparr> db = Inr db' \<and>
    v = (new_id, cc_name command)"
  using assms by (auto simp: create_category_def repo_create_category_def result_simps require_user_Inr)

text \<open>No private category shadows a system category.\<close>

definition unshadowed :: "'a ledger_db_scheme \<Rightarrow> bool" where
  "unshadowed db \<longleftrightarrow>
     (\<forall>c \<in> set (categories db). \<forall>d \<in> set (categories db).
        cat_user c = None \<and> cat_user d \<noteq> None \<longrightarrow> cat_normalized c \<noteq> cat_normalized d)"

lemma visible_names_inj:
  assumes "ledger_wf db" "unshadowed db" "c \<in> set (categories db)" "d \<in> set (categories db)" "visible_to u c" "visible_to u d"
    "cat_normalized c = cat_normalized d"
  shows "c = d"
proof -
  have "inj_on (\<lambda>c. (cat_user c, cat_normalized c)) (set (categories db))"
    using assms(1) by (simp add: ledger_wf_def distinct_map)
  moreover have "cat_user c = cat_user d" using assms unfolding visible_to_def unshadowed_def by (metis option.distinct(1))
  ultimately show ?thesis using assms(3,4,7) by (auto simp: inj_on_def)
qed

lemma create_category_names:
  assumes "create_category u command new_id db = Inr (db', v)" "ledger_wf db" "unshadowed db"
  shows "ledger_wf db' \<and> unshadowed db'"
proof -
  note c = create_category_Inr [OF assms(1)]
  then have i: "insert_category \<lparr>cat_id = new_id, cat_user = Some u, cat_name = cc_name command,
      cat_normalized = cc_normalized command, cat_parent = cc_parent command\<rparr> db = Inr db'" by blast
  have "cat_normalized x \<noteq> cc_normalized command" if "x \<in> set (categories db)" "cat_user x = None" for x
    using that c by (auto simp: category_name_is_visible_iff visible_to_def)
  with i assms(3) have "unshadowed db'" by (auto simp: insert_category_Inr unshadowed_def)
  with insert_category_wf [OF i assms(2)] show ?thesis ..
qed

lemma find_visible_unique:
  assumes "ledger_wf db" "unshadowed db" "c \<in> set (categories db)" "visible_to u c"
  shows "find_visible_category_id u (cat_normalized c) db = Some (cat_id c)"
proof -
  let ?rows = "filter (\<lambda>x. cat_normalized x = cat_normalized c \<and> visible_to u x) (categories db)"
  let ?k = "\<lambda>c. case cat_user c of None \<Rightarrow> (0, 0) | Some u \<Rightarrow> (1 :: nat, u)"
  have "c \<in> set ?rows" using assms by simp
  from sort_key_nonempty [OF this] obtain r rs where r: "sort_key ?k ?rows = r # rs" by blast
  with sort_key_first [OF r] have "r \<in> set (categories db)" "visible_to u r" "cat_normalized r = cat_normalized c" by auto
  with visible_names_inj [OF assms(1,2,3) _ assms(4)] have "r = c" by metis
  with r show ?thesis by (simp add: find_visible_category_id_def)
qed

lemma parsed_category_total:
  assumes "parse_create_category name parent = Inr command" "ledger_wf db" "get_user u db \<noteq> None"
    "case parent of None \<Rightarrow> True | Some p \<Rightarrow> category_is_visible u p db"
    "\<not> category_name_is_visible u (cc_normalized command) db" "new_id \<notin> cat_id ` set (categories db)"
  shows "\<exists>db'. create_category u command new_id db = Inr (db', (new_id, cc_name command))"
proof -
  from assms(1) have c: "cc_name command = normalize_display_text name" "cc_parent command = parent"
    "cc_normalized command = casefold (normalize_display_text name)" "normalize_display_text name \<noteq> []"
    "length (normalize_display_text name) \<le> 80"
    by (auto simp: parse_create_category_def Let_def split: if_splits)
  have fk: "fk_category db parent" using assms(4) category_is_visible_fk [of u _ db] by (auto simp: fk_category_def split: option.splits)
  then have "parent \<noteq> Some new_id" using assms(6) by (auto simp: fk_category_def)
  moreover have "(Some u, cc_normalized command) \<notin> (\<lambda>r. (cat_user r, cat_normalized r)) ` set (categories db)"
    using assms(5) by (auto simp: category_name_is_visible_iff visible_to_def)
  moreover have "fk_user db u" using assms(3) get_user_Some [of u db] by (auto simp: fk_user_def)
  ultimately have "insert_category \<lparr>cat_id = new_id, cat_user = Some u, cat_name = cc_name command,
      cat_normalized = cc_normalized command, cat_parent = cc_parent command\<rparr> db =
    Inr (db\<lparr>categories := categories db @ [\<lparr>cat_id = new_id, cat_user = Some u, cat_name = cc_name command,
      cat_normalized = cc_normalized command, cat_parent = cc_parent command\<rparr>]\<rparr>)"
    using c fk assms(6) normalized_not_blank [OF c(4)] by (simp add: insert_category_Inr category_checks_def)
  with assms(3-5) c(2) show ?thesis
    by (auto simp: create_category_def repo_create_category_def require_user_def)
qed

section \<open>Sample instances\<close>

definition sample_zone :: tzdata where
  "sample_zone = \<lparr>tz_lookup = \<lambda>_. Zone_Found, tz_local = \<lambda>_ t. t, tz_instant = \<lambda>_ w. w\<rparr>"

definition sample_command :: create_transaction_command where
  "sample_command =
     \<lparr>ct_amount = Dec 1250 (-2), ct_currency = ''INR'', ct_type = EXPENSE, ct_description = ''Metro card'',
      ct_date = 5000, ct_status = POSTED, ct_category_id = None, ct_merchant_name = Some ''Namma Metro'',
      ct_merchant_normalized = Some ''namma metro'', ct_source = MANUAL, ct_confidence = None,
      ct_category_source = None, ct_category_version = None, ct_category_confidence = None,
      ct_category_overridden = False\<rparr>"

lemma sample_parse:
  "parse_create_transaction ''12.50'' ''inr'' EXPENSE '' Metro  card '' (Aware 5000) POSTED None
    (Some ''Namma Metro'') MANUAL None = Inr sample_command"
  by code_simp

lemma sample_scope: "report_scope sample_zone clock 1 None (Some (YearMonth 2026 5)) sample_categorization =
    Inr (''INR'', \<lparr>mp_month = YearMonth 2026 5, mp_start_date = Date 2026 5 1, mp_end_date = Date 2026 6 1,
      mp_start_utc = 1777593600000000, mp_end_utc = 1780272000000000\<rparr>)"
  by code_simp

lemma sample_series:
  "\<exists>ms. monthly_spending sample_zone (Aware 1778500000000000) 1 None 2 sample_categorization = Inr ms"
proof -
  have c: "containing sample_zone (Aware 1778500000000000) ''UTC'' = Inr (YearMonth 2026 5)"
    "previous_months (YearMonth 2026 5) 2 = Inr [YearMonth 2026 4, YearMonth 2026 5]"
    "parse_currency ''INR'' = Inr ''INR''"
    by code_simp+
  have "\<exists>ps. mapE (\<lambda>m. month_period sample_zone m ''UTC'') [YearMonth 2026 4, YearMonth 2026 5] = Inr ps"
    by (simp add: month_period_def parse_timezone_def sample_zone_def next_month_def mk_year_month_def mk_date_def
        valid_date_def days_in_month_def)
  moreover have "require_user 1 sample_categorization =
      Inr \<lparr>uv_id = 1, uv_name = ''A'', uv_default_currency = ''INR'', uv_timezone = ''UTC''\<rparr>"
    by (simp add: require_user_def get_user_def sample_categorization_def sample_users_def)
  ultimately show ?thesis by (auto simp: monthly_spending_def c service_now_def selected_currency_def)
qed

section \<open>Properties\<close>

text \<open>
  C1: a transaction that \<open>parse_create_transaction\<close> accepted (with an amount of at most 28 digits)
  is always recorded, for an existing user, a visible category and fresh ids: no table constraint can
  reject it; exactly one row is added, and every field of it is fixed by the raw inputs: the owner and
  the fresh id, the exact amount, the normalized currency, the type, status, instant and source as given,
  the description with its spaces normalized, the confidence at four places, the merchant of the
  normalized name (none for a blank one; a new merchant only when no merchant has the name), and the
  category, taken from the user with full confidence, or from the classifier when none is given. The
  other tables are unchanged, the answer is the view of that row, and the store keeps its invariants.
\<close>

theorem parsed_transaction_is_recorded:
  assumes "parse_create_transaction amount cur ty desc dt status category merchant source conf = Inr command"
    "exact_literal (ct_amount command)" "categorization_wf db" "get_user u db \<noteq> None"
    "case category of None \<Rightarrow> True | Some c \<Rightarrow> category_is_visible u c db"
    "fst ids \<notin> mer_id ` set (merchants db)" "snd ids \<notin> tx_id ` set (transactions db)"
  shows "\<exists>db' v row. create_transaction u command ids db = Inr (db', v) \<and> categorization_wf db' \<and>
    transactions db' = transactions db @ [row] \<and> users db' = users db \<and> categories db' = categories db \<and>
    ledger_db.more db' = ledger_db.more db \<and>
    tx_user row = u \<and> tx_id row = snd ids \<and>
    parse_decimal amount = Some (ct_amount command) \<and> tx_amount row = numeric_19_4 (ct_amount command) \<and>
    (\<exists>c e. parse_decimal amount = Some (Dec c e) \<and> of_int (tx_amount row) = dec_value c e * 10 ^ 4) \<and>
    normalize_currency_code cur = Inr (tx_currency row) \<and> tx_currency row \<in> set SUPPORTED_CURRENCIES \<and>
    tx_type row = ty \<and> tx_status row = status \<and> dt = Aware (tx_date row) \<and> tx_source row = source \<and>
    tx_description row = normalize_display_text desc \<and> tx_confidence row = map_option quantize_4 conf \<and>
    merchant_recorded (merchant_given merchant) (fst ids) db db' row \<and>
    category_of_row row =
      (case category of
         Some c \<Rightarrow> (Some c, Some USER_OVERRIDE, Some ''explicit-user-v1'', Some 10000, True)
       | None \<Rightarrow> assigned_fields
           (classify u (normalize_display_text desc) (map_option casefold (merchant_given merchant)) db)) \<and>
    get_transaction u (snd ids) db' = Inr v \<and> v = transaction_view db' row"
proof -
  note ok = parse_create_transaction_ok [OF assms(1,2)] and fields = parsed_fields [OF assms(1)]
  from create_transaction_total [OF assms(3) ok assms(4) _ assms(6,7)] assms(5) fields(6)
  obtain db' v where run: "create_transaction u command ids db = Inr (db', v)" by auto
  from created_row [OF run] obtain m where
    row: "transactions db' = transactions db @ [transaction_of_command u (select_category u command db) m (snd ids)]"
      "users db' = users db" "categories db' = categories db" "ledger_db.more db' = ledger_db.more db"
      "get_transaction u (snd ids) db' = Inr v"
      "v = transaction_view db' (transaction_of_command u (select_category u command db) m (snd ids))" and
    mer: "merchant_recorded (merchant_given merchant) (fst ids) db db'
      (transaction_of_command u (select_category u command db) m (snd ids))"
    using fields(10,11) by blast
  let ?row = "transaction_of_command u (select_category u command db) m (snd ids)"
  have "tx_user ?row = u" "tx_id ?row = snd ids" "tx_amount ?row = numeric_19_4 (ct_amount command)"
    "tx_currency ?row = ct_currency command" "tx_type ?row = ty" "tx_status ?row = status" "dt = Aware (tx_date ?row)"
    "tx_source ?row = source" "tx_description ?row = normalize_display_text desc"
    "tx_confidence ?row = map_option quantize_4 conf"
    using fields by (simp_all add: transaction_of_command_def select_category_fields)
  moreover have "normalize_currency_code cur = Inr (ct_currency command)"
    using fields(2) by (auto simp: parse_currency_def split: sum.splits if_splits)
  ultimately show ?thesis
    using run create_transaction_wf [OF run assms(3)] row mer
      parsed_amount [OF fields(1) assms(2), THEN conjunct1] parsed_amount [OF fields(1) assms(2), THEN conjunct2]
      selected_fields [OF assms(1), of u db m "snd ids"] parse_currency_Inr [OF fields(2)]
    by (intro exI [of _ db'] exI [of _ v] exI [of _ ?row]) simp
qed

theorem parsed_transaction_is_recorded_witness:
  "\<exists>db' v row. create_transaction 1 sample_command (21, 31) sample_categorization = Inr (db', v) \<and>
    transactions db' = [sample_transaction, row] \<and> tx_amount row = 125000"
proof -
  have "get_user 1 sample_categorization \<noteq> None" "fst (21, 31) \<notin> mer_id ` set (merchants sample_categorization)"
    "snd (21, 31) \<notin> tx_id ` set (transactions sample_categorization)"
    by (simp_all add: sample_categorization_def sample_defs get_user_def)
  moreover have "exact_literal (ct_amount sample_command)"
    by (simp add: exact_literal_def sample_command_def ndigits.simps)
  moreover have "numeric_19_4 (ct_amount sample_command) = 125000"
    by (simp add: sample_command_def at_scale_def half_up_def MONEY_SCALE_def)
  ultimately show ?thesis
    using parsed_transaction_is_recorded [OF sample_parse _ sample_categorization_wf, of 1 "(21, 31)"]
    by (auto simp: sample_categorization_def)
qed

text \<open>
  C24: \<open>create_transaction\<close> never lets a user reach another user's data: what every other user's
  timeline, lookups and totals show is unchanged, and a category the user cannot see is refused
  before anything is written.
\<close>

theorem transactions_are_isolated:
  assumes "ledger_wf db" "w \<noteq> u"
  shows "(case create_transaction w command ids db of Inl _ \<Rightarrow> True | Inr (db', v) \<Rightarrow> same_ledger_view u db db') \<and>
    (get_user w db \<noteq> None \<and> ct_category_id command = Some c \<and> \<not> category_is_visible w c db \<longrightarrow>
      create_transaction w command ids db = Inl (LedgerNotFoundError ''CATEGORY_NOT_FOUND'' (Some ''categoryId'')))"
proof
  show "case create_transaction w command ids db of Inl _ \<Rightarrow> True | Inr (db', v) \<Rightarrow> same_ledger_view u db db'"
    using other_user_view [OF _ assms] by (auto split: sum.splits)
  show "get_user w db \<noteq> None \<and> ct_category_id command = Some c \<and> \<not> category_is_visible w c db \<longrightarrow>
      create_transaction w command ids db = Inl (LedgerNotFoundError ''CATEGORY_NOT_FOUND'' (Some ''categoryId''))"
    by (auto simp: create_transaction_def require_user_def category_not_found_def)
qed

theorem transactions_are_isolated_witness:
  "create_transaction 1 (sample_command\<lparr>ct_category_id := Some 12\<rparr>) (21, 31) sample_categorization =
    Inl (LedgerNotFoundError ''CATEGORY_NOT_FOUND'' (Some ''categoryId''))"
proof -
  have wf: "ledger_wf sample_categorization" using sample_categorization_wf by (simp add: categorization_wf_def)
  have "get_user 1 sample_categorization \<noteq> None" "\<not> category_is_visible 1 12 sample_categorization"
    by (simp_all add: sample_categorization_def sample_defs get_user_def category_is_visible_def visible_to_def)
  then show ?thesis
    using transactions_are_isolated [OF wf, of 1 2 "sample_command\<lparr>ct_category_id := Some 12\<rparr>" "(21, 31)" 12] by simp
qed

text \<open>
  C3: following the cursors of \<open>list_transactions\<close> from the first page returns the user's whole
  timeline, each transaction once, newest first, whatever the page size.
\<close>

theorem pages_cover_the_timeline:
  assumes "ledger_wf db" "get_user u db \<noteq> None" "1 \<le> first" "first \<le> 100"
  shows "follow_pages (length (transactions db) + 1) u first None db =
    Inr (map (transaction_view db)
      (sort_key timeline_key (filter (\<lambda>t. tx_user t = u) (transactions db))))"
proof -
  have "distinct (map tx_id (transactions db))" using assms(1) by (simp add: ledger_wf_def)
  moreover have "length (own_rows u db) < length (transactions db) + 1"
    by (simp add: own_rows_def less_Suc_eq_le)
  ultimately show ?thesis
    using follow_pages_at [of db 0 u first "length (transactions db) + 1"] assms
    by (simp add: timeline_cursor_def own_timeline_def own_rows_def)
qed

theorem pages_cover_the_timeline_witness:
  "\<exists>v. follow_pages 2 1 1 None sample_categorization = Inr [v] \<and> tv_id v = 30"
proof -
  have wf: "ledger_wf sample_categorization" using sample_categorization_wf by (simp add: categorization_wf_def)
  have "get_user 1 sample_categorization \<noteq> None" by (simp add: sample_categorization_def sample_defs get_user_def)
  from pages_cover_the_timeline [OF wf this, of 1] show ?thesis
    by (simp add: sample_categorization_def sample_transaction_def transaction_view_def numeral_2_eq_2)
qed

text \<open>
  C2: the reports agree: the amounts of \<open>spending_by_category\<close> and of \<open>spending_by_merchant\<close> add
  up to the \<open>spent\<close> of the financial summary of the same month and currency, and in both every
  share is the exact percentage of that total rounded half up (0 when the total is not positive).
\<close>

theorem reports_agree:
  assumes "financial_summary tz clock u currency chosen db = Inr fs"
  shows "(\<exists>gs. spending_by_category coll tz clock u currency chosen db = Inr gs \<and>
      sum_list (map gs_amount gs) = fs_spent fs \<and>
      (\<forall>g \<in> set gs. gs_share g = (if fs_spent fs \<le> 0 then 0 else percent_of (gs_amount g) (fs_spent fs)) \<and>
        (0 < fs_spent fs \<and> \<bar>gs_amount g\<bar> < 10 ^ 24 \<longrightarrow> gs_share g = half_up (100 * gs_amount g) (fs_spent fs)))) \<and>
    (\<exists>gs. spending_by_merchant coll tz clock u currency chosen db = Inr gs \<and>
      sum_list (map gs_amount gs) = fs_spent fs \<and>
      (\<forall>g \<in> set gs. gs_share g = (if fs_spent fs \<le> 0 then 0 else percent_of (gs_amount g) (fs_spent fs)) \<and>
        (0 < fs_spent fs \<and> \<bar>gs_amount g\<bar> < 10 ^ 24 \<longrightarrow> gs_share g = half_up (100 * gs_amount g) (fs_spent fs))))"
proof -
  from assms obtain cur p where scope: "report_scope tz clock u currency chosen db = Inr (cur, p)" and
    spent: "fs_spent fs = fst (financial_totals u cur p db)"
    using financial_summary_Inr by blast
  let ?gs = "shares cur (category_totals coll u cur p db)" and ?ms = "shares cur (merchant_totals coll u cur p db)"
  have "spending_by_category coll tz clock u currency chosen db = Inr ?gs"
    "spending_by_merchant coll tz clock u currency chosen db = Inr ?ms"
    by (simp_all add: spending_by_category_def spending_by_merchant_def scope)
  moreover have "sum_list (map gs_amount ?gs) = fs_spent fs" "sum_list (map gs_amount ?ms) = fs_spent fs"
    by (simp_all only: shares_amounts category_totals_sum merchant_totals_sum spent)
  moreover have "gs_share g = percentage (gs_amount g) (fs_spent fs)" if "g \<in> set ?gs \<or> g \<in> set ?ms" for g
    using that shares_mem [of g cur] by (auto simp only: category_totals_sum merchant_totals_sum spent)
  ultimately show ?thesis
    by (auto simp: percentage_def percent_of_exact)
qed

theorem reports_agree_witness:
  "\<exists>fs gs. financial_summary sample_zone (Aware 0) 1 None (Some (YearMonth 2026 5)) sample_categorization = Inr fs \<and>
    fs_spent fs = 2500000 \<and>
    spending_by_category (\<lambda>s. 0 :: nat) sample_zone (Aware 0) 1 None (Some (YearMonth 2026 5)) sample_categorization = Inr gs \<and>
    sum_list (map gs_amount gs) = 2500000"
proof -
  have "financial_summary sample_zone (Aware 0) 1 None (Some (YearMonth 2026 5)) sample_categorization =
    Inr \<lparr>fs_currency = ''INR'', fs_period_start = Date 2026 5 1, fs_period_end = Date 2026 6 1, fs_spent = 2500000,
      fs_income = 0, fs_count = 1\<rparr>"
    unfolding financial_summary_def sample_scope
    by (simp add: financial_totals_def posted_in_def summary_spending_def summary_income_def
        sample_categorization_def sample_transaction_def)
  from reports_agree [OF this, of "\<lambda>s. 0 :: nat"] this show ?thesis by auto
qed

text \<open>
  In a regular time zone, the monthly series has the requested length and each of its entries
  is exactly the \<open>spent\<close> of that month's financial summary.
\<close>

theorem monthly_series_matches_summaries:
  assumes "monthly_spending tz clock u currency months db = Inr ms"
    "\<And>user. get_user u db = Some user \<Longrightarrow> regular_zone tz (uv_timezone user)"
  shows "int (length ms) = months \<and> (\<forall>e \<in> set ms. \<exists>m fs.
    financial_summary tz clock u currency (Some m) db = Inr fs \<and> fs_period_start fs = ms_month_start e \<and>
    fs_currency fs = ms_currency e \<and> fs_spent fs = ms_amount e)"
  by (rule monthly_series [OF assms])

theorem monthly_series_matches_summaries_witness:
  "\<exists>ms. monthly_spending sample_zone (Aware 1778500000000000) 1 None 2 sample_categorization = Inr ms \<and>
    int (length ms) = 2"
proof -
  have "regular_zone sample_zone z" for z by (simp add: regular_zone_def sample_zone_def)
  moreover obtain ms where "monthly_spending sample_zone (Aware 1778500000000000) 1 None 2 sample_categorization = Inr ms"
    using sample_series by blast
  ultimately show ?thesis using monthly_series_matches_summaries by blast
qed

text \<open>
  Category names stay unambiguous: a parsed, new name is always accepted; afterwards the name
  resolves to the new category for its owner, still exactly one visible category has any given
  name, and the invariants hold.
\<close>

theorem category_names_stay_unambiguous:
  assumes "parse_create_category name parent = Inr command" "ledger_wf db" "unshadowed db" "get_user u db \<noteq> None"
    "case parent of None \<Rightarrow> True | Some p \<Rightarrow> category_is_visible u p db"
    "\<not> category_name_is_visible u (cc_normalized command) db" "new_id \<notin> cat_id ` set (categories db)"
  shows "\<exists>db'. create_category u command new_id db = Inr (db', (new_id, cc_name command)) \<and>
    ledger_wf db' \<and> unshadowed db' \<and>
    find_visible_category_id u (normalize_lookup_text name) db' = Some new_id \<and>
    create_category u command (new_id + 1) db' = Inl (LedgerConflictError ''CATEGORY_ALREADY_EXISTS'' (Some ''name''))"
proof -
  from parsed_category_total [OF assms(1,2,4-7)] obtain db' where
    run: "create_category u command new_id db = Inr (db', (new_id, cc_name command))" by blast
  note ok = create_category_names [OF run assms(2,3)]
  let ?c = "\<lparr>cat_id = new_id, cat_user = Some u, cat_name = cc_name command,
      cat_normalized = cc_normalized command, cat_parent = cc_parent command\<rparr>"
  from create_category_Inr [OF run] have db': "db' = db\<lparr>categories := categories db @ [?c]\<rparr>"
    by (auto simp: insert_category_Inr)
  have mem: "?c \<in> set (categories db')" "visible_to u ?c" by (simp_all add: db' visible_to_def)
  have name: "cc_normalized command = normalize_lookup_text name" "cc_parent command = parent"
    using assms(1) by (auto simp: parse_create_category_def normalize_lookup_text_def Let_def split: if_splits)
  have "find_visible_category_id u (normalize_lookup_text name) db' = Some new_id"
    using find_visible_unique [of db' ?c u] ok mem name by simp
  moreover have "create_category u command (new_id + 1) db' =
      Inl (LedgerConflictError ''CATEGORY_ALREADY_EXISTS'' (Some ''name''))"
  proof -
    have "category_name_is_visible u (cc_normalized command) db'"
      unfolding category_name_is_visible_iff using mem by (intro bexI [of _ ?c]) simp_all
    moreover have "case parent of None \<Rightarrow> True | Some p \<Rightarrow> category_is_visible u p db'"
      using assms(5) by (auto simp: db' category_is_visible_iff split: option.splits)
    moreover have "get_user u db' \<noteq> None" using assms(4) by (simp add: db' get_user_def)
    ultimately show ?thesis using name by (auto simp: create_category_def require_user_def)
  qed
  ultimately show ?thesis using run ok by blast
qed

theorem category_names_stay_unambiguous_witness:
  "\<exists>db' command. create_category 1 command 13 sample_categorization = Inr (db', (13, ''Travel'')) \<and>
    find_visible_category_id 1 ''travel'' db' = Some 13"
proof -
  let ?c = "\<lparr>cc_name = ''Travel'', cc_normalized = ''travel'', cc_parent = Some 10\<rparr>"
  have p: "parse_create_category '' Travel '' (Some 10) = Inr ?c" "normalize_lookup_text '' Travel '' = ''travel''"
    by code_simp+
  have wf: "ledger_wf sample_categorization" using sample_categorization_wf by (simp add: categorization_wf_def)
  have "unshadowed sample_categorization" "get_user 1 sample_categorization \<noteq> None"
    "category_is_visible 1 10 sample_categorization" "\<not> category_name_is_visible 1 ''travel'' sample_categorization"
    "13 \<notin> cat_id ` set (categories sample_categorization)"
    by (simp_all add: unshadowed_def sample_categorization_def sample_defs get_user_def category_is_visible_def
        category_name_is_visible_def visible_to_def)
  with category_names_stay_unambiguous [OF p(1) wf, of 1 13] p(2) show ?thesis by auto
qed

end
