(* ===== verification/Obligations.thy ===== *)
theory Obligations
  imports Ledger_Service "HOL-Library.List_Lexorder" "HOL-Library.Char_ord"
begin

text \<open>
  People, receivables, payables and their settlement history: \<open>ledger/obligation_commands.py\<close>,
  the models \<open>Person\<close>, \<open>Receivable\<close>, \<open>Payable\<close> and \<open>ObligationSettlement\<close>,
  \<open>ledger/obligation_repository.py\<close> and \<open>ledger/obligation_service.py\<close>.

  The program writes every operation twice, once per table; both are instances of one definition
  over an \<open>obligation_kind\<close>, and the pair of operations of the program is declared after it.
  Sums in Python stay exact: stored amounts have at most 19 digits, so that a sum of fewer than
  \<open>10 ^ 9\<close> of them fits the 28 digits of the context; the one sum with an amount that is not stored
  yet (\<open>settled + command.amount\<close>) is written with its rounding.
\<close>

section \<open>Commands\<close>

record create_person_command =
  cp_name :: string
  cp_normalized :: string

record create_obligation_command =
  co_person :: uuid
  co_amount :: decimal
  co_currency :: string
  co_description :: string
  co_issued :: date
  co_due :: "date option"
  co_transaction :: "uuid option"

record settle_command =
  sc_amount :: decimal
  sc_currency :: string
  sc_settled_at :: instant
  sc_transaction :: "uuid option"
  sc_note :: "string option"

definition parse_create_person :: "string \<Rightarrow> create_person_command result" where
  "parse_create_person name =
     (let display_name = normalize_display_text name
      in if display_name = [] then Inl (ledger_invalid ''INVALID_PERSON_NAME'' ''name'')
         else if length display_name > 120 then Inl (ledger_invalid ''INVALID_PERSON_NAME'' ''name'')
         else Inr \<lparr>cp_name = display_name, cp_normalized = normalize_lookup_text display_name\<rparr>)"

definition obligation_amount :: "string \<Rightarrow> decimal result" where
  "obligation_amount raw =
     (if raw = [] \<or> raw \<noteq> strip raw \<or> hd raw = CHR ''+'' \<or> hd raw = CHR ''-''
      then Inl (ledger_invalid ''INVALID_AMOUNT'' ''amount'')
      else case parse_decimal raw of
          None \<Rightarrow> Inl (ledger_invalid ''INVALID_AMOUNT'' ''amount'')
        | Some d \<Rightarrow> (case validate_positive_money d of
              Inl _ \<Rightarrow> Inl (ledger_invalid ''INVALID_AMOUNT'' ''amount'')
            | Inr v \<Rightarrow> Inr v))"

definition parse_description :: "string \<Rightarrow> string result" where
  "parse_description description =
     (let normalized = normalize_display_text description
      in if normalized = [] then Inl (ledger_invalid ''INVALID_DESCRIPTION'' ''description'')
         else if length normalized > 500 then Inl (ledger_invalid ''INVALID_DESCRIPTION'' ''description'')
         else Inr normalized)"

definition parse_create_obligation ::
  "uuid \<Rightarrow> string \<Rightarrow> string \<Rightarrow> string \<Rightarrow> date \<Rightarrow> date option \<Rightarrow> uuid option \<Rightarrow>
   create_obligation_command result" where
  "parse_create_obligation person amount currency description issued due transaction =
     bindE (parse_description description) (\<lambda>parsed_description.
     bindE (ensure (case due of None \<Rightarrow> True | Some d \<Rightarrow> issued \<le> d)
              (ledger_invalid ''INVALID_DUE_DATE'' ''dueDate'')) (\<lambda>_.
     bindE (obligation_amount amount) (\<lambda>parsed_amount.
     bindE (parse_currency currency) (\<lambda>parsed_currency.
       Inr \<lparr>co_person = person, co_amount = parsed_amount, co_currency = parsed_currency,
            co_description = parsed_description, co_issued = issued, co_due = due,
            co_transaction = transaction\<rparr>))))"

definition parse_settlement ::
  "string \<Rightarrow> string \<Rightarrow> py_datetime \<Rightarrow> uuid option \<Rightarrow> string option \<Rightarrow> settle_command result" where
  "parse_settlement amount currency settled_at transaction note =
     (case settled_at of
        Naive _ \<Rightarrow> Inl (ledger_invalid ''INVALID_SETTLEMENT_DATE'' ''settledAt'')
      | Aware t \<Rightarrow>
          let normalized_note = Option.bind note (\<lambda>n.
            let s = normalize_display_text n in if s = [] then None else Some s) in
          bindE (ensure (case normalized_note of None \<Rightarrow> True | Some n \<Rightarrow> length n \<le> 500)
                   (ledger_invalid ''INVALID_SETTLEMENT_NOTE'' ''note'')) (\<lambda>_.
          bindE (obligation_amount amount) (\<lambda>parsed_amount.
          bindE (parse_currency currency) (\<lambda>parsed_currency.
            Inr \<lparr>sc_amount = parsed_amount, sc_currency = parsed_currency, sc_settled_at = t,
                 sc_transaction = transaction, sc_note = normalized_note\<rparr>))))"

section \<open>Tables\<close>

datatype obligation_kind = RECEIVABLE | PAYABLE

record person_row =
  per_id :: uuid
  per_user :: uuid
  per_name :: string
  per_normalized :: string

text \<open>A row of \<open>receivables\<close> or of \<open>payables\<close>.\<close>

record obligation_row =
  obl_id :: uuid
  obl_user :: uuid
  obl_person :: uuid
  obl_amount :: money
  obl_currency :: string
  obl_description :: string
  obl_issued :: date
  obl_due :: "date option"
  obl_status :: obligation_status
  obl_transaction :: "uuid option"

record settlement_row =
  set_id :: uuid
  set_user :: uuid
  set_receivable :: "uuid option"
  set_payable :: "uuid option"
  set_amount :: money
  set_currency :: string
  set_settled_at :: instant
  set_transaction :: "uuid option"
  set_note :: "string option"

record obligation_db = categorization_db +
  people :: "person_row list"
  receivables :: "obligation_row list"
  payables :: "obligation_row list"
  settlements :: "settlement_row list"

fun obligations_of :: "obligation_kind \<Rightarrow> 'a obligation_db_scheme \<Rightarrow> obligation_row list" where
  "obligations_of RECEIVABLE db = receivables db"
| "obligations_of PAYABLE db = payables db"

fun put_obligations :: "obligation_kind \<Rightarrow> obligation_row list \<Rightarrow> 'a obligation_db_scheme \<Rightarrow> 'a obligation_db_scheme" where
  "put_obligations RECEIVABLE rows db = db\<lparr>receivables := rows\<rparr>"
| "put_obligations PAYABLE rows db = db\<lparr>payables := rows\<rparr>"

fun settlement_ref :: "obligation_kind \<Rightarrow> settlement_row \<Rightarrow> uuid option" where
  "settlement_ref RECEIVABLE s = set_receivable s"
| "settlement_ref PAYABLE s = set_payable s"

section \<open>Constraints\<close>

definition fk_person :: "'a obligation_db_scheme \<Rightarrow> uuid \<Rightarrow> uuid \<Rightarrow> bool" where
  "fk_person db person user \<longleftrightarrow> (person, user) \<in> set (map (\<lambda>p. (per_id p, per_user p)) (people db))"

definition fk_transaction :: "'a ledger_db_scheme \<Rightarrow> uuid option \<Rightarrow> uuid \<Rightarrow> bool" where
  "fk_transaction db transaction user =
     (case transaction of None \<Rightarrow> True
      | Some i \<Rightarrow> (i, user) \<in> set (map (\<lambda>t. (tx_id t, tx_user t)) (transactions db)))"

definition obligation_checks :: "obligation_row \<Rightarrow> bool" where
  "obligation_checks r \<longleftrightarrow>
     0 < obl_amount r \<and> obl_amount r < 10 ^ 19 \<and> currency_pattern (obl_currency r) \<and>
     not_blank (obl_description r) \<and> length (obl_description r) \<le> 500 \<and>
     (case obl_due r of None \<Rightarrow> True | Some d \<Rightarrow> obl_issued r \<le> d)"

definition settlement_checks :: "settlement_row \<Rightarrow> bool" where
  "settlement_checks s \<longleftrightarrow>
     (set_receivable s = None) \<noteq> (set_payable s = None) \<and>
     0 < set_amount s \<and> set_amount s < 10 ^ 19 \<and> currency_pattern (set_currency s) \<and>
     (case set_note s of None \<Rightarrow> True | Some n \<Rightarrow> length n \<le> 500)"

text \<open>The composite foreign key (id, owner, currency) of a settlement.\<close>

definition fk_obligation :: "obligation_kind \<Rightarrow> 'a obligation_db_scheme \<Rightarrow> settlement_row \<Rightarrow> bool" where
  "fk_obligation k db s =
     (case settlement_ref k s of None \<Rightarrow> True
      | Some i \<Rightarrow> (i, set_user s, set_currency s) \<in>
          set (map (\<lambda>r. (obl_id r, obl_user r, obl_currency r)) (obligations_of k db)))"

section \<open>The repository\<close>

definition owner_timezone :: "uuid \<Rightarrow> 'a ledger_db_scheme \<Rightarrow> string option" where
  "owner_timezone user_id db = map_option usr_timezone (select_one (\<lambda>u. usr_id u = user_id) (users db))"

text \<open>\<open>INSERT ... ON CONFLICT DO NOTHING\<close>: \<open>None\<close> when the name is taken.\<close>

definition repo_create_person ::
  "uuid \<Rightarrow> create_person_command \<Rightarrow> uuid \<Rightarrow> 'a obligation_db_scheme \<Rightarrow>
   ('a obligation_db_scheme \<times> (uuid \<times> string) option) result" where
  "repo_create_person user_id command new_id db =
     (if (user_id, cp_normalized command) \<in> set (map (\<lambda>p. (per_user p, per_normalized p)) (people db))
      then Inr (db, None)
      else bindE (ensure (fk_user db user_id \<and> not_blank (cp_name command) \<and> not_blank (cp_normalized command))
                    (IntegrityError ''people'')) (\<lambda>_.
           bindE (insert_row per_id \<lparr>per_id = new_id, per_user = user_id, per_name = cp_name command,
               per_normalized = cp_normalized command\<rparr> (people db)) (\<lambda>rows.
             Inr (db\<lparr>people := rows\<rparr>, Some (new_id, cp_name command)))))"

definition repo_list_people ::
  "(string \<Rightarrow> 'k::linorder) \<Rightarrow> uuid \<Rightarrow> 'a obligation_db_scheme \<Rightarrow> (uuid \<times> string) list" where
  "repo_list_people coll user_id db =
     map (\<lambda>p. (per_id p, per_name p))
       (sort_key (\<lambda>p. (coll (per_normalized p), per_id p)) (filter (\<lambda>p. per_user p = user_id) (people db)))"

definition find_person_by_normalized_name ::
  "uuid \<Rightarrow> string \<Rightarrow> 'a obligation_db_scheme \<Rightarrow> (uuid \<times> string) option" where
  "find_person_by_normalized_name user_id normalized_name db =
     map_option (\<lambda>p. (per_id p, per_name p))
       (select_one (\<lambda>p. per_user p = user_id \<and> per_normalized p = normalized_name) (people db))"

definition person_exists :: "uuid \<Rightarrow> uuid \<Rightarrow> 'a obligation_db_scheme \<Rightarrow> bool" where
  "person_exists user_id person_id db \<longleftrightarrow>
     select_one (\<lambda>p. per_user p = user_id \<and> per_id p = person_id) (people db) \<noteq> None"

definition transaction_exists :: "uuid \<Rightarrow> uuid \<Rightarrow> 'a ledger_db_scheme \<Rightarrow> bool" where
  "transaction_exists user_id transaction_id db \<longleftrightarrow>
     select_one (\<lambda>t. tx_user t = user_id \<and> tx_id t = transaction_id) (transactions db) \<noteq> None"

section \<open>Projections\<close>

record obligation_view =
  ov_id :: uuid
  ov_kind :: obligation_kind
  ov_person :: uuid
  ov_person_name :: string
  ov_amount :: money
  ov_settled :: money
  ov_outstanding :: money
  ov_currency :: string
  ov_description :: string
  ov_issued :: date
  ov_due :: "date option"
  ov_settlement_status :: obligation_status
  ov_effective_status :: obligation_status
  ov_transaction :: "uuid option"

record settlement_view =
  sv_id :: uuid
  sv_kind :: obligation_kind
  sv_obligation :: uuid
  sv_amount :: money
  sv_currency :: string
  sv_settled_at :: instant
  sv_transaction :: "uuid option"
  sv_note :: "string option"

record outstanding_by_currency =
  oc_currency :: string
  oc_receivable :: money
  oc_payable :: money
  oc_net_exposure :: money

text \<open>The settled total of the grouped subquery, 0 when no settlement refers to the obligation.\<close>

definition settled_total :: "obligation_kind \<Rightarrow> uuid \<Rightarrow> 'a obligation_db_scheme \<Rightarrow> money" where
  "settled_total k obligation_id db =
     sum_rows set_amount (filter (\<lambda>s. settlement_ref k s = Some obligation_id) (settlements db))"

definition effective_status :: "obligation_row \<Rightarrow> money \<Rightarrow> date \<Rightarrow> obligation_status" where
  "effective_status r outstanding as_of =
     (if (obl_status r = OPEN \<or> obl_status r = PARTIALLY_PAID) \<and>
         (case obl_due r of None \<Rightarrow> False | Some d \<Rightarrow> d < as_of) \<and> 0 < outstanding
      then OVERDUE else obl_status r)"

definition obligation_view ::
  "obligation_kind \<Rightarrow> string \<Rightarrow> money \<Rightarrow> date \<Rightarrow> obligation_row \<Rightarrow> obligation_view" where
  "obligation_view k person_name settled as_of r =
     (let outstanding = (if obl_status r = CANCELLED then 0 else obl_amount r - settled)
      in \<lparr>ov_id = obl_id r, ov_kind = k, ov_person = obl_person r, ov_person_name = person_name,
          ov_amount = obl_amount r, ov_settled = settled, ov_outstanding = outstanding,
          ov_currency = obl_currency r, ov_description = obl_description r, ov_issued = obl_issued r,
          ov_due = obl_due r, ov_settlement_status = obl_status r,
          ov_effective_status = effective_status r outstanding as_of, ov_transaction = obl_transaction r\<rparr>)"

text \<open>The inner join with \<open>people\<close> on (id, owner).\<close>

definition person_name_of :: "'a obligation_db_scheme \<Rightarrow> obligation_row \<Rightarrow> string option" where
  "person_name_of db r =
     map_option per_name (select_one (\<lambda>p. per_id p = obl_person r \<and> per_user p = obl_user r) (people db))"

definition project_obligation ::
  "obligation_kind \<Rightarrow> date \<Rightarrow> 'a obligation_db_scheme \<Rightarrow> obligation_row \<Rightarrow> obligation_view option" where
  "project_obligation k as_of db r =
     map_option (\<lambda>name. obligation_view k name (settled_total k (obl_id r) db) as_of r) (person_name_of db r)"

definition lock_obligation ::
  "obligation_kind \<Rightarrow> uuid \<Rightarrow> uuid \<Rightarrow> 'a obligation_db_scheme \<Rightarrow> obligation_row option" where
  "lock_obligation k user_id obligation_id db =
     select_one (\<lambda>r. obl_user r = user_id \<and> obl_id r = obligation_id) (obligations_of k db)"

definition repo_get_obligation ::
  "obligation_kind \<Rightarrow> uuid \<Rightarrow> uuid \<Rightarrow> date \<Rightarrow> 'a obligation_db_scheme \<Rightarrow> obligation_view option" where
  "repo_get_obligation k user_id obligation_id as_of db =
     Option.bind (lock_obligation k user_id obligation_id db) (project_obligation k as_of db)"

definition repo_list_obligations ::
  "obligation_kind \<Rightarrow> uuid \<Rightarrow> date \<Rightarrow> 'a obligation_db_scheme \<Rightarrow> obligation_view list" where
  "repo_list_obligations k user_id as_of db =
     List.map_filter (project_obligation k as_of db)
       (rev (sort_key (\<lambda>r. (obl_issued r, obl_id r)) (filter (\<lambda>r. obl_user r = user_id) (obligations_of k db))))"

definition obligation_of :: "uuid \<Rightarrow> create_obligation_command \<Rightarrow> uuid \<Rightarrow> obligation_row" where
  "obligation_of user_id command new_id =
     \<lparr>obl_id = new_id, obl_user = user_id, obl_person = co_person command,
      obl_amount = numeric_19_4 (co_amount command), obl_currency = co_currency command,
      obl_description = co_description command, obl_issued = co_issued command, obl_due = co_due command,
      obl_status = OPEN, obl_transaction = co_transaction command\<rparr>"

definition repo_create_obligation ::
  "obligation_kind \<Rightarrow> uuid \<Rightarrow> create_obligation_command \<Rightarrow> date \<Rightarrow> uuid \<Rightarrow> 'a obligation_db_scheme \<Rightarrow>
   ('a obligation_db_scheme \<times> obligation_view) result" where
  "repo_create_obligation k user_id command as_of new_id db =
     (let r = obligation_of user_id command new_id in
      bindE (ensure (obligation_checks r \<and> fk_user db user_id \<and> fk_person db (co_person command) user_id \<and>
               fk_transaction db (co_transaction command) user_id) (IntegrityError ''obligations'')) (\<lambda>_.
      bindE (insert_row obl_id r (obligations_of k db)) (\<lambda>rows.
      let db' = put_obligations k rows db in
      bindE (require (RuntimeError ''inserted_obligation_not_visible'')
               (repo_get_obligation k user_id new_id as_of db')) (\<lambda>v.
        Inr (db', v)))))"

text \<open>The history read after the obligation lock is held, filtered by the owner as well.\<close>

definition settled_amount :: "obligation_kind \<Rightarrow> uuid \<Rightarrow> uuid \<Rightarrow> 'a obligation_db_scheme \<Rightarrow> money" where
  "settled_amount k user_id obligation_id db =
     sum_rows set_amount
       (filter (\<lambda>s. set_user s = user_id \<and> settlement_ref k s = Some obligation_id) (settlements db))"

definition settlement_view :: "settlement_row \<Rightarrow> settlement_view result" where
  "settlement_view s =
     (let view = \<lambda>k i. \<lparr>sv_id = set_id s, sv_kind = k, sv_obligation = i, sv_amount = set_amount s,
          sv_currency = set_currency s, sv_settled_at = set_settled_at s,
          sv_transaction = set_transaction s, sv_note = set_note s\<rparr>
      in case set_receivable s of
           Some i \<Rightarrow> Inr (view RECEIVABLE i)
         | None \<Rightarrow> (case set_payable s of
             Some i \<Rightarrow> Inr (view PAYABLE i)
           | None \<Rightarrow> Inl (RuntimeError ''settlement_without_obligation'')))"

definition settlement_of :: "obligation_kind \<Rightarrow> uuid \<Rightarrow> uuid \<Rightarrow> settle_command \<Rightarrow> uuid \<Rightarrow> settlement_row" where
  "settlement_of k user_id obligation_id command new_id =
     \<lparr>set_id = new_id, set_user = user_id,
      set_receivable = (case k of RECEIVABLE \<Rightarrow> Some obligation_id | PAYABLE \<Rightarrow> None),
      set_payable = (case k of RECEIVABLE \<Rightarrow> None | PAYABLE \<Rightarrow> Some obligation_id),
      set_amount = numeric_19_4 (sc_amount command), set_currency = sc_currency command,
      set_settled_at = sc_settled_at command, set_transaction = sc_transaction command,
      set_note = sc_note command\<rparr>"

definition add_settlement ::
  "obligation_kind \<Rightarrow> uuid \<Rightarrow> uuid \<Rightarrow> settle_command \<Rightarrow> uuid \<Rightarrow> 'a obligation_db_scheme \<Rightarrow>
   ('a obligation_db_scheme \<times> settlement_view) result" where
  "add_settlement k user_id obligation_id command new_id db =
     (let s = settlement_of k user_id obligation_id command new_id in
      bindE (ensure (settlement_checks s \<and> fk_user db user_id \<and> fk_obligation RECEIVABLE db s \<and>
               fk_obligation PAYABLE db s \<and> fk_transaction db (set_transaction s) user_id)
               (IntegrityError ''obligation_settlements'')) (\<lambda>_.
      bindE (insert_row set_id s (settlements db)) (\<lambda>rows.
      bindE (settlement_view s) (\<lambda>v. Inr (db\<lparr>settlements := rows\<rparr>, v)))))"

definition repo_get_settlement :: "uuid \<Rightarrow> uuid \<Rightarrow> 'a obligation_db_scheme \<Rightarrow> (settlement_view option) result" where
  "repo_get_settlement user_id settlement_id db =
     (case select_one (\<lambda>s. set_user s = user_id \<and> set_id s = settlement_id) (settlements db) of
        None \<Rightarrow> Inr None
      | Some s \<Rightarrow> bindE (settlement_view s) (\<lambda>v. Inr (Some v)))"

text \<open>Exposure: the outstanding principal per currency, nothing for a cancelled obligation.\<close>

definition outstanding_principal :: "obligation_kind \<Rightarrow> 'a obligation_db_scheme \<Rightarrow> obligation_row \<Rightarrow> money" where
  "outstanding_principal k db r =
     (if obl_status r = CANCELLED then 0 else obl_amount r - settled_total k (obl_id r) db)"

definition kind_totals :: "obligation_kind \<Rightarrow> uuid \<Rightarrow> 'a obligation_db_scheme \<Rightarrow> (string \<times> money) list" where
  "kind_totals k user_id db =
     group_sums obl_currency (outstanding_principal k db) (filter (\<lambda>r. obl_user r = user_id) (obligations_of k db))"

definition get_total :: "(string \<times> money) list \<Rightarrow> string \<Rightarrow> money" where
  "get_total totals currency = (case map_of totals currency of None \<Rightarrow> 0 | Some a \<Rightarrow> a)"

definition repo_outstanding_totals :: "uuid \<Rightarrow> 'a obligation_db_scheme \<Rightarrow> outstanding_by_currency list" where
  "repo_outstanding_totals user_id db =
     (let rs = kind_totals RECEIVABLE user_id db; ps = kind_totals PAYABLE user_id db
      in map (\<lambda>c. \<lparr>oc_currency = c, oc_receivable = get_total rs c, oc_payable = get_total ps c,
             oc_net_exposure = get_total rs c - get_total ps c\<rparr>)
           (sort (remdups (map fst rs @ map fst ps))))"

text \<open>The queries under the names of the program.\<close>

definition repo_create_receivable where
  "repo_create_receivable = repo_create_obligation RECEIVABLE"

definition repo_create_payable where
  "repo_create_payable = repo_create_obligation PAYABLE"

definition repo_get_receivable where
  "repo_get_receivable = repo_get_obligation RECEIVABLE"

definition repo_get_payable where
  "repo_get_payable = repo_get_obligation PAYABLE"

definition repo_list_receivables where
  "repo_list_receivables = repo_list_obligations RECEIVABLE"

definition repo_list_payables where
  "repo_list_payables = repo_list_obligations PAYABLE"

definition lock_receivable where
  "lock_receivable = lock_obligation RECEIVABLE"

definition lock_payable where
  "lock_payable = lock_obligation PAYABLE"

definition receivable_settled_amount where
  "receivable_settled_amount = settled_amount RECEIVABLE"

definition payable_settled_amount where
  "payable_settled_amount = settled_amount PAYABLE"

definition add_receivable_settlement where
  "add_receivable_settlement = add_settlement RECEIVABLE"

definition add_payable_settlement where
  "add_payable_settlement = add_settlement PAYABLE"

definition receivable_totals where
  "receivable_totals = kind_totals RECEIVABLE"

definition payable_totals where
  "payable_totals = kind_totals PAYABLE"

definition receivable_settled_total where
  "receivable_settled_total = settled_total RECEIVABLE"

definition payable_settled_total where
  "payable_settled_total = settled_total PAYABLE"

section \<open>Use cases\<close>

definition require_owner :: "uuid \<Rightarrow> 'a ledger_db_scheme \<Rightarrow> string result" where
  "require_owner user_id db = require profile_not_found (owner_timezone user_id db)"

definition owner_today :: "tzdata \<Rightarrow> py_datetime \<Rightarrow> uuid \<Rightarrow> 'a ledger_db_scheme \<Rightarrow> date result" where
  "owner_today tz clock user_id db =
     bindE (require_owner user_id db) (\<lambda>timezone_name.
     bindE (service_now clock) (\<lambda>t.
     bindE (parse_timezone tz timezone_name) (\<lambda>zone. Inr (wall_date (tz_local tz zone t)))))"

definition create_person ::
  "uuid \<Rightarrow> create_person_command \<Rightarrow> uuid \<Rightarrow> 'a obligation_db_scheme \<Rightarrow>
   ('a obligation_db_scheme \<times> uuid \<times> string) result" where
  "create_person user_id command new_id db =
     bindE (require_owner user_id db) (\<lambda>_.
     bindE (repo_create_person user_id command new_id db) (\<lambda>(db', v).
     bindE (require (LedgerConflictError ''PERSON_ALREADY_EXISTS'' (Some ''name'')) v) (\<lambda>person.
       Inr (db', person))))"

definition list_people ::
  "(string \<Rightarrow> 'k::linorder) \<Rightarrow> uuid \<Rightarrow> 'a obligation_db_scheme \<Rightarrow> ((uuid \<times> string) list) result" where
  "list_people coll user_id db =
     bindE (require_owner user_id db) (\<lambda>_. Inr (repo_list_people coll user_id db))"

definition validate_reference :: "uuid \<Rightarrow> uuid option \<Rightarrow> 'a ledger_db_scheme \<Rightarrow> unit result" where
  "validate_reference user_id transaction db =
     ensure (case transaction of None \<Rightarrow> True | Some t \<Rightarrow> transaction_exists user_id t db)
       (LedgerNotFoundError ''TRANSACTION_NOT_FOUND'' (Some ''transactionId''))"

definition validate_create_references ::
  "uuid \<Rightarrow> create_obligation_command \<Rightarrow> 'a obligation_db_scheme \<Rightarrow> unit result" where
  "validate_create_references user_id command db =
     bindE (ensure (person_exists user_id (co_person command) db)
              (LedgerNotFoundError ''PERSON_NOT_FOUND'' (Some ''personId''))) (\<lambda>_.
       validate_reference user_id (co_transaction command) db)"

fun obligation_not_found :: "obligation_kind \<Rightarrow> error" where
  "obligation_not_found RECEIVABLE = LedgerNotFoundError ''RECEIVABLE_NOT_FOUND'' None"
| "obligation_not_found PAYABLE = LedgerNotFoundError ''PAYABLE_NOT_FOUND'' None"

definition create_obligation ::
  "obligation_kind \<Rightarrow> tzdata \<Rightarrow> py_datetime \<Rightarrow> uuid \<Rightarrow> create_obligation_command \<Rightarrow> uuid \<Rightarrow>
   'a obligation_db_scheme \<Rightarrow> ('a obligation_db_scheme \<times> obligation_view) result" where
  "create_obligation k tz clock user_id command new_id db =
     bindE (owner_today tz clock user_id db) (\<lambda>as_of.
     bindE (validate_create_references user_id command db) (\<lambda>_.
       repo_create_obligation k user_id command as_of new_id db))"

definition get_obligation ::
  "obligation_kind \<Rightarrow> tzdata \<Rightarrow> py_datetime \<Rightarrow> uuid \<Rightarrow> uuid \<Rightarrow> 'a obligation_db_scheme \<Rightarrow> obligation_view result" where
  "get_obligation k tz clock user_id obligation_id db =
     bindE (owner_today tz clock user_id db) (\<lambda>as_of.
       require (obligation_not_found k) (repo_get_obligation k user_id obligation_id as_of db))"

definition list_obligations ::
  "obligation_kind \<Rightarrow> tzdata \<Rightarrow> py_datetime \<Rightarrow> uuid \<Rightarrow> 'a obligation_db_scheme \<Rightarrow> (obligation_view list) result" where
  "list_obligations k tz clock user_id db =
     bindE (owner_today tz clock user_id db) (\<lambda>as_of. Inr (repo_list_obligations k user_id as_of db))"

text \<open>\<open>settled + command.amount\<close> in the 28-digit context, and the comparisons with a stored amount.\<close>

fun add_to_stored :: "money \<Rightarrow> decimal \<Rightarrow> decimal" where
  "add_to_stored s (Dec c e) =
     (let e' = min e (-4) in
      (\<lambda>(c', e'). Dec c' e') (context_round (s * 10 ^ nat (- 4 - e') + c * 10 ^ nat (e - e')) e'))"
| "add_to_stored s d = d"

fun equals_stored :: "decimal \<Rightarrow> money \<Rightarrow> bool" where
  "equals_stored (Dec c e) m \<longleftrightarrow> dec_value c e = dec_value m (-4)"
| "equals_stored _ m \<longleftrightarrow> False"

fun exceeds_stored :: "decimal \<Rightarrow> money \<Rightarrow> bool" where
  "exceeds_stored (Dec c e) m \<longleftrightarrow> dec_value c e > dec_value m (-4)"
| "exceeds_stored _ m \<longleftrightarrow> False"

definition validate_settlement :: "obligation_row \<Rightarrow> settle_command \<Rightarrow> money \<Rightarrow> unit result" where
  "validate_settlement r command already_settled =
     (case validate_positive_money (sc_amount command) of
        Inl _ \<Rightarrow> Inl (ledger_invalid ''INVALID_AMOUNT'' ''amount'')
      | Inr _ \<Rightarrow>
          if obl_status r = CANCELLED then Inl (LedgerConflictError ''OBLIGATION_CANCELLED'' None)
          else if obl_status r = PAID then Inl (LedgerConflictError ''OBLIGATION_PAID'' None)
          else if sc_currency command \<noteq> obl_currency r
          then Inl (ledger_invalid ''SETTLEMENT_CURRENCY_MISMATCH'' ''currency'')
          else if exceeds_stored (sc_amount command) (obl_amount r - already_settled)
          then Inl (LedgerConflictError ''SETTLEMENT_EXCEEDS_OUTSTANDING'' (Some ''amount''))
          else Inr ())"

definition next_status :: "money \<Rightarrow> decimal \<Rightarrow> obligation_status" where
  "next_status owed settled = (if equals_stored settled owed then PAID else PARTIALLY_PAID)"

definition set_status ::
  "obligation_kind \<Rightarrow> uuid \<Rightarrow> obligation_status \<Rightarrow> 'a obligation_db_scheme \<Rightarrow> 'a obligation_db_scheme" where
  "set_status k obligation_id status db =
     put_obligations k (modify_rows (\<lambda>r. obl_id r = obligation_id) (\<lambda>r. r\<lparr>obl_status := status\<rparr>)
       (obligations_of k db)) db"

definition settle_obligation ::
  "obligation_kind \<Rightarrow> tzdata \<Rightarrow> py_datetime \<Rightarrow> uuid \<Rightarrow> uuid \<Rightarrow> settle_command \<Rightarrow> uuid \<Rightarrow>
   'a obligation_db_scheme \<Rightarrow> ('a obligation_db_scheme \<times> settlement_view \<times> obligation_view) result" where
  "settle_obligation k tz clock user_id obligation_id command new_id db =
     bindE (owner_today tz clock user_id db) (\<lambda>as_of.
     bindE (require (obligation_not_found k) (lock_obligation k user_id obligation_id db)) (\<lambda>r.
     bindE (validate_reference user_id (sc_transaction command) db) (\<lambda>_.
     let settled = settled_amount k user_id obligation_id db in
     bindE (validate_settlement r command settled) (\<lambda>_.
     bindE (add_settlement k user_id obligation_id command new_id db) (\<lambda>(db1, settlement).
     let db2 = set_status k obligation_id (next_status (obl_amount r) (add_to_stored settled (sc_amount command))) db1 in
     bindE (require (obligation_not_found k) (repo_get_obligation k user_id obligation_id as_of db2)) (\<lambda>projected.
       Inr (db2, settlement, projected)))))))"

definition cancel_obligation ::
  "obligation_kind \<Rightarrow> tzdata \<Rightarrow> py_datetime \<Rightarrow> uuid \<Rightarrow> uuid \<Rightarrow> 'a obligation_db_scheme \<Rightarrow>
   ('a obligation_db_scheme \<times> obligation_view) result" where
  "cancel_obligation k tz clock user_id obligation_id db =
     bindE (owner_today tz clock user_id db) (\<lambda>as_of.
     bindE (require (obligation_not_found k) (lock_obligation k user_id obligation_id db)) (\<lambda>r.
     bindE (ensure (obl_status r \<noteq> PAID) (LedgerConflictError ''OBLIGATION_PAID'' None)) (\<lambda>_.
     let db' = set_status k obligation_id CANCELLED db in
     bindE (require (obligation_not_found k) (repo_get_obligation k user_id obligation_id as_of db')) (\<lambda>v.
       Inr (db', v)))))"

definition outstanding_totals :: "uuid \<Rightarrow> 'a obligation_db_scheme \<Rightarrow> (outstanding_by_currency list) result" where
  "outstanding_totals user_id db =
     bindE (require_owner user_id db) (\<lambda>_. Inr (repo_outstanding_totals user_id db))"

definition get_settlement :: "uuid \<Rightarrow> uuid \<Rightarrow> 'a obligation_db_scheme \<Rightarrow> settlement_view result" where
  "get_settlement user_id settlement_id db =
     bindE (repo_get_settlement user_id settlement_id db) (\<lambda>s.
       require (LedgerNotFoundError ''SETTLEMENT_NOT_FOUND'' None) s)"

text \<open>The operations under the names of the program.\<close>

definition create_receivable where
  "create_receivable = create_obligation RECEIVABLE"

definition create_payable where
  "create_payable = create_obligation PAYABLE"

definition get_receivable where
  "get_receivable = get_obligation RECEIVABLE"

definition get_payable where
  "get_payable = get_obligation PAYABLE"

definition list_receivables where
  "list_receivables = list_obligations RECEIVABLE"

definition list_payables where
  "list_payables = list_obligations PAYABLE"

definition settle_receivable where
  "settle_receivable = settle_obligation RECEIVABLE"

definition settle_payable where
  "settle_payable = settle_obligation PAYABLE"

definition cancel_receivable where
  "cancel_receivable = cancel_obligation RECEIVABLE"

definition cancel_payable where
  "cancel_payable = cancel_obligation PAYABLE"

lemmas obligation_operations =
  create_receivable_def create_payable_def get_receivable_def get_payable_def list_receivables_def
  list_payables_def settle_receivable_def settle_payable_def cancel_receivable_def cancel_payable_def

end
