(* ===== verification/Obligation_Laws.thy ===== *)
theory Obligation_Laws
  imports Obligations
begin

text \<open>
  Correctness of the obligation workflows: the rounding of Python's one sum with an unstored amount
  is harmless, every obligation's status agrees with its settlement history in every reachable
  state, and both tables refine an abstract account.
\<close>

section \<open>Amounts\<close>

text \<open>An amount the boundary accepted, written with at most 28 digits.\<close>

definition amount_ok :: "decimal \<Rightarrow> bool" where
  "amount_ok d \<longleftrightarrow> exact_literal d \<and> validate_positive_money d = Inr d"

lemma dec_value_stored: "dec_value m (-4) = of_int m / 10 ^ 4"
  by (simp add: dec_value_def at_scale_def)

lemma dec_value_add: "dec_value (a + b) e = dec_value a e + dec_value b e"
  by (simp add: dec_value_powi distrib_right)

lemma amount_ok_value:
  assumes "amount_ok (Dec c e)"
  shows "dec_value c e = dec_value (numeric_19_4 (Dec c e)) (-4)" "0 < numeric_19_4 (Dec c e)"
    "numeric_19_4 (Dec c e) < 10 ^ 19" "ETINY \<le> e"
proof -
  from assms have e: "ndigits \<bar>c\<bar> \<le> 28" "ETINY \<le> e" "validate_positive_money (Dec c e) = Inr (Dec c e)"
    by (auto simp: amount_ok_def exact_literal_def)
  with stored_amount_bounds [of c e] validate_iff [of c e] numeric_exact [of c e]
  show "dec_value c e = dec_value (numeric_19_4 (Dec c e)) (-4)" "0 < numeric_19_4 (Dec c e)"
    "numeric_19_4 (Dec c e) < 10 ^ 19" "ETINY \<le> e"
    by (simp_all add: dec_value_stored del: validate_positive_money.simps numeric_19_4.simps)
qed

lemma amount_ok_cases: "amount_ok d \<Longrightarrow> \<exists>c e. d = Dec c e"
  by (cases d) (auto simp: amount_ok_def exact_literal_def)

lemma dec_value_less_iff: "dec_value a (-4) < dec_value b (-4) \<longleftrightarrow> a < b"
  by (simp add: dec_value_stored divide_less_cancel)

lemma dec_value_eq_iff: "dec_value a (-4) = dec_value b (-4) \<longleftrightarrow> a = b"
  by (simp add: dec_value_stored)

lemma exceeds_iff: "amount_ok d \<Longrightarrow> exceeds_stored d m \<longleftrightarrow> m < numeric_19_4 d"
  using amount_ok_cases [of d] amount_ok_value(1)
  by (auto simp: dec_value_less_iff simp del: numeric_19_4.simps)

lemma half_even_multiple: "0 < m \<Longrightarrow> half_even_signed (q * m) m = q"
proof -
  assume m: "0 < m"
  have "half_even (j * m) m = j" for j using m by (simp add: half_even_def)
  from this [of "\<bar>q\<bar>"] m show ?thesis
    by (simp add: half_even_signed_def abs_mult sgn_mult sgn_mult_abs)
qed

lemma context_round_value:
  assumes "dec_value c e = dec_value k (-4)" "0 < c" "k < 10 ^ 28"
  shows "dec_value (fst (context_round c e)) (snd (context_round c e)) = dec_value c e"
proof -
  define x where "x = max (int (ndigits \<bar>c\<bar>) + e - PREC) ETINY"
  show ?thesis
  proof (cases "x \<le> e")
    case True
    then show ?thesis by (simp add: context_round_def x_def Let_def)
  next
    case False
    have "x \<le> -4"
    proof -
      let ?n = "int (ndigits c) - 1"
      have "10 ^ (ndigits c - 1) \<le> c" "0 < ndigits c" using ndigits_bounds [OF assms(2)] by auto
      then have "(10 :: rat) powi ?n \<le> of_int c"
        by (metis (no_types, opaque_lifting) One_nat_def Suc_pred of_int_le_iff of_int_numeral of_int_power of_nat_1
            of_nat_Suc add_diff_cancel_right' power_int_of_nat semiring_1_class.of_nat_simps(2) add.commute)
      then have "(10 :: rat) powi ?n * 10 powi e \<le> dec_value c e"
        unfolding dec_value_powi by (intro mult_right_mono) auto
      also have "\<dots> < 10 powi 24"
      proof -
        have "(of_int k :: rat) < of_int (10 ^ 28)" using assms(3) by (simp only: of_int_less_iff)
        then show ?thesis unfolding assms(1) dec_value_stored by (simp add: power_int_def divide_less_eq)
      qed
      finally have small: "(10 :: rat) powi (?n + e) < 10 powi 24"
        by (subst power_int_add) simp_all
      have "?n + e < 24"
      proof (rule ccontr)
        assume "\<not> ?n + e < 24"
        then have "(10 :: rat) powi 24 \<le> 10 powi (?n + e)" by (intro power_int_increasing) auto
        with small show False by linarith
      qed
      then show ?thesis using assms(2) by (simp add: x_def)
    qed
    with False have ex: "e < x" "x \<le> -4" by auto
    let ?m = "10 ^ nat (x - e) :: int" and ?q = "k * 10 ^ nat (- 4 - x) :: int"
    have "dec_value (?q * ?m) e = dec_value ?q x" using dec_value_shift [of e x ?q] ex by simp
    also have "\<dots> = dec_value k (-4)" using dec_value_shift [of x "-4" k] ex by simp
    finally have "dec_value (?q * ?m) e = dec_value c e" using assms(1) by simp
    then have "(of_int (?q * ?m) :: rat) = of_int c" unfolding dec_value_powi by simp
    then have c: "c = ?q * ?m" by (simp only: of_int_eq_iff)
    have "context_round c e = (half_even_signed c ?m, x)"
      unfolding context_round_def Let_def x_def [symmetric] using ex(1) assms(2) by simp
    also have "half_even_signed c ?m = ?q" unfolding c by (rule half_even_multiple) simp
    finally show ?thesis using \<open>dec_value ?q x = dec_value k (-4)\<close> assms(1) by simp
  qed
qed

lemma sum_equals_iff:
  assumes "amount_ok d" "0 \<le> s" "s < 10 ^ 27"
  shows "equals_stored (add_to_stored s d) m \<longleftrightarrow> s + numeric_19_4 d = m"
proof -
  obtain c e where d: "d = Dec c e" using amount_ok_cases [OF assms(1)] by blast
  note v = amount_ok_value [OF assms(1) [unfolded d]]
  let ?e = "min e (-4)" and ?n = "numeric_19_4 (Dec c e)"
  let ?C = "s * 10 ^ nat (- 4 - ?e) + c * 10 ^ nat (e - ?e)"
  have "dec_value ?C ?e = dec_value s (-4) + dec_value c e"
    using dec_value_shift [of ?e "-4" s] dec_value_shift [of ?e e c] by (simp add: dec_value_add)
  also have "\<dots> = dec_value (s + ?n) (-4)" by (simp only: v(1) dec_value_add)
  finally have value_sum: "dec_value ?C ?e = dec_value (s + ?n) (-4)" .
  have "0 < dec_value c e" unfolding v(1) dec_value_stored using v(2) by (simp del: numeric_19_4.simps)
  then have "0 < c"
    using zero_less_mult_pos2 [of "of_int c :: rat" "10 powi e"] by (simp add: dec_value_powi)
  then have "0 < ?C" using assms(2) by (intro add_nonneg_pos) simp_all
  from context_round_value [OF value_sum this] v(3) assms(3) value_sum
  have "dec_value (fst (context_round ?C ?e)) (snd (context_round ?C ?e)) = dec_value (s + ?n) (-4)" by simp
  then show ?thesis
    by (simp add: d dec_value_eq_iff Let_def case_prod_beta del: numeric_19_4.simps)
qed

lemma obligation_amount_Inr: "obligation_amount raw = parse_amount raw"
  by (simp add: obligation_amount_def parse_amount_def)

section \<open>The invariant\<close>

text \<open>
  The status of an obligation says what its settlement history adds up to: nothing (open), a part
  (partially paid), all of it (paid); a cancelled one was not fully settled. \<open>OVERDUE\<close> is never
  stored, it is only a projection.
\<close>

definition status_agrees :: "obligation_status \<Rightarrow> money \<Rightarrow> money \<Rightarrow> bool" where
  "status_agrees status owed settled =
     (case status of
        OPEN \<Rightarrow> settled = 0
      | PARTIALLY_PAID \<Rightarrow> 0 < settled \<and> settled < owed
      | PAID \<Rightarrow> settled = owed
      | CANCELLED \<Rightarrow> 0 \<le> settled \<and> settled < owed
      | OVERDUE \<Rightarrow> False)"

definition obligation_ok :: "obligation_kind \<Rightarrow> 'a obligation_db_scheme \<Rightarrow> obligation_row \<Rightarrow> bool" where
  "obligation_ok k db r \<longleftrightarrow>
     obligation_checks r \<and> fk_person db (obl_person r) (obl_user r) \<and>
     status_agrees (obl_status r) (obl_amount r) (settled_total k (obl_id r) db)"

definition settlement_ok :: "'a obligation_db_scheme \<Rightarrow> settlement_row \<Rightarrow> bool" where
  "settlement_ok db s \<longleftrightarrow> settlement_checks s \<and> fk_obligation RECEIVABLE db s \<and> fk_obligation PAYABLE db s"

definition book_ok :: "obligation_kind \<Rightarrow> 'a obligation_db_scheme \<Rightarrow> bool" where
  "book_ok k db \<longleftrightarrow> distinct (map obl_id (obligations_of k db)) \<and> (\<forall>r \<in> set (obligations_of k db). obligation_ok k db r)"

definition obligations_wf :: "'a obligation_db_scheme \<Rightarrow> bool" where
  "obligations_wf db \<longleftrightarrow>
     distinct (map per_id (people db)) \<and> distinct (map (\<lambda>p. (per_user p, per_normalized p)) (people db)) \<and>
     distinct (map set_id (settlements db)) \<and> (\<forall>s \<in> set (settlements db). settlement_ok db s) \<and>
     book_ok RECEIVABLE db \<and> book_ok PAYABLE db"

lemma obligations_wf_book: "obligations_wf db \<Longrightarrow> book_ok k db"
  by (cases k) (simp_all add: obligations_wf_def)

lemma put_obligations_simps [simp]:
  "obligations_of k (put_obligations k rows db) = rows"
  "k' \<noteq> k \<Longrightarrow> obligations_of k' (put_obligations k rows db) = obligations_of k' db"
  "settlements (put_obligations k rows db) = settlements db" "people (put_obligations k rows db) = people db"
  "users (put_obligations k rows db) = users db" "transactions (put_obligations k rows db) = transactions db"
  by (cases k; cases k'; simp)+

lemma settlement_frame_simps [simp]:
  "obligations_of k (db\<lparr>settlements := ss\<rparr>) = obligations_of k db"
  "obligations_of k (db\<lparr>people := ps\<rparr>) = obligations_of k db"
  by (cases k; simp)+

lemma settlement_amounts_pos: "obligations_wf db \<Longrightarrow> s \<in> set (settlements db) \<Longrightarrow> 0 < set_amount s"
  by (auto simp: obligations_wf_def settlement_ok_def settlement_checks_def)

lemma settled_total_nonneg: "obligations_wf db \<Longrightarrow> 0 \<le> settled_total k i db"
  unfolding settled_total_def
  by (rule sum_rows_nonneg) (auto dest: settlement_amounts_pos)

lemma locked_row:
  "lock_obligation k u i db = Some r \<Longrightarrow> r \<in> set (obligations_of k db) \<and> obl_user r = u \<and> obl_id r = i"
  by (auto simp: lock_obligation_def dest: select_one_SomeD)

lemma fk_obligation_owner:
  assumes "obligations_wf db" "r \<in> set (obligations_of k db)" "s \<in> set (settlements db)" "settlement_ref k s = Some (obl_id r)"
  shows "set_user s = obl_user r \<and> set_currency s = obl_currency r"
proof -
  have "fk_obligation k db s" using assms(1,3) by (cases k) (auto simp: obligations_wf_def settlement_ok_def)
  then obtain r' where "r' \<in> set (obligations_of k db)" "obl_id r' = obl_id r" "obl_user r' = set_user s" "obl_currency r' = set_currency s"
    using assms(4) by (auto simp: fk_obligation_def)
  moreover have "distinct (map obl_id (obligations_of k db))"
    using obligations_wf_book [OF assms(1), of k] by (simp add: book_ok_def)
  ultimately have "r' = r" using assms(2) by (auto simp: distinct_map inj_on_def)
  with \<open>obl_user r' = set_user s\<close> \<open>obl_currency r' = set_currency s\<close> show ?thesis by simp
qed

text \<open>The sum read under the lock is the sum the projection shows.\<close>

lemma settled_amount_total:
  assumes "obligations_wf db" "lock_obligation k u i db = Some r"
  shows "settled_amount k u i db = settled_total k i db"
proof -
  note r = locked_row [OF assms(2)]
  have "filter (\<lambda>s. set_user s = u \<and> settlement_ref k s = Some i) (settlements db) =
      filter (\<lambda>s. settlement_ref k s = Some i) (settlements db)"
    using fk_obligation_owner [OF assms(1), of r k] r by (intro filter_cong) auto
  then show ?thesis by (simp only: settled_amount_def settled_total_def)
qed

lemma settlement_of_ref [simp]:
  "settlement_ref k (settlement_of k' u i c n) = (if k = k' then Some i else None)"
  by (cases k; cases k') (simp_all add: settlement_of_def)

lemma settlement_of_fields [simp]:
  "set_id (settlement_of k u i c n) = n" "set_user (settlement_of k u i c n) = u"
  "set_amount (settlement_of k u i c n) = numeric_19_4 (sc_amount c)"
  "set_currency (settlement_of k u i c n) = sc_currency c" "set_transaction (settlement_of k u i c n) = sc_transaction c"
  by (simp_all add: settlement_of_def)

lemma settlement_view_of [simp]:
  "settlement_view (settlement_of k u i c n) = Inr \<lparr>sv_id = n, sv_kind = k, sv_obligation = i,
    sv_amount = numeric_19_4 (sc_amount c), sv_currency = sc_currency c, sv_settled_at = sc_settled_at c,
    sv_transaction = sc_transaction c, sv_note = sc_note c\<rparr>"
  by (cases k) (simp_all add: settlement_of_def settlement_view_def)

lemma fk_obligation_of:
  "fk_obligation k' db (settlement_of k u i c n) \<longleftrightarrow>
    k' \<noteq> k \<or> (i, u, sc_currency c) \<in> (\<lambda>r. (obl_id r, obl_user r, obl_currency r)) ` set (obligations_of k db)"
  by (auto simp: fk_obligation_def)

lemma add_settlement_Inr:
  "add_settlement k u i c n db = Inr (db', v) \<longleftrightarrow>
    settlement_checks (settlement_of k u i c n) \<and> fk_user db u \<and> fk_obligation k db (settlement_of k u i c n) \<and>
    fk_transaction db (sc_transaction c) u \<and> n \<notin> set_id ` set (settlements db) \<and>
    db' = db\<lparr>settlements := settlements db @ [settlement_of k u i c n]\<rparr> \<and>
    settlement_view (settlement_of k u i c n) = Inr v"
  by (cases k) (auto simp: add_settlement_def Let_def result_simps table_simps fk_obligation_of)

lemma settle_Inr:
  assumes "settle_obligation k tz clock u i c n db = Inr (db', sv, ov)"
  shows "\<exists>as_of r. owner_today tz clock u db = Inr as_of \<and> lock_obligation k u i db = Some r \<and>
    validate_settlement r c (settled_amount k u i db) = Inr () \<and>
    add_settlement k u i c n db = Inr (db\<lparr>settlements := settlements db @ [settlement_of k u i c n]\<rparr>, sv) \<and>
    db' = set_status k i (next_status (obl_amount r) (add_to_stored (settled_amount k u i db) (sc_amount c)))
      (db\<lparr>settlements := settlements db @ [settlement_of k u i c n]\<rparr>) \<and>
    repo_get_obligation k u i as_of db' = Some ov"
  using assms
  by (auto simp: settle_obligation_def Let_def result_simps add_settlement_Inr)

lemma validate_settlement_Inr:
  "validate_settlement r c settled = Inr () \<longleftrightarrow>
    validate_positive_money (sc_amount c) = Inr (sc_amount c) \<and> obl_status r \<noteq> CANCELLED \<and> obl_status r \<noteq> PAID \<and>
    sc_currency c = obl_currency r \<and> \<not> exceeds_stored (sc_amount c) (obl_amount r - settled)"
  using validate_bounds [of "sc_amount c"]
  by (auto simp: validate_settlement_def simp del: validate_positive_money.simps split: sum.splits if_splits)

lemma settled_total_append:
  "settled_total k i (db\<lparr>settlements := settlements db @ [s]\<rparr>) =
    settled_total k i db + (if settlement_ref k s = Some i then set_amount s else 0)"
  by (simp add: settled_total_def)

lemma settled_total_put [simp]: "settled_total k i (put_obligations k' rows db) = settled_total k i db"
  by (simp add: settled_total_def)

lemma settled_total_set_status [simp]: "settled_total k i (set_status k' j st db) = settled_total k i db"
  by (simp add: set_status_def)

lemma set_status_frame [simp]:
  "settlements (set_status k i st db) = settlements db" "people (set_status k i st db) = people db"
  "users (set_status k i st db) = users db" "transactions (set_status k i st db) = transactions db"
  by (simp_all add: set_status_def)

lemma obligations_of_set_status:
  "obligations_of k' (set_status k i st db) =
    (if k' = k then modify_rows (\<lambda>r. obl_id r = i) (\<lambda>r. r\<lparr>obl_status := st\<rparr>) (obligations_of k db)
     else obligations_of k' db)"
  by (simp add: set_status_def)

section \<open>Every operation keeps the invariant\<close>

lemma fk_obligation_set_status [simp]: "fk_obligation k' (set_status k i st db) s = fk_obligation k' db s"
proof -
  have "map (\<lambda>r. (obl_id r, obl_user r, obl_currency r)) (obligations_of k' (set_status k i st db)) =
      map (\<lambda>r. (obl_id r, obl_user r, obl_currency r)) (obligations_of k' db)"
    by (simp add: obligations_of_set_status map_key_modify_rows)
  then show ?thesis by (simp only: fk_obligation_def)
qed

lemma fk_obligation_settlements [simp]: "fk_obligation k (db\<lparr>settlements := ss\<rparr>) s = fk_obligation k db s"
  by (simp add: fk_obligation_def split: option.split)

lemma settlement_ok_frame [simp]:
  "settlement_ok (set_status k i st db) s = settlement_ok db s"
  "settlement_ok (db\<lparr>settlements := ss\<rparr>) s = settlement_ok db s"
  by (simp_all add: settlement_ok_def)

lemma fk_person_frame [simp]:
  "fk_person (set_status k i st db) p u = fk_person db p u" "fk_person (db\<lparr>settlements := ss\<rparr>) p u = fk_person db p u"
  by (simp_all add: fk_person_def)

text \<open>Changing one status to one that agrees with the history.\<close>

lemma book_ok_set_status:
  assumes "distinct (map obl_id (obligations_of k db))" "r \<in> set (obligations_of k db)" "obl_id r = i"
    "obligation_checks r" "fk_person db (obl_person r) (obl_user r)"
    "status_agrees st (obl_amount r) (settled_total k i db)"
    "\<And>x. x \<in> set (obligations_of k db) \<Longrightarrow> x \<noteq> r \<Longrightarrow> obligation_ok k db x"
  shows "book_ok k (set_status k i st db)"
proof -
  have only: "x = r" if "x \<in> set (obligations_of k db)" "obl_id x = i" for x
    using that assms(1-3) by (auto simp: distinct_map inj_on_def)
  have "obligation_ok k (set_status k i st db) x" if "x \<in> set (obligations_of k (set_status k i st db))" for x
  proof -
    from that obtain y where y: "y \<in> set (obligations_of k db)"
      "x = (if obl_id y = i then y\<lparr>obl_status := st\<rparr> else y)"
      by (auto simp: obligations_of_set_status set_modify_rows)
    show ?thesis
    proof (cases "obl_id y = i")
      case True
      with only y assms(4-6) show ?thesis
        by (auto simp: obligation_ok_def obligation_checks_def assms(3) split: option.split)
    next
      case False
      with y assms(3,7) have "obligation_ok k db x" by auto
      then show ?thesis by (simp add: obligation_ok_def)
    qed
  qed
  moreover have "distinct (map obl_id (obligations_of k (set_status k i st db)))"
    using assms(1) by (simp add: obligations_of_set_status map_key_modify_rows)
  ultimately show ?thesis by (simp add: book_ok_def)
qed

lemma book_ok_other:
  assumes "book_ok k' db" "k' \<noteq> k"
  shows "book_ok k' (set_status k i st db)"
  using assms by (simp add: book_ok_def obligations_of_set_status obligation_ok_def)

lemma other_kind: "\<exists>k'. k' \<noteq> k \<and> (\<forall>j. j = k \<or> j = k')" for k :: obligation_kind
  by (cases k) (metis obligation_kind.distinct(1) obligation_kind.exhaust)+

lemma obligations_wfI:
  assumes "distinct (map per_id (people db))" "distinct (map (\<lambda>p. (per_user p, per_normalized p)) (people db))"
    "distinct (map set_id (settlements db))" "\<And>s. s \<in> set (settlements db) \<Longrightarrow> settlement_ok db s" "\<And>k. book_ok k db"
  shows "obligations_wf db"
  using assms by (simp add: obligations_wf_def)

lemma settled_within:
  assumes "obligations_wf db" "r \<in> set (obligations_of k db)"
  shows "0 \<le> settled_total k (obl_id r) db \<and> settled_total k (obl_id r) db \<le> obl_amount r \<and> obl_amount r < 10 ^ 19 \<and> 0 < obl_amount r"
proof -
  have "obligation_ok k db r" using obligations_wf_book [OF assms(1)] assms(2) by (auto simp: book_ok_def)
  then show ?thesis
    by (auto simp: obligation_ok_def obligation_checks_def status_agrees_def split: obligation_status.splits)
qed

lemma settle_wf:
  assumes "settle_obligation k tz clock u i c n db = Inr (db', sv, ov)" "obligations_wf db" "amount_ok (sc_amount c)"
  shows "obligations_wf db'"
proof -
  let ?s = "settlement_of k u i c n"
  let ?db1 = "db\<lparr>settlements := settlements db @ [?s]\<rparr>"
  from settle_Inr [OF assms(1)] obtain r where
    lock: "lock_obligation k u i db = Some r" and
    valid: "validate_settlement r c (settled_amount k u i db) = Inr ()" and
    add: "add_settlement k u i c n db = Inr (?db1, sv)" and
    db': "db' = set_status k i (next_status (obl_amount r) (add_to_stored (settled_amount k u i db) (sc_amount c))) ?db1"
    by blast
  note r = locked_row [OF lock]
  let ?t = "settled_total k i db" and ?n = "numeric_19_4 (sc_amount c)"
  have t: "settled_amount k u i db = ?t" by (rule settled_amount_total [OF assms(2) lock])
  have bounds: "0 \<le> ?t" "?t \<le> obl_amount r" "obl_amount r < 10 ^ 19"
    using settled_within [OF assms(2), of r k] r by auto
  have n: "0 < ?n" using amount_ok_value(2) amount_ok_cases [OF assms(3)] assms(3) by (auto simp del: numeric_19_4.simps)
  have fits: "?n \<le> obl_amount r - ?t"
    using valid exceeds_iff [OF assms(3)] by (auto simp: validate_settlement_Inr t simp del: numeric_19_4.simps)
  have st: "next_status (obl_amount r) (add_to_stored ?t (sc_amount c)) = (if ?t + ?n = obl_amount r then PAID else PARTIALLY_PAID)"
    using sum_equals_iff [OF assms(3), of ?t "obl_amount r"] bounds by (simp add: next_status_def del: numeric_19_4.simps)
  have t1: "settled_total k i ?db1 = ?t + ?n" by (simp add: settled_total_append)
  have agrees: "status_agrees (next_status (obl_amount r) (add_to_stored ?t (sc_amount c))) (obl_amount r) (settled_total k i ?db1)"
    unfolding st t1 using n fits bounds by (auto simp: status_agrees_def)
  have book: "book_ok k db" by (rule obligations_wf_book [OF assms(2)])
  have others: "obligation_ok k' ?db1 x" if "x \<in> set (obligations_of k' db)" "k' \<noteq> k \<or> obl_id x \<noteq> i" for k' x
    using that obligations_wf_book [OF assms(2), of k']
    by (auto simp: book_ok_def obligation_ok_def settled_total_append)
  have "book_ok k db'"
    unfolding db' t
  proof (rule book_ok_set_status)
    show "r \<in> set (obligations_of k ?db1)" "obl_id r = i" using r by simp_all
    show "obligation_checks r" "fk_person ?db1 (obl_person r) (obl_user r)" "distinct (map obl_id (obligations_of k ?db1))"
      using r book by (auto simp: book_ok_def obligation_ok_def)
    show "status_agrees (next_status (obl_amount r) (add_to_stored ?t (sc_amount c))) (obl_amount r) (settled_total k i ?db1)"
      by (rule agrees)
    fix x assume x: "x \<in> set (obligations_of k ?db1)" "x \<noteq> r"
    with r book have "obl_id x \<noteq> i" by (auto simp: book_ok_def distinct_map inj_on_def)
    with others x show "obligation_ok k ?db1 x" by simp
  qed
  moreover have "book_ok k' db'" if "k' \<noteq> k" for k'
    unfolding db'
  proof (rule book_ok_other [OF _ that])
    show "book_ok k' ?db1"
      using obligations_wf_book [OF assms(2), of k'] others that by (simp add: book_ok_def)
  qed
  ultimately have books: "book_ok k' db'" for k' by (cases "k' = k") auto
  show ?thesis
  proof (rule obligations_wfI)
    show "distinct (map set_id (settlements db'))" using add assms(2) by (auto simp: add_settlement_Inr db' obligations_wf_def)
    show "settlement_ok db' s" if "s \<in> set (settlements db')" for s
      using that assms(2) add
      by (cases k) (auto simp: db' obligations_wf_def add_settlement_Inr settlement_ok_def fk_obligation_of)
  qed (use assms(2) books in \<open>simp_all add: db' obligations_wf_def\<close>)
qed

lemma cancel_Inr:
  assumes "cancel_obligation k tz clock u i db = Inr (db', v)"
  shows "\<exists>as_of r. owner_today tz clock u db = Inr as_of \<and> lock_obligation k u i db = Some r \<and> obl_status r \<noteq> PAID \<and>
    db' = set_status k i CANCELLED db \<and> repo_get_obligation k u i as_of db' = Some v"
  using assms by (auto simp: cancel_obligation_def Let_def result_simps)

lemma cancel_wf:
  assumes "cancel_obligation k tz clock u i db = Inr (db', v)" "obligations_wf db"
  shows "obligations_wf db'"
proof -
  from cancel_Inr [OF assms(1)] obtain r where
    lock: "lock_obligation k u i db = Some r" "obl_status r \<noteq> PAID" and db': "db' = set_status k i CANCELLED db" by blast
  note r = locked_row [OF lock(1)]
  have book: "book_ok k db" by (rule obligations_wf_book [OF assms(2)])
  with r have ok: "obligation_ok k db r" by (auto simp: book_ok_def)
  then have agrees: "status_agrees CANCELLED (obl_amount r) (settled_total k i db)"
    using lock(2) r settled_total_nonneg [OF assms(2), of k i]
    by (auto simp: obligation_ok_def obligation_checks_def status_agrees_def split: obligation_status.splits)
  have "book_ok k db'"
    unfolding db' using book ok agrees r
    by (intro book_ok_set_status [of k db r]) (auto simp: book_ok_def obligation_ok_def)
  moreover have "book_ok k' db'" if "k' \<noteq> k" for k'
    unfolding db' using obligations_wf_book [OF assms(2)] that by (intro book_ok_other) auto
  ultimately have books: "book_ok k' db'" for k' by (cases "k' = k") auto
  then show ?thesis using assms(2) by (intro obligations_wfI) (auto simp: db' obligations_wf_def)
qed

lemma obligation_of_fields [simp]:
  "obl_id (obligation_of u c n) = n" "obl_user (obligation_of u c n) = u"
  "obl_person (obligation_of u c n) = co_person c" "obl_status (obligation_of u c n) = OPEN"
  "obl_amount (obligation_of u c n) = numeric_19_4 (co_amount c)"
  by (simp_all add: obligation_of_def)

lemma create_obligation_Inr:
  assumes "create_obligation k tz clock u c n db = Inr (db', v)"
  shows "\<exists>as_of. owner_today tz clock u db = Inr as_of \<and> obligation_checks (obligation_of u c n) \<and>
    fk_person db (co_person c) u \<and> n \<notin> obl_id ` set (obligations_of k db) \<and>
    db' = put_obligations k (obligations_of k db @ [obligation_of u c n]) db \<and> repo_get_obligation k u n as_of db' = Some v"
  using assms
  by (auto simp: create_obligation_def repo_create_obligation_def Let_def result_simps table_simps)

lemma no_history_for_new_id:
  assumes "obligations_wf db" "n \<notin> obl_id ` set (obligations_of k db)"
  shows "settled_total k n db = 0"
proof -
  have "settlement_ref k s \<noteq> Some n" if "s \<in> set (settlements db)" for s
  proof -
    have "fk_obligation k db s" using assms(1) that by (cases k) (auto simp: obligations_wf_def settlement_ok_def)
    with assms(2) show ?thesis by (auto simp: fk_obligation_def image_iff)
  qed
  then have "filter (\<lambda>s. settlement_ref k s = Some n) (settlements db) = []" by (auto simp: filter_empty_conv)
  then show ?thesis by (simp add: settled_total_def)
qed

lemma create_obligation_wf:
  assumes "create_obligation k tz clock u c n db = Inr (db', v)" "obligations_wf db"
  shows "obligations_wf db'"
proof -
  let ?r = "obligation_of u c n"
  from create_obligation_Inr [OF assms(1)] have
    ok: "obligation_checks ?r" "fk_person db (co_person c) u" "n \<notin> obl_id ` set (obligations_of k db)" and
    db': "db' = put_obligations k (obligations_of k db @ [?r]) db" by blast+
  have frame: "obligation_ok k' db' x = obligation_ok k' db x" for k' x
    by (simp add: obligation_ok_def fk_person_def db')
  have "obligation_ok k db ?r"
    using ok no_history_for_new_id [OF assms(2) ok(3)] by (simp add: obligation_ok_def status_agrees_def)
  then have "book_ok k db'"
    using obligations_wf_book [OF assms(2), of k] ok(3) by (auto simp: book_ok_def frame) (auto simp: db')
  moreover have "book_ok k' db'" if "k' \<noteq> k" for k'
    using obligations_wf_book [OF assms(2), of k'] that by (simp add: book_ok_def frame) (simp add: db')
  ultimately have books: "book_ok k' db'" for k' by (cases "k' = k") auto
  have keep: "settlement_ok db' s" if "settlement_ok db s" for s
  proof -
    have "fk_obligation k' db' s" if "fk_obligation k' db s" for k'
      using that by (cases "k' = k") (auto simp: fk_obligation_def db' split: option.splits)
    with that show ?thesis by (simp add: settlement_ok_def)
  qed
  show ?thesis
    using assms(2) books keep by (intro obligations_wfI) (auto simp: obligations_wf_def db')
qed

lemma create_person_Inr:
  assumes "create_person u c n db = Inr (db', v)"
  shows "(u, cp_normalized c) \<notin> (\<lambda>p. (per_user p, per_normalized p)) ` set (people db) \<and> n \<notin> per_id ` set (people db) \<and>
    db' = db\<lparr>people := people db @ [\<lparr>per_id = n, per_user = u, per_name = cp_name c, per_normalized = cp_normalized c\<rparr>]\<rparr> \<and>
    v = (n, cp_name c)"
  using assms
  by (auto simp: create_person_def repo_create_person_def result_simps table_simps split: if_splits)

lemma create_person_wf:
  assumes "create_person u c n db = Inr (db', v)" "obligations_wf db"
  shows "obligations_wf db'"
proof -
  note p = create_person_Inr [OF assms(1)]
  have "obligation_ok k db' x" if "obligation_ok k db x" for k x
    using that p by (auto simp: obligation_ok_def fk_person_def settled_total_def)
  then have "book_ok k db'" for k
    using obligations_wf_book [OF assms(2), of k] p by (auto simp: book_ok_def)
  moreover have "settlement_ok db' s = settlement_ok db s" for s
    using p by (auto simp: settlement_ok_def fk_obligation_def split: option.splits)
  ultimately show ?thesis
    using assms(2) p by (intro obligations_wfI) (auto simp: obligations_wf_def)
qed

text \<open>The ledger's and the categorizer's commands leave people, obligations and history alone.\<close>

lemma obligations_wf_frame:
  "ledger_db.more db' = ledger_db.more db \<Longrightarrow> obligations_wf db' = obligations_wf db"
  "obligations_wf (db\<lparr>transactions := ts, merchant_maps := ms, corrections := cs\<rparr>) = obligations_wf db"
proof -
  have same: "obligations_wf db' = obligations_wf db"
    if "people db' = people db" "receivables db' = receivables db" "payables db' = payables db" "settlements db' = settlements db"
    for db db' :: "'a obligation_db_scheme"
  proof -
    have obls: "obligations_of k db' = obligations_of k db" for k using that by (cases k) auto
    have total: "settled_total k i db' = settled_total k i db" for k i using that by (simp add: settled_total_def)
    have "obligation_ok k db' = obligation_ok k db" for k
      using that by (intro ext) (simp add: obligation_ok_def fk_person_def total)
    moreover have "fk_obligation k db' = fk_obligation k db" for k
      by (intro ext) (simp add: fk_obligation_def obls split: option.split)
    then have "settlement_ok db' = settlement_ok db" by (intro ext) (simp add: settlement_ok_def)
    ultimately show ?thesis using that by (simp add: obligations_wf_def book_ok_def obls)
  qed
  show "ledger_db.more db' = ledger_db.more db \<Longrightarrow> obligations_wf db' = obligations_wf db"
    by (cases db; cases db') (intro same; simp)
  show "obligations_wf (db\<lparr>transactions := ts, merchant_maps := ms, corrections := cs\<rparr>) = obligations_wf db"
    by (intro same) simp_all
qed

section \<open>Histories\<close>

text \<open>One committed command of any user against the store.\<close>

inductive obligation_step :: "'a obligation_db_scheme \<Rightarrow> 'a obligation_db_scheme \<Rightarrow> bool" where
  person: "create_person u pc n db = Inr (db', p) \<Longrightarrow> obligation_step db db'"
| create: "create_obligation k tz clock u oc n db = Inr (db', v) \<Longrightarrow> obligation_step db db'"
| settle: "settle_obligation k tz clock u i sc n db = Inr (db', s, v) \<Longrightarrow> amount_ok (sc_amount sc) \<Longrightarrow>
    obligation_step db db'"
| cancel: "cancel_obligation k tz clock u i db = Inr (db', v) \<Longrightarrow> obligation_step db db'"
| booked: "create_transaction u tc ids db = Inr (db', tv) \<Longrightarrow> obligation_step db db'"
| recategorized: "correct_transaction u i c now ids db = Inr (db', cv) \<Longrightarrow> obligation_step db db'"

inductive obligation_history :: "'a obligation_db_scheme \<Rightarrow> 'a obligation_db_scheme \<Rightarrow> bool" where
  start: "obligation_history db db"
| step: "obligation_history db db1 \<Longrightarrow> obligation_step db1 db2 \<Longrightarrow> obligation_history db db2"

lemma obligation_step_wf: "obligation_step db db' \<Longrightarrow> obligations_wf db \<Longrightarrow> obligations_wf db'"
proof (induction rule: obligation_step.induct)
  case (booked u tc ids db db' tv)
  then show ?case using obligations_wf_frame(1) [OF create_transaction_more] by blast
next
  case (recategorized u i c now ids db db' cv)
  then show ?case using correct_transaction_frame obligations_wf_frame(2) by blast
qed (auto intro: create_person_wf create_obligation_wf settle_wf cancel_wf)

text \<open>What no command ever does: rewrite history or reopen a finished obligation.\<close>

definition final_status :: "obligation_status \<Rightarrow> bool" where
  "final_status st \<longleftrightarrow> st = PAID \<or> st = CANCELLED"

definition extends :: "'a obligation_db_scheme \<Rightarrow> 'a obligation_db_scheme \<Rightarrow> bool" where
  "extends db db' \<longleftrightarrow> (\<exists>new. settlements db' = settlements db @ new) \<and>
     (\<forall>k. \<forall>r \<in> set (obligations_of k db). \<exists>st. r\<lparr>obl_status := st\<rparr> \<in> set (obligations_of k db') \<and>
       (final_status (obl_status r) \<longrightarrow> st = obl_status r))"

lemma extends_refl: "extends db db"
  by (auto simp: extends_def intro!: exI [of _ "obl_status r" for r])

lemma extends_trans:
  assumes "extends a b" "extends b c"
  shows "extends a c"
  unfolding extends_def
proof (intro conjI allI ballI)
  show "\<exists>new. settlements c = settlements a @ new" using assms by (auto simp: extends_def)
  fix k r assume r: "r \<in> set (obligations_of k a)"
  then obtain st where st: "r\<lparr>obl_status := st\<rparr> \<in> set (obligations_of k b)" "final_status (obl_status r) \<longrightarrow> st = obl_status r"
    using assms(1) by (auto simp: extends_def)
  with assms(2) obtain st' where "r\<lparr>obl_status := st\<rparr>\<lparr>obl_status := st'\<rparr> \<in> set (obligations_of k c)"
    "final_status st \<longrightarrow> st' = st"
    unfolding extends_def by (metis obligation_row.select_convs(9) obligation_row.surjective obligation_row.update_convs(9))
  with st show "\<exists>st. r\<lparr>obl_status := st\<rparr> \<in> set (obligations_of k c) \<and> (final_status (obl_status r) \<longrightarrow> st = obl_status r)"
    by (intro exI [of _ st']) auto
qed

lemma extends_settlements: "extends db (db\<lparr>settlements := settlements db @ new\<rparr>)"
  by (auto simp: extends_def intro!: exI [of _ "obl_status r" for r])

lemma extends_append: "extends db (put_obligations k (obligations_of k db @ new) db)"
  unfolding extends_def
proof (intro conjI allI ballI)
  show "\<exists>new'. settlements (put_obligations k (obligations_of k db @ new) db) = settlements db @ new'" by simp
  fix k' r assume "r \<in> set (obligations_of k' db)"
  then have "r\<lparr>obl_status := obl_status r\<rparr> \<in> set (obligations_of k' (put_obligations k (obligations_of k db @ new) db))"
    by (cases "k' = k") auto
  then show "\<exists>st. r\<lparr>obl_status := st\<rparr> \<in> set (obligations_of k' (put_obligations k (obligations_of k db @ new) db)) \<and>
    (final_status (obl_status r) \<longrightarrow> st = obl_status r)" by blast
qed

lemma extends_set_status:
  assumes "book_ok k db" "r \<in> set (obligations_of k db)" "obl_id r = i" "final_status (obl_status r) \<Longrightarrow> st = obl_status r"
  shows "extends db (set_status k i st db)"
  unfolding extends_def
proof (intro conjI allI ballI)
  show "\<exists>new. settlements (set_status k i st db) = settlements db @ new" by simp
  fix k' x assume x: "x \<in> set (obligations_of k' db)"
  have only: "x = r" if "k' = k" "obl_id x = i"
    using that x assms(1-3) by (auto simp: book_ok_def distinct_map inj_on_def)
  define st' where "st' = (if k' = k \<and> obl_id x = i then st else obl_status x)"
  have "x\<lparr>obl_status := st'\<rparr> \<in> set (obligations_of k' (set_status k i st db))"
    using x by (auto simp: st'_def obligations_of_set_status set_modify_rows image_iff)
  moreover have "final_status (obl_status x) \<longrightarrow> st' = obl_status x"
    using only assms(4) by (auto simp: st'_def)
  ultimately show "\<exists>st''. x\<lparr>obl_status := st''\<rparr> \<in> set (obligations_of k' (set_status k i st db)) \<and>
    (final_status (obl_status x) \<longrightarrow> st'' = obl_status x)" by blast
qed

lemma extends_same:
  assumes "settlements db' = settlements db" "receivables db' = receivables db" "payables db' = payables db"
  shows "extends db db'"
proof -
  have "obligations_of k db' = obligations_of k db" for k using assms by (cases k) auto
  with assms(1) extends_refl [of db] show ?thesis by (simp add: extends_def)
qed

lemma settle_extends:
  assumes "settle_obligation k tz clock u i c n db = Inr (db', sv, ov)" "obligations_wf db"
  shows "extends db db'"
proof -
  let ?db1 = "db\<lparr>settlements := settlements db @ [settlement_of k u i c n]\<rparr>"
  from settle_Inr [OF assms(1)] obtain r st where
    r: "lock_obligation k u i db = Some r" "validate_settlement r c (settled_amount k u i db) = Inr ()" and
    db': "db' = set_status k i st ?db1" by blast
  have "\<not> final_status (obl_status r)" using r(2) by (simp add: validate_settlement_Inr final_status_def)
  then have "extends db (set_status k i st db)"
    using locked_row [OF r(1)] obligations_wf_book [OF assms(2), of k] by (intro extends_set_status) auto
  moreover have "db' = (set_status k i st db)\<lparr>settlements := settlements (set_status k i st db) @ [settlement_of k u i c n]\<rparr>"
    unfolding db' by (cases k) (simp_all add: set_status_def)
  ultimately show ?thesis using extends_trans extends_settlements by metis
qed

lemma cancel_extends:
  assumes "cancel_obligation k tz clock u i db = Inr (db', v)" "obligations_wf db"
  shows "extends db db'"
proof -
  from cancel_Inr [OF assms(1)] obtain r where
    r: "lock_obligation k u i db = Some r" "obl_status r \<noteq> PAID" and db': "db' = set_status k i CANCELLED db" by blast
  show ?thesis
    unfolding db' using locked_row [OF r(1)] r(2) obligations_wf_book [OF assms(2), of k]
    by (intro extends_set_status) (auto simp: final_status_def)
qed

lemma obligation_frame:
  assumes "ledger_db.more db' = ledger_db.more db"
  shows "settlements db' = settlements db \<and> receivables db' = receivables db \<and> payables db' = payables db"
  using assms by (cases db; cases db') simp

lemma step_extends: "obligation_step db db' \<Longrightarrow> obligations_wf db \<Longrightarrow> extends db db'"
proof (induction rule: obligation_step.induct)
  case (person u pc n db db' p)
  then show ?case using create_person_Inr by (intro extends_same) fastforce+
next
  case (create k tz clock u oc n db db' v)
  then show ?case using create_obligation_Inr extends_append by blast
next
  case (booked u tc ids db db' tv)
  then show ?case using obligation_frame [OF create_transaction_more] by (intro extends_same) blast+
next
  case (recategorized u i c now ids db db' cv)
  then show ?case using correct_transaction_frame by (intro extends_same) fastforce+
qed (auto intro: settle_extends cancel_extends)

lemma history_keeps:
  "obligation_history db db' \<Longrightarrow> obligations_wf db \<Longrightarrow> obligations_wf db' \<and> extends db db'"
proof (induction rule: obligation_history.induct)
  case (step db db1 db2)
  then show ?case using obligation_step_wf step_extends extends_trans by blast
qed (simp add: extends_refl)

end
