(* ===== verification/Obligation_Contract.thy ===== *)
theory Obligation_Contract
  imports Obligation_Laws
begin

text \<open>
  What an obligation promises its owner, as an abstract account (principal, settled amount,
  cancelled or not), and the proof that receivables and payables both keep that promise. The
  interface is the locale \<open>account_ledger\<close>; its client lemma adds up any sequence of payments.
\<close>

section \<open>The abstract account\<close>

record account =
  acc_owed :: money
  acc_settled :: money
  acc_cancelled :: bool

datatype account_action = Pay uuid money | Cancel uuid

fun act :: "account_action \<Rightarrow> account \<Rightarrow> account option" where
  "act (Pay i m) a = (if acc_cancelled a \<or> m \<le> 0 \<or> acc_owed a < acc_settled a + m then None
     else Some (a\<lparr>acc_settled := acc_settled a + m\<rparr>))"
| "act (Cancel i) a = (if acc_settled a = acc_owed a then None else Some (a\<lparr>acc_cancelled := True\<rparr>))"

fun target :: "account_action \<Rightarrow> uuid" where
  "target (Pay i m) = i"
| "target (Cancel i) = i"

fun paid_to :: "uuid \<Rightarrow> account_action list \<Rightarrow> money" where
  "paid_to i [] = 0"
| "paid_to i (Pay j m # acts) = (if j = i then m else 0) + paid_to i acts"
| "paid_to i (Cancel j # acts) = paid_to i acts"

primrec runs :: "('db \<Rightarrow> 'a \<Rightarrow> 'db \<Rightarrow> bool) \<Rightarrow> 'db \<Rightarrow> 'a list \<Rightarrow> 'db \<Rightarrow> bool" where
  "runs does db [] db' \<longleftrightarrow> db' = db"
| "runs does db (x # xs) db' \<longleftrightarrow> (\<exists>db1. does db x db1 \<and> runs does db1 xs db')"

locale account_ledger =
  fixes wf :: "'db \<Rightarrow> bool"
    and account :: "'db \<Rightarrow> uuid \<Rightarrow> account option"
    and does :: "'db \<Rightarrow> account_action \<Rightarrow> 'db \<Rightarrow> bool"
  assumes sound: "wf db \<Longrightarrow> account db i = Some a \<Longrightarrow> 0 \<le> acc_settled a \<and> acc_settled a \<le> acc_owed a"
    and does_wf: "wf db \<Longrightarrow> does db x db' \<Longrightarrow> wf db'"
    and simulates: "wf db \<Longrightarrow> does db x db' \<Longrightarrow>
      \<exists>a a'. account db (target x) = Some a \<and> act x a = Some a' \<and> account db' = (account db)(target x \<mapsto> a')"
begin

lemma runs_wf: "runs does db xs db' \<Longrightarrow> wf db \<Longrightarrow> wf db'"
  by (induction xs arbitrary: db) (auto dest: does_wf)

lemma payments_add_up:
  assumes "runs does db xs db'" "wf db" "account db i = Some a"
  shows "\<exists>a'. account db' i = Some a' \<and> acc_owed a' = acc_owed a \<and> acc_settled a' = acc_settled a + paid_to i xs \<and>
    acc_settled a' \<le> acc_owed a \<and> (acc_cancelled a' \<longleftrightarrow> acc_cancelled a \<or> Cancel i \<in> set xs)"
  using assms
proof (induction xs arbitrary: db a)
  case Nil
  then show ?case using sound by fastforce
next
  case (Cons x xs)
  then obtain db1 where step: "does db x db1" "runs does db1 xs db'" by auto
  from simulates [OF Cons.prems(2) step(1)] obtain b b' where
    b: "account db (target x) = Some b" "act x b = Some b'" "account db1 = (account db)(target x \<mapsto> b')" by blast
  define a1 where "a1 = (if target x = i then b' else a)"
  have "account db1 i = Some a1" using b(3) Cons.prems(3) by (simp add: a1_def)
  from Cons.IH [OF step(2) does_wf [OF Cons.prems(2) step(1)] this] obtain a' where
    a': "account db' i = Some a'" "acc_owed a' = acc_owed a1" "acc_settled a' = acc_settled a1 + paid_to i xs"
    "acc_settled a' \<le> acc_owed a1" "acc_cancelled a' \<longleftrightarrow> acc_cancelled a1 \<or> Cancel i \<in> set xs" by blast
  have "acc_owed a1 = acc_owed a \<and> acc_settled a1 = acc_settled a + paid_to i [x] \<and>
      (acc_cancelled a1 \<longleftrightarrow> acc_cancelled a \<or> x = Cancel i)"
    using b(1,2) Cons.prems(3) by (cases x) (auto simp: a1_def split: if_splits)
  moreover have "paid_to i (x # xs) = paid_to i [x] + paid_to i xs" by (cases x) auto
  ultimately show ?case using a' by auto
qed

lemma nothing_after_cancel:
  assumes "runs does db xs db'" "wf db" "account db i = Some a" "acc_cancelled a"
  shows "Pay i m \<notin> set xs"
  using assms
proof (induction xs arbitrary: db a)
  case (Cons x xs)
  then obtain db1 where step: "does db x db1" "runs does db1 xs db'" by auto
  from simulates [OF Cons.prems(2) step(1)] obtain b b' where
    b: "account db (target x) = Some b" "act x b = Some b'" "account db1 = (account db)(target x \<mapsto> b')" by blast
  have "\<exists>a1. account db1 i = Some a1 \<and> acc_cancelled a1"
    using b Cons.prems(3,4) by (cases x) (auto split: if_splits)
  moreover have "x \<noteq> Pay i m" using b Cons.prems(3,4) by auto
  ultimately show ?case using Cons.IH [OF step(2) does_wf [OF Cons.prems(2) step(1)]] by auto
qed simp

end

section \<open>Receivables and payables are accounts\<close>

definition account_of_row :: "obligation_kind \<Rightarrow> 'a obligation_db_scheme \<Rightarrow> obligation_row \<Rightarrow> account" where
  "account_of_row k db r =
     \<lparr>acc_owed = obl_amount r, acc_settled = settled_total k (obl_id r) db, acc_cancelled = (obl_status r = CANCELLED)\<rparr>"

definition account_of :: "obligation_kind \<Rightarrow> 'a obligation_db_scheme \<Rightarrow> uuid \<Rightarrow> account option" where
  "account_of k db i = map_option (account_of_row k db) (select_one (\<lambda>r. obl_id r = i) (obligations_of k db))"

text \<open>A successful call of the two state-changing operations on one obligation, by any user at any time.\<close>

fun obligation_does ::
  "obligation_kind \<Rightarrow> 'a obligation_db_scheme \<Rightarrow> account_action \<Rightarrow> 'a obligation_db_scheme \<Rightarrow> bool" where
  "obligation_does k db (Pay i m) db' \<longleftrightarrow>
     (\<exists>tz clock u c n sv ov. settle_obligation k tz clock u i c n db = Inr (db', sv, ov) \<and>
        amount_ok (sc_amount c) \<and> numeric_19_4 (sc_amount c) = m)"
| "obligation_does k db (Cancel i) db' \<longleftrightarrow>
     (\<exists>tz clock u v. cancel_obligation k tz clock u i db = Inr (db', v))"

lemma account_of_lock:
  assumes "book_ok k db" "lock_obligation k u i db = Some r"
  shows "account_of k db i = Some (account_of_row k db r)"
  using assms locked_row [OF assms(2)]
    select_one_unique [of obl_id "obligations_of k db" r "\<lambda>r. obl_id r = i"]
  by (auto simp: account_of_def book_ok_def)

lemma account_of_set_status:
  assumes "account_of k db i = Some (account_of_row k db r)" "obl_id r = i"
  shows "account_of k (set_status k i st db) = (account_of k db)(i \<mapsto> account_of_row k db (r\<lparr>obl_status := st\<rparr>))"
proof
  fix j
  have "account_of k (set_status k i st db) j =
      map_option (\<lambda>x. account_of_row k db (if obl_id x = i then x\<lparr>obl_status := st\<rparr> else x))
        (select_one (\<lambda>r. obl_id r = j) (obligations_of k db))"
    by (simp add: account_of_def obligations_of_set_status select_one_modify_rows option.map_comp o_def
        account_of_row_def)
  also have "\<dots> = ((account_of k db)(i \<mapsto> account_of_row k db (r\<lparr>obl_status := st\<rparr>))) j"
  proof (cases "j = i")
    case True
    from assms obtain x where x: "select_one (\<lambda>r. obl_id r = i) (obligations_of k db) = Some x"
      "account_of_row k db x = account_of_row k db r"
      by (auto simp: account_of_def)
    have "obl_id x = i" using select_one_SomeD [OF x(1)] by simp
    with x assms(2) True show ?thesis by (simp add: account_of_row_def)
  next
    case False
    have "obl_id x \<noteq> i" if "select_one (\<lambda>r. obl_id r = j) (obligations_of k db) = Some x" for x
      using select_one_SomeD [OF that] False by auto
    with False show ?thesis
      by (cases "select_one (\<lambda>r. obl_id r = j) (obligations_of k db)") (auto simp: account_of_def)
  qed
  finally show "account_of k (set_status k i st db) j = \<dots>" .
qed

lemma account_of_settled:
  assumes "settlement_ref k s = Some i" "account_of k db i = Some a"
  shows "account_of k (db\<lparr>settlements := settlements db @ [s]\<rparr>) =
    (account_of k db)(i \<mapsto> a\<lparr>acc_settled := acc_settled a + set_amount s\<rparr>)"
proof
  fix j
  have row: "account_of_row k (db\<lparr>settlements := settlements db @ [s]\<rparr>) r =
      (let b = account_of_row k db r in if obl_id r = i then b\<lparr>acc_settled := acc_settled b + set_amount s\<rparr> else b)" for r
    using assms(1) by (auto simp: account_of_row_def settled_total_append Let_def)
  show "account_of k (db\<lparr>settlements := settlements db @ [s]\<rparr>) j =
      ((account_of k db)(i \<mapsto> a\<lparr>acc_settled := acc_settled a + set_amount s\<rparr>)) j"
    using assms(2) by (cases "select_one (\<lambda>r. obl_id r = j) (obligations_of k db)")
      (auto simp: account_of_def row Let_def dest: select_one_SomeD)
qed

lemma settle_simulates:
  assumes "obligations_wf db" "settle_obligation k tz clock u i c n db = Inr (db', sv, ov)" "amount_ok (sc_amount c)"
  shows "\<exists>a a'. account_of k db i = Some a \<and> act (Pay i (numeric_19_4 (sc_amount c))) a = Some a' \<and>
    account_of k db' = (account_of k db)(i \<mapsto> a')"
proof -
  let ?s = "settlement_of k u i c n" and ?m = "numeric_19_4 (sc_amount c)"
  let ?db1 = "db\<lparr>settlements := settlements db @ [?s]\<rparr>"
  from settle_Inr [OF assms(2)] obtain r st where
    lock: "lock_obligation k u i db = Some r" and
    valid: "validate_settlement r c (settled_amount k u i db) = Inr ()" and
    db': "db' = set_status k i (next_status (obl_amount r) st) ?db1" by blast
  note r = locked_row [OF lock]
  have acc: "account_of k db i = Some (account_of_row k db r)"
    by (rule account_of_lock [OF obligations_wf_book [OF assms(1)] lock])
  have m: "0 < ?m" using amount_ok_value(2) amount_ok_cases [OF assms(3)] assms(3) by (auto simp del: numeric_19_4.simps)
  have fits: "settled_total k i db + ?m \<le> obl_amount r" "obl_status r \<noteq> CANCELLED"
    using valid exceeds_iff [OF assms(3)]
    by (auto simp: validate_settlement_Inr settled_amount_total [OF assms(1) lock] simp del: numeric_19_4.simps)
  let ?a' = "(account_of_row k db r)\<lparr>acc_settled := settled_total k i db + ?m\<rparr>"
  have "account_of k ?db1 = (account_of k db)(i \<mapsto> ?a')"
    using account_of_settled [of k ?s i db] acc r by (simp add: account_of_row_def del: numeric_19_4.simps)
  moreover have "?a' = account_of_row k ?db1 r"
    using fits(2) r by (simp add: account_of_row_def settled_total_append del: numeric_19_4.simps)
  moreover have "account_of_row k ?db1 (r\<lparr>obl_status := next_status (obl_amount r) st\<rparr>) = account_of_row k ?db1 r"
    using fits(2) by (simp add: account_of_row_def next_status_def)
  ultimately have "account_of k db' = (account_of k db)(i \<mapsto> ?a')"
    unfolding db' using account_of_set_status [of k ?db1 i r] r by simp
  moreover have "act (Pay i ?m) (account_of_row k db r) = Some ?a'"
    using fits m r by (simp add: account_of_row_def del: numeric_19_4.simps)
  ultimately show ?thesis using acc by blast
qed

lemma cancel_simulates:
  assumes "obligations_wf db" "cancel_obligation k tz clock u i db = Inr (db', v)"
  shows "\<exists>a a'. account_of k db i = Some a \<and> act (Cancel i) a = Some a' \<and> account_of k db' = (account_of k db)(i \<mapsto> a')"
proof -
  from cancel_Inr [OF assms(2)] obtain r where
    lock: "lock_obligation k u i db = Some r" and st: "obl_status r \<noteq> PAID" and db': "db' = set_status k i CANCELLED db" by blast
  note r = locked_row [OF lock]
  have acc: "account_of k db i = Some (account_of_row k db r)"
    by (rule account_of_lock [OF obligations_wf_book [OF assms(1)] lock])
  have "obligation_ok k db r" using obligations_wf_book [OF assms(1), of k] r by (auto simp: book_ok_def)
  then have "settled_total k i db \<noteq> obl_amount r"
    using st r by (auto simp: obligation_ok_def obligation_checks_def status_agrees_def split: obligation_status.splits)
  then have "act (Cancel i) (account_of_row k db r) = Some (account_of_row k db (r\<lparr>obl_status := CANCELLED\<rparr>))"
    using r by (simp add: account_of_row_def)
  with acc r show ?thesis unfolding db' using account_of_set_status [OF acc, of CANCELLED] by auto
qed

lemma obligation_account_sound:
  assumes "obligations_wf db" "account_of k db i = Some a"
  shows "0 \<le> acc_settled a \<and> acc_settled a \<le> acc_owed a"
proof -
  from assms(2) obtain r where r: "select_one (\<lambda>r. obl_id r = i) (obligations_of k db) = Some r" "a = account_of_row k db r"
    by (auto simp: account_of_def)
  with settled_within [OF assms(1), of r k] select_one_SomeD [OF r(1)] show ?thesis by (simp add: account_of_row_def)
qed

lemma obligation_account_ledger: "account_ledger obligations_wf (account_of k) (obligation_does k)"
proof
  fix db :: "'a obligation_db_scheme" and x db'
  assume wf: "obligations_wf db" and run: "obligation_does k db x db'"
  show "obligations_wf db'" using wf run by (cases x) (auto intro: settle_wf cancel_wf)
  show "\<exists>a a'. account_of k db (target x) = Some a \<and> act x a = Some a' \<and> account_of k db' = (account_of k db)(target x \<mapsto> a')"
  proof (cases x)
    case (Pay i m)
    with run wf show ?thesis using settle_simulates by (fastforce simp del: numeric_19_4.simps act.simps)
  next
    case (Cancel i)
    with run wf show ?thesis using cancel_simulates by (fastforce simp del: act.simps)
  qed
qed (rule obligation_account_sound)

interpretation receivable: account_ledger obligations_wf "account_of RECEIVABLE" "obligation_does RECEIVABLE"
  by (rule obligation_account_ledger)

interpretation payable: account_ledger obligations_wf "account_of PAYABLE" "obligation_does PAYABLE"
  by (rule obligation_account_ledger)

section \<open>Sequences of commands\<close>

datatype obligation_command = Settle_Command uuid settle_command uuid | Cancel_Command uuid

text \<open>The owner's commands in the order they commit, each with the clock it reads.\<close>

fun run_commands ::
  "obligation_kind \<Rightarrow> tzdata \<Rightarrow> uuid \<Rightarrow> (py_datetime \<times> obligation_command) list \<Rightarrow>
   'a obligation_db_scheme \<Rightarrow> 'a obligation_db_scheme result" where
  "run_commands k tz u [] db = Inr db"
| "run_commands k tz u ((clock, Settle_Command i c n) # cmds) db =
     bindE (settle_obligation k tz clock u i c n db) (\<lambda>(db1, _). run_commands k tz u cmds db1)"
| "run_commands k tz u ((clock, Cancel_Command i) # cmds) db =
     bindE (cancel_obligation k tz clock u i db) (\<lambda>(db1, _). run_commands k tz u cmds db1)"

fun action_of :: "obligation_command \<Rightarrow> account_action" where
  "action_of (Settle_Command i c n) = Pay i (numeric_19_4 (sc_amount c))"
| "action_of (Cancel_Command i) = Cancel i"

fun command_amount_ok :: "obligation_command \<Rightarrow> bool" where
  "command_amount_ok (Settle_Command i c n) \<longleftrightarrow> amount_ok (sc_amount c)"
| "command_amount_ok (Cancel_Command i) \<longleftrightarrow> True"

text \<open>The sum of the amounts the commands pay on one obligation.\<close>

definition payments_of :: "uuid \<Rightarrow> (py_datetime \<times> obligation_command) list \<Rightarrow> money" where
  "payments_of i cmds = (\<Sum>(_, x)\<leftarrow>cmds. case x of
     Settle_Command j c _ \<Rightarrow> if j = i then numeric_19_4 (sc_amount c) else 0 | Cancel_Command _ \<Rightarrow> 0)"

lemma paid_to_commands: "paid_to i (map (action_of \<circ> snd) cmds) = payments_of i cmds"
proof (induction cmds)
  case (Cons x cmds)
  then show ?case by (cases "snd x") (auto simp: payments_of_def split: prod.splits simp del: numeric_19_4.simps)
qed (simp add: payments_of_def)

lemma run_commands_runs:
  "run_commands k tz u cmds db = Inr db' \<Longrightarrow> \<forall>x \<in> set cmds. command_amount_ok (snd x) \<Longrightarrow>
    runs (obligation_does k) db (map (action_of \<circ> snd) cmds) db'"
proof (induction k tz u cmds db rule: run_commands.induct)
  case (2 k tz u clock i c n cmds db)
  then obtain db1 s v where run: "settle_obligation k tz clock u i c n db = Inr (db1, s, v)" "run_commands k tz u cmds db1 = Inr db'"
    by (auto simp: result_simps)
  then have "obligation_does k db (Pay i (numeric_19_4 (sc_amount c))) db1"
    unfolding obligation_does.simps using 2(3) by (intro exI conjI) auto
  moreover have "runs (obligation_does k) db1 (map (action_of \<circ> snd) cmds) db'" using 2(1,3) run(2) by (auto simp: o_def)
  ultimately show ?case by (auto simp: o_def simp del: obligation_does.simps numeric_19_4.simps)
next
  case (3 k tz u clock i cmds db)
  then obtain db1 v where run: "cancel_obligation k tz clock u i db = Inr (db1, v)" "run_commands k tz u cmds db1 = Inr db'"
    by (auto simp: result_simps)
  then have "obligation_does k db (Cancel i) db1" by auto
  moreover have "runs (obligation_does k) db1 (map (action_of \<circ> snd) cmds) db'" using 3(1,3) run(2) by (auto simp: o_def)
  ultimately show ?case by (auto simp: o_def simp del: obligation_does.simps)
qed auto

section \<open>The outcome of settling\<close>

lemma parse_settlement_Inr:
  assumes "parse_settlement amount currency (Aware t) tx note = Inr c"
  shows "validate_positive_money (sc_amount c) = Inr (sc_amount c) \<and> sc_transaction c = tx \<and> sc_settled_at c = t \<and>
    (case sc_note c of None \<Rightarrow> True | Some n \<Rightarrow> length n \<le> 500)"
proof -
  from assms obtain d where d: "obligation_amount amount = Inr d" "sc_amount c = d" and
    rest: "sc_transaction c = tx" "sc_settled_at c = t" "case sc_note c of None \<Rightarrow> True | Some n \<Rightarrow> length n \<le> 500"
    by (auto simp: parse_settlement_def Let_def result_simps)
  have "validate_positive_money d = Inr d"
    using d(1) validate_bounds
    by (fastforce simp: obligation_amount_def simp del: validate_positive_money.simps split: if_splits option.splits sum.splits)
  with d rest show ?thesis by simp
qed

lemma owner_today_user: "owner_today tz clock u db = Inr as_of \<Longrightarrow> fk_user db u"
  by (auto simp: owner_today_def require_owner_def owner_timezone_def fk_user_def result_simps dest: select_one_SomeD)

lemma validate_reference_fk: "validate_reference u tx db = Inr () \<Longrightarrow> fk_transaction db tx u"
  by (auto simp: validate_reference_def transaction_exists_def fk_transaction_def result_simps image_iff
      dest!: select_one_SomeD split: option.splits)

lemma fk_person_name:
  assumes "fk_person db (obl_person r) (obl_user r)"
  shows "\<exists>name. person_name_of db r = Some name"
  using assms select_one_None [of "\<lambda>p. per_id p = obl_person r \<and> per_user p = obl_user r" "people db"]
  by (cases "select_one (\<lambda>p. per_id p = obl_person r \<and> per_user p = obl_user r) (people db)")
    (auto simp: fk_person_def person_name_of_def)

lemma obligation_has_person:
  "obligations_wf db \<Longrightarrow> r \<in> set (obligations_of k db) \<Longrightarrow> \<exists>name. person_name_of db r = Some name"
  using obligations_wf_book [of db k] by (auto simp: book_ok_def obligation_ok_def intro!: fk_person_name)

text \<open>The tables after a payment: one row of history more, one status written.\<close>

definition book_payment ::
  "obligation_kind \<Rightarrow> uuid \<Rightarrow> uuid \<Rightarrow> settle_command \<Rightarrow> uuid \<Rightarrow> obligation_status \<Rightarrow>
   'a obligation_db_scheme \<Rightarrow> 'a obligation_db_scheme" where
  "book_payment k u i c n st db =
     set_status k i st (db\<lparr>settlements := settlements db @ [settlement_of k u i c n]\<rparr>)"

lemma lock_set_status:
  assumes "lock_obligation k u i db = Some r"
  shows "lock_obligation k u i (set_status k i st db) = Some (r\<lparr>obl_status := st\<rparr>)"
  using assms locked_row [OF assms]
  by (simp add: lock_obligation_def obligations_of_set_status select_one_modify_rows)

lemma settle_value:
  assumes wf: "obligations_wf db" and today: "owner_today tz clock u db = Inr as_of"
    and lock: "lock_obligation k u i db = Some r"
    and amount: "amount_ok (sc_amount c)" and note_ok: "case sc_note c of None \<Rightarrow> True | Some n \<Rightarrow> length n \<le> 500"
    and reference: "validate_reference u (sc_transaction c) db = Inr ()" and fresh: "n \<notin> set_id ` set (settlements db)"
    and valid: "validate_settlement r c (settled_total k i db) = Inr ()"
    and name: "person_name_of db r = Some name"
  defines "m \<equiv> numeric_19_4 (sc_amount c)"
  defines "st \<equiv> if settled_total k i db + m = obl_amount r then PAID else PARTIALLY_PAID"
  shows "settle_obligation k tz clock u i c n db =
    Inr (book_payment k u i c n st db,
      \<lparr>sv_id = n, sv_kind = k, sv_obligation = i, sv_amount = m, sv_currency = sc_currency c,
       sv_settled_at = sc_settled_at c, sv_transaction = sc_transaction c, sv_note = sc_note c\<rparr>,
      obligation_view k name (settled_total k i db + m) as_of (r\<lparr>obl_status := st\<rparr>))"
proof -
  note r = locked_row [OF lock]
  let ?s = "settlement_of k u i c n"
  let ?db1 = "db\<lparr>settlements := settlements db @ [?s]\<rparr>"
  have t: "settled_amount k u i db = settled_total k i db" by (rule settled_amount_total [OF wf lock])
  have bounds: "0 \<le> settled_total k i db" "settled_total k i db \<le> obl_amount r" "obl_amount r < 10 ^ 19"
    using settled_within [OF wf, of r k] r by auto
  have m: "0 < m" "m < 10 ^ 19"
    using amount_ok_value(2,3) amount_ok_cases [OF amount] amount by (auto simp: m_def simp del: numeric_19_4.simps)
  have next_st: "next_status (obl_amount r) (add_to_stored (settled_total k i db) (sc_amount c)) = st"
    using sum_equals_iff [OF amount, of "settled_total k i db" "obl_amount r"] bounds
    by (simp add: next_status_def st_def m_def del: numeric_19_4.simps)
  have cur: "sc_currency c = obl_currency r" using valid by (simp add: validate_settlement_Inr)
  have "obligation_checks r" using obligations_wf_book [OF wf, of k] r by (auto simp: book_ok_def obligation_ok_def)
  then have "currency_pattern (sc_currency c)" by (simp add: cur obligation_checks_def)
  then have "settlement_checks ?s"
    using m note_ok by (cases k) (simp_all add: settlement_checks_def settlement_of_def m_def del: numeric_19_4.simps)
  then have add: "add_settlement k u i c n db = Inr (?db1,
      \<lparr>sv_id = n, sv_kind = k, sv_obligation = i, sv_amount = m, sv_currency = sc_currency c,
       sv_settled_at = sc_settled_at c, sv_transaction = sc_transaction c, sv_note = sc_note c\<rparr>)"
    unfolding add_settlement_Inr
    using owner_today_user [OF today] validate_reference_fk [OF reference] fresh r cur
    by (auto simp: fk_obligation_of m_def simp del: numeric_19_4.simps)
  have "repo_get_obligation k u i as_of (set_status k i st ?db1) =
      Some (obligation_view k name (settled_total k i db + m) as_of (r\<lparr>obl_status := st\<rparr>))"
  proof -
    have "lock_obligation k u i ?db1 = Some r" using lock by (simp add: lock_obligation_def)
    then have "lock_obligation k u i (set_status k i st ?db1) = Some (r\<lparr>obl_status := st\<rparr>)" by (rule lock_set_status)
    with name r show ?thesis
      by (auto simp: repo_get_obligation_def project_obligation_def person_name_of_def settled_total_append m_def
          simp del: numeric_19_4.simps)
  qed
  then show ?thesis
    by (simp add: settle_obligation_def today lock reference t valid add Let_def next_st book_payment_def
        del: numeric_19_4.simps)
qed

section \<open>Exposure\<close>

lemma list_obligations_Inr:
  "list_obligations k tz clock u db = Inr vs \<longleftrightarrow>
    (\<exists>as_of. owner_today tz clock u db = Inr as_of \<and> vs = repo_list_obligations k u as_of db)"
  by (auto simp: list_obligations_def result_simps)

text \<open>The list shows each of the owner's obligations once, with its outstanding principal.\<close>

lemma listed_exposure:
  assumes "obligations_wf db"
  shows "sum_rows ov_outstanding (filter (\<lambda>v. ov_currency v = cur) (repo_list_obligations k u as_of db)) =
      sum_rows (outstanding_principal k db)
        (filter (\<lambda>r. obl_currency r = cur) (filter (\<lambda>r. obl_user r = u) (obligations_of k db)))" (is ?sums)
    and "set (map ov_currency (repo_list_obligations k u as_of db)) =
      set (map obl_currency (filter (\<lambda>r. obl_user r = u) (obligations_of k db)))" (is ?currencies)
proof -
  let ?rows = "filter (\<lambda>r. obl_user r = u) (obligations_of k db)"
  let ?sorted = "rev (sort_key (\<lambda>r. (obl_issued r, obl_id r)) ?rows)"
  define view where "view r = obligation_view k (the (person_name_of db r)) (settled_total k (obl_id r) db) as_of r" for r
  have "project_obligation k as_of db r = Some (view r)" if "r \<in> set ?rows" for r
    using obligation_has_person [OF assms, of r k] that by (auto simp: project_obligation_def view_def)
  then have views: "repo_list_obligations k u as_of db = map view ?sorted"
    unfolding repo_list_obligations_def by (intro map_filter_total) auto
  have fields: "ov_currency (view r) = obl_currency r" "ov_outstanding (view r) = outstanding_principal k db r" for r
    by (simp_all add: view_def obligation_view_def outstanding_principal_def Let_def)
  have "sum_rows ov_outstanding (filter (\<lambda>v. ov_currency v = cur) (map view ?sorted)) =
      sum_rows (outstanding_principal k db) (filter (\<lambda>r. obl_currency r = cur) ?sorted)"
    by (simp add: sum_rows_def filter_map o_def fields)
  also have "\<dots> = sum_rows (outstanding_principal k db) (filter (\<lambda>r. obl_currency r = cur) ?rows)"
    by (rule sum_rows_mset) (simp only: mset_filter mset_rev mset_sort)
  finally show ?sums unfolding views .
  show ?currencies unfolding views by (auto simp: fields)
qed

lemma filter_absent: "x \<notin> set (map f rows) \<Longrightarrow> filter (\<lambda>r. f r = x) rows = []"
  by (auto simp: filter_empty_conv)

lemma get_total_kind:
  "get_total (kind_totals k u db) cur =
    sum_rows (outstanding_principal k db)
      (filter (\<lambda>r. obl_currency r = cur) (filter (\<lambda>r. obl_user r = u) (obligations_of k db)))"
  using filter_absent [of cur obl_currency "filter (\<lambda>r. obl_user r = u) (obligations_of k db)"]
  by (auto simp: get_total_def kind_totals_def map_of_group_sums simp del: filter_filter)

lemma kind_total_keys:
  "set (map fst (kind_totals k u db)) = set (map obl_currency (filter (\<lambda>r. obl_user r = u) (obligations_of k db)))"
  by (simp add: kind_totals_def group_sums_def image_image)

section \<open>Tenants\<close>

text \<open>Another user's commands never change what the owner's lists, totals and history show.\<close>

definition same_obligations :: "uuid \<Rightarrow> 'a obligation_db_scheme \<Rightarrow> 'a obligation_db_scheme \<Rightarrow> bool" where
  "same_obligations u db db' \<longleftrightarrow>
     (\<forall>k as_of. repo_list_obligations k u as_of db' = repo_list_obligations k u as_of db) \<and>
     repo_outstanding_totals u db' = repo_outstanding_totals u db \<and>
     filter (\<lambda>s. set_user s = u) (settlements db') = filter (\<lambda>s. set_user s = u) (settlements db)"

lemma foreign_lock: "lock_obligation k u i db = Some r \<Longrightarrow> book_ok k db \<Longrightarrow> w \<noteq> u \<Longrightarrow> lock_obligation k w i db = None"
  using locked_row [of k u i db r]
  by (auto simp: lock_obligation_def select_one_None book_ok_def distinct_map inj_on_def)

lemma same_obligationsI:
  assumes rows: "\<And>k. filter (\<lambda>r. obl_user r = u) (obligations_of k db') = filter (\<lambda>r. obl_user r = u) (obligations_of k db)"
    and history: "filter (\<lambda>s. set_user s = u) (settlements db') = filter (\<lambda>s. set_user s = u) (settlements db)"
    and total: "\<And>k r. r \<in> set (obligations_of k db) \<Longrightarrow> obl_user r = u \<Longrightarrow>
      settled_total k (obl_id r) db' = settled_total k (obl_id r) db"
    and people: "people db' = people db"
  shows "same_obligations u db db'"
proof -
  have "repo_list_obligations k u as_of db' = repo_list_obligations k u as_of db" for k as_of
    unfolding repo_list_obligations_def rows
    by (intro map_filter_cong_on) (auto simp: project_obligation_def person_name_of_def people total)
  moreover have "kind_totals k u db' = kind_totals k u db" for k
  proof -
    have "sum_rows (outstanding_principal k db') (filter P (filter (\<lambda>r. obl_user r = u) (obligations_of k db))) =
        sum_rows (outstanding_principal k db) (filter P (filter (\<lambda>r. obl_user r = u) (obligations_of k db)))" for P
      by (rule sum_rows_cong) (auto simp: outstanding_principal_def total)
    then show ?thesis by (simp only: kind_totals_def group_sums_def rows)
  qed
  ultimately show ?thesis using history by (simp add: same_obligations_def repo_outstanding_totals_def)
qed

lemma foreign_set_status:
  assumes "book_ok k db" "lock_obligation k w i db = Some r" "w \<noteq> u"
  shows "filter (\<lambda>r. obl_user r = u) (obligations_of k' (set_status k i st db)) =
    filter (\<lambda>r. obl_user r = u) (obligations_of k' db)"
proof -
  have "x = r" if "x \<in> set (obligations_of k db)" "obl_id x = i" for x
    using that assms(1) locked_row [OF assms(2)] by (auto simp: book_ok_def distinct_map inj_on_def)
  then have "obl_user x \<noteq> u" if "x \<in> set (obligations_of k db)" "obl_id x = i" for x
    using that locked_row [OF assms(2)] assms(3) by blast
  then show ?thesis by (simp add: obligations_of_set_status filter_modify_rows_on)
qed

lemma foreign_settle:
  assumes "settle_obligation k tz clock w i c n db = Inr (db', sv, ov)" "obligations_wf db" "w \<noteq> u"
  shows "same_obligations u db db'"
proof -
  let ?s = "settlement_of k w i c n"
  let ?db1 = "db\<lparr>settlements := settlements db @ [?s]\<rparr>"
  from settle_Inr [OF assms(1)] obtain r st where
    lock: "lock_obligation k w i db = Some r" and db': "db' = set_status k i st ?db1" by blast
  have book: "book_ok j db" for j by (rule obligations_wf_book [OF assms(2)])
  have other: "obl_id x \<noteq> i" if "x \<in> set (obligations_of k db)" "obl_user x = u" for x
    using that book [of k] locked_row [OF lock] assms(3) by (auto simp: book_ok_def distinct_map inj_on_def)
  have swap: "db' = (set_status k i st db)\<lparr>settlements := settlements db @ [?s]\<rparr>"
    unfolding db' by (cases k) (simp_all add: set_status_def)
  show ?thesis
  proof (rule same_obligationsI)
    show "filter (\<lambda>r. obl_user r = u) (obligations_of j db') = filter (\<lambda>r. obl_user r = u) (obligations_of j db)" for j
      using foreign_set_status [OF book lock assms(3)] by (simp add: swap)
    show "filter (\<lambda>s. set_user s = u) (settlements db') = filter (\<lambda>s. set_user s = u) (settlements db)"
      using assms(3) by (simp add: db')
    show "settled_total j (obl_id x) db' = settled_total j (obl_id x) db" if "x \<in> set (obligations_of j db)" "obl_user x = u" for j x
      using that other by (cases "j = k") (auto simp: db' settled_total_append)
    show "people db' = people db" by (simp add: db')
  qed
qed

lemma foreign_cancel:
  assumes "cancel_obligation k tz clock w i db = Inr (db', v)" "obligations_wf db" "w \<noteq> u"
  shows "same_obligations u db db'"
proof -
  from cancel_Inr [OF assms(1)] obtain r where
    lock: "lock_obligation k w i db = Some r" and db': "db' = set_status k i CANCELLED db" by blast
  show ?thesis
    using foreign_set_status [OF obligations_wf_book [OF assms(2)] lock assms(3)]
    by (intro same_obligationsI) (simp_all add: db')
qed

lemma foreign_create:
  assumes "create_obligation k tz clock w c n db = Inr (db', v)" "w \<noteq> u"
  shows "same_obligations u db db'"
proof -
  from create_obligation_Inr [OF assms(1)] have
    db': "db' = put_obligations k (obligations_of k db @ [obligation_of w c n]) db" by blast
  have "filter (\<lambda>r. obl_user r = u) (obligations_of j db') = filter (\<lambda>r. obl_user r = u) (obligations_of j db)" for j
    using assms(2) by (cases "j = k") (simp_all add: db')
  then show ?thesis by (rule same_obligationsI) (simp_all add: db')
qed

section \<open>Properties\<close>

definition sample_obligations :: obligation_db where
  "sample_obligations =
     \<lparr>users = sample_users, categories = sample_categories, merchants = sample_merchants,
      transactions = [sample_transaction], category_rules = [], merchant_maps = [], corrections = [],
      people = [\<lparr>per_id = 60, per_user = 1, per_name = ''Asha'', per_normalized = ''asha''\<rparr>],
      receivables = [\<lparr>obl_id = 70, obl_user = 1, obl_person = 60, obl_amount = 1000000, obl_currency = ''INR'',
        obl_description = ''Loan'', obl_issued = Date 2026 5 1, obl_due = Some (Date 2026 5 10),
        obl_status = PARTIALLY_PAID, obl_transaction = None\<rparr>],
      payables = [],
      settlements = [\<lparr>set_id = 80, set_user = 1, set_receivable = Some 70, set_payable = None, set_amount = 400000,
        set_currency = ''INR'', set_settled_at = 0, set_transaction = None, set_note = None\<rparr>]\<rparr>"

abbreviation sample_clock :: py_datetime where
  "sample_clock \<equiv> Aware 1778500000000000"

definition sample_settlement :: settle_command where
  "sample_settlement = \<lparr>sc_amount = Dec 60 0, sc_currency = ''INR'', sc_settled_at = 0, sc_transaction = None, sc_note = None\<rparr>"

lemma sample_obligations_wf: "obligations_wf sample_obligations"
  by (simp add: obligations_wf_def book_ok_def obligation_ok_def obligation_checks_def settlement_ok_def settlement_checks_def
      fk_obligation_def fk_person_def settled_total_def status_agrees_def sample_obligations_def currency_pattern_def
      is_upper_letter_def not_blank_def less_eq_date_def)

lemma sample_today: "owner_today sample_zone sample_clock 1 sample_obligations = Inr (Date 2026 5 11)"
  by (simp add: owner_today_def require_owner_def owner_timezone_def service_now_def parse_timezone_def sample_zone_def
      sample_obligations_def sample_users_def) code_simp

lemma sample_settlement_parsed:
  "parse_settlement ''60'' ''INR'' (Aware 0) None None = Inr sample_settlement"
  by code_simp

lemma sample_lock: "lock_obligation RECEIVABLE 1 70 sample_obligations = Some (hd (receivables sample_obligations))"
  by (simp add: lock_obligation_def sample_obligations_def)

lemma sample_amount: "amount_ok (sc_amount sample_settlement)" "numeric_19_4 (sc_amount sample_settlement) = 600000"
proof -
  have "exact_literal (sc_amount sample_settlement)" by (simp add: exact_literal_def sample_settlement_def ndigits.simps)
  with parse_settlement_Inr [OF sample_settlement_parsed] show "amount_ok (sc_amount sample_settlement)"
    by (simp add: amount_ok_def)
  show "numeric_19_4 (sc_amount sample_settlement) = 600000" by code_simp
qed

lemma sample_settle:
  "settle_obligation RECEIVABLE sample_zone sample_clock 1 70 sample_settlement 81 sample_obligations =
    Inr (book_payment RECEIVABLE 1 70 sample_settlement 81 PAID sample_obligations,
      \<lparr>sv_id = 81, sv_kind = RECEIVABLE, sv_obligation = 70, sv_amount = 600000, sv_currency = ''INR'',
       sv_settled_at = 0, sv_transaction = None, sv_note = None\<rparr>,
      obligation_view RECEIVABLE ''Asha'' 1000000 (Date 2026 5 11)
        ((hd (receivables sample_obligations))\<lparr>obl_status := PAID\<rparr>))"
proof -
  let ?r = "hd (receivables sample_obligations)"
  have t: "settled_total RECEIVABLE 70 sample_obligations = 400000" by (simp add: settled_total_def sample_obligations_def)
  have c: "sc_currency sample_settlement = ''INR''" "sc_transaction sample_settlement = None"
    "sc_note sample_settlement = None" "sc_settled_at sample_settlement = 0" by (simp_all add: sample_settlement_def)
  have "\<not> exceeds_stored (sc_amount sample_settlement) 600000"
    by (simp add: exceeds_iff [OF sample_amount(1)] sample_amount(2))
  then have valid: "validate_settlement ?r sample_settlement (settled_total RECEIVABLE 70 sample_obligations) = Inr ()"
    using sample_amount(1) by (simp add: validate_settlement_Inr t c amount_ok_def) (simp add: sample_obligations_def)
  have more: "validate_reference 1 (sc_transaction sample_settlement) sample_obligations = Inr ()"
    "81 \<notin> set_id ` set (settlements sample_obligations)" "person_name_of sample_obligations ?r = Some ''Asha''"
    "obl_amount ?r = 1000000"
    by (simp_all add: validate_reference_def c person_name_of_def) (simp_all add: sample_obligations_def)
  show ?thesis
    using settle_value [OF sample_obligations_wf sample_today sample_lock sample_amount(1) _ more(1,2) valid more(3)] more(4)
    by (simp add: sample_amount(2) c t del: numeric_19_4.simps)
qed

text \<open>The accounts behind a run of commands, through the interpretations of the interface.\<close>

lemma run_commands_account:
  assumes "run_commands k tz u cmds db = Inr db'" "obligations_wf db" "\<forall>x \<in> set cmds. command_amount_ok (snd x)"
    and "account_of k db i = Some a"
  shows "obligations_wf db' \<and> (\<exists>a'. account_of k db' i = Some a' \<and> acc_owed a' = acc_owed a \<and>
    acc_settled a' = acc_settled a + payments_of i cmds \<and> acc_settled a' \<le> acc_owed a \<and>
    (acc_cancelled a' \<longleftrightarrow> acc_cancelled a \<or> Cancel_Command i \<in> snd ` set cmds))"
proof -
  note run = run_commands_runs [OF assms(1,3)]
  have mem: "Cancel i \<in> set (map (action_of \<circ> snd) cmds) \<longleftrightarrow> Cancel_Command i \<in> snd ` set cmds"
  proof -
    have "action_of x = Cancel i \<longleftrightarrow> x = Cancel_Command i" for x by (cases x) auto
    then have "Cancel i \<in> action_of ` X \<longleftrightarrow> Cancel_Command i \<in> X" for X by (metis imageE imageI)
    moreover have "set (map (action_of \<circ> snd) cmds) = action_of ` snd ` set cmds" by (simp add: image_comp)
    ultimately show ?thesis by simp
  qed
  have "account_ledger obligations_wf (account_of k) (obligation_does k)"
    using receivable.account_ledger_axioms payable.account_ledger_axioms by (cases k) simp_all
  note add_up = account_ledger.payments_add_up [OF this run assms(2,4)] account_ledger.runs_wf [OF this run assms(2)]
  show ?thesis using add_up unfolding mem paid_to_commands by blast
qed

text \<open>
  C29: in every history of committed commands of any users, at any times, both kinds of obligation keep
  their invariant: each stored status is the one the settlement history implies (open: nothing paid;
  partially paid: strictly between; paid: exactly the principal), no obligation is ever overpaid, every
  settlement belongs to an obligation of the same owner and currency; and history is append-only: no
  settlement is changed or removed, no principal changes, and paid and cancelled are final.
\<close>

theorem obligation_histories_are_sound:
  assumes "obligations_wf db" "obligation_history db db'"
  shows "obligations_wf db' \<and> extends db db'"
  using history_keeps [OF assms(2,1)] .

theorem obligation_histories_are_sound_witness:
  "\<exists>db'. obligation_history sample_obligations db' \<and> obligations_wf db' \<and> extends sample_obligations db' \<and>
    length (settlements db') = 2"
proof -
  let ?db' = "book_payment RECEIVABLE 1 70 sample_settlement 81 PAID sample_obligations"
  have "obligation_history sample_obligations ?db'"
    using obligation_history.step [OF obligation_history.start obligation_step.settle [OF sample_settle sample_amount(1)]] .
  moreover have "length (settlements ?db') = 2" by (simp add: book_payment_def) (simp add: sample_obligations_def)
  ultimately show ?thesis using obligation_histories_are_sound [OF sample_obligations_wf] by blast
qed

text \<open>
  C30: the outcome of settling, for every accepted amount and every obligation the owner has: refused
  as cancelled, paid, in another currency or exceeding the outstanding principal, in this order;
  otherwise exactly one settlement is added, the status becomes paid if and only if the payment
  covers the rest, and the returned obligation shows the new settled and outstanding amounts.
\<close>

theorem settle_outcome:
  assumes "obligations_wf db" "owner_today tz clock u db = Inr as_of" "lock_obligation k u i db = Some r"
    and "parse_settlement amount currency (Aware t) tx text_note = Inr c" "exact_literal (sc_amount c)"
    and "validate_reference u tx db = Inr ()" "n \<notin> set_id ` set (settlements db)"
  defines "m \<equiv> numeric_19_4 (sc_amount c)" and "due \<equiv> obl_amount r - settled_total k i db"
  shows "case settle_obligation k tz clock u i c n db of
      Inl e \<Rightarrow> (obl_status r = CANCELLED \<and> e = LedgerConflictError ''OBLIGATION_CANCELLED'' None) \<or>
        (obl_status r = PAID \<and> e = LedgerConflictError ''OBLIGATION_PAID'' None) \<or>
        (\<not> final_status (obl_status r) \<and> sc_currency c \<noteq> obl_currency r \<and>
          e = ledger_invalid ''SETTLEMENT_CURRENCY_MISMATCH'' ''currency'') \<or>
        (\<not> final_status (obl_status r) \<and> sc_currency c = obl_currency r \<and> due < m \<and>
          e = LedgerConflictError ''SETTLEMENT_EXCEEDS_OUTSTANDING'' (Some ''amount''))
    | Inr (db', s, v) \<Rightarrow> \<not> final_status (obl_status r) \<and> sc_currency c = obl_currency r \<and> m \<le> due \<and>
        db' = book_payment k u i c n (if m = due then PAID else PARTIALLY_PAID) db \<and>
        sv_amount s = m \<and> sv_obligation s = i \<and> ov_id v = i \<and>
        ov_settled v = settled_total k i db + m \<and> ov_outstanding v = due - m \<and>
        ov_settlement_status v = (if m = due then PAID else PARTIALLY_PAID)"
proof -
  note p = parse_settlement_Inr [OF assms(4)]
  have amount: "amount_ok (sc_amount c)" using p assms(5) by (simp add: amount_ok_def)
  have t: "settled_amount k u i db = settled_total k i db" by (rule settled_amount_total [OF assms(1,3)])
  note r = locked_row [OF assms(3)]
  have exceeds: "exceeds_stored (sc_amount c) (obl_amount r - settled_total k i db) \<longleftrightarrow> due < m"
    using exceeds_iff [OF amount] by (simp add: due_def m_def del: numeric_19_4.simps)
  show ?thesis
  proof (cases "validate_settlement r c (settled_total k i db)")
    case (Inl e)
    then have "settle_obligation k tz clock u i c n db = Inl e"
      using assms(2,3,6) p by (simp add: settle_obligation_def t Let_def)
    with Inl p exceeds show ?thesis
      by (auto simp: validate_settlement_def final_status_def simp del: validate_positive_money.simps split: if_splits)
  next
    case (Inr x)
    obtain name where name: "person_name_of db r = Some name" using obligation_has_person [OF assms(1)] r by blast
    have iff: "settled_total k i db + m = obl_amount r \<longleftrightarrow> m = due" by (auto simp: due_def)
    note run = settle_value [OF assms(1,2,3) amount _ _ assms(7) _ name, folded m_def, unfolded iff]
    have "\<not> final_status (obl_status r) \<and> sc_currency c = obl_currency r \<and> m \<le> due"
      using Inr exceeds by (auto simp: validate_settlement_Inr final_status_def)
    with Inr run r p assms(6) show ?thesis by (auto simp: obligation_view_def due_def Let_def)
  qed
qed

theorem settle_outcome_witness:
  "\<exists>db' s v. settle_obligation RECEIVABLE sample_zone sample_clock 1 70 sample_settlement 81 sample_obligations = Inr (db', s, v) \<and>
    ov_outstanding v = 0 \<and> ov_settlement_status v = PAID"
proof -
  have x: "exact_literal (sc_amount sample_settlement)" by (simp add: exact_literal_def sample_settlement_def ndigits.simps)
  have y: "validate_reference 1 None sample_obligations = Inr ()" "81 \<notin> set_id ` set (settlements sample_obligations)"
    by (simp_all add: validate_reference_def sample_obligations_def)
  have "settled_total RECEIVABLE 70 sample_obligations = 400000" "obl_amount (hd (receivables sample_obligations)) = 1000000"
    by (simp_all add: settled_total_def sample_obligations_def)
  then show ?thesis
    using settle_outcome [OF sample_obligations_wf sample_today sample_lock sample_settlement_parsed x y]
    unfolding sample_settle by (simp add: sample_amount(2) del: numeric_19_4.simps)
qed

text \<open>
  C31: any run of settle and cancel commands that all succeed keeps the books: the settled total grows
  by exactly the amounts paid on the obligation, it never exceeds the principal, and afterwards the
  obligation is cancelled if and only if it was or a cancel ran, and otherwise paid exactly when the
  payments add up to the principal.
\<close>

theorem settlements_add_up:
  assumes "obligations_wf db" "run_commands k tz u cmds db = Inr db'"
    "\<forall>x \<in> set cmds. command_amount_ok (snd x)" "lock_obligation k w i db = Some r"
  shows "\<exists>r'. r' \<in> set (obligations_of k db') \<and> obl_id r' = i \<and> obl_amount r' = obl_amount r \<and>
    settled_total k i db' = settled_total k i db + payments_of i cmds \<and> settled_total k i db' \<le> obl_amount r \<and>
    (obl_status r' = CANCELLED \<longleftrightarrow> obl_status r = CANCELLED \<or> Cancel_Command i \<in> snd ` set cmds) \<and>
    (obl_status r' = PAID \<longleftrightarrow> settled_total k i db' = obl_amount r)"
proof -
  note r = locked_row [OF assms(4)]
  note acc = account_of_lock [OF obligations_wf_book [OF assms(1)] assms(4)]
  have row: "acc_owed (account_of_row k db r) = obl_amount r" "acc_settled (account_of_row k db r) = settled_total k i db"
    "acc_cancelled (account_of_row k db r) \<longleftrightarrow> obl_status r = CANCELLED"
    using r by (simp_all add: account_of_row_def)
  from run_commands_account [OF assms(2,1,3) acc, unfolded row] obtain a' where
    wf: "obligations_wf db'" and a': "account_of k db' i = Some a'" "acc_owed a' = obl_amount r"
    "acc_settled a' = settled_total k i db + payments_of i cmds" "acc_settled a' \<le> obl_amount r"
    "acc_cancelled a' \<longleftrightarrow> obl_status r = CANCELLED \<or> Cancel_Command i \<in> snd ` set cmds"
    by blast
  from a'(1) obtain r' where r': "select_one (\<lambda>r. obl_id r = i) (obligations_of k db') = Some r'" "a' = account_of_row k db' r'"
    by (auto simp: account_of_def)
  note mem = select_one_SomeD [OF r'(1)]
  have "obligation_ok k db' r'" using obligations_wf_book [OF wf, of k] mem by (auto simp: book_ok_def)
  then have "obl_status r' = PAID \<longleftrightarrow> settled_total k i db' = obl_amount r'"
    using mem by (auto simp: obligation_ok_def obligation_checks_def status_agrees_def split: obligation_status.splits)
  with mem a' r'(2) show ?thesis by (auto simp: account_of_row_def)
qed

theorem settlements_add_up_witness:
  "\<exists>db'. run_commands RECEIVABLE sample_zone 1 [(sample_clock, Settle_Command 70 sample_settlement 81)] sample_obligations = Inr db' \<and>
    settled_total RECEIVABLE 70 db' = 1000000"
proof -
  let ?db' = "book_payment RECEIVABLE 1 70 sample_settlement 81 PAID sample_obligations"
  have "run_commands RECEIVABLE sample_zone 1 [(sample_clock, Settle_Command 70 sample_settlement 81)] sample_obligations = Inr ?db'"
    by (simp add: sample_settle [unfolded One_nat_def])
  moreover have "settled_total RECEIVABLE 70 sample_obligations = 400000"
    "payments_of 70 [(sample_clock, Settle_Command 70 sample_settlement 81)] = 600000"
    by (simp_all add: settled_total_def sample_obligations_def payments_of_def sample_amount(2) del: numeric_19_4.simps)
  ultimately show ?thesis
    using settlements_add_up [OF sample_obligations_wf _ _ sample_lock] sample_amount(1) by fastforce
qed

text \<open>
  The exposure report and the two lists agree: it has one line per currency of the owner's
  obligations, in order, whose receivable and payable totals are the sums of the outstanding amounts
  the lists show in that currency (nothing for cancelled ones), and whose net is their difference.
\<close>

theorem exposure_matches_lists:
  assumes "obligations_wf db" "list_obligations RECEIVABLE tz clock u db = Inr rs"
    "list_obligations PAYABLE tz clock u db = Inr ps"
  shows "\<exists>ts. outstanding_totals u db = Inr ts \<and> sorted (map oc_currency ts) \<and> distinct (map oc_currency ts) \<and>
    set (map oc_currency ts) = set (map ov_currency (rs @ ps)) \<and>
    (\<forall>t \<in> set ts. oc_receivable t = sum_rows ov_outstanding (filter (\<lambda>v. ov_currency v = oc_currency t) rs) \<and>
      oc_payable t = sum_rows ov_outstanding (filter (\<lambda>v. ov_currency v = oc_currency t) ps) \<and>
      oc_net_exposure t = oc_receivable t - oc_payable t)"
proof -
  from assms(2,3) obtain as_of where today: "owner_today tz clock u db = Inr as_of"
    and rs: "rs = repo_list_obligations RECEIVABLE u as_of db" and ps: "ps = repo_list_obligations PAYABLE u as_of db"
    by (auto simp: list_obligations_Inr)
  from today obtain z where "require_owner u db = Inr z" by (auto simp: owner_today_def result_simps)
  then have run: "outstanding_totals u db = Inr (repo_outstanding_totals u db)" by (simp add: outstanding_totals_def)
  note listed = listed_exposure [OF assms(1), where u = u and as_of = as_of]
  let ?keys = "sort (remdups (map fst (kind_totals RECEIVABLE u db) @ map fst (kind_totals PAYABLE u db)))"
  have keys: "map oc_currency (repo_outstanding_totals u db) = ?keys"
    by (simp add: repo_outstanding_totals_def Let_def o_def)
  have "set ?keys = set (map ov_currency (rs @ ps))"
    using kind_total_keys [of RECEIVABLE u db] kind_total_keys [of PAYABLE u db] listed(2) by (simp add: rs ps)
  moreover have "sorted ?keys" "distinct ?keys" by simp_all
  moreover have "oc_receivable t = sum_rows ov_outstanding (filter (\<lambda>v. ov_currency v = oc_currency t) rs) \<and>
      oc_payable t = sum_rows ov_outstanding (filter (\<lambda>v. ov_currency v = oc_currency t) ps) \<and>
      oc_net_exposure t = oc_receivable t - oc_payable t" if "t \<in> set (repo_outstanding_totals u db)" for t
  proof -
    from that obtain c where "t = \<lparr>oc_currency = c, oc_receivable = get_total (kind_totals RECEIVABLE u db) c,
        oc_payable = get_total (kind_totals PAYABLE u db) c,
        oc_net_exposure = get_total (kind_totals RECEIVABLE u db) c - get_total (kind_totals PAYABLE u db) c\<rparr>"
      by (auto simp: repo_outstanding_totals_def Let_def)
    then show ?thesis by (simp only: outstanding_by_currency.simps get_total_kind listed(1) rs ps simp_thms)
  qed
  ultimately show ?thesis using run keys by (intro exI [of _ "repo_outstanding_totals u db"]) simp
qed

theorem exposure_matches_lists_witness:
  "\<exists>ts. outstanding_totals 1 sample_obligations = Inr ts \<and> set (map oc_currency ts) = {''INR''} \<and>
    (\<forall>t \<in> set ts. oc_receivable t = 600000 \<and> oc_net_exposure t = 600000)"
proof -
  obtain rs ps where lists: "list_obligations RECEIVABLE sample_zone sample_clock 1 sample_obligations = Inr rs"
    "list_obligations PAYABLE sample_zone sample_clock 1 sample_obligations = Inr ps"
    by (simp add: list_obligations_def sample_today [unfolded One_nat_def])
  have "rs = repo_list_obligations RECEIVABLE 1 (Date 2026 5 11) sample_obligations"
    "ps = repo_list_obligations PAYABLE 1 (Date 2026 5 11) sample_obligations"
    using lists by (simp_all add: list_obligations_Inr sample_today [unfolded One_nat_def])
  then have ps: "ps = []" and rs_row: "rs = List.map_filter (project_obligation RECEIVABLE (Date 2026 5 11) sample_obligations)
      (receivables sample_obligations)"
    by (simp_all add: repo_list_obligations_def) (simp_all add: sample_obligations_def List.map_filter_simps)
  have rs: "map ov_currency rs = [''INR'']" "map ov_outstanding rs = [600000]"
    by (simp_all add: rs_row) (simp_all add: sample_obligations_def List.map_filter_simps project_obligation_def person_name_of_def
        obligation_view_def settled_total_def Let_def)
  then obtain v where v: "rs = [v]" "ov_currency v = ''INR''" "ov_outstanding v = 600000" by (cases rs) auto
  from exposure_matches_lists [OF sample_obligations_wf lists] obtain ts where
    ts: "outstanding_totals 1 sample_obligations = Inr ts" "set (map oc_currency ts) = {''INR''}" and
    each: "\<forall>t \<in> set ts. oc_receivable t = sum_rows ov_outstanding (filter (\<lambda>v. ov_currency v = oc_currency t) rs) \<and>
      oc_payable t = sum_rows ov_outstanding (filter (\<lambda>v. ov_currency v = oc_currency t) ps) \<and>
      oc_net_exposure t = oc_receivable t - oc_payable t"
    by (auto simp: v ps)
  have "oc_currency t = ''INR''" if "t \<in> set ts" for t using ts(2) that by auto
  with each ts show ?thesis by (intro exI [of _ ts]) (simp add: v ps)
qed

text \<open>
  C32: obligations of other owners cannot be reached: settling or cancelling a foreign id fails as not
  found, and whatever another user creates, settles or cancels leaves the owner's lists, totals and
  settlement history as they were.
\<close>

theorem obligations_are_isolated:
  assumes "obligations_wf db" "w \<noteq> u"
  shows "(lock_obligation k u i db \<noteq> None \<and> owner_today tz clock w db = Inr as_of \<longrightarrow>
      settle_obligation k tz clock w i c n db = Inl (obligation_not_found k) \<and>
      cancel_obligation k tz clock w i db = Inl (obligation_not_found k)) \<and>
    (\<forall>db' v. create_obligation k tz clock w oc n db = Inr (db', v) \<longrightarrow> same_obligations u db db') \<and>
    (\<forall>db' v. settle_obligation k tz clock w i c n db = Inr (db', v) \<longrightarrow> same_obligations u db db') \<and>
    (\<forall>db' v. cancel_obligation k tz clock w i db = Inr (db', v) \<longrightarrow> same_obligations u db db')"
proof (intro conjI impI allI)
  assume a: "lock_obligation k u i db \<noteq> None \<and> owner_today tz clock w db = Inr as_of"
  then have "lock_obligation k w i db = None"
    using foreign_lock [OF _ obligations_wf_book [OF assms(1)] assms(2)] by blast
  with a show "settle_obligation k tz clock w i c n db = Inl (obligation_not_found k)"
    "cancel_obligation k tz clock w i db = Inl (obligation_not_found k)"
    by (simp_all add: settle_obligation_def cancel_obligation_def)
qed (use assms in \<open>auto intro: foreign_create foreign_settle foreign_cancel\<close>)

theorem obligations_are_isolated_witness:
  "settle_obligation RECEIVABLE sample_zone sample_clock 2 70 sample_settlement 81 sample_obligations =
    Inl (LedgerNotFoundError ''RECEIVABLE_NOT_FOUND'' None)"
proof -
  have "owner_today sample_zone sample_clock 2 sample_obligations = Inr (Date 2026 5 11)"
    by (simp add: owner_today_def require_owner_def owner_timezone_def service_now_def parse_timezone_def sample_zone_def
        sample_obligations_def sample_users_def) code_simp
  then show ?thesis
    using obligations_are_isolated [OF sample_obligations_wf, of 2 1 RECEIVABLE 70 sample_zone sample_clock] sample_lock by auto
qed

end
