(* ===== verification/Lifecycle.thy ===== *)
theory Lifecycle
  imports Prelude
begin

text \<open>
  Several components keep a status per stored row and move it only along a table of allowed edges
  (recurring payments, background jobs, raw events, reviews). The locale states that contract once:
  one committed step leaves the status of an existing row alone or moves it along edges; whatever
  number of steps runs, statuses then follow paths of the table, and final statuses stay.
\<close>

inductive path :: "('s \<Rightarrow> 's set) \<Rightarrow> 's \<Rightarrow> 's \<Rightarrow> bool" for edges where
  stay: "path edges s s"
| move: "path edges s t \<Longrightarrow> t' \<in> edges t \<Longrightarrow> path edges s t'"

lemma path_edge: "t \<in> edges s \<Longrightarrow> path edges s t"
  by (rule path.move [OF path.stay])

lemma path_trans: "path edges s t \<Longrightarrow> path edges t u \<Longrightarrow> path edges s u"
  by (rotate_tac, induction rule: path.induct) (auto intro: path.move)

lemma path_closed: "path edges s t \<Longrightarrow> s \<in> S \<Longrightarrow> (\<And>x. x \<in> S \<Longrightarrow> edges x \<subseteq> S) \<Longrightarrow> t \<in> S"
  by (induction rule: path.induct) auto

lemma path_final: "path edges s t \<Longrightarrow> edges s = {} \<Longrightarrow> t = s"
  using path_closed [of edges s t "{s}"] by auto

text \<open>The committed states after any number of steps.\<close>

inductive reaches :: "('db \<Rightarrow> 'db \<Rightarrow> bool) \<Rightarrow> 'db \<Rightarrow> 'db \<Rightarrow> bool" for step where
  none: "reaches step db db"
| more: "reaches step db db1 \<Longrightarrow> step db1 db2 \<Longrightarrow> reaches step db db2"

lemma reaches_step: "step db db' \<Longrightarrow> reaches step db db'"
  by (rule reaches.more [OF reaches.none])

lemma reaches_mono: "reaches step db db' \<Longrightarrow> (\<And>x y. step x y \<Longrightarrow> step' x y) \<Longrightarrow> reaches step' db db'"
  by (induction rule: reaches.induct) (auto intro: reaches.intros)

lemma reaches_invariant:
  assumes "reaches step db db'" "P db" "\<And>x y. step x y \<Longrightarrow> P x \<Longrightarrow> P y"
  shows "P db'"
  using assms by (induction rule: reaches.induct) auto

locale lifecycle =
  fixes wf :: "'db \<Rightarrow> bool"
    and step :: "'db \<Rightarrow> 'db \<Rightarrow> bool"
    and status :: "'db \<Rightarrow> 'i \<Rightarrow> 's option"
    and edges :: "'s \<Rightarrow> 's set"
  assumes step_wf: "wf db \<Longrightarrow> step db db' \<Longrightarrow> wf db'"
    and step_path: "wf db \<Longrightarrow> step db db' \<Longrightarrow> status db i = Some s \<Longrightarrow> \<exists>s'. status db' i = Some s' \<and> path edges s s'"
begin

lemma reaches_wf: "reaches step db db' \<Longrightarrow> wf db \<Longrightarrow> wf db'"
  by (erule reaches_invariant) (auto intro: step_wf)

lemma reaches_path:
  assumes "reaches step db db'" "wf db" "status db i = Some s"
  shows "\<exists>s'. status db' i = Some s' \<and> path edges s s'"
  using assms
proof (induction rule: reaches.induct)
  case (more db db1 db2)
  then obtain t where "status db1 i = Some t" "path edges s t" by blast
  with more step_path [OF reaches_wf [OF more(1)] more(2)] show ?case by (meson path_trans)
qed (auto intro: path.stay)

lemma final_stays:
  assumes "reaches step db db'" "wf db" "status db i = Some s" "edges s = {}"
  shows "status db' i = Some s"
  using reaches_path [OF assms(1-3)] path_final assms(4) by fastforce

end

end
