(* ===== verification/Recurring.thy ===== *)
theory Recurring
  imports Obligations Lifecycle
begin

text \<open>
  Recurring payments: \<open>ledger/recurring_commands.py\<close>, \<open>models/recurring.py\<close>,
  \<open>ledger/recurring_repository.py\<close> and \<open>ledger/recurring_service.py\<close>
  (\<open>advance_expected_date\<close> itself is in theory \<open>Calendar\<close>).
\<close>

section \<open>Commands\<close>

record create_recurring_command =
  cr_amount :: decimal
  cr_currency :: string
  cr_merchant_name :: string
  cr_normalized :: string
  cr_rule :: recurrence_rule
  cr_next :: date

record transition_command =
  tc_payment :: uuid
  tc_target :: recurring_payment_status

record record_command =
  rc_payment :: uuid
  rc_expected :: date
  rc_date :: instant

record recurring_window =
  rw_start :: date
  rw_end :: date

definition MUTABLE_STATUSES :: "recurring_payment_status list" where
  "MUTABLE_STATUSES = [RECURRING_ACTIVE, RECURRING_PAUSED, RECURRING_ENDED]"

definition recurring_amount :: "string \<Rightarrow> decimal result" where
  "recurring_amount raw =
     (if raw = [] \<or> raw \<noteq> strip raw \<or> hd raw = CHR ''+'' \<or> hd raw = CHR ''-''
      then Inl (ledger_invalid ''INVALID_AMOUNT'' ''amount'')
      else case parse_decimal raw of
          None \<Rightarrow> Inl (ledger_invalid ''INVALID_AMOUNT'' ''amount'')
        | Some d \<Rightarrow> (case validate_positive_money d of
              Inl _ \<Rightarrow> Inl (ledger_invalid ''INVALID_AMOUNT'' ''amount'')
            | Inr v \<Rightarrow> Inr v))"

definition parse_create_recurring_payment ::
  "string \<Rightarrow> string \<Rightarrow> string \<Rightarrow> recurrence_rule \<Rightarrow> date \<Rightarrow> create_recurring_command result" where
  "parse_create_recurring_payment amount currency merchant_name rule next_expected =
     (let display_name = normalize_display_text merchant_name;
          normalized_name = normalize_lookup_text display_name in
      bindE (ensure (display_name \<noteq> [] \<and> normalized_name \<noteq> [])
               (ledger_invalid ''INVALID_MERCHANT'' ''merchantName'')) (\<lambda>_.
      bindE (ensure (length display_name \<le> 160 \<and> length normalized_name \<le> 160)
               (ledger_invalid ''INVALID_MERCHANT'' ''merchantName'')) (\<lambda>_.
      bindE (recurring_amount amount) (\<lambda>parsed_amount.
      bindE (parse_currency currency) (\<lambda>parsed_currency.
        Inr \<lparr>cr_amount = parsed_amount, cr_currency = parsed_currency, cr_merchant_name = display_name,
             cr_normalized = normalized_name, cr_rule = rule, cr_next = next_expected\<rparr>)))))"

definition parse_status_transition :: "uuid \<Rightarrow> recurring_payment_status \<Rightarrow> transition_command result" where
  "parse_status_transition payment_id target =
     (if target \<notin> set MUTABLE_STATUSES then Inl (ledger_invalid ''INVALID_RECURRING_STATUS'' ''status'')
      else Inr \<lparr>tc_payment = payment_id, tc_target = target\<rparr>)"

fun parse_record_payment :: "uuid \<Rightarrow> date \<Rightarrow> py_datetime \<Rightarrow> record_command result" where
  "parse_record_payment payment_id expected (Naive _) =
     Inl (ledger_invalid ''INVALID_TRANSACTION_DATE'' ''transactionDate'')"
| "parse_record_payment payment_id expected (Aware t) =
     Inr \<lparr>rc_payment = payment_id, rc_expected = expected, rc_date = t\<rparr>"

definition parse_upcoming_window :: "date \<Rightarrow> date \<Rightarrow> recurring_window result" where
  "parse_upcoming_window start_date end_date =
     (if end_date < start_date then Inl (ledger_invalid ''INVALID_DATE_WINDOW'' ''endDate'')
      else Inr \<lparr>rw_start = start_date, rw_end = end_date\<rparr>)"

section \<open>Table and views\<close>

record recurring_row =
  rp_id :: uuid
  rp_user :: uuid
  rp_merchant :: uuid
  rp_amount :: money
  rp_currency :: string
  rp_rule :: recurrence_rule
  rp_next :: date
  rp_status :: recurring_payment_status
  rp_created_at :: instant
  rp_updated_at :: instant

record recurring_db = obligation_db +
  recurring_payments :: "recurring_row list"

record recurring_view =
  rv_id :: uuid
  rv_merchant :: uuid
  rv_merchant_name :: string
  rv_amount :: money
  rv_currency :: string
  rv_rule :: recurrence_rule
  rv_next :: date
  rv_status :: recurring_payment_status
  rv_created_at :: instant
  rv_updated_at :: instant

record upcoming_total =
  ut_currency :: string
  ut_amount :: money
  ut_count :: nat
  ut_start :: date
  ut_end :: date

record recorded_view =
  rd_expected :: date
  rd_transaction :: uuid
  rd_date :: instant
  rd_payment :: recurring_view

definition recurring_checks :: "recurring_row \<Rightarrow> bool" where
  "recurring_checks r \<longleftrightarrow> 0 < rp_amount r \<and> rp_amount r < 10 ^ 19 \<and> currency_pattern (rp_currency r)"

section \<open>The repository\<close>

definition user_exists :: "uuid \<Rightarrow> 'a ledger_db_scheme \<Rightarrow> bool" where
  "user_exists user_id db \<longleftrightarrow> select_one (\<lambda>u. usr_id u = user_id) (users db) \<noteq> None"

definition recurring_merchant ::
  "create_recurring_command \<Rightarrow> uuid \<Rightarrow> 'a ledger_db_scheme \<Rightarrow> ('a ledger_db_scheme \<times> uuid) result" where
  "recurring_merchant command new_id db = upsert_merchant (cr_merchant_name command) (cr_normalized command) new_id db"

definition view_from_row :: "recurring_row \<Rightarrow> string \<Rightarrow> recurring_view" where
  "view_from_row r merchant_name =
     \<lparr>rv_id = rp_id r, rv_merchant = rp_merchant r, rv_merchant_name = merchant_name, rv_amount = rp_amount r,
      rv_currency = rp_currency r, rv_rule = rp_rule r, rv_next = rp_next r, rv_status = rp_status r,
      rv_created_at = rp_created_at r, rv_updated_at = rp_updated_at r\<rparr>"

text \<open>The inner join with \<open>merchants\<close>: a row without its merchant is not returned.\<close>

definition join_merchant :: "'a recurring_db_scheme \<Rightarrow> recurring_row \<Rightarrow> recurring_view option" where
  "join_merchant db r = map_option (view_from_row r) (merchant_display db (Some (rp_merchant r)))"

definition project_payment :: "uuid \<Rightarrow> uuid \<Rightarrow> 'a recurring_db_scheme \<Rightarrow> recurring_view option" where
  "project_payment user_id payment_id db =
     Option.bind (select_one (\<lambda>r. rp_user r = user_id \<and> rp_id r = payment_id) (recurring_payments db))
       (join_merchant db)"

definition lock_payment :: "uuid \<Rightarrow> uuid \<Rightarrow> 'a recurring_db_scheme \<Rightarrow> recurring_view option" where
  "lock_payment = project_payment"

definition require_projection :: "uuid \<Rightarrow> uuid \<Rightarrow> 'a recurring_db_scheme \<Rightarrow> recurring_view result" where
  "require_projection user_id payment_id db =
     require (RuntimeError ''recurring_payment_not_visible'') (project_payment user_id payment_id db)"

definition recurring_of :: "uuid \<Rightarrow> uuid \<Rightarrow> create_recurring_command \<Rightarrow> instant \<Rightarrow> uuid \<Rightarrow> recurring_row" where
  "recurring_of user_id merchant_id command now new_id =
     \<lparr>rp_id = new_id, rp_user = user_id, rp_merchant = merchant_id, rp_amount = numeric_19_4 (cr_amount command),
      rp_currency = cr_currency command, rp_rule = cr_rule command, rp_next = cr_next command,
      rp_status = RECURRING_ACTIVE, rp_created_at = now, rp_updated_at = now\<rparr>"

definition repo_create_recurring ::
  "uuid \<Rightarrow> uuid \<Rightarrow> create_recurring_command \<Rightarrow> instant \<Rightarrow> uuid \<Rightarrow> 'a recurring_db_scheme \<Rightarrow>
   ('a recurring_db_scheme \<times> recurring_view) result" where
  "repo_create_recurring user_id merchant_id command now new_id db =
     (let r = recurring_of user_id merchant_id command now new_id in
      bindE (ensure (recurring_checks r \<and> fk_user db user_id \<and> fk_merchant db (Some merchant_id))
               (IntegrityError ''recurring_payments'')) (\<lambda>_.
      bindE (insert_row rp_id r (recurring_payments db)) (\<lambda>rows.
      let db' = db\<lparr>recurring_payments := rows\<rparr> in
      bindE (require_projection user_id new_id db') (\<lambda>v. Inr (db', v)))))"

definition repo_list_recurring :: "uuid \<Rightarrow> 'a recurring_db_scheme \<Rightarrow> recurring_view list" where
  "repo_list_recurring user_id db =
     List.map_filter (join_merchant db)
       (sort_key (\<lambda>r. (rp_next r, rp_id r)) (filter (\<lambda>r. rp_user r = user_id) (recurring_payments db)))"

definition upcoming_rows :: "uuid \<Rightarrow> date \<Rightarrow> date \<Rightarrow> 'a recurring_db_scheme \<Rightarrow> recurring_row list" where
  "upcoming_rows user_id start_date end_date db =
     filter (\<lambda>r. rp_user r = user_id \<and> rp_status r = RECURRING_ACTIVE \<and> start_date \<le> rp_next r \<and> rp_next r \<le> end_date)
       (recurring_payments db)"

definition repo_upcoming_totals ::
  "uuid \<Rightarrow> date \<Rightarrow> date \<Rightarrow> 'a recurring_db_scheme \<Rightarrow> (string \<times> money \<times> nat) list" where
  "repo_upcoming_totals user_id start_date end_date db =
     (let rows = upcoming_rows user_id start_date end_date db
      in map (\<lambda>(c, total). (c, total, length (filter (\<lambda>r. rp_currency r = c) rows)))
           (sort_key fst (group_sums rp_currency rp_amount rows)))"

definition repo_update_status ::
  "uuid \<Rightarrow> uuid \<Rightarrow> recurring_payment_status \<Rightarrow> instant \<Rightarrow> 'a recurring_db_scheme \<Rightarrow>
   ('a recurring_db_scheme \<times> recurring_view) result" where
  "repo_update_status user_id payment_id status now db =
     (let db' = db\<lparr>recurring_payments := modify_rows (\<lambda>r. rp_id r = payment_id \<and> rp_user r = user_id)
            (\<lambda>r. r\<lparr>rp_status := status, rp_updated_at := now\<rparr>) (recurring_payments db)\<rparr>
      in bindE (require_projection user_id payment_id db') (\<lambda>v. Inr (db', v)))"

definition expense_of :: "uuid \<Rightarrow> recurring_view \<Rightarrow> instant \<Rightarrow> uuid \<Rightarrow> transaction_row" where
  "expense_of user_id payment transaction_date new_id =
     \<lparr>tx_id = new_id, tx_user = user_id, tx_amount = rv_amount payment, tx_currency = rv_currency payment,
      tx_type = EXPENSE, tx_merchant = Some (rv_merchant payment), tx_category = None,
      tx_description = ''Recurring payment: '' @ rv_merchant_name payment, tx_date = transaction_date,
      tx_source = MANUAL, tx_confidence = None, tx_status = POSTED, tx_category_source = None,
      tx_category_version = None, tx_category_confidence = None, tx_category_overridden = False\<rparr>"

definition record_expense ::
  "uuid \<Rightarrow> recurring_view \<Rightarrow> instant \<Rightarrow> uuid \<Rightarrow> 'a ledger_db_scheme \<Rightarrow> 'a ledger_db_scheme result" where
  "record_expense user_id payment transaction_date new_id db =
     insert_transaction (expense_of user_id payment transaction_date new_id) db"

definition repo_advance ::
  "uuid \<Rightarrow> uuid \<Rightarrow> date \<Rightarrow> instant \<Rightarrow> 'a recurring_db_scheme \<Rightarrow> ('a recurring_db_scheme \<times> recurring_view) result" where
  "repo_advance user_id payment_id next_expected now db =
     (let db' = db\<lparr>recurring_payments := modify_rows (\<lambda>r. rp_id r = payment_id \<and> rp_user r = user_id)
            (\<lambda>r. r\<lparr>rp_next := next_expected, rp_updated_at := now\<rparr>) (recurring_payments db)\<rparr>
      in bindE (require_projection user_id payment_id db') (\<lambda>v. Inr (db', v)))"

definition totals_for_window :: "(string \<times> money \<times> nat) list \<Rightarrow> date \<Rightarrow> date \<Rightarrow> upcoming_total list" where
  "totals_for_window rows start_date end_date =
     map (\<lambda>(c, amount, n). \<lparr>ut_currency = c, ut_amount = amount, ut_count = n, ut_start = start_date, ut_end = end_date\<rparr>) rows"

section \<open>Use cases\<close>

fun STATUS_TRANSITIONS :: "recurring_payment_status \<Rightarrow> recurring_payment_status list" where
  "STATUS_TRANSITIONS RECURRING_ACTIVE = [RECURRING_PAUSED, RECURRING_ENDED]"
| "STATUS_TRANSITIONS RECURRING_PAUSED = [RECURRING_ACTIVE, RECURRING_ENDED]"
| "STATUS_TRANSITIONS RECURRING_ENDED = []"
| "STATUS_TRANSITIONS RECURRING_NEEDS_REVIEW = []"

definition require_recurring_user :: "uuid \<Rightarrow> 'a ledger_db_scheme \<Rightarrow> unit result" where
  "require_recurring_user user_id db = ensure (user_exists user_id db) profile_not_found"

definition require_payment :: "recurring_view option \<Rightarrow> recurring_view result" where
  "require_payment = require (LedgerNotFoundError ''RECURRING_PAYMENT_NOT_FOUND'' None)"

text \<open>The fresh ids are those of the merchant, if it is new, and of the payment.\<close>

definition create_recurring ::
  "uuid \<Rightarrow> create_recurring_command \<Rightarrow> instant \<Rightarrow> uuid \<times> uuid \<Rightarrow> 'a recurring_db_scheme \<Rightarrow>
   ('a recurring_db_scheme \<times> recurring_view) result" where
  "create_recurring user_id command now ids db =
     bindE (require_recurring_user user_id db) (\<lambda>_.
     bindE (recurring_merchant command (fst ids) db) (\<lambda>(db1, merchant_id).
       repo_create_recurring user_id merchant_id command now (snd ids) db1))"

definition list_recurring :: "uuid \<Rightarrow> 'a recurring_db_scheme \<Rightarrow> (recurring_view list) result" where
  "list_recurring user_id db = bindE (require_recurring_user user_id db) (\<lambda>_. Inr (repo_list_recurring user_id db))"

definition get_recurring :: "uuid \<Rightarrow> uuid \<Rightarrow> 'a recurring_db_scheme \<Rightarrow> recurring_view result" where
  "get_recurring user_id payment_id db = require_payment (project_payment user_id payment_id db)"

definition upcoming_totals :: "uuid \<Rightarrow> recurring_window \<Rightarrow> 'a recurring_db_scheme \<Rightarrow> (upcoming_total list) result" where
  "upcoming_totals user_id window db =
     bindE (require_recurring_user user_id db) (\<lambda>_.
       Inr (totals_for_window (repo_upcoming_totals user_id (rw_start window) (rw_end window) db)
         (rw_start window) (rw_end window)))"

definition transition_status ::
  "uuid \<Rightarrow> transition_command \<Rightarrow> instant \<Rightarrow> 'a recurring_db_scheme \<Rightarrow> ('a recurring_db_scheme \<times> recurring_view) result" where
  "transition_status user_id command now db =
     bindE (require_payment (lock_payment user_id (tc_payment command) db)) (\<lambda>payment.
     bindE (ensure (tc_target command \<in> set (STATUS_TRANSITIONS (rv_status payment)))
              (LedgerConflictError ''INVALID_RECURRING_STATUS_TRANSITION'' (Some ''status''))) (\<lambda>_.
       repo_update_status user_id (rv_id payment) (tc_target command) now db))"

definition record_due_payment ::
  "uuid \<Rightarrow> record_command \<Rightarrow> instant \<Rightarrow> uuid \<Rightarrow> 'a recurring_db_scheme \<Rightarrow> ('a recurring_db_scheme \<times> recorded_view) result" where
  "record_due_payment user_id command now new_id db =
     bindE (require_payment (lock_payment user_id (rc_payment command) db)) (\<lambda>payment.
     bindE (ensure (rv_status payment = RECURRING_ACTIVE)
              (LedgerConflictError ''RECURRING_PAYMENT_NOT_ACTIVE'' None)) (\<lambda>_.
     bindE (ensure (rv_next payment = rc_expected command)
              (LedgerConflictError ''RECURRING_OCCURRENCE_CONFLICT'' (Some ''expectedDate''))) (\<lambda>_.
     bindE (record_expense user_id payment (rc_date command) new_id db) (\<lambda>db1.
     bindE (advance_expected_date (rv_next payment) (rv_rule payment)) (\<lambda>next_expected.
     bindE (repo_advance user_id (rv_id payment) next_expected now db1) (\<lambda>(db2, advanced).
       Inr (db2, \<lparr>rd_expected = rc_expected command, rd_transaction = new_id, rd_date = rc_date command,
                 rd_payment = advanced\<rparr>)))))))"

end
