(* ===== verification/Recurring_Laws.thy ===== *)
theory Recurring_Laws
  imports Recurring
begin

text \<open>
  Correctness of the recurring payments: the schedule of every payment only moves forward, its status
  follows the table of transitions, and an expected occurrence is recorded at most once.
\<close>

section \<open>The invariant\<close>

definition recurring_ok :: "'a recurring_db_scheme \<Rightarrow> recurring_row \<Rightarrow> bool" where
  "recurring_ok db r \<longleftrightarrow> recurring_checks r \<and> fk_user db (rp_user r) \<and> fk_merchant db (Some (rp_merchant r)) \<and>
     valid_date (rp_next r)"

definition recurring_wf :: "'a recurring_db_scheme \<Rightarrow> bool" where
  "recurring_wf db \<longleftrightarrow> categorization_wf db \<and> distinct (map rp_id (recurring_payments db)) \<and>
     (\<forall>r \<in> set (recurring_payments db). recurring_ok db r)"

definition payment_status :: "'a recurring_db_scheme \<Rightarrow> uuid \<Rightarrow> recurring_payment_status option" where
  "payment_status db i = map_option rp_status (select_one (\<lambda>r. rp_id r = i) (recurring_payments db))"

definition expected_date :: "'a recurring_db_scheme \<Rightarrow> uuid \<Rightarrow> date option" where
  "expected_date db i = map_option rp_next (select_one (\<lambda>r. rp_id r = i) (recurring_payments db))"

text \<open>One committed command of any user that touches these tables.\<close>

inductive recurring_step :: "'a recurring_db_scheme \<Rightarrow> 'a recurring_db_scheme \<Rightarrow> bool" where
  created: "create_recurring u c now ids db = Inr (db', v) \<Longrightarrow> valid_date (cr_next c) \<Longrightarrow> recurring_step db db'"
| moved: "transition_status u tc now db = Inr (db', v) \<Longrightarrow> recurring_step db db'"
| recorded: "record_due_payment u rc now n db = Inr (db', rv) \<Longrightarrow> recurring_step db db'"
| booked: "create_transaction u tc ids db = Inr (db', tv) \<Longrightarrow> recurring_step db db'"
| recategorized: "correct_transaction u i c now ids db = Inr (db', cv) \<Longrightarrow> recurring_step db db'"

section \<open>Inversion\<close>

lemma project_payment_Some:
  assumes "project_payment u i db = Some v"
  shows "\<exists>r name. r \<in> set (recurring_payments db) \<and> rp_user r = u \<and> rp_id r = i \<and>
    merchant_display db (Some (rp_merchant r)) = Some name \<and> v = view_from_row r name"
  using assms by (auto simp: project_payment_def join_merchant_def bind_eq_Some_conv dest: select_one_SomeD)

lemma view_from_row_simps [simp]:
  "rv_id (view_from_row r n) = rp_id r" "rv_status (view_from_row r n) = rp_status r" "rv_next (view_from_row r n) = rp_next r"
  "rv_rule (view_from_row r n) = rp_rule r" "rv_amount (view_from_row r n) = rp_amount r"
  "rv_currency (view_from_row r n) = rp_currency r" "rv_merchant (view_from_row r n) = rp_merchant r"
  "rv_merchant_name (view_from_row r n) = n"
  by (simp_all add: view_from_row_def)

lemma transition_Inr:
  assumes "transition_status u c now db = Inr (db', v)"
  shows "\<exists>r. r \<in> set (recurring_payments db) \<and> rp_user r = u \<and> rp_id r = tc_payment c \<and>
    tc_target c \<in> set (STATUS_TRANSITIONS (rp_status r)) \<and>
    db' = db\<lparr>recurring_payments := modify_rows (\<lambda>r. rp_id r = tc_payment c \<and> rp_user r = u)
      (\<lambda>r. r\<lparr>rp_status := tc_target c, rp_updated_at := now\<rparr>) (recurring_payments db)\<rparr>"
  using assms
  by (auto simp: transition_status_def lock_payment_def require_payment_def repo_update_status_def Let_def result_simps
      dest!: project_payment_Some)

lemma record_Inr:
  assumes "record_due_payment u c now n db = Inr (db', v)"
  shows "\<exists>r name d. r \<in> set (recurring_payments db) \<and> rp_user r = u \<and> rp_id r = rc_payment c \<and>
    merchant_display db (Some (rp_merchant r)) = Some name \<and> rp_status r = RECURRING_ACTIVE \<and> rp_next r = rc_expected c \<and>
    advance_expected_date (rp_next r) (rp_rule r) = Inr d \<and>
    insert_transaction (expense_of u (view_from_row r name) (rc_date c) n) db =
      Inr (db\<lparr>transactions := transactions db @ [expense_of u (view_from_row r name) (rc_date c) n]\<rparr>) \<and>
    db' = db\<lparr>transactions := transactions db @ [expense_of u (view_from_row r name) (rc_date c) n],
      recurring_payments := modify_rows (\<lambda>r. rp_id r = rc_payment c \<and> rp_user r = u)
        (\<lambda>r. r\<lparr>rp_next := d, rp_updated_at := now\<rparr>) (recurring_payments db)\<rparr>"
proof -
  from assms obtain v' db1 d adv where
    p: "project_payment u (rc_payment c) db = Some v'" and st: "rv_status v' = RECURRING_ACTIVE" "rv_next v' = rc_expected c" and
    i: "insert_transaction (expense_of u v' (rc_date c) n) db = Inr db1" and
    d: "advance_expected_date (rv_next v') (rv_rule v') = Inr d" and
    a: "repo_advance u (rv_id v') d now db1 = Inr (db', adv)"
    by (auto simp: record_due_payment_def lock_payment_def require_payment_def record_expense_def result_simps)
  from project_payment_Some [OF p] obtain r name where
    r: "r \<in> set (recurring_payments db)" "rp_user r = u" "rp_id r = rc_payment c"
      "merchant_display db (Some (rp_merchant r)) = Some name" and v': "v' = view_from_row r name" by blast
  have db1: "db1 = db\<lparr>transactions := transactions db @ [expense_of u v' (rc_date c) n]\<rparr>"
    using i by (simp add: insert_transaction_Inr)
  have "db' = db1\<lparr>recurring_payments := modify_rows (\<lambda>r. rp_id r = rc_payment c \<and> rp_user r = u)
        (\<lambda>r. r\<lparr>rp_next := d, rp_updated_at := now\<rparr>) (recurring_payments db1)\<rparr>"
    using a r by (auto simp: repo_advance_def v' Let_def result_simps)
  with r st d i db1 show ?thesis unfolding v' by (intro exI [of _ r] exI [of _ name] exI [of _ d]) simp
qed

lemma create_recurring_Inr:
  assumes "create_recurring u c now ids db = Inr (db', v)"
  shows "\<exists>db1 m. upsert_merchant (cr_merchant_name c) (cr_normalized c) (fst ids) db = Inr (db1, m) \<and>
    (let r = recurring_of u m c now (snd ids) in
     recurring_checks r \<and> fk_user db1 u \<and> fk_merchant db1 (Some m) \<and> snd ids \<notin> rp_id ` set (recurring_payments db1) \<and>
     db' = db1\<lparr>recurring_payments := recurring_payments db1 @ [r]\<rparr>)"
proof -
  from assms obtain db1 m where
    m: "upsert_merchant (cr_merchant_name c) (cr_normalized c) (fst ids) db = Inr (db1, m)" and
    run: "repo_create_recurring u m c now (snd ids) db1 = Inr (db', v)"
    by (auto simp: create_recurring_def recurring_merchant_def result_simps)
  from run have "let r = recurring_of u m c now (snd ids) in
     recurring_checks r \<and> fk_user db1 u \<and> fk_merchant db1 (Some m) \<and> snd ids \<notin> rp_id ` set (recurring_payments db1) \<and>
     db' = db1\<lparr>recurring_payments := recurring_payments db1 @ [r]\<rparr>"
    by (auto simp: repo_create_recurring_def Let_def result_simps table_simps recurring_of_def)
  with m show ?thesis by blast
qed

section \<open>Every step keeps the invariant\<close>

lemma recurring_ok_cong:
  assumes "recurring_ok db r" "users db' = users db" "set (map mer_id (merchants db)) \<subseteq> set (map mer_id (merchants db'))"
  shows "recurring_ok db' r"
  using assms by (auto simp: recurring_ok_def fk_user_def fk_merchant_def)

lemma recurring_wf_frame:
  assumes "recurring_wf db" "categorization_wf db'" "users db' = users db"
    "set (map mer_id (merchants db)) \<subseteq> set (map mer_id (merchants db'))" "recurring_payments db' = recurring_payments db"
  shows "recurring_wf db'"
  using assms recurring_ok_cong [of db _ db'] by (auto simp: recurring_wf_def)

lemma ledger_frame_recurring [simp]:
  "fk_user (db\<lparr>recurring_payments := rows\<rparr>) u = fk_user db u"
  "fk_merchant (db\<lparr>recurring_payments := rows\<rparr>) m = fk_merchant db m"
  "category_is_visible u c (db\<lparr>recurring_payments := rows\<rparr>) = category_is_visible u c db"
  by (simp_all add: fk_user_def fk_merchant_def category_is_visible_def split: option.split)

lemma categorization_wf_recurring [simp]: "categorization_wf (db\<lparr>recurring_payments := rows\<rparr>) = categorization_wf db"
proof -
  have "transaction_ok (db\<lparr>recurring_payments := rows\<rparr>) = transaction_ok db"
    by (intro ext) (simp add: transaction_ok_def split: option.split)
  then show ?thesis by (simp add: categorization_wf_def ledger_wf_def learned_ok_def)
qed

lemma recurring_ok_frame [simp]: "recurring_ok (db\<lparr>recurring_payments := rows\<rparr>) r = recurring_ok db r"
  by (simp add: recurring_ok_def)

lemma recurring_wf_modify:
  assumes "recurring_wf db" "\<And>r. r \<in> set (recurring_payments db) \<Longrightarrow> P r \<Longrightarrow> rp_id (f r) = rp_id r \<and> recurring_ok db (f r)"
  shows "recurring_wf (db\<lparr>recurring_payments := modify_rows P f (recurring_payments db)\<rparr>)"
proof -
  have "map rp_id (modify_rows P f (recurring_payments db)) = map rp_id (recurring_payments db)"
    using assms(2) by (auto simp: modify_rows_def)
  then show ?thesis
    using assms by (auto simp: recurring_wf_def set_modify_rows)
qed

lemma transition_wf:
  assumes "transition_status u c now db = Inr (db', v)" "recurring_wf db"
  shows "recurring_wf db'"
proof -
  from transition_Inr [OF assms(1)] obtain f where
    f: "f = (\<lambda>r. r\<lparr>rp_status := tc_target c, rp_updated_at := now\<rparr>)" and
    db': "db' = db\<lparr>recurring_payments := modify_rows (\<lambda>r. rp_id r = tc_payment c \<and> rp_user r = u) f (recurring_payments db)\<rparr>"
    by blast
  show ?thesis
    unfolding db' using assms(2)
    by (intro recurring_wf_modify) (auto simp: f recurring_wf_def recurring_ok_def recurring_checks_def)
qed

lemma expense_row_ok:
  assumes "transaction_checks (expense_of u p t n)" "fk_user db u" "fk_merchant db (Some (rv_merchant p))"
  shows "transaction_ok db (expense_of u p t n)"
  using assms by (simp add: transaction_ok_def expense_of_def)

lemma record_wf:
  assumes "record_due_payment u c now n db = Inr (db', v)" "recurring_wf db"
  shows "recurring_wf db'"
proof -
  from record_Inr [OF assms(1)] obtain r name d where
    r: "r \<in> set (recurring_payments db)" "advance_expected_date (rp_next r) (rp_rule r) = Inr d" "rp_id r = rc_payment c" and
    i: "insert_transaction (expense_of u (view_from_row r name) (rc_date c) n) db =
      Inr (db\<lparr>transactions := transactions db @ [expense_of u (view_from_row r name) (rc_date c) n]\<rparr>)" and
    db': "db' = db\<lparr>transactions := transactions db @ [expense_of u (view_from_row r name) (rc_date c) n],
      recurring_payments := modify_rows (\<lambda>r. rp_id r = rc_payment c \<and> rp_user r = u)
        (\<lambda>r. r\<lparr>rp_next := d, rp_updated_at := now\<rparr>) (recurring_payments db)\<rparr>"
    by blast
  let ?db1 = "db\<lparr>transactions := transactions db @ [expense_of u (view_from_row r name) (rc_date c) n]\<rparr>"
  have cat: "categorization_wf db" and ok: "\<forall>x \<in> set (recurring_payments db). recurring_ok db x"
    and ids: "distinct (map rp_id (recurring_payments db))" using assms(2) by (auto simp: recurring_wf_def)
  have "transaction_ok db (expense_of u (view_from_row r name) (rc_date c) n)"
    using i by (intro expense_row_ok) (auto simp: insert_transaction_Inr expense_of_def)
  then have "ledger_wf ?db1" using insert_transaction_wf [OF i] cat by (simp add: categorization_wf_def)
  moreover have "learned_ok ?db1" using cat learned_ok_frame [of ?db1 db] by (simp add: categorization_wf_def)
  ultimately have wf1: "recurring_wf ?db1"
    using assms(2) by (intro recurring_wf_frame [OF assms(2)]) (simp_all add: categorization_wf_def)
  have "valid_date d" using advance_later [OF _ r(2)] ok r(1) by (auto simp: recurring_ok_def)
  then have "recurring_wf (?db1\<lparr>recurring_payments := modify_rows (\<lambda>r. rp_id r = rc_payment c \<and> rp_user r = u)
        (\<lambda>r. r\<lparr>rp_next := d, rp_updated_at := now\<rparr>) (recurring_payments ?db1)\<rparr>)"
    using wf1 by (intro recurring_wf_modify) (auto simp: recurring_wf_def recurring_ok_def recurring_checks_def)
  then show ?thesis by (simp add: db')
qed

lemma create_recurring_wf:
  assumes "create_recurring u c now ids db = Inr (db', v)" "recurring_wf db" "valid_date (cr_next c)"
  shows "recurring_wf db'"
proof -
  from create_recurring_Inr [OF assms(1)] obtain db1 m where
    m: "upsert_merchant (cr_merchant_name c) (cr_normalized c) (fst ids) db = Inr (db1, m)" and
    r: "recurring_checks (recurring_of u m c now (snd ids))" "fk_user db1 u" "fk_merchant db1 (Some m)"
      "snd ids \<notin> rp_id ` set (recurring_payments db1)"
      "db' = db1\<lparr>recurring_payments := recurring_payments db1 @ [recurring_of u m c now (snd ids)]\<rparr>"
    by (auto simp: Let_def)
  have cat: "categorization_wf db" using assms(2) by (simp add: recurring_wf_def)
  have frame: "users db1 = users db \<and> categories db1 = categories db \<and> ledger_db.more db1 = ledger_db.more db \<and>
      recurring_payments db1 = recurring_payments db"
    using upsert_merchant_Inr [OF m] by auto
  have "categorization_wf db1"
    using upsert_merchant_wf [OF m] cat frame learned_ok_frame [of db1 db] by (simp add: categorization_wf_def)
  then have wf1: "recurring_wf db1"
    using assms(2) frame upsert_merchant_wf [OF m] cat
    by (intro recurring_wf_frame [OF assms(2)]) (auto simp: categorization_wf_def)
  have "recurring_ok db1 (recurring_of u m c now (snd ids))"
    using r(1-3) assms(3) by (simp add: recurring_ok_def recurring_of_def)
  then show ?thesis
    using wf1 r(4) unfolding r(5) by (auto simp: recurring_wf_def) (auto simp: recurring_of_def)
qed

lemma recurring_step_wf: "recurring_step db db' \<Longrightarrow> recurring_wf db \<Longrightarrow> recurring_wf db'"
proof (induction rule: recurring_step.induct)
  case (booked u tc ids db db' tv)
  then have "repo_create_transaction u (select_category u tc db) ids db = Inr (db', tv)"
    by (simp add: create_transaction_Inr)
  then have "ledger_db.more db' = ledger_db.more db" "users db' = users db"
    using repo_create_transaction_frame by blast+
  moreover have "categorization_wf db'"
    using create_transaction_wf [OF booked(1)] booked(2) by (simp add: recurring_wf_def)
  moreover have "recurring_payments db' = recurring_payments db" using \<open>ledger_db.more db' = ledger_db.more db\<close>
    by (cases db; cases db') simp
  ultimately show ?case
    using transaction_keeps_merchants [OF booked(1)] booked(2)
    by (intro recurring_wf_frame [OF booked(2)]) (auto simp: recurring_wf_def categorization_wf_def)
next
  case (recategorized u i c now ids db db' cv)
  then have "categorization_wf db'"
    using repo_correct_wf [of u i c now ids db db' cv] by (simp add: correct_transaction_Inr recurring_wf_def)
  moreover obtain ts ms cs where "db' = db\<lparr>transactions := ts, merchant_maps := ms, corrections := cs\<rparr>"
    using correct_transaction_frame [OF recategorized(1)] by blast
  ultimately show ?case by (intro recurring_wf_frame [OF recategorized(2)]) simp_all
qed (auto intro: create_recurring_wf transition_wf record_wf)

section \<open>Statuses and schedules\<close>

lemma modify_status:
  assumes "recurring_wf db" "r \<in> set (recurring_payments db)" "rp_id r = i" "rp_user r = u"
    and "\<And>x. rp_id (f x) = rp_id x" "\<And>x. rp_user (f x) = rp_user x"
  shows "select_one (\<lambda>x. rp_id x = j) (modify_rows (\<lambda>x. rp_id x = i \<and> rp_user x = u) f (recurring_payments db)) =
    (if j = i then Some (f r) else select_one (\<lambda>x. rp_id x = j) (recurring_payments db))"
proof -
  let ?P = "\<lambda>x. rp_id x = i \<and> rp_user x = u"
  have keep: "select_one (\<lambda>x. rp_id x = j) (modify_rows ?P f (recurring_payments db)) =
      map_option (\<lambda>x. if ?P x then f x else x) (select_one (\<lambda>x. rp_id x = j) (recurring_payments db))"
    using assms(5) by (intro select_one_modify_rows) simp
  have one: "select_one (\<lambda>x. rp_id x = i) (recurring_payments db) = Some r"
    using assms(1-3) select_one_unique [of rp_id "recurring_payments db" r] by (simp add: recurring_wf_def)
  show ?thesis
  proof (cases "j = i")
    case True
    with keep one assms(3,4) show ?thesis by simp
  next
    case False
    then have "rp_id x \<noteq> i" if "select_one (\<lambda>x. rp_id x = j) (recurring_payments db) = Some x" for x
      using select_one_SomeD [OF that] by simp
    with keep False show ?thesis by (cases "select_one (\<lambda>x. rp_id x = j) (recurring_payments db)") auto
  qed
qed

lemma step_rows:
  assumes "recurring_step db db'" "recurring_wf db" "select_one (\<lambda>r. rp_id r = i) (recurring_payments db) = Some r"
  shows "\<exists>r'. select_one (\<lambda>r. rp_id r = i) (recurring_payments db') = Some r' \<and> rp_user r' = rp_user r \<and>
    rp_amount r' = rp_amount r \<and> rp_currency r' = rp_currency r \<and> rp_rule r' = rp_rule r \<and>
    (rp_status r' = rp_status r \<or> rp_status r' \<in> set (STATUS_TRANSITIONS (rp_status r))) \<and>
    (rp_next r' = rp_next r \<or> rp_next r < rp_next r')"
  using assms
proof (induction rule: recurring_step.induct)
  case (created u c now ids db db' v)
  from create_recurring_Inr [OF created(1)] obtain db1 m x where
    "upsert_merchant (cr_merchant_name c) (cr_normalized c) (fst ids) db = Inr (db1, m)"
    "recurring_payments db' = recurring_payments db1 @ [x]" by (auto simp: Let_def)
  then have "\<exists>x. recurring_payments db' = recurring_payments db @ [x]" using upsert_merchant_Inr by fastforce
  with created(4) show ?case by (auto simp: select_one_append)
next
  case (moved u tc now db db' v)
  from transition_Inr [OF moved(1)] obtain x f where
    x: "x \<in> set (recurring_payments db)" "rp_user x = u" "rp_id x = tc_payment tc"
      "tc_target tc \<in> set (STATUS_TRANSITIONS (rp_status x))" and
    f: "f = (\<lambda>r. r\<lparr>rp_status := tc_target tc, rp_updated_at := now\<rparr>)" and
    db': "db' = db\<lparr>recurring_payments := modify_rows (\<lambda>r. rp_id r = tc_payment tc \<and> rp_user r = u) f (recurring_payments db)\<rparr>"
    by blast
  have "select_one (\<lambda>r. rp_id r = i) (recurring_payments db') =
      (if i = tc_payment tc then Some (f x) else select_one (\<lambda>r. rp_id r = i) (recurring_payments db))"
    using modify_status [OF moved(2) x(1,3,2), of f i] by (simp add: db' f)
  moreover have "i = tc_payment tc \<Longrightarrow> x = r"
    using x moved(2,3) select_one_unique [of rp_id "recurring_payments db" x "\<lambda>r. rp_id r = i"] by (simp add: recurring_wf_def)
  ultimately show ?case using moved(3) x(4) by (auto simp: f)
next
  case (recorded u rc now n db db' rv)
  from record_Inr [OF recorded(1)] obtain x d f ts where
    x: "x \<in> set (recurring_payments db)" "rp_user x = u" "rp_id x = rc_payment rc"
      "advance_expected_date (rp_next x) (rp_rule x) = Inr d" and
    f: "f = (\<lambda>r. r\<lparr>rp_next := d, rp_updated_at := now\<rparr>)" and
    db': "db' = db\<lparr>transactions := ts, recurring_payments :=
      modify_rows (\<lambda>r. rp_id r = rc_payment rc \<and> rp_user r = u) f (recurring_payments db)\<rparr>"
    by blast
  have "select_one (\<lambda>r. rp_id r = i) (recurring_payments db') =
      (if i = rc_payment rc then Some (f x) else select_one (\<lambda>r. rp_id r = i) (recurring_payments db))"
    using modify_status [OF recorded(2) x(1,3,2), of f i] by (simp add: db' f)
  moreover have "i = rc_payment rc \<Longrightarrow> x = r"
    using x recorded(2,3) select_one_unique [of rp_id "recurring_payments db" x "\<lambda>r. rp_id r = i"] by (simp add: recurring_wf_def)
  moreover have "rp_next x < d" using advance_later [OF _ x(4)] recorded(2) x(1) by (auto simp: recurring_wf_def recurring_ok_def)
  ultimately show ?case using recorded(3) by (auto simp: f)
next
  case (booked u tc ids db db' tv)
  from create_transaction_more [OF booked(1)]
  have "recurring_payments db' = recurring_payments db" by (cases db; cases db') simp
  with booked(3) show ?case by simp
next
  case (recategorized u j c now ids db db' cv)
  then obtain ts ms cs where "db' = db\<lparr>transactions := ts, merchant_maps := ms, corrections := cs\<rparr>"
    using correct_transaction_frame by blast
  with recategorized(3) show ?case by simp
qed

text \<open>Both columns live under the shared lifecycle contract.\<close>

interpretation statuses: lifecycle recurring_wf recurring_step payment_status "\<lambda>s. set (STATUS_TRANSITIONS s)"
proof
  fix db db' :: "'a recurring_db_scheme" and i s
  assume a: "recurring_wf db" "recurring_step db db'"
  then show "recurring_wf db'" by (rule recurring_step_wf [rotated])
  assume "payment_status db i = Some s"
  then obtain r where r: "select_one (\<lambda>r. rp_id r = i) (recurring_payments db) = Some r" "s = rp_status r"
    by (auto simp: payment_status_def)
  from step_rows [OF a(2,1) r(1)] show "\<exists>s'. payment_status db' i = Some s' \<and> path (\<lambda>s. set (STATUS_TRANSITIONS s)) s s'"
    unfolding r(2) payment_status_def by (auto intro: path.stay path_edge)
qed

interpretation schedule: lifecycle recurring_wf recurring_step expected_date "\<lambda>d. {d'. d < d'}"
proof
  fix db db' :: "'a recurring_db_scheme" and i d
  assume a: "recurring_wf db" "recurring_step db db'"
  then show "recurring_wf db'" by (rule recurring_step_wf [rotated])
  assume "expected_date db i = Some d"
  then obtain r where r: "select_one (\<lambda>r. rp_id r = i) (recurring_payments db) = Some r" "d = rp_next r"
    by (auto simp: expected_date_def)
  from step_rows [OF a(2,1) r(1)] show "\<exists>d'. expected_date db' i = Some d' \<and> path (\<lambda>d. {d'. d < d'}) d d'"
    unfolding r(2) expected_date_def by (auto intro: path.stay path_edge)
qed

lemma path_later: "path (\<lambda>d. {d'. d < d'}) d d' \<Longrightarrow> d \<le> (d' :: date)"
  by (induction rule: path.induct) auto

end
