(* ===== verification/Recurring_Properties.thy ===== *)
theory Recurring_Properties
  imports Recurring_Laws
begin

text \<open>The properties of the recurring payments, with a sample store for their instances.\<close>

section \<open>Lemmas for the properties\<close>

lemma payment_of_row:
  assumes "recurring_wf db" "r \<in> set (recurring_payments db)"
  shows "select_one (\<lambda>x. rp_id x = rp_id r) (recurring_payments db) = Some r"
    and "select_one (\<lambda>x. rp_user x = u \<and> rp_id x = rp_id r) (recurring_payments db) = (if u = rp_user r then Some r else None)"
proof -
  have d: "distinct (map rp_id (recurring_payments db))" using assms(1) by (simp add: recurring_wf_def)
  then show "select_one (\<lambda>x. rp_id x = rp_id r) (recurring_payments db) = Some r"
    using assms(2) by (intro select_one_unique [of rp_id]) simp_all
  show "select_one (\<lambda>x. rp_user x = u \<and> rp_id x = rp_id r) (recurring_payments db) = (if u = rp_user r then Some r else None)"
  proof (cases "u = rp_user r")
    case True
    then have "select_one (\<lambda>x. rp_user x = u \<and> rp_id x = rp_id r) (recurring_payments db) = Some r"
      by (intro select_one_unique [OF d assms(2)]) auto
    with True show ?thesis by simp
  next
    case False
    with d assms(2) show ?thesis by (auto simp: select_one_None distinct_map inj_on_def)
  qed
qed

lemma merchant_of_payment:
  assumes "recurring_wf db" "r \<in> set (recurring_payments db)"
  shows "\<exists>name. merchant_display db (Some (rp_merchant r)) = Some name"
proof -
  have "fk_merchant db (Some (rp_merchant r))" using assms by (simp add: recurring_wf_def recurring_ok_def)
  then show ?thesis
    using select_one_None [of "\<lambda>m. mer_id m = rp_merchant r" "merchants db"]
    by (cases "select_one (\<lambda>m. mer_id m = rp_merchant r) (merchants db)") (auto simp: fk_merchant_def merchant_display_def)
qed

lemma project_row:
  assumes "recurring_wf db" "r \<in> set (recurring_payments db)" "merchant_display db (Some (rp_merchant r)) = Some name"
  shows "project_payment u (rp_id r) db = (if u = rp_user r then Some (view_from_row r name) else None)"
  using payment_of_row(2) [OF assms(1,2)] assms(3) by (simp add: project_payment_def join_merchant_def)

text \<open>Every way a record can be refused once its occurrence is not the next expected one.\<close>

lemma record_refused:
  assumes "recurring_wf db" "r \<in> set (recurring_payments db)" "rc_payment c = rp_id r"
    "rp_status r \<noteq> RECURRING_ACTIVE \<or> rp_next r \<noteq> rc_expected c"
  shows "record_due_payment u c now n db = Inl
    (if u \<noteq> rp_user r then LedgerNotFoundError ''RECURRING_PAYMENT_NOT_FOUND'' None
     else if rp_status r \<noteq> RECURRING_ACTIVE then LedgerConflictError ''RECURRING_PAYMENT_NOT_ACTIVE'' None
     else LedgerConflictError ''RECURRING_OCCURRENCE_CONFLICT'' (Some ''expectedDate''))"
proof -
  obtain name where "merchant_display db (Some (rp_merchant r)) = Some name"
    using merchant_of_payment [OF assms(1,2)] by blast
  from project_row [OF assms(1,2) this] assms(3,4) show ?thesis
    by (auto simp: record_due_payment_def lock_payment_def require_payment_def)
qed

lemma modify_projection:
  assumes "recurring_wf db" "r \<in> set (recurring_payments db)" "rp_user r = u" "rp_id r = i"
    "merchant_display db (Some (rp_merchant r)) = Some name"
    "\<And>x. rp_id (f x) = rp_id x" "\<And>x. rp_user (f x) = rp_user x" "\<And>x. rp_merchant (f x) = rp_merchant x"
  shows "project_payment u i (db\<lparr>transactions := ts, recurring_payments :=
      modify_rows (\<lambda>x. rp_id x = i \<and> rp_user x = u) f (recurring_payments db)\<rparr>) = Some (view_from_row (f r) name)"
proof -
  have "select_one (\<lambda>x. rp_user x = u \<and> rp_id x = i) (modify_rows (\<lambda>x. rp_id x = i \<and> rp_user x = u) f (recurring_payments db)) =
      map_option (\<lambda>x. if rp_id x = i \<and> rp_user x = u then f x else x)
        (select_one (\<lambda>x. rp_user x = u \<and> rp_id x = i) (recurring_payments db))"
    using assms(6,7) by (intro select_one_modify_rows) simp
  with payment_of_row(2) [OF assms(1,2), of u] assms show ?thesis
    by (auto simp: project_payment_def join_merchant_def merchant_display_def)
qed

lemma record_value:
  assumes wf: "recurring_wf db" and r: "r \<in> set (recurring_payments db)" "rp_user r = u" "rp_id r = rc_payment c"
    and due: "rp_status r = RECURRING_ACTIVE" "rp_next r = rc_expected c" "year (rp_next r) < 9999"
    and name: "merchant_display db (Some (rp_merchant r)) = Some name" "length name \<le> 160"
    and fresh: "n \<notin> tx_id ` set (transactions db)"
  shows "\<exists>db' v d. record_due_payment u c now n db = Inr (db', v) \<and> advance_expected_date (rp_next r) (rp_rule r) = Inr d \<and>
    expected_date db' (rp_id r) = Some d \<and> rv_next (rd_payment v) = d \<and>
    transactions db' = transactions db @ [expense_of u (view_from_row r name) (rc_date c) n]"
proof -
  let ?e = "expense_of u (view_from_row r name) (rc_date c) n"
  let ?db1 = "db\<lparr>transactions := transactions db @ [?e]\<rparr>"
  have ok: "recurring_ok db r" using wf r by (simp add: recurring_wf_def)
  have "insert_transaction ?e db = Inr ?db1"
    using ok r fresh name(2)
    by (simp add: insert_transaction_Inr transaction_checks_def expense_of_def recurring_ok_def recurring_checks_def
        fk_category_def not_blank_def)
  moreover obtain d where d: "advance_expected_date (rp_next r) (rp_rule r) = Inr d"
    using advance_total [OF _ due(3)] ok by (auto simp: recurring_ok_def)
  define f :: "recurring_row \<Rightarrow> recurring_row" where "f = (\<lambda>x. x\<lparr>rp_next := d, rp_updated_at := now\<rparr>)"
  let ?db' = "db\<lparr>transactions := transactions db @ [?e],
      recurring_payments := modify_rows (\<lambda>x. rp_id x = rc_payment c \<and> rp_user x = u) f (recurring_payments db)\<rparr>"
  have "project_payment u (rc_payment c) ?db' = Some (view_from_row (f r) name)"
    using modify_projection [OF wf r name(1), of f] by (simp add: f_def)
  moreover have "expected_date ?db' (rp_id r) = Some d"
    using modify_status [OF wf r(1,3,2), of f "rp_id r"] r by (simp add: expected_date_def f_def)
  ultimately show ?thesis
    using project_row [OF wf r(1) name(1), of u] r due d
    by (simp add: record_due_payment_def lock_payment_def require_payment_def record_expense_def repo_advance_def
        require_projection_def Let_def f_def)
qed



lemma record_then_later:
  assumes "recurring_wf db" "record_due_payment u c now n db = Inr (db1, v)" "reaches recurring_step db1 db2"
  shows "recurring_wf db2 \<and> (\<exists>r. r \<in> set (recurring_payments db2) \<and> rp_id r = rc_payment c \<and> rp_user r = u \<and> rc_expected c < rp_next r)"
proof -
  from record_Inr [OF assms(2)] obtain x d f ts where
    x: "x \<in> set (recurring_payments db)" "rp_user x = u" "rp_id x = rc_payment c" "rp_next x = rc_expected c"
      "advance_expected_date (rp_next x) (rp_rule x) = Inr d" and
    f: "f = (\<lambda>r. r\<lparr>rp_next := d, rp_updated_at := now\<rparr>)" and
    db1: "db1 = db\<lparr>transactions := ts, recurring_payments :=
      modify_rows (\<lambda>r. rp_id r = rc_payment c \<and> rp_user r = u) f (recurring_payments db)\<rparr>"
    by blast
  have row: "select_one (\<lambda>r. rp_id r = rc_payment c) (recurring_payments db1) = Some (f x)"
    using modify_status [OF assms(1) x(1,3,2), of f "rc_payment c"] by (simp add: db1 f)
  have later: "rc_expected c < d" using advance_later [OF _ x(5)] assms(1) x(1,4) by (auto simp: recurring_wf_def recurring_ok_def)
  have wf1: "recurring_wf db1" by (rule recurring_step_wf [OF recurring_step.recorded [OF assms(2)] assms(1)])
  have "expected_date db1 (rc_payment c) = Some d" using row by (simp add: expected_date_def f)
  from schedule.reaches_path [OF assms(3) wf1 this] obtain d' where
    d': "expected_date db2 (rc_payment c) = Some d'" "d \<le> d'" using path_later by blast
  have "\<exists>r. select_one (\<lambda>r. rp_id r = rc_payment c) (recurring_payments db2) = Some r \<and> rp_user r = u"
    using assms(3) wf1 row
  proof (induction rule: reaches.induct)
    case none
    then show ?case using x(2) by (simp add: f)
  next
    case (more db1 dbx dby)
    then obtain r where "select_one (\<lambda>r. rp_id r = rc_payment c) (recurring_payments dbx) = Some r" "rp_user r = u" by blast
    with step_rows [OF more(2) statuses.reaches_wf [OF more(1,4)]] show ?case by metis
  qed
  with d' later select_one_SomeD show ?thesis
    using statuses.reaches_wf [OF assms(3) wf1] by (fastforce simp: expected_date_def)
qed

section \<open>Totals\<close>

lemma upcoming_total_lines:
  assumes "upcoming_totals u w db = Inr ts"
  shows "map ut_currency ts = sort (remdups (map rp_currency (upcoming_rows u (rw_start w) (rw_end w) db))) \<and>
    (\<forall>t \<in> set ts. ut_amount t = sum_rows rp_amount (filter (\<lambda>r. rp_currency r = ut_currency t) (upcoming_rows u (rw_start w) (rw_end w) db)) \<and>
      ut_count t = length (filter (\<lambda>r. rp_currency r = ut_currency t) (upcoming_rows u (rw_start w) (rw_end w) db)))"
proof -
  let ?rows = "upcoming_rows u (rw_start w) (rw_end w) db"
  let ?g = "group_sums rp_currency rp_amount ?rows"
  have ts: "ts = map (\<lambda>(c, amount). \<lparr>ut_currency = c, ut_amount = amount,
      ut_count = length (filter (\<lambda>r. rp_currency r = c) ?rows), ut_start = rw_start w, ut_end = rw_end w\<rparr>) (sort_key fst ?g)"
    using assms by (simp add: upcoming_totals_def result_simps totals_for_window_def repo_upcoming_totals_def Let_def o_def
        case_prod_unfold)
  have "map ut_currency ts = map fst (sort_key fst ?g)" by (simp add: ts case_prod_unfold o_def)
  also have "\<dots> = sort (map fst ?g)"
    by (rule properties_for_sort [symmetric]) simp_all
  also have "map fst ?g = remdups (map rp_currency ?rows)" by (simp add: group_sums_def o_def)
  finally show ?thesis by (auto simp: ts group_sums_def)
qed

lemma listed_payments:
  assumes "recurring_wf db"
  shows "\<exists>name. repo_list_recurring u db =
    map (\<lambda>r. view_from_row r (name r)) (sort_key (\<lambda>r. (rp_next r, rp_id r)) (filter (\<lambda>r. rp_user r = u) (recurring_payments db)))"
proof -
  define name :: "recurring_row \<Rightarrow> string" where "name r = the (merchant_display db (Some (rp_merchant r)))" for r
  have "join_merchant db r = Some (view_from_row r (name r))" if "r \<in> set (recurring_payments db)" for r
    using merchant_of_payment [OF assms that] by (auto simp: join_merchant_def name_def)
  then have "repo_list_recurring u db =
    map (\<lambda>r. view_from_row r (name r)) (sort_key (\<lambda>r. (rp_next r, rp_id r)) (filter (\<lambda>r. rp_user r = u) (recurring_payments db)))"
    unfolding repo_list_recurring_def by (intro map_filter_total) simp
  then show ?thesis by blast
qed

section \<open>A sample store\<close>

definition sample_payment :: recurring_row where
  "sample_payment =
     \<lparr>rp_id = 90, rp_user = 1, rp_merchant = 20, rp_amount = 990000, rp_currency = ''INR'', rp_rule = MONTHLY,
      rp_next = Date 2026 5 31, rp_status = RECURRING_ACTIVE, rp_created_at = 0, rp_updated_at = 0\<rparr>"

definition sample_recurring :: recurring_db where
  "sample_recurring =
     \<lparr>users = sample_users, categories = sample_categories, merchants = sample_merchants,
      transactions = [sample_transaction], category_rules = [], merchant_maps = [], corrections = [],
      people = [], receivables = [], payables = [], settlements = [], recurring_payments = [sample_payment]\<rparr>"

definition sample_record :: record_command where
  "sample_record = \<lparr>rc_payment = 90, rc_expected = Date 2026 5 31, rc_date = 1780000000000000\<rparr>"

lemma sample_recurring_wf: "recurring_wf sample_recurring"
  by (simp add: recurring_wf_def recurring_ok_def recurring_checks_def categorization_wf_def ledger_wf_def learned_ok_def
      sample_recurring_def sample_payment_def sample_defs transaction_ok_def transaction_checks_def fk_user_def fk_merchant_def
      category_is_visible_def visible_to_def currency_pattern_def is_upper_letter_def not_blank_def valid_date_def days_in_month_def)

lemma sample_payment_facts:
  "sample_payment \<in> set (recurring_payments sample_recurring)" "rp_user sample_payment = 1" "rp_id sample_payment = 90"
  "rp_status sample_payment = RECURRING_ACTIVE" "rp_next sample_payment = Date 2026 5 31" "rc_payment sample_record = 90"
  "rc_expected sample_record = Date 2026 5 31" "99 \<notin> tx_id ` set (transactions sample_recurring)"
  "merchant_display sample_recurring (Some (rp_merchant sample_payment)) = Some ''Blue Tokai''"
  by (simp_all add: sample_recurring_def sample_payment_def sample_record_def sample_defs merchant_display_def)

lemma sample_recorded: "\<exists>db' v. record_due_payment 1 sample_record 5 99 sample_recurring = Inr (db', v)"
  using record_value [OF sample_recurring_wf sample_payment_facts(1,2), of sample_record "''Blue Tokai''" 99 5] sample_payment_facts
  by auto

section \<open>Properties\<close>



text \<open>
  C34: an expected occurrence is recorded at most once: after a successful record, whatever commands of
  any users run next, recording the same occurrence of the same payment again is refused and books nothing,
  so a retried request cannot charge twice.
\<close>

theorem occurrence_recorded_once:
  assumes "recurring_wf db" "record_due_payment u c now n db = Inr (db1, v)" "reaches recurring_step db1 db2"
    and "rc_payment c' = rc_payment c" "rc_expected c' = rc_expected c"
  shows "\<exists>e. record_due_payment w c' now' n' db2 = Inl e \<and>
    (if w \<noteq> u then e = LedgerNotFoundError ''RECURRING_PAYMENT_NOT_FOUND'' None
     else e = LedgerConflictError ''RECURRING_PAYMENT_NOT_ACTIVE'' None \<or>
          e = LedgerConflictError ''RECURRING_OCCURRENCE_CONFLICT'' (Some ''expectedDate''))"
proof -
  from record_then_later [OF assms(1-3)] obtain r where
    r: "recurring_wf db2" "r \<in> set (recurring_payments db2)" "rp_id r = rc_payment c" "rp_user r = u" "rc_expected c < rp_next r"
    by blast
  have stale: "rp_status r \<noteq> RECURRING_ACTIVE \<or> rp_next r \<noteq> rc_expected c'" using r(5) assms(5) by auto
  have same: "rc_payment c' = rp_id r" using r(3) assms(4) by simp
  show ?thesis using record_refused [OF r(1,2) same stale, of w now' n'] r(4) by simp
qed

theorem occurrence_recorded_once_witness:
  "\<exists>db1 v e. record_due_payment 1 sample_record 5 99 sample_recurring = Inr (db1, v) \<and>
    record_due_payment 1 sample_record 6 98 db1 = Inl e"
proof -
  obtain db1 v where run: "record_due_payment 1 sample_record 5 99 sample_recurring = Inr (db1, v)"
    using sample_recorded by blast
  with occurrence_recorded_once [OF sample_recurring_wf run reaches.none] show ?thesis by blast
qed

text \<open>
  The lifecycle: a status moves only along the table of transitions, whatever runs; an ended payment
  (or one that needs review) stays so forever; and a requested transition succeeds for the owner exactly
  when the table allows it, with no other row or column of the schedule changed.
\<close>

theorem ended_payments_stay_ended:
  assumes "recurring_wf db" "r \<in> set (recurring_payments db)" "reaches recurring_step db db'"
  shows "(\<exists>s. payment_status db' (rp_id r) = Some s \<and> path (\<lambda>s. set (STATUS_TRANSITIONS s)) (rp_status r) s \<and>
      (rp_status r = RECURRING_ENDED \<or> rp_status r = RECURRING_NEEDS_REVIEW \<longrightarrow> s = rp_status r)) \<and>
    (\<forall>u tc now. tc_payment tc = rp_id r \<longrightarrow> (case transition_status u tc now db of
        Inl e \<Rightarrow> e = LedgerNotFoundError ''RECURRING_PAYMENT_NOT_FOUND'' None \<and> u \<noteq> rp_user r \<or>
          e = LedgerConflictError ''INVALID_RECURRING_STATUS_TRANSITION'' (Some ''status'') \<and>
          tc_target tc \<notin> set (STATUS_TRANSITIONS (rp_status r))
      | Inr (db1, v) \<Rightarrow> u = rp_user r \<and> tc_target tc \<in> set (STATUS_TRANSITIONS (rp_status r)) \<and>
          payment_status db1 (rp_id r) = Some (tc_target tc) \<and> (\<forall>i. expected_date db1 i = expected_date db i)))"
proof (intro conjI allI impI)
  have s: "payment_status db (rp_id r) = Some (rp_status r)"
    using payment_of_row(1) [OF assms(1,2)] by (simp add: payment_status_def)
  from statuses.reaches_path [OF assms(3,1) s] obtain t where
    t: "payment_status db' (rp_id r) = Some t" "path (\<lambda>s. set (STATUS_TRANSITIONS s)) (rp_status r) t" by blast
  moreover have "t = rp_status r" if "rp_status r = RECURRING_ENDED \<or> rp_status r = RECURRING_NEEDS_REVIEW"
    using path_final [OF t(2)] that by auto
  ultimately show "\<exists>s. payment_status db' (rp_id r) = Some s \<and> path (\<lambda>s. set (STATUS_TRANSITIONS s)) (rp_status r) s \<and>
      (rp_status r = RECURRING_ENDED \<or> rp_status r = RECURRING_NEEDS_REVIEW \<longrightarrow> s = rp_status r)" by blast
  fix u and tc :: transition_command and now assume tc: "tc_payment tc = rp_id r"
  obtain name where name: "merchant_display db (Some (rp_merchant r)) = Some name" using merchant_of_payment [OF assms(1,2)] by blast
  define f :: "recurring_row \<Rightarrow> recurring_row" where "f = (\<lambda>x. x\<lparr>rp_status := tc_target tc, rp_updated_at := now\<rparr>)"
  show "case transition_status u tc now db of
        Inl e \<Rightarrow> e = LedgerNotFoundError ''RECURRING_PAYMENT_NOT_FOUND'' None \<and> u \<noteq> rp_user r \<or>
          e = LedgerConflictError ''INVALID_RECURRING_STATUS_TRANSITION'' (Some ''status'') \<and>
          tc_target tc \<notin> set (STATUS_TRANSITIONS (rp_status r))
      | Inr (db1, v) \<Rightarrow> u = rp_user r \<and> tc_target tc \<in> set (STATUS_TRANSITIONS (rp_status r)) \<and>
          payment_status db1 (rp_id r) = Some (tc_target tc) \<and> (\<forall>i. expected_date db1 i = expected_date db i)"
  proof (cases "u = rp_user r \<and> tc_target tc \<in> set (STATUS_TRANSITIONS (rp_status r))")
    case True
    let ?db1 = "db\<lparr>recurring_payments := modify_rows (\<lambda>x. rp_id x = rp_id r \<and> rp_user x = rp_user r) f (recurring_payments db)\<rparr>"
    have rows: "select_one (\<lambda>x. rp_id x = j) (recurring_payments ?db1) =
        (if j = rp_id r then Some (f r) else select_one (\<lambda>x. rp_id x = j) (recurring_payments db))" for j
      using modify_status [OF assms(1,2), of "rp_id r" "rp_user r" f j] by (simp add: f_def)
    have "project_payment (rp_user r) (rp_id r) ?db1 = Some (view_from_row (f r) name)"
      using modify_projection [OF assms(1,2) refl refl name, of f "transactions db"] by (simp add: f_def)
    then have "transition_status u tc now db = Inr (?db1, view_from_row (f r) name)"
      using True tc project_row [OF assms(1,2) name, of u]
      by (simp add: transition_status_def lock_payment_def require_payment_def repo_update_status_def require_projection_def
          Let_def f_def)
    moreover have "expected_date ?db1 j = expected_date db j" for j
      unfolding expected_date_def rows using payment_of_row(1) [OF assms(1,2)] by (simp add: f_def)
    moreover have "payment_status ?db1 (rp_id r) = Some (tc_target tc)"
      unfolding payment_status_def rows by (simp add: f_def)
    ultimately show ?thesis using True by simp
  next
    case False
    with tc project_row [OF assms(1,2) name, of u] show ?thesis
      by (auto simp: transition_status_def lock_payment_def require_payment_def)
  qed
qed

theorem ended_payments_stay_ended_witness:
  "\<exists>db1 v. transition_status 1 \<lparr>tc_payment = 90, tc_target = RECURRING_ENDED\<rparr> 5 sample_recurring = Inr (db1, v) \<and>
    payment_status db1 90 = Some RECURRING_ENDED"
proof -
  let ?tc = "\<lparr>tc_payment = 90, tc_target = RECURRING_ENDED\<rparr>"
  note outcome = ended_payments_stay_ended [OF sample_recurring_wf sample_payment_facts(1) reaches.none, THEN conjunct2,
      THEN spec [where x = 1], THEN spec [where x = "?tc"], THEN spec [where x = 5], THEN mp]
  have "tc_payment ?tc = rp_id sample_payment" by (simp add: sample_payment_facts)
  from outcome [OF this] show ?thesis by (auto simp: sample_payment_facts split: sum.splits)
qed

text \<open>
  The upcoming totals agree with the owner's list: one line per currency of the active payments
  expected inside the inclusive window, in order, with the exact sum and number of those payments.
\<close>

theorem upcoming_matches_list:
  assumes "recurring_wf db" "upcoming_totals u w db = Inr ts"
  shows "sorted (map ut_currency ts) \<and> distinct (map ut_currency ts) \<and>
    (let due = filter (\<lambda>v. rv_status v = RECURRING_ACTIVE \<and> rw_start w \<le> rv_next v \<and> rv_next v \<le> rw_end w) (repo_list_recurring u db)
     in set (map ut_currency ts) = set (map rv_currency due) \<and>
       (\<forall>t \<in> set ts. ut_amount t = sum_rows rv_amount (filter (\<lambda>v. rv_currency v = ut_currency t) due) \<and>
         ut_count t = length (filter (\<lambda>v. rv_currency v = ut_currency t) due)))"
proof -
  let ?rows = "upcoming_rows u (rw_start w) (rw_end w) db"
  let ?own = "filter (\<lambda>r. rp_user r = u) (recurring_payments db)"
  let ?sorted = "sort_key (\<lambda>r. (rp_next r, rp_id r)) ?own"
  let ?P = "\<lambda>r. rp_status r = RECURRING_ACTIVE \<and> rw_start w \<le> rp_next r \<and> rp_next r \<le> rw_end w"
  let ?due = "filter (\<lambda>v. rv_status v = RECURRING_ACTIVE \<and> rw_start w \<le> rv_next v \<and> rv_next v \<le> rw_end w) (repo_list_recurring u db)"
  from listed_payments [OF assms(1)] obtain name where
    "repo_list_recurring u db = map (\<lambda>r. view_from_row r (name r)) ?sorted" by blast
  then have due: "?due = map (\<lambda>r. view_from_row r (name r)) (filter ?P ?sorted)" by (simp add: filter_map o_def)
  have rows: "mset (filter ?P ?sorted) = mset ?rows"
    by (simp add: upcoming_rows_def mset_filter filter_filter_mset conj_commute conj_left_commute)
  have part: "mset (filter (\<lambda>r. rp_currency r = c) (filter ?P ?sorted)) = mset (filter (\<lambda>r. rp_currency r = c) ?rows)" for c
    using rows by (simp only: mset_filter)
  have amount: "sum_rows rv_amount (filter (\<lambda>v. rv_currency v = c) ?due) = sum_rows rp_amount (filter (\<lambda>r. rp_currency r = c) ?rows)" for c
    using sum_rows_mset [OF part, of rp_amount c] by (simp add: due filter_map o_def sum_rows_def)
  have number: "length (filter (\<lambda>v. rv_currency v = c) ?due) = length (filter (\<lambda>r. rp_currency r = c) ?rows)" for c
    using mset_eq_length [OF part, of c] by (simp add: due filter_map o_def)
  have currencies: "set (map rv_currency ?due) = set (map rp_currency ?rows)"
    using mset_eq_setD [OF rows] by (simp add: due image_image)
  show ?thesis
    using upcoming_total_lines [OF assms(2)] currencies amount number by (simp add: Let_def)
qed

theorem upcoming_matches_list_witness:
  "\<exists>ts. upcoming_totals 1 \<lparr>rw_start = Date 2026 5 1, rw_end = Date 2026 5 31\<rparr> sample_recurring = Inr ts \<and>
    (\<forall>t \<in> set ts. ut_amount t = 990000 \<and> ut_count t = 1) \<and> map ut_currency ts = [''INR'']"
proof -
  let ?w = "\<lparr>rw_start = Date 2026 5 1, rw_end = Date 2026 5 31\<rparr>"
  have "upcoming_totals 1 ?w sample_recurring =
      Inr [\<lparr>ut_currency = ''INR'', ut_amount = 990000, ut_count = 1, ut_start = Date 2026 5 1, ut_end = Date 2026 5 31\<rparr>]"
    by (simp add: upcoming_totals_def require_recurring_user_def user_exists_def sample_recurring_def sample_payment_def
        sample_users_def repo_upcoming_totals_def upcoming_rows_def group_sums_def totals_for_window_def Let_def less_eq_date_def)
  with upcoming_matches_list [OF sample_recurring_wf this] show ?thesis by simp
qed

end
