(* ===== verification/Jobs.thy ===== *)
theory Jobs
  imports Recurring Text_Normalization
begin

text \<open>
  The durable job queue and its worker: \<open>jobs/config.py\<close>, \<open>jobs/schemas.py\<close>, \<open>models/job.py\<close>,
  \<open>jobs/repository.py\<close>, \<open>jobs/service.py\<close> and \<open>jobs/worker.py\<close>.

  Every method runs in one short transaction; \<open>enqueue\<close>, \<open>claim\<close> and \<open>review_retry\<close> hold the
  admission lock, \<open>finish\<close> and \<open>cancel\<close> the lock of their row, so that a committed call is one step.
  What a call reads from its environment is an argument: the clock, the fresh token, the random
  jitter, and the rows that other open transactions have locked (\<open>SKIP LOCKED\<close>). Seconds given as
  floats are exact rationals here; the rounding to microseconds is written out.
\<close>

section \<open>Settings\<close>

record jobs_settings =
  js_concurrency :: nat
  js_max_pending :: nat
  js_max_pending_per_owner :: nat
  js_max_attempts :: nat
  js_lease_seconds :: nat
  js_timeout_seconds :: nat
  js_poll_seconds :: rat
  js_backoff_seconds :: rat
  js_max_backoff_seconds :: rat

definition settings_ok :: "jobs_settings \<Rightarrow> bool" where
  "settings_ok s \<longleftrightarrow>
     1 \<le> js_concurrency s \<and> js_concurrency s \<le> 16 \<and> 1 \<le> js_max_pending s \<and> js_max_pending s \<le> 10000 \<and>
     1 \<le> js_max_pending_per_owner s \<and> js_max_pending_per_owner s \<le> 1000 \<and>
     1 \<le> js_max_attempts s \<and> js_max_attempts s \<le> 5 \<and> 10 \<le> js_lease_seconds s \<and> js_lease_seconds s \<le> 1800 \<and>
     1 \<le> js_timeout_seconds s \<and> js_timeout_seconds s \<le> 1200 \<and>
     1 / 10 \<le> js_poll_seconds s \<and> js_poll_seconds s \<le> 30 \<and>
     1 / 10 \<le> js_backoff_seconds s \<and> js_backoff_seconds s \<le> 60 \<and>
     1 \<le> js_max_backoff_seconds s \<and> js_max_backoff_seconds s \<le> 3600"

definition lease_exceeds_timeout :: "jobs_settings \<Rightarrow> jobs_settings result" where
  "lease_exceeds_timeout s =
     (if js_lease_seconds s \<le> js_timeout_seconds s + 5 then Inl ValueError
      else if js_max_backoff_seconds s < js_backoff_seconds s then Inl ValueError
      else Inr s)"

text \<open>Loading the settings: the field ranges, then the model validator.\<close>

definition load_settings :: "jobs_settings \<Rightarrow> jobs_settings result" where
  "load_settings s = (if settings_ok s then lease_exceeds_timeout s else Inl ValueError)"

section \<open>Payloads and views\<close>

datatype job_status = QUEUED | RUNNING | RETRY_WAIT | SUCCEEDED | DEAD_LETTER | JOB_CANCELLED

primrec job_status_value :: "job_status \<Rightarrow> string" where
  "job_status_value QUEUED = ''queued''"
| "job_status_value RUNNING = ''running''"
| "job_status_value RETRY_WAIT = ''retry_wait''"
| "job_status_value SUCCEEDED = ''succeeded''"
| "job_status_value DEAD_LETTER = ''dead_letter''"
| "job_status_value JOB_CANCELLED = ''cancelled''"

record note_payload =
  np_note :: string
  np_timestamp :: instant
  np_labels :: "string list"

text \<open>
  What the JSON library, SHA-256 and PostgreSQL's \<open>jsonb\<close> compute from a payload: the hash of its
  canonical text, the bytes of its JSON text, and the bytes of the stored column.
\<close>

record job_codec =
  jc_fingerprint :: "string \<Rightarrow> note_payload \<Rightarrow> string"
  jc_json_bytes :: "note_payload \<Rightarrow> nat"
  jc_stored_bytes :: "note_payload option \<Rightarrow> nat"

definition nonblank_note :: "string \<Rightarrow> bool" where
  "nonblank_note v \<longleftrightarrow> strip v \<noteq> [] \<and> CHR 0x00 \<notin> set v"

definition bounded_labels :: "string list \<Rightarrow> bool" where
  "bounded_labels vs \<longleftrightarrow> \<not> list_ex (\<lambda>v. strip v = [] \<or> 40 < length v \<or> CHR 0x00 \<in> set v) vs"

definition bounded_storage :: "job_codec \<Rightarrow> note_payload \<Rightarrow> bool" where
  "bounded_storage codec p \<longleftrightarrow> jc_json_bytes codec p \<le> 30000"

definition validate_payload :: "job_codec \<Rightarrow> string \<Rightarrow> py_datetime \<Rightarrow> string list \<Rightarrow> note_payload result" where
  "validate_payload codec text source_timestamp labels =
     (case source_timestamp of
        Naive _ \<Rightarrow> Inl ValueError
      | Aware t \<Rightarrow>
          let p = \<lparr>np_note = text, np_timestamp = t, np_labels = labels\<rparr> in
          if 1 \<le> length text \<and> length text \<le> 8000 \<and> length labels \<le> 12 \<and> nonblank_note text \<and>
             bounded_labels labels \<and> bounded_storage codec p
          then Inr p else Inl ValueError)"

abbreviation JOB_KIND :: string where
  "JOB_KIND \<equiv> ''financial_note_extract''"

record enqueue_job =
  ej_key :: uuid
  ej_payload :: note_payload

definition fingerprint :: "job_codec \<Rightarrow> enqueue_job \<Rightarrow> string" where
  "fingerprint codec command = jc_fingerprint codec JOB_KIND (ej_payload command)"

text \<open>A row of \<open>jobs\<close>; the payload \<open>None\<close> is the empty object \<open>{}\<close>.\<close>

record job_row =
  job_id :: uuid
  job_user :: uuid
  job_key :: uuid
  job_kind :: string
  job_payload :: "note_payload option"
  job_hash :: string
  job_status :: job_status
  job_attempts :: nat
  job_max_attempts :: nat
  job_review_retries :: nat
  job_available_at :: instant
  job_lease_token :: "uuid option"
  job_lease_expires_at :: "instant option"
  job_completed_at :: "instant option"
  job_error_code :: "string option"
  job_result :: "uuid option"
  job_created_at :: instant
  job_updated_at :: instant

record job_db = recurring_db +
  jobs :: "job_row list"

record job_view =
  jv_id :: uuid
  jv_kind :: string
  jv_status :: job_status
  jv_attempts :: nat
  jv_max_attempts :: nat
  jv_review_retries :: nat
  jv_created_at :: instant
  jv_updated_at :: instant
  jv_available_at :: instant
  jv_completed_at :: "instant option"
  jv_error_code :: "string option"
  jv_result :: "uuid option"

record queue_snapshot =
  qs_queued :: nat
  qs_running :: nat
  qs_retry_wait :: nat
  qs_succeeded :: nat
  qs_dead_letter :: nat
  qs_cancelled :: nat
  qs_pending_limit :: nat
  qs_max_attempts :: nat

record lease =
  le_id :: uuid
  le_user :: uuid
  le_token :: uuid
  le_payload :: "note_payload option"
  le_attempts :: nat

definition job_checks :: "job_codec \<Rightarrow> job_row \<Rightarrow> bool" where
  "job_checks codec j \<longleftrightarrow>
     job_kind j = JOB_KIND \<and> job_attempts j \<le> job_max_attempts j \<and> 1 \<le> job_max_attempts j \<and> job_max_attempts j \<le> 5 \<and>
     job_review_retries j \<le> 3 \<and>
     (if job_status j = RUNNING then job_lease_token j \<noteq> None \<and> job_lease_expires_at j \<noteq> None
      else job_lease_token j = None \<and> job_lease_expires_at j = None) \<and>
     jc_stored_bytes codec (job_payload j) \<le> 32768"

definition job_view :: "job_row \<Rightarrow> job_view" where
  "job_view j =
     \<lparr>jv_id = job_id j, jv_kind = job_kind j, jv_status = job_status j, jv_attempts = job_attempts j,
      jv_max_attempts = job_max_attempts j, jv_review_retries = job_review_retries j,
      jv_created_at = job_created_at j, jv_updated_at = job_updated_at j, jv_available_at = job_available_at j,
      jv_completed_at = job_completed_at j, jv_error_code = job_error_code j, jv_result = job_result j\<rparr>"

section \<open>Delays\<close>

text \<open>Seconds to the nearest microsecond, ties to even, as \<open>timedelta\<close> and \<open>make_interval\<close> round.\<close>

definition microseconds :: "rat \<Rightarrow> int" where
  "microseconds s =
     (let x = s * 1000000; f = \<lfloor>x\<rfloor>; d = x - of_int f
      in if d < 1 / 2 \<or> (d = 1 / 2 \<and> even f) then f else f + 1)"

definition retry_delay :: "nat \<Rightarrow> jobs_settings \<Rightarrow> rat \<Rightarrow> rat" where
  "retry_delay attempt s jitter =
     (let ceiling = min (js_max_backoff_seconds s) (js_backoff_seconds s * 2 ^ min (attempt - 1) 10)
      in ceiling * (1 / 2 + 1 / 2 * jitter))"

text \<open>The delay of a recovered lease, computed in SQL.\<close>

definition recovery_delay :: "jobs_settings \<Rightarrow> nat \<Rightarrow> rat \<Rightarrow> rat" where
  "recovery_delay s attempts random =
     min (js_max_backoff_seconds s) (js_backoff_seconds s * 2 ^ (attempts - 1)) * (1 / 2 + 1 / 2 * random)"

section \<open>The repository\<close>

definition active_statuses :: "job_status list" where
  "active_statuses = [QUEUED, RUNNING, RETRY_WAIT]"

definition active_job :: "job_row \<Rightarrow> bool" where
  "active_job j \<longleftrightarrow> job_status j \<in> set active_statuses"

definition repo_get_job :: "uuid \<Rightarrow> uuid \<Rightarrow> 'a job_db_scheme \<Rightarrow> job_row option" where
  "repo_get_job owner i db = select_one (\<lambda>j. job_user j = owner \<and> job_id j = i) (jobs db)"

definition check_capacity :: "jobs_settings \<Rightarrow> uuid \<Rightarrow> 'a job_db_scheme \<Rightarrow> unit result" where
  "check_capacity s owner db =
     (let total = length (filter active_job (jobs db));
          owned = length (filter (\<lambda>j. active_job j \<and> job_user j = owner) (jobs db))
      in bindE (ensure (total < js_max_pending s) (JobError ''JOB_QUEUE_FULL'' 429)) (\<lambda>_.
         ensure (owned < js_max_pending_per_owner s) (JobError ''OWNER_JOB_LIMIT'' 429)))"

definition job_of :: "job_codec \<Rightarrow> jobs_settings \<Rightarrow> uuid \<Rightarrow> enqueue_job \<Rightarrow> instant \<Rightarrow> instant \<Rightarrow> uuid \<Rightarrow> job_row" where
  "job_of codec s owner command started now new_id =
     \<lparr>job_id = new_id, job_user = owner, job_key = ej_key command, job_kind = JOB_KIND,
      job_payload = Some (ej_payload command), job_hash = fingerprint codec command, job_status = QUEUED,
      job_attempts = 0, job_max_attempts = js_max_attempts s, job_review_retries = 0, job_available_at = now,
      job_lease_token = None, job_lease_expires_at = None, job_completed_at = None, job_error_code = None,
      job_result = None, job_created_at = started, job_updated_at = started\<rparr>"

definition enqueue ::
  "job_codec \<Rightarrow> jobs_settings \<Rightarrow> uuid \<Rightarrow> enqueue_job \<Rightarrow> instant \<Rightarrow> instant \<Rightarrow> uuid \<Rightarrow> 'a job_db_scheme \<Rightarrow>
   ('a job_db_scheme \<times> job_view) result" where
  "enqueue codec s owner command started now new_id db =
     (case select_one (\<lambda>j. job_user j = owner \<and> job_key j = ej_key command) (jobs db) of
        Some existing \<Rightarrow>
          if job_hash existing \<noteq> fingerprint codec command then Inl (JobError ''IDEMPOTENCY_CONFLICT'' 409)
          else Inr (db, job_view existing)
      | None \<Rightarrow>
          bindE (check_capacity s owner db) (\<lambda>_.
          let j = job_of codec s owner command started now new_id in
          bindE (ensure (job_checks codec j \<and> fk_user db owner) (IntegrityError ''jobs'')) (\<lambda>_.
          bindE (insert_row job_id j (jobs db)) (\<lambda>rows. Inr (db\<lparr>jobs := rows\<rparr>, job_view j)))))"

text \<open>What a claim reads: the start of its transaction (written to \<open>updated_at\<close> by every update), the clock, the fresh token, and per row the clock, the jitter and foreign locks.\<close>

record claim_env =
  ce_started :: instant
  ce_now :: instant
  ce_token :: uuid
  ce_clock :: "uuid \<Rightarrow> instant"
  ce_random :: "uuid \<Rightarrow> rat"
  ce_locked :: "uuid \<Rightarrow> bool"

definition lease_expired :: "instant \<Rightarrow> job_row \<Rightarrow> bool" where
  "lease_expired now j \<longleftrightarrow>
     job_status j = RUNNING \<and> (case job_lease_expires_at j of None \<Rightarrow> False | Some t \<Rightarrow> t \<le> now)"

definition bury_expired :: "claim_env \<Rightarrow> job_row list \<Rightarrow> job_row list" where
  "bury_expired env =
     modify_rows (\<lambda>j. lease_expired (ce_now env) j \<and> job_max_attempts j \<le> job_attempts j)
       (\<lambda>j. j\<lparr>job_status := DEAD_LETTER, job_error_code := Some ''LEASE_EXPIRED'', job_lease_token := None,
             job_lease_expires_at := None, job_completed_at := Some (ce_now env), job_updated_at := ce_started env\<rparr>)"

definition recover_expired :: "jobs_settings \<Rightarrow> claim_env \<Rightarrow> job_row list \<Rightarrow> job_row list" where
  "recover_expired s env =
     modify_rows (\<lambda>j. lease_expired (ce_now env) j \<and> job_attempts j < job_max_attempts j)
       (\<lambda>j. j\<lparr>job_status := RETRY_WAIT, job_error_code := Some ''LEASE_EXPIRED'', job_lease_token := None,
             job_lease_expires_at := None,
             job_available_at := ce_clock env (job_id j) +
               microseconds (recovery_delay s (job_attempts j) (ce_random env (job_id j))),
             job_updated_at := ce_started env\<rparr>)"

definition claimable :: "claim_env \<Rightarrow> job_row \<Rightarrow> bool" where
  "claimable env j \<longleftrightarrow>
     (job_status j = QUEUED \<or> job_status j = RETRY_WAIT) \<and> job_available_at j \<le> ce_now env \<and>
     job_attempts j < job_max_attempts j \<and> \<not> ce_locked env (job_id j)"

definition claim_key :: "job_row \<Rightarrow> int \<times> int \<times> uuid" where
  "claim_key j = (job_available_at j, job_created_at j, job_id j)"

definition start_job :: "jobs_settings \<Rightarrow> claim_env \<Rightarrow> job_row \<Rightarrow> job_row" where
  "start_job s env j =
     j\<lparr>job_status := RUNNING, job_attempts := job_attempts j + 1, job_lease_token := Some (ce_token env),
       job_lease_expires_at := Some (ce_now env + int (js_lease_seconds s) * 1000000), job_completed_at := None,
       job_updated_at := ce_started env\<rparr>"

definition claim :: "jobs_settings \<Rightarrow> claim_env \<Rightarrow> 'a job_db_scheme \<Rightarrow> 'a job_db_scheme \<times> lease option" where
  "claim s env db =
     (let rows = recover_expired s env (bury_expired env (jobs db));
          db1 = db\<lparr>jobs := rows\<rparr>
      in if js_concurrency s \<le> length (filter (\<lambda>j. job_status j = RUNNING) rows) then (db1, None)
         else case sort_key claim_key (filter (claimable env) rows) of
             [] \<Rightarrow> (db1, None)
           | j # _ \<Rightarrow>
               (db1\<lparr>jobs := modify_rows (\<lambda>r. job_id r = job_id j) (start_job s env) rows\<rparr>,
                Some \<lparr>le_id = job_id j, le_user = job_user j, le_token = ce_token env,
                      le_payload = job_payload j, le_attempts = job_attempts j + 1\<rparr>))"

definition holds_lease :: "lease \<Rightarrow> instant \<Rightarrow> job_row \<Rightarrow> bool" where
  "holds_lease l now j \<longleftrightarrow>
     job_id j = le_id l \<and> job_user j = le_user l \<and> job_status j = RUNNING \<and> job_lease_token j = Some (le_token l) \<and>
     (case job_lease_expires_at j of None \<Rightarrow> False | Some t \<Rightarrow> now < t)"

definition finished_job ::
  "instant \<Rightarrow> instant \<Rightarrow> uuid option \<Rightarrow> string option \<Rightarrow> bool \<Rightarrow> rat \<Rightarrow> job_row \<Rightarrow> job_row" where
  "finished_job started now outcome error_code retryable delay_seconds j =
     (let j1 = j\<lparr>job_lease_token := None, job_lease_expires_at := None, job_error_code := error_code,
                job_updated_at := started\<rparr>
      in case outcome of
           Some proposal \<Rightarrow>
             j1\<lparr>job_status := SUCCEEDED, job_result := Some proposal, job_completed_at := Some now, job_payload := None\<rparr>
         | None \<Rightarrow>
             if retryable \<and> job_attempts j < job_max_attempts j
             then j1\<lparr>job_status := RETRY_WAIT, job_available_at := now + microseconds delay_seconds\<rparr>
             else j1\<lparr>job_status := DEAD_LETTER, job_completed_at := Some now\<rparr>)"

definition finish ::
  "lease \<Rightarrow> uuid option \<Rightarrow> string option \<Rightarrow> bool \<Rightarrow> rat \<Rightarrow> instant \<Rightarrow> instant \<Rightarrow> 'a job_db_scheme \<Rightarrow>
   'a job_db_scheme \<times> bool" where
  "finish l outcome error_code retryable delay_seconds started now db =
     (case select_one (holds_lease l now) (jobs db) of
        None \<Rightarrow> (db, False)
      | Some j \<Rightarrow>
          (db\<lparr>jobs := modify_rows (\<lambda>r. job_id r = job_id j)
              (finished_job started now outcome error_code retryable delay_seconds) (jobs db)\<rparr>, True))"

text \<open>\<open>updated_at\<close> of an ORM update is the start of the transaction.\<close>

definition requeued_job :: "instant \<Rightarrow> instant \<Rightarrow> job_row \<Rightarrow> job_row" where
  "requeued_job started now j =
     j\<lparr>job_status := QUEUED, job_attempts := 0, job_review_retries := job_review_retries j + 1, job_available_at := now,
       job_completed_at := None, job_error_code := None, job_updated_at := started\<rparr>"

definition review_retry ::
  "jobs_settings \<Rightarrow> uuid \<Rightarrow> uuid \<Rightarrow> instant \<Rightarrow> instant \<Rightarrow> 'a job_db_scheme \<Rightarrow> ('a job_db_scheme \<times> job_view) result" where
  "review_retry s owner i started now db =
     bindE (require (JobError ''JOB_NOT_FOUND'' 404) (repo_get_job owner i db)) (\<lambda>j.
     bindE (ensure (job_status j = DEAD_LETTER \<and> job_review_retries j < 3) (JobError ''JOB_NOT_RETRYABLE'' 409)) (\<lambda>_.
     bindE (check_capacity s owner db) (\<lambda>_.
       Inr (db\<lparr>jobs := modify_rows (\<lambda>r. job_id r = i) (requeued_job started now) (jobs db)\<rparr>,
            job_view (requeued_job started now j)))))"

definition cancelled_job :: "instant \<Rightarrow> instant \<Rightarrow> job_row \<Rightarrow> job_row" where
  "cancelled_job started now j =
     j\<lparr>job_status := JOB_CANCELLED, job_completed_at := Some now, job_payload := None, job_updated_at := started\<rparr>"

definition cancel_job ::
  "uuid \<Rightarrow> uuid \<Rightarrow> instant \<Rightarrow> instant \<Rightarrow> 'a job_db_scheme \<Rightarrow> ('a job_db_scheme \<times> job_view) result" where
  "cancel_job owner i started now db =
     bindE (require (JobError ''JOB_NOT_FOUND'' 404) (repo_get_job owner i db)) (\<lambda>j.
       if job_status j = JOB_CANCELLED then Inr (db, job_view j)
       else bindE (ensure (job_status j = QUEUED \<or> job_status j = RETRY_WAIT) (JobError ''JOB_CANNOT_CANCEL'' 409)) (\<lambda>_.
         Inr (db\<lparr>jobs := modify_rows (\<lambda>r. job_id r = i) (cancelled_job started now) (jobs db)\<rparr>,
              job_view (cancelled_job started now j))))"

section \<open>The service\<close>

definition get_job :: "uuid \<Rightarrow> uuid \<Rightarrow> 'a job_db_scheme \<Rightarrow> job_view result" where
  "get_job owner i db =
     bindE (require (JobError ''JOB_NOT_FOUND'' 404) (repo_get_job owner i db)) (\<lambda>j. Inr (job_view j))"

definition list_jobs :: "uuid \<Rightarrow> job_status option \<Rightarrow> int \<Rightarrow> 'a job_db_scheme \<Rightarrow> (job_view list) result" where
  "list_jobs owner status limit db =
     (if \<not> (1 \<le> limit \<and> limit \<le> 50) then Inl (JobError ''INVALID_JOB_LIMIT'' 422)
      else Inr (map job_view (take (nat limit)
        (sort_key (\<lambda>j. (- job_created_at j, job_id j))
          (filter (\<lambda>j. job_user j = owner \<and> (case status of None \<Rightarrow> True | Some st \<Rightarrow> job_status j = st)) (jobs db))))))"

definition snapshot :: "jobs_settings \<Rightarrow> uuid \<Rightarrow> 'a job_db_scheme \<Rightarrow> queue_snapshot" where
  "snapshot s owner db =
     (let n = \<lambda>st. length (filter (\<lambda>j. job_user j = owner \<and> job_status j = st) (jobs db))
      in \<lparr>qs_queued = n QUEUED, qs_running = n RUNNING, qs_retry_wait = n RETRY_WAIT, qs_succeeded = n SUCCEEDED,
          qs_dead_letter = n DEAD_LETTER, qs_cancelled = n JOB_CANCELLED,
          qs_pending_limit = js_max_pending_per_owner s, qs_max_attempts = js_max_attempts s\<rparr>)"

section \<open>The worker\<close>

text \<open>How \<open>submit_manual_note\<close> can end, as the worker sees it.\<close>

datatype note_outcome =
    Submitted uuid
  | Raised error
  | Invalid_Payload
  | Timed_Out
  | Database_Failed

text \<open>
  The \<open>except\<close> clauses of \<open>_execute\<close>: the result, the error code and whether to retry. An exception
  that no clause names leaves the method (\<open>Inl\<close>).
\<close>

fun settle_outcome_of :: "note_outcome \<Rightarrow> (uuid option \<times> string option \<times> bool) result" where
  "settle_outcome_of (Submitted proposal) = Inr (Some proposal, None, False)"
| "settle_outcome_of (Raised (AIProviderError code)) =
     Inr (None, Some (if code = ''AI_PROVIDER_DISABLED'' then ''AI_PROVIDER_DISABLED'' else ''PROVIDER_UNAVAILABLE''),
          code \<noteq> ''AI_PROVIDER_DISABLED'')"
| "settle_outcome_of (Raised (AIOutputError code)) = Inr (None, Some ''EXTRACTION_REVIEW_REQUIRED'', False)"
| "settle_outcome_of (Raised (ProposalReviewError code)) = Inr (None, Some ''EXTRACTION_REVIEW_REQUIRED'', False)"
| "settle_outcome_of (Raised (ConnectorContentError code)) = Inr (None, Some ''EXTRACTION_REVIEW_REQUIRED'', False)"
| "settle_outcome_of Invalid_Payload = Inr (None, Some ''INVALID_JOB_PAYLOAD'', False)"
| "settle_outcome_of Timed_Out = Inr (None, Some ''JOB_TIMEOUT'', True)"
| "settle_outcome_of Database_Failed = Inr (None, Some ''JOB_DATABASE_ERROR'', True)"
| "settle_outcome_of (Raised e) = Inl e"

text \<open>
  \<open>_execute\<close> for a given outcome of the extraction: the settling transaction, with the clock and the
  jitter it reads.
\<close>

definition execute_lease ::
  "jobs_settings \<Rightarrow> lease \<Rightarrow> note_outcome \<Rightarrow> rat \<Rightarrow> instant \<Rightarrow> instant \<Rightarrow> 'a job_db_scheme \<Rightarrow>
   ('a job_db_scheme \<times> bool) result" where
  "execute_lease s l outcome jitter started now db =
     bindE (settle_outcome_of (if le_payload l = None then Invalid_Payload else outcome))
       (\<lambda>(proposal, error_code, retryable).
         Inr (finish l proposal error_code retryable (retry_delay (le_attempts l) s jitter) started now db))"

text \<open>The pause of an idle slot after a number of consecutive queue failures.\<close>

definition idle_seconds :: "jobs_settings \<Rightarrow> nat \<Rightarrow> rat" where
  "idle_seconds s failures = min (js_poll_seconds s * 2 ^ failures) 30"

definition next_failures :: "nat \<Rightarrow> bool \<Rightarrow> nat" where
  "next_failures failures queue_failed = (if queue_failed then min (failures + 1) 5 else 0)"

end
