(* ===== verification/Job_Laws.thy ===== *)
theory Job_Laws
  imports Jobs
begin

text \<open>
  Correctness of the job queue over every interleaving of its transactions: the admission bounds, the
  lease discipline, the number of attempts and the lifecycle of a job.
\<close>

section \<open>Histories\<close>

text \<open>
  The log of all leases ever handed out is kept beside the tables, newest first; a token drawn by a
  claim has not been drawn before. All replicas share the settings. Steps of other components leave
  the queue and the users alone.
\<close>

inductive queue_step ::
  "job_codec \<Rightarrow> jobs_settings \<Rightarrow> 'a job_db_scheme \<times> lease list \<Rightarrow> 'a job_db_scheme \<times> lease list \<Rightarrow> bool"
  for codec s where
  enqueued: "enqueue codec s u c started now n db = Inr (db', v) \<Longrightarrow> queue_step codec s (db, hist) (db', hist)"
| claimed: "claim s env db = (db', Some l) \<Longrightarrow> ce_token env \<notin> le_token ` set hist \<Longrightarrow>
    queue_step codec s (db, hist) (db', l # hist)"
| idle: "claim s env db = (db', None) \<Longrightarrow> queue_step codec s (db, hist) (db', hist)"
| finished: "finish l outcome error_code retryable delay started now db = (db', completed) \<Longrightarrow>
    queue_step codec s (db, hist) (db', hist)"
| retried: "review_retry s u i started now db = Inr (db', v) \<Longrightarrow> queue_step codec s (db, hist) (db', hist)"
| cancelled: "cancel_job u i started now db = Inr (db', v) \<Longrightarrow> queue_step codec s (db, hist) (db', hist)"
| elsewhere: "jobs db' = jobs db \<Longrightarrow> users db' = users db \<Longrightarrow> queue_step codec s (db, hist) (db', hist)"

inductive_cases queue_stepE: "queue_step codec s x y"

section \<open>The invariant\<close>

definition claims :: "uuid \<Rightarrow> lease list \<Rightarrow> nat" where
  "claims i hist = length (filter (\<lambda>l. le_id l = i) hist)"

definition running :: "job_row \<Rightarrow> bool" where
  "running j \<longleftrightarrow> job_status j = RUNNING"

definition job_ok :: "job_codec \<Rightarrow> 'a job_db_scheme \<Rightarrow> lease list \<Rightarrow> job_row \<Rightarrow> bool" where
  "job_ok codec db hist j \<longleftrightarrow>
     job_checks codec j \<and> fk_user db (job_user j) \<and>
     (job_payload j = None \<longleftrightarrow> job_status j = SUCCEEDED \<or> job_status j = JOB_CANCELLED) \<and>
     (job_result j \<noteq> None \<longleftrightarrow> job_status j = SUCCEEDED) \<and>
     (job_status j = QUEUED \<longrightarrow> job_attempts j = 0) \<and>
     (job_status j = RUNNING \<longrightarrow> 1 \<le> job_attempts j \<and>
       (\<exists>l \<in> set hist. job_lease_token j = Some (le_token l) \<and> le_id l = job_id j)) \<and>
     claims (job_id j) hist \<le> job_attempts j + job_review_retries j * job_max_attempts j"

fun queue_wf :: "job_codec \<Rightarrow> jobs_settings \<Rightarrow> 'a job_db_scheme \<times> lease list \<Rightarrow> bool" where
  "queue_wf codec s (db, hist) \<longleftrightarrow>
     distinct (map job_id (jobs db)) \<and> distinct (map (\<lambda>j. (job_user j, job_key j)) (jobs db)) \<and>
     (\<forall>j \<in> set (jobs db). job_ok codec db hist j) \<and>
     distinct (map le_token hist) \<and> (\<forall>l \<in> set hist. le_id l \<in> job_id ` set (jobs db)) \<and>
     length (filter running (jobs db)) \<le> js_concurrency s \<and>
     length (filter active_job (jobs db)) \<le> js_max_pending s \<and>
     (\<forall>u. length (filter (\<lambda>j. active_job j \<and> job_user j = u) (jobs db)) \<le> js_max_pending_per_owner s)"

text \<open>What is assumed of the libraries and of the configuration.\<close>

definition queue_setup :: "job_codec \<Rightarrow> jobs_settings \<Rightarrow> bool" where
  "queue_setup codec s \<longleftrightarrow> settings_ok s \<and> jc_stored_bytes codec None \<le> 32768"

section \<open>Counting rows\<close>

lemma count_modify_le:
  "(\<And>r. r \<in> set rows \<Longrightarrow> P r \<Longrightarrow> Q (f r) \<Longrightarrow> Q r) \<Longrightarrow>
    length (filter Q (modify_rows P f rows)) \<le> length (filter Q rows)"
  by (induction rows) (auto intro: le_SucI)

lemma count_modify_one:
  assumes "distinct (map key rows)"
  shows "length (filter Q (modify_rows (\<lambda>r. key r = i) f rows)) \<le> length (filter Q rows) + 1"
  using assms
proof (induction rows)
  case (Cons a rows)
  show ?case
  proof (cases "key a = i")
    case True
    have "key a \<notin> key ` set rows" using Cons.prems by simp
    then have "key x \<noteq> i" if "x \<in> set rows" for x using that True by (metis imageI)
    then have "modify_rows (\<lambda>r. key r = i) f rows = rows" unfolding modify_rows_def by (intro map_idI) simp
    with True show ?thesis by (auto simp: le_SucI)
  qed (use Cons in auto)
qed simp

text \<open>A row change that keeps the keys, keeps or lowers the counts, and gives a row in order.\<close>

lemma queue_wf_modify:
  assumes "queue_wf codec s (db, hist)"
    and keys: "\<And>j. job_id (f j) = job_id j \<and> job_user (f j) = job_user j \<and> job_key (f j) = job_key j"
    and ok: "\<And>j. j \<in> set (jobs db) \<Longrightarrow> P j \<Longrightarrow> job_ok codec db hist j \<Longrightarrow> job_ok codec db hist (f j)"
    and run: "\<And>j. j \<in> set (jobs db) \<Longrightarrow> P j \<Longrightarrow> running (f j) \<Longrightarrow> running j"
    and act: "\<And>j. j \<in> set (jobs db) \<Longrightarrow> P j \<Longrightarrow> active_job (f j) \<Longrightarrow> active_job j"
  shows "queue_wf codec s (db\<lparr>jobs := modify_rows P f (jobs db)\<rparr>, hist)"
proof -
  let ?rows = "modify_rows P f (jobs db)"
  have frame: "job_ok codec (db\<lparr>jobs := rows\<rparr>) hist j = job_ok codec db hist j" for rows j
    by (simp add: job_ok_def fk_user_def)
  have k: "map job_id ?rows = map job_id (jobs db)"
    "map (\<lambda>j. (job_user j, job_key j)) ?rows = map (\<lambda>j. (job_user j, job_key j)) (jobs db)"
    using keys by (auto simp: modify_rows_def)
  have "set (map job_id ?rows) = set (map job_id (jobs db))" by (simp only: k)
  then have ids: "job_id ` set ?rows = job_id ` set (jobs db)" by simp
  have c1: "length (filter running ?rows) \<le> length (filter running (jobs db))"
    by (rule count_modify_le) (rule run)
  have c2: "length (filter active_job ?rows) \<le> length (filter active_job (jobs db))"
    by (rule count_modify_le) (rule act)
  have c3: "length (filter (\<lambda>j. active_job j \<and> job_user j = u) ?rows) \<le>
      length (filter (\<lambda>j. active_job j \<and> job_user j = u) (jobs db))" for u
    using act keys by (intro count_modify_le) auto
  have "\<forall>j \<in> set ?rows. job_ok codec db hist j"
    using assms(1) ok by (auto simp: set_modify_rows)
  then show ?thesis
    using assms(1) c1 c2 le_trans [OF c3] by (simp add: k ids frame)
qed

lemma queue_wf_owner:
  "queue_wf codec s (db, hist) \<Longrightarrow>
    length (filter (\<lambda>j. active_job j \<and> job_user j = u) (jobs db)) \<le> js_max_pending_per_owner s"
  by simp

lemma queue_wf_frame:
  assumes "queue_wf codec s (db, hist)" "jobs db' = jobs db" "users db' = users db"
  shows "queue_wf codec s (db', hist)"
  using assms by (auto simp: job_ok_def fk_user_def)

section \<open>Each operation keeps the invariant\<close>

lemma not_running_simps [simp]:
  "running (j\<lparr>job_status := st\<rparr>) \<longleftrightarrow> st = RUNNING"
  by (simp add: running_def)

lemma enqueue_Inr:
  assumes "enqueue codec s u c started now n db = Inr (db', v)"
  shows "(\<exists>j \<in> set (jobs db). job_user j = u \<and> job_key j = ej_key c \<and> job_hash j = fingerprint codec c \<and> db' = db \<and> v = job_view j) \<or>
    (u, ej_key c) \<notin> (\<lambda>j. (job_user j, job_key j)) ` set (jobs db) \<and> check_capacity s u db = Inr () \<and>
    job_checks codec (job_of codec s u c started now n) \<and> fk_user db u \<and> n \<notin> job_id ` set (jobs db) \<and>
    db' = db\<lparr>jobs := jobs db @ [job_of codec s u c started now n]\<rparr> \<and> v = job_view (job_of codec s u c started now n)"
  using assms
  by (auto simp: enqueue_def result_simps table_simps Let_def select_one_None job_of_def image_iff
      split: option.splits if_splits dest: select_one_SomeD)

lemma check_capacity_Inr:
  "check_capacity s u db = Inr () \<longleftrightarrow>
    length (filter active_job (jobs db)) < js_max_pending s \<and>
    length (filter (\<lambda>j. active_job j \<and> job_user j = u) (jobs db)) < js_max_pending_per_owner s"
  by (auto simp: check_capacity_def Let_def result_simps)

lemma enqueue_wf:
  assumes "enqueue codec s u c started now n db = Inr (db', v)" "queue_wf codec s (db, hist)"
  shows "queue_wf codec s (db', hist)"
proof (cases "db' = db")
  case False
  let ?j = "job_of codec s u c started now n"
  from False enqueue_Inr [OF assms(1)] have
    key: "(u, ej_key c) \<notin> (\<lambda>j. (job_user j, job_key j)) ` set (jobs db)" and cap: "check_capacity s u db = Inr ()" and
    ok: "job_checks codec ?j" "fk_user db u" "n \<notin> job_id ` set (jobs db)" and db': "db' = db\<lparr>jobs := jobs db @ [?j]\<rparr>" by blast+
  have frame: "job_ok codec db' hist j = job_ok codec db hist j" for j by (simp add: job_ok_def fk_user_def db')
  have "claims n hist = 0" using assms(2) ok(3) by (auto simp: claims_def filter_empty_conv)
  then have "job_ok codec db hist ?j" using ok by (simp add: job_ok_def job_of_def)
  moreover have "\<not> running ?j" by (simp add: running_def job_of_def)
  moreover have "job_user ?j = u" "job_key ?j = ej_key c" "job_id ?j = n" by (simp_all add: job_of_def)
  ultimately show ?thesis
    using assms(2) key ok(3) cap frame by (auto simp: db' check_capacity_Inr image_iff)
qed (use assms in simp)

lemma finish_cases:
  assumes "finish l outcome error_code retryable delay started now db = (db', completed)"
  shows "completed = False \<and> db' = db \<or>
    completed = True \<and> (\<exists>j \<in> set (jobs db). holds_lease l now j \<and>
      db' = db\<lparr>jobs := modify_rows (\<lambda>r. job_id r = job_id j) (finished_job started now outcome error_code retryable delay) (jobs db)\<rparr>)"
  using assms by (auto simp: finish_def split: option.splits dest: select_one_SomeD)

lemma finished_job_fields:
  "job_id (finished_job a b c d e f j) = job_id j" "job_user (finished_job a b c d e f j) = job_user j"
  "job_key (finished_job a b c d e f j) = job_key j" "job_hash (finished_job a b c d e f j) = job_hash j"
  "job_status (finished_job a b c d e f j) \<in> {SUCCEEDED, RETRY_WAIT, DEAD_LETTER}"
  by (auto simp: finished_job_def Let_def split: option.splits)

lemma finished_job_ok:
  assumes "job_ok codec db hist j" "running j" "jc_stored_bytes codec None \<le> 32768"
  shows "job_ok codec db hist (finished_job started now outcome error_code retryable delay j)"
  using assms by (auto simp: job_ok_def job_checks_def running_def finished_job_def Let_def split: option.splits)

lemma same_id:
  "distinct (map job_id (jobs db)) \<Longrightarrow> i \<in> set (jobs db) \<Longrightarrow> j \<in> set (jobs db) \<Longrightarrow> job_id i = job_id j \<Longrightarrow> i = j"
  by (auto simp: distinct_map inj_on_def)

lemma finish_wf:
  assumes "finish l outcome error_code retryable delay started now db = (db', completed)" "queue_wf codec s (db, hist)"
    and "jc_stored_bytes codec None \<le> 32768"
  shows "queue_wf codec s (db', hist)"
  using finish_cases [OF assms(1)]
proof (elim disjE conjE bexE)
  fix j assume j: "j \<in> set (jobs db)" "holds_lease l now j" and
    db': "db' = db\<lparr>jobs := modify_rows (\<lambda>r. job_id r = job_id j) (finished_job started now outcome error_code retryable delay) (jobs db)\<rparr>"
  have only: "x = j" if "x \<in> set (jobs db)" "job_id x = job_id j" for x
    using same_id that j(1) assms(2) by (auto simp del: queue_wf.simps simp: queue_wf.simps [of codec s db hist])
  have run: "running j" using j(2) by (simp add: holds_lease_def running_def)
  show ?thesis
    unfolding db'
  proof (rule queue_wf_modify [OF assms(2)])
    show "job_ok codec db hist (finished_job started now outcome error_code retryable delay x)"
      if "x \<in> set (jobs db)" "job_id x = job_id j" "job_ok codec db hist x" for x
      using finished_job_ok [OF that(3) _ assms(3)] only [OF that(1,2)] run by simp
    show "active_job x" if "x \<in> set (jobs db)" "job_id x = job_id j" for x
      using only [OF that] run by (simp add: active_job_def active_statuses_def running_def)
    show "running x" if "x \<in> set (jobs db)" "job_id x = job_id j" for x
      using only [OF that] run by simp
  qed (simp add: finished_job_fields)
qed (use assms in simp)

lemma bury_wf:
  assumes "queue_wf codec s (db, hist)"
  shows "queue_wf codec s (db\<lparr>jobs := bury_expired env (jobs db)\<rparr>, hist)"
  unfolding bury_expired_def
  using assms
  by (rule queue_wf_modify)
    (auto simp: lease_expired_def job_ok_def job_checks_def running_def active_job_def active_statuses_def)

lemma recover_wf:
  assumes "queue_wf codec s (db, hist)"
  shows "queue_wf codec s (db\<lparr>jobs := recover_expired s env (jobs db)\<rparr>, hist)"
  unfolding recover_expired_def
  using assms
  by (rule queue_wf_modify)
    (auto simp: lease_expired_def job_ok_def job_checks_def running_def active_job_def active_statuses_def)

definition swept :: "jobs_settings \<Rightarrow> claim_env \<Rightarrow> 'a job_db_scheme \<Rightarrow> 'a job_db_scheme" where
  "swept s env db = db\<lparr>jobs := recover_expired s env (bury_expired env (jobs db))\<rparr>"

lemma swept_wf: "queue_wf codec s (db, hist) \<Longrightarrow> queue_wf codec s (swept s env db, hist)"
  using recover_wf [OF bury_wf, of codec s db hist env env] by (simp add: swept_def del: queue_wf.simps)

lemma claim_None: "claim s env db = (db', None) \<Longrightarrow> db' = swept s env db"
  by (auto simp: claim_def swept_def Let_def split: if_splits list.splits)

lemma claim_Some:
  assumes "claim s env db = (db', Some l)"
  shows "\<exists>j. j \<in> set (jobs (swept s env db)) \<and> claimable env j \<and>
    (\<forall>x \<in> set (jobs (swept s env db)). claimable env x \<longrightarrow> claim_key j \<le> claim_key x) \<and>
    length (filter running (jobs (swept s env db))) < js_concurrency s \<and>
    l = \<lparr>le_id = job_id j, le_user = job_user j, le_token = ce_token env, le_payload = job_payload j,
         le_attempts = job_attempts j + 1\<rparr> \<and>
    db' = (swept s env db)\<lparr>jobs := modify_rows (\<lambda>r. job_id r = job_id j) (start_job s env) (jobs (swept s env db))\<rparr>"
proof -
  let ?rows = "jobs (swept s env db)"
  have r: "recover_expired s env (bury_expired env (jobs db)) = ?rows" by (simp add: swept_def)
  have c: "length (filter (\<lambda>j. job_status j = RUNNING) ?rows) = length (filter running ?rows)"
    by (simp add: running_def [abs_def])
  from assms obtain j rest where
    less: "\<not> js_concurrency s \<le> length (filter running ?rows)" and
    first: "sort_key claim_key (filter (claimable env) ?rows) = j # rest" and
    l: "l = \<lparr>le_id = job_id j, le_user = job_user j, le_token = ce_token env, le_payload = job_payload j,
         le_attempts = job_attempts j + 1\<rparr>" and
    db': "db' = (swept s env db)\<lparr>jobs := modify_rows (\<lambda>r. job_id r = job_id j) (start_job s env) ?rows\<rparr>"
    by (auto simp: claim_def Let_def r c split: if_splits list.splits) (auto simp: swept_def)
  from sort_key_first [OF first] less l db' show ?thesis by auto
qed

lemma start_job_fields [simp]:
  "job_id (start_job s env j) = job_id j" "job_user (start_job s env j) = job_user j" "job_key (start_job s env j) = job_key j"
  "job_hash (start_job s env j) = job_hash j"
  "job_status (start_job s env j) = RUNNING" "job_lease_token (start_job s env j) = Some (ce_token env)"
  by (simp_all add: start_job_def)

lemma claims_Cons: "claims i (l # hist) = (if le_id l = i then claims i hist + 1 else claims i hist)"
  by (simp add: claims_def)

lemma claim_wf:
  assumes "claim s env db = (db', Some l)" "queue_wf codec s (db, hist)" "ce_token env \<notin> le_token ` set hist"
  shows "queue_wf codec s (db', l # hist)"
proof -
  let ?d = "swept s env db"
  have wf: "queue_wf codec s (?d, hist)" by (rule swept_wf [OF assms(2)])
  from claim_Some [OF assms(1)] obtain j where
    j: "j \<in> set (jobs ?d)" "claimable env j" and less: "length (filter running (jobs ?d)) < js_concurrency s" and
    l: "le_id l = job_id j" "le_token l = ce_token env" and
    db': "db' = ?d\<lparr>jobs := modify_rows (\<lambda>r. job_id r = job_id j) (start_job s env) (jobs ?d)\<rparr>" by auto
  let ?rows = "modify_rows (\<lambda>r. job_id r = job_id j) (start_job s env) (jobs ?d)"
  have d: "distinct (map job_id (jobs ?d))" using wf by simp
  have only: "x = j" if "x \<in> set (jobs ?d)" "job_id x = job_id j" for x using same_id [OF d] that j(1) by simp
  have waiting: "active_job j" "\<not> running j" using j(2) by (auto simp: claimable_def active_job_def active_statuses_def running_def)
  have k: "map job_id ?rows = map job_id (jobs ?d)"
    "map (\<lambda>j. (job_user j, job_key j)) ?rows = map (\<lambda>j. (job_user j, job_key j)) (jobs ?d)"
    by (auto simp: modify_rows_def)
  have "set (map job_id ?rows) = set (map job_id (jobs ?d))" by (simp only: k)
  then have ids: "job_id ` set ?rows = job_id ` set (jobs ?d)" by simp
  have run: "length (filter running ?rows) \<le> js_concurrency s"
    using count_modify_one [OF d, of running "job_id j" "start_job s env"] less by linarith
  have act: "length (filter active_job ?rows) \<le> js_max_pending s"
  proof -
    have "length (filter active_job ?rows) \<le> length (filter active_job (jobs ?d))"
      by (rule count_modify_le) (metis only waiting(1))
    with wf show ?thesis by simp
  qed
  have own: "length (filter (\<lambda>j. active_job j \<and> job_user j = u) ?rows) \<le> js_max_pending_per_owner s" for u
  proof -
    have "length (filter (\<lambda>j. active_job j \<and> job_user j = u) ?rows) \<le>
        length (filter (\<lambda>j. active_job j \<and> job_user j = u) (jobs ?d))"
      by (rule count_modify_le) (metis only waiting(1) start_job_fields(2))
    then show ?thesis using queue_wf_owner [OF wf] by (rule le_trans)
  qed
  have ok: "job_ok codec db' (l # hist) x" if x: "x \<in> set ?rows" for x
  proof -
    from x obtain y where y: "y \<in> set (jobs ?d)" "x = (if job_id y = job_id j then start_job s env y else y)"
      by (auto simp: set_modify_rows)
    have oky: "job_ok codec ?d hist y" using wf y(1) by simp
    show ?thesis
    proof (cases "job_id y = job_id j")
      case True
      then have "y = j" using only y(1) by simp
      with True y oky j(2) show ?thesis
        by (auto simp: db' job_ok_def job_checks_def start_job_def fk_user_def claimable_def claims_Cons l)
    next
      case False
      with y oky l(1) show ?thesis by (auto simp: db' job_ok_def fk_user_def claims_Cons)
    qed
  qed
  show ?thesis
    using wf ok run act own assms(3) l j(1)
    by (simp add: db' k ids)
qed

lemma requeued_job_ok:
  assumes "job_ok codec db hist j" "job_status j = DEAD_LETTER" "job_review_retries j < 3"
  shows "job_ok codec db hist (requeued_job started now j)"
  using assms by (auto simp: job_ok_def job_checks_def requeued_job_def)

lemma review_retry_Inr:
  assumes "review_retry s u i started now db = Inr (db', v)"
  shows "\<exists>j. repo_get_job u i db = Some j \<and> job_status j = DEAD_LETTER \<and> job_review_retries j < 3 \<and>
    check_capacity s u db = Inr () \<and> db' = db\<lparr>jobs := modify_rows (\<lambda>r. job_id r = i) (requeued_job started now) (jobs db)\<rparr> \<and>
    v = job_view (requeued_job started now j)"
  using assms by (auto simp: review_retry_def result_simps)

lemma repo_get_job_Some: "repo_get_job u i db = Some j \<Longrightarrow> j \<in> set (jobs db) \<and> job_user j = u \<and> job_id j = i"
  by (auto simp: repo_get_job_def dest: select_one_SomeD)

lemma requeued_fields [simp]:
  "job_id (requeued_job a b j) = job_id j" "job_user (requeued_job a b j) = job_user j" "job_key (requeued_job a b j) = job_key j"
  "job_hash (requeued_job a b j) = job_hash j" "job_status (requeued_job a b j) = QUEUED"
  by (simp_all add: requeued_job_def)

lemma review_retry_wf:
  assumes "review_retry s u i started now db = Inr (db', v)" "queue_wf codec s (db, hist)"
  shows "queue_wf codec s (db', hist)"
proof -
  from review_retry_Inr [OF assms(1)] obtain j where
    j: "repo_get_job u i db = Some j" "job_status j = DEAD_LETTER" "job_review_retries j < 3" and
    cap: "check_capacity s u db = Inr ()" and
    db': "db' = db\<lparr>jobs := modify_rows (\<lambda>r. job_id r = i) (requeued_job started now) (jobs db)\<rparr>" by blast
  note mem = repo_get_job_Some [OF j(1)]
  let ?rows = "modify_rows (\<lambda>r. job_id r = i) (requeued_job started now) (jobs db)"
  have d: "distinct (map job_id (jobs db))" using assms(2) by simp
  have only: "x = j" if "x \<in> set (jobs db)" "job_id x = i" for x using same_id [OF d] that mem by simp
  have k: "map job_id ?rows = map job_id (jobs db)"
    "map (\<lambda>j. (job_user j, job_key j)) ?rows = map (\<lambda>j. (job_user j, job_key j)) (jobs db)"
    by (auto simp: modify_rows_def)
  have "set (map job_id ?rows) = set (map job_id (jobs db))" by (simp only: k)
  then have ids: "job_id ` set ?rows = job_id ` set (jobs db)" by simp
  have run: "length (filter running ?rows) \<le> js_concurrency s"
  proof -
    have "length (filter running ?rows) \<le> length (filter running (jobs db))"
      by (rule count_modify_le) (simp add: running_def)
    with assms(2) show ?thesis by simp
  qed
  have act: "length (filter active_job ?rows) \<le> js_max_pending s"
    using count_modify_one [OF d, of active_job i "requeued_job started now"] cap by (simp add: check_capacity_Inr)
  have own: "length (filter (\<lambda>j. active_job j \<and> job_user j = w) ?rows) \<le> js_max_pending_per_owner s" for w
  proof (cases "w = u")
    case True
    then show ?thesis
      using count_modify_one [OF d, of "\<lambda>j. active_job j \<and> job_user j = w" i "requeued_job started now"] cap
      by (simp add: check_capacity_Inr)
  next
    case False
    have "length (filter (\<lambda>j. active_job j \<and> job_user j = w) ?rows) \<le> length (filter (\<lambda>j. active_job j \<and> job_user j = w) (jobs db))"
      using only mem False by (intro count_modify_le) auto
    then show ?thesis using queue_wf_owner [OF assms(2)] by (rule le_trans)
  qed
  have ok: "job_ok codec db hist x" if x: "x \<in> set ?rows" for x
  proof -
    from x obtain y where y: "y \<in> set (jobs db)" "x = (if job_id y = i then requeued_job started now y else y)"
      by (auto simp: set_modify_rows)
    then have "job_ok codec db hist y" using assms(2) by simp
    with y only [OF y(1)] requeued_job_ok [OF _ j(2,3)] show ?thesis by (cases "job_id y = i") simp_all
  qed
  have frame: "job_ok codec db' hist x = job_ok codec db hist x" for x by (simp add: job_ok_def fk_user_def db')
  show ?thesis using assms(2) ok run act own by (simp add: db' [symmetric] frame) (simp add: db' k ids)
qed

lemma cancel_job_Inr:
  assumes "cancel_job u i started now db = Inr (db', v)"
  shows "\<exists>j. repo_get_job u i db = Some j \<and>
    (job_status j = JOB_CANCELLED \<and> db' = db \<and> v = job_view j \<or>
     (job_status j = QUEUED \<or> job_status j = RETRY_WAIT) \<and> v = job_view (cancelled_job started now j) \<and>
       db' = db\<lparr>jobs := modify_rows (\<lambda>r. job_id r = i) (cancelled_job started now) (jobs db)\<rparr>)"
  using assms by (auto simp: cancel_job_def result_simps split: if_splits)

lemma cancelled_fields [simp]:
  "job_id (cancelled_job a b j) = job_id j" "job_user (cancelled_job a b j) = job_user j" "job_key (cancelled_job a b j) = job_key j"
  "job_hash (cancelled_job a b j) = job_hash j" "job_status (cancelled_job a b j) = JOB_CANCELLED"
  by (simp_all add: cancelled_job_def)

lemma cancel_job_wf:
  assumes "cancel_job u i started now db = Inr (db', v)" "queue_wf codec s (db, hist)" "jc_stored_bytes codec None \<le> 32768"
  shows "queue_wf codec s (db', hist)"
proof (cases "db' = db")
  case False
  with cancel_job_Inr [OF assms(1)] obtain j where
    j: "repo_get_job u i db = Some j" "job_status j = QUEUED \<or> job_status j = RETRY_WAIT" and
    db': "db' = db\<lparr>jobs := modify_rows (\<lambda>r. job_id r = i) (cancelled_job started now) (jobs db)\<rparr>" by blast
  have d: "distinct (map job_id (jobs db))" using assms(2) by simp
  have only: "x = j" if "x \<in> set (jobs db)" "job_id x = i" for x
    using same_id [OF d] that repo_get_job_Some [OF j(1)] by simp
  show ?thesis
    unfolding db'
  proof (rule queue_wf_modify [OF assms(2)])
    show "job_ok codec db hist (cancelled_job started now x)" if "x \<in> set (jobs db)" "job_id x = i" "job_ok codec db hist x" for x
      using that only j(2) assms(3) by (auto simp: job_ok_def job_checks_def cancelled_job_def)
  qed (simp_all add: running_def active_job_def active_statuses_def)
qed (use assms in simp)

lemma queue_step_wf:
  assumes "queue_step codec s x y" "queue_wf codec s x" "queue_setup codec s"
  shows "queue_wf codec s y"
proof -
  have c: "jc_stored_bytes codec None \<le> 32768" using assms(3) by (simp add: queue_setup_def)
  from assms(1,2) show ?thesis
  proof (induction rule: queue_step.induct)
    case (idle env db db' hist)
    then show ?case using swept_wf claim_None by blast
  next
    case (elsewhere db' db hist)
    then show ?case using queue_wf_frame by blast
  qed (use c in \<open>blast intro: enqueue_wf claim_wf finish_wf review_retry_wf cancel_job_wf\<close>)+
qed

section \<open>The life of one job\<close>

fun job_edges :: "job_status \<Rightarrow> job_status set" where
  "job_edges QUEUED = {RUNNING, JOB_CANCELLED}"
| "job_edges RUNNING = {SUCCEEDED, RETRY_WAIT, DEAD_LETTER}"
| "job_edges RETRY_WAIT = {RUNNING, JOB_CANCELLED}"
| "job_edges DEAD_LETTER = {QUEUED}"
| "job_edges SUCCEEDED = {}"
| "job_edges JOB_CANCELLED = {}"

text \<open>What every step keeps of a row, and how its status may move.\<close>

definition continues :: "job_row \<Rightarrow> job_row \<Rightarrow> bool" where
  "continues j j' \<longleftrightarrow> job_id j' = job_id j \<and> job_user j' = job_user j \<and> job_key j' = job_key j \<and> job_hash j' = job_hash j \<and>
     path job_edges (job_status j) (job_status j')"

lemma continues_refl [simp]: "continues j j"
  by (simp add: continues_def path.stay)

lemma continues_trans: "continues a b \<Longrightarrow> continues b c \<Longrightarrow> continues a c"
  by (auto simp: continues_def intro: path_trans)

lemma modify_continues:
  assumes "j \<in> set rows" "P j \<Longrightarrow> continues j (f j)"
  shows "\<exists>j' \<in> set (modify_rows P f rows). continues j j'"
  using assms by (cases "P j") (force simp: set_modify_rows)+

lemma swept_continues:
  assumes "j \<in> set (jobs db)"
  shows "\<exists>j' \<in> set (jobs (swept s env db)). continues j j'"
proof -
  have "\<exists>j' \<in> set (bury_expired env (jobs db)). continues j j'"
    unfolding bury_expired_def using assms
    by (intro modify_continues) (auto simp: continues_def lease_expired_def intro: path_edge)
  then obtain j' where j': "j' \<in> set (bury_expired env (jobs db))" "continues j j'" ..
  have "\<exists>j'' \<in> set (recover_expired s env (bury_expired env (jobs db))). continues j' j''"
    unfolding recover_expired_def using j'(1)
    by (intro modify_continues) (auto simp: continues_def lease_expired_def intro: path_edge)
  with j'(2) show ?thesis by (auto simp: swept_def intro: continues_trans)
qed

lemma step_continues:
  assumes "queue_step codec s (db, hist) (db', hist')" "queue_wf codec s (db, hist)" "j \<in> set (jobs db)"
  shows "\<exists>j' \<in> set (jobs db'). continues j j'"
proof -
  have d: "distinct (map job_id (jobs db))" using assms(2) by simp
  have one: "\<exists>x \<in> set (modify_rows (\<lambda>r. job_id r = job_id y) f (jobs db)). continues j x"
    if "y \<in> set (jobs db)" "continues y (f y)" for y f
    using assms(3) same_id [OF d assms(3) that(1)] that(2) by (intro modify_continues) auto
  from assms(1) show ?thesis
  proof (cases rule: queue_step.cases)
    case (enqueued u c started now n v)
    then have "j \<in> set (jobs db')" using enqueue_Inr [OF enqueued(2)] assms(3) by auto
    then show ?thesis using continues_refl by blast
  next
    case (claimed env l)
    obtain j1 where j1: "j1 \<in> set (jobs (swept s env db))" "continues j j1" using swept_continues [OF assms(3)] by blast
    have d1: "distinct (map job_id (jobs (swept s env db)))" using swept_wf [OF assms(2), of env] by simp
    from claim_Some [OF claimed(2)] obtain y where
      y: "y \<in> set (jobs (swept s env db))" "claimable env y" and
      db': "db' = (swept s env db)\<lparr>jobs := modify_rows (\<lambda>r. job_id r = job_id y) (start_job s env) (jobs (swept s env db))\<rparr>" by blast
    have "continues y (start_job s env y)" using y(2) by (auto simp: continues_def claimable_def intro: path_edge)
    then have "\<exists>x \<in> set (jobs db'). continues j1 x"
      unfolding db' using j1(1) same_id [OF d1 j1(1) y(1)] by simp (intro modify_continues; auto)
    with j1(2) show ?thesis using continues_trans by blast
  next
    case (idle env)
    with swept_continues [OF assms(3)] claim_None [OF idle(2)] show ?thesis by blast
  next
    case (finished l outcome error_code retryable delay started now completed)
    from finish_cases [OF finished(2)] show ?thesis
    proof (elim disjE conjE bexE)
      fix y assume y: "y \<in> set (jobs db)" "holds_lease l now y" and
        db': "db' = db\<lparr>jobs := modify_rows (\<lambda>r. job_id r = job_id y) (finished_job started now outcome error_code retryable delay) (jobs db)\<rparr>"
      have "continues y (finished_job started now outcome error_code retryable delay y)"
        using y(2) finished_job_fields [of started now outcome error_code retryable delay y]
        by (auto simp: continues_def holds_lease_def intro: path_edge)
      then show ?thesis unfolding db' using one [OF y(1)] by simp
    qed (use assms(3) in \<open>auto intro!: bexI [of _ j]\<close>)
  next
    case (retried u i started now v)
    from review_retry_Inr [OF retried(2)] obtain y where
      y: "repo_get_job u i db = Some y" "job_status y = DEAD_LETTER" and
      db': "db' = db\<lparr>jobs := modify_rows (\<lambda>r. job_id r = i) (requeued_job started now) (jobs db)\<rparr>" by blast
    have "continues y (requeued_job started now y)" using y(2) by (auto simp: continues_def intro: path_edge)
    then show ?thesis unfolding db' using one [of y] repo_get_job_Some [OF y(1)] by auto
  next
    case (cancelled u i started now v)
    show ?thesis
    proof (cases "db' = db")
      case False
      with cancel_job_Inr [OF cancelled(2)] obtain y where
        y: "repo_get_job u i db = Some y" and st: "job_status y = QUEUED \<or> job_status y = RETRY_WAIT" and
        db': "db' = db\<lparr>jobs := modify_rows (\<lambda>r. job_id r = i) (cancelled_job started now) (jobs db)\<rparr>" by blast
      have "continues y (cancelled_job started now y)" using st by (auto simp: continues_def intro: path_edge)
      then show ?thesis unfolding db' using one [of y] repo_get_job_Some [OF y] by auto
    qed (use assms(3) in \<open>auto intro!: bexI [of _ j]\<close>)
  qed (use assms(3) in \<open>auto intro!: bexI [of _ j]\<close>)
qed

text \<open>The status of a job, as an instance of the shared lifecycle contract.\<close>

definition status_of_job :: "'a job_db_scheme \<times> lease list \<Rightarrow> uuid \<Rightarrow> job_status option" where
  "status_of_job x i = map_option job_status (select_one (\<lambda>j. job_id j = i) (jobs (fst x)))"

lemma status_of_row:
  assumes "queue_wf codec s (db, hist)" "j \<in> set (jobs db)"
  shows "status_of_job (db, hist) (job_id j) = Some (job_status j)"
  using assms select_one_unique [of job_id "jobs db" j "\<lambda>x. job_id x = job_id j"] by (simp add: status_of_job_def)

lemma job_lifecycle:
  assumes "queue_setup codec s"
  shows "lifecycle (queue_wf codec s) (queue_step codec s) status_of_job job_edges"
proof
  fix x y :: "'a job_db_scheme \<times> lease list" and i st
  assume wf: "queue_wf codec s x" and step: "queue_step codec s x y"
  then show "queue_wf codec s y" using queue_step_wf assms by blast
  assume st: "status_of_job x i = Some st"
  obtain db hist db' hist' where xy: "x = (db, hist)" "y = (db', hist')" by (cases x; cases y) auto
  from st obtain j where j: "select_one (\<lambda>j. job_id j = i) (jobs db) = Some j" "st = job_status j"
    by (auto simp: status_of_job_def xy)
  with step_continues [OF step [unfolded xy] wf [unfolded xy]] select_one_SomeD [OF j(1)] obtain j' where
    j': "j' \<in> set (jobs db')" "continues j j'" by blast
  with \<open>queue_wf codec s y\<close> xy status_of_row [of codec s db' hist' j'] select_one_SomeD [OF j(1)] j(2)
  show "\<exists>st'. status_of_job y i = Some st' \<and> path job_edges st st'" by (auto simp: continues_def)
qed

text \<open>The same for the settings and codec of the sample store, as a checked instance.\<close>

definition sample_codec :: job_codec where
  "sample_codec =
     \<lparr>jc_fingerprint = \<lambda>kind p. kind @ '':'' @ np_note p, jc_json_bytes = \<lambda>p. length (np_note p) + 60,
      jc_stored_bytes = \<lambda>p. case p of None \<Rightarrow> 2 | Some q \<Rightarrow> length (np_note q) + 62\<rparr>"

definition default_settings :: jobs_settings where
  "default_settings =
     \<lparr>js_concurrency = 4, js_max_pending = 1000, js_max_pending_per_owner = 50, js_max_attempts = 3,
      js_lease_seconds = 180, js_timeout_seconds = 120, js_poll_seconds = 1, js_backoff_seconds = 2,
      js_max_backoff_seconds = 300\<rparr>"

lemma default_setup: "queue_setup sample_codec default_settings"
  by (simp add: queue_setup_def settings_ok_def default_settings_def sample_codec_def)

interpretation default_queue: lifecycle "queue_wf sample_codec default_settings" "queue_step sample_codec default_settings"
    status_of_job job_edges
  by (rule job_lifecycle [OF default_setup])

section \<open>Leases\<close>

text \<open>A token is live while a running row carries it; once dead it stays dead, since tokens are never reused.\<close>

definition token_live :: "uuid \<Rightarrow> 'a job_db_scheme \<Rightarrow> bool" where
  "token_live t db \<longleftrightarrow> (\<exists>j \<in> set (jobs db). job_lease_token j = Some t)"

lemma modify_dead:
  assumes "\<not> (\<exists>j \<in> set rows. job_lease_token j = Some t)" "\<And>j. job_lease_token (f j) = Some t \<Longrightarrow> job_lease_token j = Some t"
  shows "\<not> (\<exists>j \<in> set (modify_rows P f rows). job_lease_token j = Some t)"
  using assms by (auto simp: set_modify_rows split: if_splits)

lemma swept_dead: "\<not> token_live t db \<Longrightarrow> \<not> token_live t (swept s env db)"
  unfolding token_live_def swept_def bury_expired_def recover_expired_def
  by simp (intro ballI; auto simp: set_modify_rows split: if_splits)

lemma finished_token [simp]: "job_lease_token (finished_job a b c d e f j) = None"
  by (simp add: finished_job_def Let_def split: option.split)

lemma step_dead:
  assumes "queue_step codec s (db, hist) (db', hist')" "t \<in> le_token ` set hist" "\<not> token_live t db"
  shows "t \<in> le_token ` set hist' \<and> \<not> token_live t db'"
  using assms(1)
proof (cases rule: queue_step.cases)
  case (enqueued u c started now n v)
  with enqueue_Inr [OF enqueued(2)] assms(2,3) show ?thesis by (auto simp: token_live_def job_of_def)
next
  case (claimed env l)
  from claim_Some [OF claimed(2)] obtain y :: job_row where
    db': "db' = (swept s env db)\<lparr>jobs := modify_rows (\<lambda>r. job_id r = job_id y) (start_job s env) (jobs (swept s env db))\<rparr>"
    by blast
  have "ce_token env \<noteq> t" using claimed(3) assms(2) by blast
  with swept_dead [OF assms(3), of s env] assms(2) claimed(1) show ?thesis
    by (auto simp: db' token_live_def set_modify_rows split: if_splits)
next
  case (idle env)
  with swept_dead [OF assms(3)] claim_None [OF idle(2)] assms(2) show ?thesis by simp
next
  case (finished l outcome error_code retryable delay started now completed)
  with finish_cases [OF finished(2)] assms(2,3) show ?thesis
    by (auto simp: token_live_def set_modify_rows split: if_splits)
next
  case (retried u i started now v)
  from review_retry_Inr [OF retried(2)] assms(2,3) retried(1) show ?thesis
    by (auto simp: token_live_def set_modify_rows requeued_job_def split: if_splits)
next
  case (cancelled u i started now v)
  from cancel_job_Inr [OF cancelled(2)] assms(2,3) cancelled(1) show ?thesis
    by (auto simp: token_live_def set_modify_rows cancelled_job_def split: if_splits)
qed (use assms in \<open>auto simp: token_live_def\<close>)

lemma reaches_dead:
  assumes "reaches (queue_step codec s) x y" "t \<in> le_token ` set (snd x)" "\<not> token_live t (fst x)"
  shows "t \<in> le_token ` set (snd y) \<and> \<not> token_live t (fst y)"
  using assms
proof (induction rule: reaches.induct)
  case (more x y z)
  then show ?case using step_dead [of codec s "fst y" "snd y" "fst z" "snd z" t] by simp
qed simp

lemma finish_dead: "\<not> token_live (le_token l) db \<Longrightarrow> finish l outcome error_code retryable delay started now db = (db, False)"
  by (auto simp: finish_def select_one_None holds_lease_def token_live_def split: option.split dest!: select_one_SomeD)

lemma running_leased:
  "job_ok codec db hist j \<Longrightarrow> job_status j = RUNNING \<Longrightarrow> \<exists>l \<in> set hist. job_lease_token j = Some (le_token l) \<and> le_id l = job_id j"
  by (simp add: job_ok_def)

text \<open>No two rows carry the same token.\<close>

lemma token_row:
  assumes "queue_wf codec s (db, hist)" "i \<in> set (jobs db)" "j \<in> set (jobs db)"
    "job_lease_token i = Some t" "job_lease_token j = Some t"
  shows "i = j"
proof -
  have leased: "\<exists>l \<in> set hist. job_lease_token x = Some (le_token l) \<and> le_id l = job_id x"
    if "x \<in> set (jobs db)" "job_lease_token x = Some t" for x
  proof -
    have "job_ok codec db hist x" using assms(1) that(1) by simp
    then show ?thesis using that(2) by (auto simp: job_ok_def job_checks_def split: if_splits)
  qed
  from leased [OF assms(2,4)] leased [OF assms(3,5)] obtain l l' where
    l: "l \<in> set hist" "l' \<in> set hist" "le_token l = t" "le_token l' = t" "le_id l = job_id i" "le_id l' = job_id j"
    using assms(4,5) by auto
  have "distinct (map le_token hist)" "distinct (map job_id (jobs db))" using assms(1) by simp_all
  then have inj: "inj_on le_token (set hist)" and d: "distinct (map job_id (jobs db))" by (simp_all add: distinct_map)
  have "le_token l = le_token l'" using l(3,4) by simp
  from inj_onD [OF inj this l(1,2)] have "job_id i = job_id j" using l(5,6) by simp
  then show ?thesis by (rule same_id [OF d assms(2,3)])
qed

lemma finish_kills_token:
  assumes "queue_wf codec s (db, hist)" "finish l outcome error_code retryable delay started now db = (db', True)"
  shows "le_token l \<in> le_token ` set hist \<and> \<not> token_live (le_token l) db'"
proof -
  from finish_cases [OF assms(2)] obtain j where
    j: "j \<in> set (jobs db)" "holds_lease l now j" and
    db': "db' = db\<lparr>jobs := modify_rows (\<lambda>r. job_id r = job_id j) (finished_job started now outcome error_code retryable delay) (jobs db)\<rparr>"
    by auto
  have "job_lease_token x \<noteq> Some (le_token l)" if "x \<in> set (jobs db')" for x
  proof -
    from that obtain y where y: "y \<in> set (jobs db)"
      "x = (if job_id y = job_id j then finished_job started now outcome error_code retryable delay y else y)"
      by (auto simp: db' set_modify_rows)
    show ?thesis
    proof
      assume "job_lease_token x = Some (le_token l)"
      with y have "job_id y \<noteq> job_id j" "job_lease_token y = Some (le_token l)" by (auto split: if_splits)
      with token_row [OF assms(1) y(1) j(1)] j(2) show False by (auto simp: holds_lease_def)
    qed
  qed
  then have dead: "\<not> token_live (le_token l) db'" by (auto simp: token_live_def)
  have "job_ok codec db hist j" using assms(1) j(1) by simp
  moreover have "job_status j = RUNNING" "job_lease_token j = Some (le_token l)" using j(2) by (simp_all add: holds_lease_def)
  ultimately obtain l' where "l' \<in> set hist" "le_token l' = le_token l" using running_leased by fastforce
  with dead show ?thesis by (metis imageI)
qed

end
