(* ===== verification/Job_Properties.thy ===== *)
theory Job_Properties
  imports Job_Laws
begin

text \<open>The properties of the job queue and its worker, with a sample queue for their instances.\<close>

section \<open>Lemmas for the properties\<close>

lemma claims_bounded:
  assumes "queue_wf codec s (db, hist)"
  shows "claims i hist \<le> 20"
proof (cases "i \<in> job_id ` set (jobs db)")
  case True
  then obtain j where j: "j \<in> set (jobs db)" "job_id j = i" by blast
  then have ok: "job_ok codec db hist j" using assms by simp
  then have b: "job_attempts j \<le> 5" "job_review_retries j \<le> 3" "job_max_attempts j \<le> 5"
    by (auto simp: job_ok_def job_checks_def)
  have "job_review_retries j * job_max_attempts j \<le> 3 * 5" using b by (intro mult_le_mono)
  moreover have "claims i hist \<le> job_attempts j + job_review_retries j * job_max_attempts j"
    using ok j(2) by (simp add: job_ok_def)
  ultimately show ?thesis using b by linarith
next
  case False
  then have "filter (\<lambda>l. le_id l = i) hist = []" using assms by (auto simp: filter_empty_conv)
  then show ?thesis by (simp add: claims_def)
qed

lemma reaches_wf_continues:
  assumes "reaches (queue_step codec s) x y" "queue_wf codec s x" "queue_setup codec s" "j \<in> set (jobs (fst x))"
  shows "queue_wf codec s y \<and> (\<exists>j' \<in> set (jobs (fst y)). continues j j')"
  using assms
proof (induction rule: reaches.induct)
  case none
  then show ?case by (auto intro!: bexI [of _ j])
next
  case (more x y z)
  then obtain j' where j': "j' \<in> set (jobs (fst y))" "continues j j'" and wf: "queue_wf codec s y" by blast
  then obtain j'' where "j'' \<in> set (jobs (fst z))" "continues j' j''"
    using step_continues [of codec s "fst y" "snd y" "fst z" "snd z" j'] more(2) by auto
  with j'(2) queue_step_wf [OF more(2) wf more(5)] show ?case using continues_trans by blast
qed

lemma enqueue_known:
  assumes "queue_wf codec s (db, hist)" "j \<in> set (jobs db)" "job_user j = u" "job_key j = ej_key c"
  shows "enqueue codec s u c started now n db =
    (if job_hash j = fingerprint codec c then Inr (db, job_view j) else Inl (JobError ''IDEMPOTENCY_CONFLICT'' 409))"
proof -
  have "distinct (map (\<lambda>j. (job_user j, job_key j)) (jobs db))" using assms(1) by simp
  then have "select_one (\<lambda>j. job_user j = u \<and> job_key j = ej_key c) (jobs db) = Some j"
    using assms(2-4) by (intro select_one_unique [of "\<lambda>j. (job_user j, job_key j)"]) auto
  then show ?thesis by (simp add: enqueue_def)
qed

lemma enqueued_row:
  assumes "enqueue codec s u c started now n db = Inr (db', v)"
  shows "\<exists>j \<in> set (jobs db'). job_user j = u \<and> job_key j = ej_key c \<and> job_hash j = fingerprint codec c \<and> job_id j = jv_id v"
  using enqueue_Inr [OF assms] by (auto simp: job_view_def job_of_def)

lemma holder:
  assumes "queue_wf codec s (db, hist)" "j \<in> set (jobs db)" "holds_lease l now j"
  shows "select_one (holds_lease l now) (jobs db) = Some j"
proof -
  have "distinct (map job_id (jobs db))" using assms(1) by simp
  then show ?thesis
    using assms(2,3) by (intro select_one_unique [of job_id]) (auto simp: holds_lease_def)
qed

lemma ceiling_bounds:
  assumes "load_settings s = Inr s"
  shows "1 / 20 \<le> retry_delay a s 0" "retry_delay a s 1 \<le> js_max_backoff_seconds s" "0 < js_backoff_seconds s"
proof -
  have s: "1 / 10 \<le> js_backoff_seconds s" "js_backoff_seconds s \<le> js_max_backoff_seconds s"
    using assms by (auto simp: load_settings_def settings_ok_def lease_exceeds_timeout_def split: if_splits)
  show "0 < js_backoff_seconds s" using s(1) by linarith
  have "js_backoff_seconds s * 1 \<le> js_backoff_seconds s * 2 ^ min (a - 1) 10"
    using s(1) by (intro mult_left_mono) simp_all
  with s have "1 / 10 \<le> min (js_max_backoff_seconds s) (js_backoff_seconds s * 2 ^ min (a - 1) 10)"
    by (simp only: min_le_iff_disj min.bounded_iff) linarith
  then show "1 / 20 \<le> retry_delay a s 0" by (simp add: retry_delay_def Let_def del: min_le_iff_disj min.bounded_iff)
  show "retry_delay a s 1 \<le> js_max_backoff_seconds s" by (simp add: retry_delay_def Let_def)
qed

section \<open>A sample queue\<close>

definition sample_note :: note_payload where
  "sample_note = \<lparr>np_note = ''paid 250 for lunch'', np_timestamp = 1778500000000000, np_labels = []\<rparr>"

definition sample_enqueue :: enqueue_job where
  "sample_enqueue = \<lparr>ej_key = 7, ej_payload = sample_note\<rparr>"

definition sample_queue :: job_db where
  "sample_queue =
     \<lparr>users = sample_users, categories = sample_categories, merchants = sample_merchants, transactions = [],
      category_rules = [], merchant_maps = [], corrections = [], people = [], receivables = [], payables = [],
      settlements = [], recurring_payments = [], jobs = []\<rparr>"

definition queued_sample :: job_db where
  "queued_sample = sample_queue\<lparr>jobs := [job_of sample_codec default_settings 1 sample_enqueue 0 5 100]\<rparr>"

definition sample_env :: claim_env where
  "sample_env = \<lparr>ce_started = 10, ce_now = 10, ce_token = 500, ce_clock = \<lambda>_. 10, ce_random = \<lambda>_. 0, ce_locked = \<lambda>_. False\<rparr>"

definition sample_lease :: lease where
  "sample_lease = \<lparr>le_id = 100, le_user = 1, le_token = 500, le_payload = Some sample_note, le_attempts = 1\<rparr>"

definition running_sample :: job_db where
  "running_sample = queued_sample\<lparr>jobs :=
     [start_job default_settings sample_env (job_of sample_codec default_settings 1 sample_enqueue 0 5 100)]\<rparr>"

lemmas sample_queue_defs = sample_queue_def queued_sample_def running_sample_def sample_env_def sample_lease_def
  sample_enqueue_def sample_note_def job_of_def

lemma sample_queue_wf: "queue_wf sample_codec default_settings (sample_queue, [])"
  by (simp add: sample_queue_def default_settings_def)

lemma sample_enqueued:
  "enqueue sample_codec default_settings 1 sample_enqueue 0 5 100 sample_queue =
    Inr (queued_sample, job_view (job_of sample_codec default_settings 1 sample_enqueue 0 5 100))"
  by (simp add: enqueue_def check_capacity_def sample_queue_defs sample_users_def default_settings_def sample_codec_def Let_def
      job_checks_def fk_user_def insert_row_def)

lemma queued_sample_wf: "queue_wf sample_codec default_settings (queued_sample, [])"
  by (rule enqueue_wf [OF sample_enqueued sample_queue_wf])

lemma sample_claimed: "claim default_settings sample_env queued_sample = (running_sample, Some sample_lease)"
  by (simp add: claim_def bury_expired_def recover_expired_def lease_expired_def claimable_def start_job_def
      sample_queue_defs default_settings_def Let_def)

lemma running_sample_wf: "queue_wf sample_codec default_settings (running_sample, [sample_lease])"
  by (rule claim_wf [OF sample_claimed queued_sample_wf]) simp

lemma sample_reaches:
  "reaches (queue_step sample_codec default_settings) (sample_queue, []) (running_sample, [sample_lease])"
proof (rule reaches.more)
  show "reaches (queue_step sample_codec default_settings) (sample_queue, []) (queued_sample, [])"
    by (rule reaches_step) (rule queue_step.enqueued [OF sample_enqueued])
  show "queue_step sample_codec default_settings (queued_sample, []) (running_sample, [sample_lease])"
    by (rule queue_step.claimed [OF sample_claimed]) simp
qed

lemma sample_holds: "holds_lease sample_lease 20 (hd (jobs running_sample))"
  by (simp add: holds_lease_def start_job_def sample_queue_defs default_settings_def)

lemma sample_job_in: "hd (jobs running_sample) \<in> set (jobs running_sample)"
  by (simp add: running_sample_def)

section \<open>Properties\<close>

text \<open>
  C35: in every interleaving of enqueues, claims, finishes, reviews and cancels by any users and workers
  the queue keeps its bounds: at most \<open>concurrency\<close> running jobs, at most \<open>max_pending\<close> active jobs in all
  and \<open>max_pending_per_owner\<close> per owner, keys stay unique, every row satisfies its constraints, and no
  job is ever handed to a worker more than 20 times (five attempts, three reviews).
\<close>

theorem queue_stays_bounded:
  assumes "queue_setup codec s" "queue_wf codec s x" "reaches (queue_step codec s) x (db, hist)"
  shows "queue_wf codec s (db, hist) \<and> length (filter running (jobs db)) \<le> js_concurrency s \<and>
    length (filter active_job (jobs db)) \<le> js_max_pending s \<and>
    (\<forall>u. length (filter (\<lambda>j. active_job j \<and> job_user j = u) (jobs db)) \<le> js_max_pending_per_owner s) \<and>
    (\<forall>i. claims i hist \<le> 20)"
proof -
  have wf: "queue_wf codec s (db, hist)"
    using reaches_invariant [OF assms(3), of "queue_wf codec s"] assms(1,2) queue_step_wf by blast
  then have "\<forall>i. claims i hist \<le> 20" using claims_bounded by blast
  moreover have "length (filter running (jobs db)) \<le> js_concurrency s" "length (filter active_job (jobs db)) \<le> js_max_pending s"
    using wf by simp_all
  ultimately show ?thesis using wf queue_wf_owner [OF wf] by blast
qed

theorem queue_stays_bounded_witness:
  "length (filter running (jobs running_sample)) \<le> 4 \<and> claims 100 [sample_lease] \<le> 20"
proof -
  have "js_concurrency default_settings = 4" by (simp add: default_settings_def)
  with queue_stays_bounded [OF default_setup sample_queue_wf sample_reaches] show ?thesis by metis
qed

text \<open>
  C36: fencing: a lease completes its job at most once. After a successful finish, whatever happens next,
  another finish with the same token (a late or duplicated worker) reports a stale lease and changes
  nothing; and a finish at or after the expiry of the lease never succeeds.
\<close>

theorem lease_finishes_once:
  assumes "queue_wf codec s (db, hist)" "finish l outcome error_code retryable delay started now db = (db1, True)"
    and "reaches (queue_step codec s) (db1, hist) (db2, hist2)" "le_token l' = le_token l"
  shows "finish l' outcome' error_code' retryable' delay' started' now' db2 = (db2, False) \<and>
    (\<exists>j \<in> set (jobs db). job_lease_token j = Some (le_token l) \<and> (\<exists>t. job_lease_expires_at j = Some t \<and> now < t))"
proof
  from finish_kills_token [OF assms(1,2)] have
    "le_token l \<in> le_token ` set (snd (db1, hist))" "\<not> token_live (le_token l) (fst (db1, hist))" by simp_all
  from reaches_dead [OF assms(3) this] have "\<not> token_live (le_token l') db2" using assms(4) by simp
  then show "finish l' outcome' error_code' retryable' delay' started' now' db2 = (db2, False)" by (rule finish_dead)
  from finish_cases [OF assms(2)] show
    "\<exists>j \<in> set (jobs db). job_lease_token j = Some (le_token l) \<and> (\<exists>t. job_lease_expires_at j = Some t \<and> now < t)"
    by (auto simp: holds_lease_def split: option.splits)
qed

theorem lease_finishes_once_witness:
  "\<exists>db1. finish sample_lease (Some 9) None False 0 20 20 running_sample = (db1, True) \<and>
    finish sample_lease None (Some ''JOB_TIMEOUT'') True 3 21 21 db1 = (db1, False)"
proof -
  obtain db1 where run: "finish sample_lease (Some 9) None False 0 20 20 running_sample = (db1, True)"
    using holder [OF running_sample_wf sample_job_in sample_holds] by (simp add: finish_def)
  with lease_finishes_once [OF running_sample_wf run reaches.none refl] show ?thesis by blast
qed

text \<open>
  C37: enqueueing is idempotent for good: once a user's key has been accepted, in every later state the
  same request returns the same job and changes nothing, and a request with that key and another payload
  fingerprint is refused as a conflict.
\<close>

theorem enqueue_is_idempotent:
  assumes "queue_setup codec s" "queue_wf codec s (db, hist)" "enqueue codec s u c started now n db = Inr (db1, v)"
    and "reaches (queue_step codec s) (db1, hist) (db2, hist2)" "ej_key c' = ej_key c"
  shows "if fingerprint codec c' = fingerprint codec c
    then \<exists>v'. enqueue codec s u c' started' now' n' db2 = Inr (db2, v') \<and> jv_id v' = jv_id v
    else enqueue codec s u c' started' now' n' db2 = Inl (JobError ''IDEMPOTENCY_CONFLICT'' 409)"
proof -
  have wf1: "queue_wf codec s (db1, hist)" by (rule enqueue_wf [OF assms(3,2)])
  from enqueued_row [OF assms(3)] obtain j where
    j: "j \<in> set (jobs db1)" "job_user j = u" "job_key j = ej_key c" "job_hash j = fingerprint codec c" "job_id j = jv_id v" by blast
  with reaches_wf_continues [OF assms(4) wf1 assms(1), of j] obtain j' where
    wf2: "queue_wf codec s (db2, hist2)" and j': "j' \<in> set (jobs db2)" "continues j j'" by auto
  have "job_user j' = u" "job_key j' = ej_key c'" using j j' assms(5) by (simp_all add: continues_def)
  with enqueue_known [OF wf2 j'(1)] j j'(2) show ?thesis by (auto simp: continues_def job_view_def)
qed

theorem enqueue_is_idempotent_witness:
  "(\<exists>v. enqueue sample_codec default_settings 1 sample_enqueue 8 9 101 queued_sample = Inr (queued_sample, v) \<and> jv_id v = 100) \<and>
    enqueue sample_codec default_settings 1 (sample_enqueue\<lparr>ej_payload := sample_note\<lparr>np_note := ''other''\<rparr>\<rparr>) 8 9 101 queued_sample =
      Inl (JobError ''IDEMPOTENCY_CONFLICT'' 409)"
proof -
  let ?c = "sample_enqueue\<lparr>ej_payload := sample_note\<lparr>np_note := ''other''\<rparr>\<rparr>"
  have key: "ej_key ?c = ej_key sample_enqueue" by simp
  have f: "fingerprint sample_codec ?c \<noteq> fingerprint sample_codec sample_enqueue"
    by (simp add: fingerprint_def sample_codec_def sample_enqueue_def sample_note_def)
  have v: "jv_id (job_view (job_of sample_codec default_settings 1 sample_enqueue 0 5 100)) = 100"
    by (simp add: job_view_def job_of_def)
  note idem = enqueue_is_idempotent [OF default_setup sample_queue_wf sample_enqueued reaches.none]
  show ?thesis using idem [OF refl, of 8 9 101] idem [OF key, of 8 9 101] f v by simp
qed

text \<open>
  The lifecycle of a job: its status moves only along the edges queued, running, waiting for a retry,
  dead letter and the final ones; a succeeded or cancelled job stays so and no longer holds the note, and
  a running job always still holds it.
\<close>

theorem finished_jobs_stay_finished:
  assumes "queue_setup codec s" "queue_wf codec s (db, hist)" "reaches (queue_step codec s) (db, hist) (db2, hist2)"
    and "j \<in> set (jobs db)"
  shows "\<exists>j' \<in> set (jobs db2). job_id j' = job_id j \<and> job_user j' = job_user j \<and> path job_edges (job_status j) (job_status j') \<and>
    (job_status j \<in> {SUCCEEDED, JOB_CANCELLED} \<longrightarrow> job_status j' = job_status j \<and> job_payload j' = None) \<and>
    (job_status j' = RUNNING \<longrightarrow> job_payload j' \<noteq> None \<and> job_lease_token j' \<noteq> None)"
proof -
  from reaches_wf_continues [OF assms(3,2,1), of j] assms(4) obtain j' where
    wf2: "queue_wf codec s (db2, hist2)" and j': "j' \<in> set (jobs db2)" "continues j j'" by auto
  then have ok: "job_ok codec db2 hist2 j'" by simp
  have "job_status j \<in> {SUCCEEDED, JOB_CANCELLED} \<Longrightarrow> job_status j' = job_status j"
    using path_final [of job_edges "job_status j" "job_status j'"] j'(2) by (auto simp: continues_def)
  with ok j' show ?thesis by (intro bexI [of _ j']) (auto simp: continues_def job_ok_def job_checks_def)
qed

theorem finished_jobs_stay_finished_witness:
  "\<exists>j' \<in> set (jobs running_sample). job_id j' = 100 \<and> path job_edges QUEUED (job_status j') \<and> job_payload j' \<noteq> None"
proof -
  let ?j = "job_of sample_codec default_settings 1 sample_enqueue 0 5 100"
  have j: "?j \<in> set (jobs queued_sample)" "job_id ?j = 100" "job_status ?j = QUEUED" by (simp_all add: queued_sample_def job_of_def)
  have "reaches (queue_step sample_codec default_settings) (queued_sample, []) (running_sample, [sample_lease])"
    by (rule reaches_step, rule queue_step.claimed [OF sample_claimed]) simp
  from finished_jobs_stay_finished [OF default_setup queued_sample_wf this j(1)] obtain j' where
    j': "j' \<in> set (jobs running_sample)" "job_id j' = 100" "path job_edges QUEUED (job_status j')"
    "job_status j' = RUNNING \<longrightarrow> job_payload j' \<noteq> None"
    using j by auto
  have "job_status j' = RUNNING" using j'(1) by (simp add: running_sample_def)
  with j' show ?thesis by blast
qed

text \<open>
  C38: what a claim returns: after expired leases have been recovered or buried it hands out nothing only
  when every slot is taken or no unlocked job is due; otherwise it hands out the due job that has been
  available longest (ties by creation, then id), with a token that its row carries and a deadline later than
  the timeout of the worker.
\<close>

theorem claim_picks_longest_due:
  assumes "load_settings s = Inr s" "claim s env db = (db', leased)"
  shows "case leased of
      None \<Rightarrow> js_concurrency s \<le> length (filter running (jobs (swept s env db))) \<or>
        (\<forall>j \<in> set (jobs (swept s env db)). \<not> claimable env j)
    | Some l \<Rightarrow> \<exists>j \<in> set (jobs (swept s env db)). claimable env j \<and> le_id l = job_id j \<and> le_payload l = job_payload j \<and>
        le_attempts l \<le> job_max_attempts j \<and>
        (\<forall>x \<in> set (jobs (swept s env db)). claimable env x \<longrightarrow> claim_key j \<le> claim_key x) \<and>
        (\<exists>r \<in> set (jobs db'). job_id r = job_id j \<and>
          holds_lease l (ce_now env + (int (js_timeout_seconds s) + 5) * 1000000) r)"
proof (cases leased)
  case None
  then show ?thesis
    using assms(2) sort_key_nonempty [of _ "filter (claimable env) (jobs (swept s env db))" claim_key]
    by (fastforce simp: claim_def swept_def Let_def running_def [abs_def] split: if_splits list.splits)
next
  case (Some l)
  from claim_Some [of s env db db' l] assms(2) Some obtain j where
    j: "j \<in> set (jobs (swept s env db))" "claimable env j"
      "\<forall>x \<in> set (jobs (swept s env db)). claimable env x \<longrightarrow> claim_key j \<le> claim_key x" and
    l: "l = \<lparr>le_id = job_id j, le_user = job_user j, le_token = ce_token env, le_payload = job_payload j,
         le_attempts = job_attempts j + 1\<rparr>" and
    db': "db' = (swept s env db)\<lparr>jobs := modify_rows (\<lambda>r. job_id r = job_id j) (start_job s env) (jobs (swept s env db))\<rparr>"
    by blast
  have "start_job s env j \<in> set (jobs db')" using j(1) by (force simp: db' set_modify_rows)
  moreover have "js_timeout_seconds s + 5 < js_lease_seconds s"
    using assms(1) by (auto simp: load_settings_def lease_exceeds_timeout_def split: if_splits)
  then have "holds_lease l (ce_now env + (int (js_timeout_seconds s) + 5) * 1000000) (start_job s env j)"
    by (simp add: holds_lease_def l start_job_def)
  moreover have le: "le_attempts l \<le> job_max_attempts j" using j(2) by (simp add: claimable_def l)
  ultimately have "\<exists>r \<in> set (jobs db'). job_id r = job_id j \<and>
      holds_lease l (ce_now env + (int (js_timeout_seconds s) + 5) * 1000000) r"
    by (intro bexI [of _ "start_job s env j"]) auto
  with j l le show ?thesis unfolding Some by (simp, intro bexI [of _ j]) auto
qed

theorem claim_picks_longest_due_witness:
  "\<exists>r \<in> set (jobs running_sample). job_id r = 100 \<and> holds_lease sample_lease (10 + 125 * 1000000) r"
proof -
  have load: "load_settings default_settings = Inr default_settings"
    by (simp add: load_settings_def settings_ok_def lease_exceeds_timeout_def default_settings_def)
  have e: "ce_now sample_env = 10" "le_id sample_lease = 100" "js_timeout_seconds default_settings = 120"
    by (simp_all add: sample_env_def sample_lease_def default_settings_def)
  from claim_picks_longest_due [OF load sample_claimed] show ?thesis by (auto simp: e)
qed

text \<open>
  Retry delays: for validated settings and any jitter in [0, 1] the worker's delay lies between half
  of its ceiling and the ceiling, is positive and never above the configured maximum, the ceiling never
  falls with the attempt, and for the at most five attempts of a job the delay computed in SQL for an
  expired lease is the same function.
\<close>

theorem retry_delays_bounded:
  assumes "load_settings s = Inr s" "0 \<le> jitter" "jitter \<le> 1"
  shows "retry_delay a s 1 / 2 \<le> retry_delay a s jitter \<and> retry_delay a s jitter \<le> retry_delay a s 1 \<and>
    1 / 20 \<le> retry_delay a s jitter \<and> retry_delay a s jitter \<le> js_max_backoff_seconds s \<and>
    retry_delay a s 1 \<le> retry_delay (a + 1) s 1 \<and>
    (a \<le> 5 \<longrightarrow> recovery_delay s a jitter = retry_delay a s jitter)"
proof -
  define c where "c = min (js_max_backoff_seconds s) (js_backoff_seconds s * 2 ^ min (a - 1) 10)"
  have delay: "retry_delay a s j = c * (1 / 2 + 1 / 2 * j)" for j by (simp add: retry_delay_def c_def Let_def)
  have c: "1 / 20 \<le> c * (1 / 2)" using ceiling_bounds(1) [OF assms(1), of a] by (simp add: delay)
  have top: "c \<le> js_max_backoff_seconds s" by (simp add: c_def)
  have "0 \<le> c" using c by simp
  then have j: "0 \<le> c * jitter" "c * jitter \<le> c" using assms(2,3) by (simp_all add: mult_left_le)
  have "js_backoff_seconds s * 2 ^ min (a - 1) 10 \<le> js_backoff_seconds s * 2 ^ min (a + 1 - 1) 10"
    using ceiling_bounds(3) [OF assms(1)] by (intro mult_left_mono power_increasing) auto
  then have "retry_delay a s 1 \<le> retry_delay (a + 1) s 1"
    by (auto simp: retry_delay_def Let_def min_def)
  moreover have "a \<le> 5 \<Longrightarrow> recovery_delay s a jitter = retry_delay a s jitter"
    by (simp only: recovery_delay_def retry_delay_def Let_def min_absorb1)
  moreover have "retry_delay a s jitter = c / 2 + c * jitter / 2" "retry_delay a s 1 = c"
    by (simp_all add: delay distrib_left)
  then have "retry_delay a s 1 / 2 \<le> retry_delay a s jitter" "retry_delay a s jitter \<le> retry_delay a s 1"
    "1 / 20 \<le> retry_delay a s jitter" "retry_delay a s jitter \<le> js_max_backoff_seconds s"
    using c top j by linarith+
  ultimately show ?thesis by blast
qed

theorem retry_delays_bounded_witness:
  "retry_delay 2 default_settings (1 / 2) = 3 \<and> retry_delay 2 default_settings (1 / 2) \<le> 300"
proof -
  have load: "load_settings default_settings = Inr default_settings" "js_max_backoff_seconds default_settings = 300"
    by (simp_all add: load_settings_def settings_ok_def lease_exceeds_timeout_def default_settings_def)
  moreover have "retry_delay 2 default_settings (1 / 2) = 3" by (simp add: retry_delay_def default_settings_def Let_def)
  ultimately show ?thesis using retry_delays_bounded [OF load(1), of "1 / 2" 2] by simp
qed







text \<open>
  An exception that \<open>_execute\<close> names in no clause, such as an ingestion conflict, is not settled: the
  job keeps running until its lease expires, and the exception ends the worker's task group.
\<close>

theorem unlisted_error_is_not_settled:
  "execute_lease s l (Raised (IngestionConflictError code)) jitter started now db =
    (if le_payload l = None then Inr (finish l None (Some ''INVALID_JOB_PAYLOAD'') False (retry_delay (le_attempts l) s jitter) started now db)
     else Inl (IngestionConflictError code))"
  by (simp add: execute_lease_def)

end
