(* ===== verification/Ingestion.thy ===== *)
theory Ingestion
  imports Recurring "HOL-Library.List_Lexorder" "HOL-Library.Char_ord"
begin

text \<open>
  Source ingestion: the contracts of \<open>ingestion/contracts.py\<close> and \<open>connectors/contracts.py\<close>, the
  identity of a delivery (\<open>ingestion/identity.py\<close>), the state table (\<open>ingestion/state.py\<close>), the
  tables of \<open>models/ingestion.py\<close> and the operations of \<open>ingestion/repository.py\<close>.

  JSON numbers are kept by their text. What Pydantic writes for an envelope and the digest of
  \<open>hashlib\<close> are parameters (\<open>envelope_codec\<close>); everything computed from them is defined here.
\<close>

section \<open>JSON\<close>

datatype json = JNull | JBool bool | JNum string | JStr string | JList "json list" | JObj "(string \<times> json) list"

type_synonym json_object = "(string \<times> json) list"

definition hex_digit :: "nat \<Rightarrow> char" where
  "hex_digit n = char_of (if n < 10 then 48 + n else 87 + n)"

definition escape_char :: "char \<Rightarrow> string" where
  "escape_char c =
     (let n = of_char c :: nat
      in if n = 34 then [char_of (92 :: nat), c]
         else if n = 92 then [c, c]
         else if n = 10 then [char_of (92 :: nat), CHR ''n'']
         else if n = 13 then [char_of (92 :: nat), CHR ''r'']
         else if n = 9 then [char_of (92 :: nat), CHR ''t'']
         else if n = 8 then [char_of (92 :: nat), CHR ''b'']
         else if n = 12 then [char_of (92 :: nat), CHR ''f'']
         else if n < 32 then char_of (92 :: nat) # ''u00'' @ [hex_digit (n div 16), hex_digit (n mod 16)]
         else [c])"

definition json_string :: "string \<Rightarrow> string" where
  "json_string s = char_of (34 :: nat) # concat (map escape_char s) @ [char_of (34 :: nat)]"

definition commas :: "string list \<Rightarrow> string" where
  "commas parts = (case parts of [] \<Rightarrow> [] | p # ps \<Rightarrow> p @ concat (map (\<lambda>q. CHR '','' # q) ps))"

text \<open>\<open>json.dumps(..., ensure_ascii=False, separators=(",", ":"), sort_keys=True)\<close>.\<close>

fun json_dumps :: "json \<Rightarrow> string" where
  "json_dumps JNull = ''null''"
| "json_dumps (JBool b) = (if b then ''true'' else ''false'')"
| "json_dumps (JNum t) = t"
| "json_dumps (JStr s) = json_string s"
| "json_dumps (JList xs) = ''['' @ commas (map json_dumps xs) @ '']''"
| "json_dumps (JObj kvs) =
     CHR 0x7B # commas (map (\<lambda>(k, t). json_string k @ '':'' @ t)
       (sort_key fst (map (\<lambda>(k, v). (k, json_dumps v)) kvs))) @ [CHR 0x7D]"

text \<open>The length of the UTF-8 encoding: characters beyond ASCII take two bytes.\<close>

definition utf8_length :: "string \<Rightarrow> nat" where
  "utf8_length s = sum_list (map (\<lambda>c. if (of_char c :: nat) < 128 then 1 else 2) s)"

section \<open>The connector contract\<close>

record envelope =
  env_external_id :: "string option"
  env_event_type :: string
  env_occurred_at :: "instant option"
  env_payload :: json_object
  env_locator :: json_object
  env_excerpt :: "string option"

text \<open>\<open>normalize_display_text(value) or None\<close>, then the maximal length of the field.\<close>

definition optional_text :: "nat \<Rightarrow> string option \<Rightarrow> (string option) result" where
  "optional_text limit value =
     (case value of
        None \<Rightarrow> Inr None
      | Some v \<Rightarrow>
          let t = normalize_display_text v
          in if t = [] then Inr None else if length t \<le> limit then Inr (Some t) else Inl ValueError)"

definition required_text :: "nat \<Rightarrow> string \<Rightarrow> string result" where
  "required_text limit value =
     (let t = normalize_display_text value
      in if t \<noteq> [] \<and> length t \<le> limit then Inr t else Inl ValueError)"

definition aware_instant :: "py_datetime option \<Rightarrow> (instant option) result" where
  "aware_instant value =
     (case value of None \<Rightarrow> Inr None | Some (Naive _) \<Rightarrow> Inl ValueError | Some (Aware t) \<Rightarrow> Inr (Some t))"

definition mk_envelope ::
  "string option \<Rightarrow> string \<Rightarrow> py_datetime option \<Rightarrow> json_object \<Rightarrow> json_object \<Rightarrow> string option \<Rightarrow> envelope result" where
  "mk_envelope external_event_id event_type occurred_at payload locator excerpt =
     bindE (optional_text 255 external_event_id) (\<lambda>external.
     bindE (required_text 80 event_type) (\<lambda>ty.
     bindE (aware_instant occurred_at) (\<lambda>ts.
     bindE (optional_text 500 excerpt) (\<lambda>ex.
       Inr \<lparr>env_external_id = external, env_event_type = ty, env_occurred_at = ts, env_payload = payload,
            env_locator = locator, env_excerpt = ex\<rparr>))))"

section \<open>The normalized event\<close>

definition SCHEMA_VERSION :: string where "SCHEMA_VERSION = ''financial-event/v1''"
definition MAX_TAGS :: nat where "MAX_TAGS = 12"
definition MAX_TAG_LENGTH :: nat where "MAX_TAG_LENGTH = 40"
definition MAX_PAYMENT_IDENTIFIERS :: nat where "MAX_PAYMENT_IDENTIFIERS = 8"
definition MAX_PAYMENT_IDENTIFIER_LENGTH :: nat where "MAX_PAYMENT_IDENTIFIER_LENGTH = 160"

record financial_event =
  fe_schema :: string
  fe_kind :: normalized_event_kind
  fe_amount :: "money option"
  fe_currency :: "string option"
  fe_description :: string
  fe_occurred_at :: "instant option"
  fe_merchant :: "string option"
  fe_counterparty :: "string option"
  fe_category_hint :: "string option"
  fe_tags :: "string list"
  fe_identifiers :: "string list"
  fe_confidence :: "int option"

definition lower_or_digit :: "char \<Rightarrow> bool" where
  "lower_or_digit c = (let n = (of_char c :: nat) in is_digit c \<or> 97 \<le> n \<and> n \<le> 122)"

definition payment_identifier_pattern :: "string \<Rightarrow> bool" where
  "payment_identifier_pattern s =
     (let namespace = takeWhile (\<lambda>c. c \<noteq> CHR '':'') s; rest = dropWhile (\<lambda>c. c \<noteq> CHR '':'') s; v = tl rest
      in rest \<noteq> [] \<and>
         2 \<le> length namespace \<and> length namespace \<le> 32 \<and> lower_or_digit (hd namespace) \<and> \<not> is_digit (hd namespace) \<and>
         list_all (\<lambda>c. lower_or_digit c \<or> c \<in> set ''_.-'') (tl namespace) \<and>
         3 \<le> length v \<and> length v \<le> 128 \<and> lower_or_digit (hd v) \<and>
         list_all (\<lambda>c. lower_or_digit c \<or> c \<in> set ''._/@-'') (tl v))"

text \<open>The loops keep the first occurrence of every lookup key.\<close>

fun first_by :: "('a \<Rightarrow> 'k) \<Rightarrow> 'k list \<Rightarrow> 'a list \<Rightarrow> 'a list" where
  "first_by f seen [] = []"
| "first_by f seen (x # xs) = (if f x \<in> set seen then first_by f seen xs else x # first_by f (f x # seen) xs)"

definition normalize_tags :: "string list \<Rightarrow> (string list) result" where
  "normalize_tags raw =
     (let tags = filter (\<lambda>t. t \<noteq> []) (map normalize_display_text raw); kept = first_by casefold [] tags
      in if list_ex (\<lambda>t. MAX_TAG_LENGTH < length t) tags \<or> MAX_TAGS < length kept then Inl ValueError else Inr kept)"

definition normalize_payment_identifiers :: "string list \<Rightarrow> (string list) result" where
  "normalize_payment_identifiers raw =
     (let ids = map (\<lambda>v. casefold (strip v)) raw; kept = first_by id [] ids
      in if list_ex (\<lambda>i. MAX_PAYMENT_IDENTIFIER_LENGTH < length i \<or> \<not> payment_identifier_pattern i) ids \<or>
            MAX_PAYMENT_IDENTIFIERS < length kept
         then Inl ValueError else Inr kept)"

text \<open>\<open>Field(gt=0, max_digits=19, decimal_places=4)\<close> and \<open>Field(ge=0, le=1, max_digits=5, decimal_places=4)\<close>.\<close>

definition four_places :: "int \<Rightarrow> int \<Rightarrow> bool" where
  "four_places c e \<longleftrightarrow> (let (n, d) = at_scale c e 4 in d dvd n)"

fun amount_field :: "decimal option \<Rightarrow> (money option) result" where
  "amount_field None = Inr None"
| "amount_field (Some (Dec c e)) =
     (if 0 < dec_value c e \<and> dec_value c e < 10 ^ 15 \<and> four_places c e
      then Inr (Some (numeric_19_4 (Dec c e))) else Inl ValueError)"
| "amount_field (Some _) = Inl ValueError"

fun confidence_field :: "decimal option \<Rightarrow> (int option) result" where
  "confidence_field None = Inr None"
| "confidence_field (Some (Dec c e)) =
     (if 0 \<le> dec_value c e \<and> dec_value c e \<le> 1 \<and> four_places c e
      then Inr (Some (quantize_4 (Dec c e))) else Inl ValueError)"
| "confidence_field (Some _) = Inl ValueError"

definition currency_field :: "string option \<Rightarrow> (string option) result" where
  "currency_field value =
     (case value of
        None \<Rightarrow> Inr None
      | Some v \<Rightarrow> (case parse_currency v of Inl _ \<Rightarrow> Inl ValueError | Inr c \<Rightarrow> Inr (Some c)))"

definition mk_event ::
  "normalized_event_kind \<Rightarrow> decimal option \<Rightarrow> string option \<Rightarrow> string \<Rightarrow> py_datetime option \<Rightarrow> string option \<Rightarrow>
   string option \<Rightarrow> string option \<Rightarrow> string list \<Rightarrow> string list \<Rightarrow> decimal option \<Rightarrow> financial_event result" where
  "mk_event kind amount currency description occurred_at merchant counterparty hint tags identifiers confidence =
     bindE (amount_field amount) (\<lambda>amt.
     bindE (currency_field currency) (\<lambda>cur.
     bindE (required_text 500 description) (\<lambda>desc.
     bindE (aware_instant occurred_at) (\<lambda>ts.
     bindE (optional_text 160 merchant) (\<lambda>mer.
     bindE (optional_text 160 counterparty) (\<lambda>party.
     bindE (optional_text 80 hint) (\<lambda>hnt.
     bindE (normalize_tags tags) (\<lambda>tgs.
     bindE (normalize_payment_identifiers identifiers) (\<lambda>ids.
     bindE (confidence_field confidence) (\<lambda>conf.
     bindE (ensure ((amt = None) = (cur = None)) ValueError) (\<lambda>_.
       Inr \<lparr>fe_schema = SCHEMA_VERSION, fe_kind = kind, fe_amount = amt, fe_currency = cur, fe_description = desc,
            fe_occurred_at = ts, fe_merchant = mer, fe_counterparty = party, fe_category_hint = hnt,
            fe_tags = tgs, fe_identifiers = ids, fe_confidence = conf\<rparr>)))))))))))"

section \<open>Delivery identity\<close>

record envelope_codec =
  ec_dump :: "envelope \<Rightarrow> json_object option"
  ec_sha256 :: "string \<Rightarrow> string"

definition MAX_ENVELOPE_BYTES :: nat where "MAX_ENVELOPE_BYTES = 32768"

definition canonical_envelope :: "envelope_codec \<Rightarrow> envelope \<Rightarrow> json_object result" where
  "canonical_envelope codec e =
     (case ec_dump codec e of
        None \<Rightarrow> Inl (ConnectorContentError ''INVALID_SOURCE_PAYLOAD'')
      | Some serialized \<Rightarrow>
          if MAX_ENVELOPE_BYTES < utf8_length (json_dumps (JObj serialized))
          then Inl (ConnectorContentError ''SOURCE_PAYLOAD_TOO_LARGE'')
          else Inr serialized)"

definition content_sha256 :: "envelope_codec \<Rightarrow> envelope \<Rightarrow> string result" where
  "content_sha256 codec e =
     bindE (canonical_envelope codec e) (\<lambda>serialized. Inr (ec_sha256 codec (json_dumps (JObj serialized))))"

definition event_identity_key :: "envelope \<Rightarrow> string \<Rightarrow> string" where
  "event_identity_key e content_hash =
     (case env_external_id e of Some i \<Rightarrow> ''external:'' @ i | None \<Rightarrow> ''sha256:'' @ content_hash)"

section \<open>Processing states\<close>

fun ALLOWED_TRANSITIONS :: "raw_event_state \<Rightarrow> raw_event_state list" where
  "ALLOWED_TRANSITIONS RECEIVED = [NORMALIZED, FAILED]"
| "ALLOWED_TRANSITIONS NORMALIZED = [PROCESSED, NEEDS_REVIEW, FAILED]"
| "ALLOWED_TRANSITIONS FAILED = [NORMALIZED, FAILED]"
| "ALLOWED_TRANSITIONS NEEDS_REVIEW = [PROCESSED]"
| "ALLOWED_TRANSITIONS PROCESSED = []"

definition require_state_transition :: "raw_event_state \<Rightarrow> raw_event_state \<Rightarrow> unit result" where
  "require_state_transition current target =
     ensure (target \<in> set (ALLOWED_TRANSITIONS current)) (IngestionConflictError ''INVALID_INGESTION_STATE_TRANSITION'')"

section \<open>Tables\<close>

record connection_row =
  scn_id :: uuid
  scn_user :: uuid
  scn_type :: connector_type
  scn_key :: string
  scn_display :: string
  scn_status :: source_connection_status
  scn_cursor :: json_object
  scn_synced_at :: "instant option"
  scn_error :: "string option"

record raw_row =
  raw_id :: uuid
  raw_user :: uuid
  raw_connection :: uuid
  raw_identity :: string
  raw_external :: "string option"
  raw_hash :: string
  raw_type :: string
  raw_occurred_at :: "instant option"
  raw_payload :: json_object

record processing_row =
  prc_raw :: uuid
  prc_user :: uuid
  prc_state :: raw_event_state
  prc_attempts :: nat
  prc_error :: "string option"

record normalized_row =
  nev_id :: uuid
  nev_user :: uuid
  nev_raw :: uuid
  nev_schema :: string
  nev_key :: string
  nev_version :: string
  nev_kind :: normalized_event_kind
  nev_amount :: "money option"
  nev_currency :: "string option"
  nev_description :: string
  nev_occurred_at :: "instant option"
  nev_merchant :: "string option"
  nev_counterparty :: "string option"
  nev_category_hint :: "string option"
  nev_tags :: "string list"
  nev_identifiers :: "string list"
  nev_confidence :: "int option"
  nev_created_at :: instant

record evidence_row =
  evd_id :: uuid
  evd_user :: uuid
  evd_raw :: uuid
  evd_event :: uuid
  evd_transaction :: uuid
  evd_kind :: evidence_kind
  evd_locator :: json_object
  evd_excerpt :: "string option"

record ingestion_db = recurring_db +
  connections :: "connection_row list"
  raw_events :: "raw_row list"
  processing :: "processing_row list"
  normalized_events :: "normalized_row list"
  evidence :: "evidence_row list"

section \<open>Constraints\<close>

definition fk_connection :: "'a ingestion_db_scheme \<Rightarrow> uuid \<Rightarrow> uuid \<Rightarrow> bool" where
  "fk_connection db c u \<longleftrightarrow> (c, u) \<in> set (map (\<lambda>r. (scn_id r, scn_user r)) (connections db))"

definition fk_raw :: "'a ingestion_db_scheme \<Rightarrow> uuid \<Rightarrow> uuid \<Rightarrow> bool" where
  "fk_raw db r u \<longleftrightarrow> (r, u) \<in> set (map (\<lambda>x. (raw_id x, raw_user x)) (raw_events db))"

definition fk_normalized :: "'a ingestion_db_scheme \<Rightarrow> uuid \<Rightarrow> uuid \<Rightarrow> uuid \<Rightarrow> bool" where
  "fk_normalized db n r u \<longleftrightarrow> (n, r, u) \<in> set (map (\<lambda>x. (nev_id x, nev_raw x, nev_user x)) (normalized_events db))"

definition fk_ledger :: "'a ingestion_db_scheme \<Rightarrow> uuid \<Rightarrow> uuid \<Rightarrow> bool" where
  "fk_ledger db t u \<longleftrightarrow> (t, u) \<in> set (map (\<lambda>x. (tx_id x, tx_user x)) (transactions db))"

definition connection_checks :: "connection_row \<Rightarrow> bool" where
  "connection_checks r \<longleftrightarrow>
     not_blank (scn_display r) \<and> length (scn_display r) \<le> 120 \<and> not_blank (scn_key r) \<and> length (scn_key r) \<le> 128"

definition sha256_format :: "string \<Rightarrow> bool" where
  "sha256_format h \<longleftrightarrow> length h = 64 \<and> list_all (\<lambda>c. is_digit c \<or> c \<in> set ''abcdef'') h"

definition raw_checks :: "raw_row \<Rightarrow> bool" where
  "raw_checks r \<longleftrightarrow>
     not_blank (raw_identity r) \<and> length (raw_identity r) \<le> 320 \<and> sha256_format (raw_hash r) \<and>
     not_blank (raw_type r) \<and> length (raw_type r) \<le> 80"

definition normalized_checks :: "normalized_row \<Rightarrow> bool" where
  "normalized_checks r \<longleftrightarrow>
     (case nev_amount r of None \<Rightarrow> True | Some a \<Rightarrow> 0 < a \<and> a < 10 ^ 19) \<and>
     (case nev_currency r of None \<Rightarrow> True | Some c \<Rightarrow> currency_pattern c) \<and>
     not_blank (nev_description r) \<and> length (nev_description r) \<le> 500 \<and>
     (case nev_confidence r of None \<Rightarrow> True | Some c \<Rightarrow> 0 \<le> c \<and> c \<le> 10000) \<and>
     not_blank (nev_schema r) \<and> not_blank (nev_key r) \<and> not_blank (nev_version r)"

definition evidence_checks :: "evidence_row \<Rightarrow> bool" where
  "evidence_checks r \<longleftrightarrow> (case evd_excerpt r of None \<Rightarrow> True | Some x \<Rightarrow> length x \<le> 500)"

section \<open>The repository\<close>

record connection_view =
  cnv_id :: uuid
  cnv_type :: connector_type
  cnv_key :: string
  cnv_display :: string
  cnv_status :: source_connection_status
  cnv_cursor :: json_object

record stored_raw_event =
  sre_id :: uuid
  sre_created :: bool
  sre_hash :: string

definition get_connection :: "uuid \<Rightarrow> uuid \<Rightarrow> 'a ingestion_db_scheme \<Rightarrow> connection_view result" where
  "get_connection user_id connection_id db =
     bindE (require (IngestionConflictError ''SOURCE_CONNECTION_NOT_FOUND'')
              (select_one (\<lambda>r. scn_id r = connection_id \<and> scn_user r = user_id) (connections db))) (\<lambda>r.
       Inr \<lparr>cnv_id = scn_id r, cnv_type = scn_type r, cnv_key = scn_key r, cnv_display = scn_display r,
            cnv_status = scn_status r, cnv_cursor = scn_cursor r\<rparr>)"

text \<open>\<open>INSERT ... ON CONFLICT DO NOTHING\<close>, then the id of the row that holds the key.\<close>

definition ensure_connection ::
  "uuid \<Rightarrow> connector_type \<times> string \<Rightarrow> string \<Rightarrow> uuid \<Rightarrow> 'a ingestion_db_scheme \<Rightarrow>
   ('a ingestion_db_scheme \<times> connection_view) result" where
  "ensure_connection user_id descriptor connection_key new_id db =
     (case select_one (\<lambda>r. scn_user r = user_id \<and> scn_type r = fst descriptor \<and> scn_key r = connection_key)
             (connections db) of
        Some r \<Rightarrow> bindE (get_connection user_id (scn_id r) db) (\<lambda>v. Inr (db, v))
      | None \<Rightarrow>
          let r = \<lparr>scn_id = new_id, scn_user = user_id, scn_type = fst descriptor, scn_key = connection_key,
                   scn_display = snd descriptor, scn_status = CONN_ACTIVE, scn_cursor = [], scn_synced_at = None,
                   scn_error = None\<rparr> in
          bindE (ensure (connection_checks r \<and> fk_user db user_id) (IntegrityError ''source_connections'')) (\<lambda>_.
          bindE (insert_row scn_id r (connections db)) (\<lambda>rows.
          let db' = db\<lparr>connections := rows\<rparr>
          in bindE (get_connection user_id new_id db') (\<lambda>v. Inr (db', v)))))"

definition raw_of_envelope ::
  "uuid \<Rightarrow> uuid \<Rightarrow> envelope \<Rightarrow> string \<Rightarrow> string \<Rightarrow> json_object \<Rightarrow> uuid \<Rightarrow> raw_row" where
  "raw_of_envelope user_id connection_id e identity_key content_hash payload new_id =
     \<lparr>raw_id = new_id, raw_user = user_id, raw_connection = connection_id, raw_identity = identity_key,
      raw_external = env_external_id e, raw_hash = content_hash, raw_type = env_event_type e,
      raw_occurred_at = env_occurred_at e, raw_payload = payload\<rparr>"

text \<open>The insert of the raw event: the tables and, when it inserted, the new id.\<close>

definition insert_raw :: "raw_row \<Rightarrow> 'a ingestion_db_scheme \<Rightarrow> ('a ingestion_db_scheme \<times> uuid option) result" where
  "insert_raw r db =
     (if list_ex (\<lambda>x. raw_connection x = raw_connection r \<and> raw_identity x = raw_identity r) (raw_events db)
      then Inr (db, None)
      else bindE (ensure (raw_checks r \<and> fk_connection db (raw_connection r) (raw_user r)) (IntegrityError ''raw_events'')) (\<lambda>_.
           bindE (insert_row raw_id r (raw_events db)) (\<lambda>rows. Inr (db\<lparr>raw_events := rows\<rparr>, Some (raw_id r)))))"

definition insert_processing :: "uuid \<Rightarrow> uuid \<Rightarrow> 'a ingestion_db_scheme \<Rightarrow> 'a ingestion_db_scheme" where
  "insert_processing user_id raw_event_id db =
     (if list_ex (\<lambda>p. prc_raw p = raw_event_id) (processing db) then db
      else db\<lparr>processing := processing db @ [\<lparr>prc_raw = raw_event_id, prc_user = user_id, prc_state = RECEIVED,
              prc_attempts = 0, prc_error = None\<rparr>]\<rparr>)"

definition store_raw_event ::
  "uuid \<Rightarrow> uuid \<Rightarrow> envelope \<Rightarrow> string \<Rightarrow> string \<Rightarrow> json_object \<Rightarrow> uuid \<Rightarrow> 'a ingestion_db_scheme \<Rightarrow>
   ('a ingestion_db_scheme \<times> stored_raw_event) result" where
  "store_raw_event user_id connection_id e identity_key content_hash payload new_id db =
     bindE (insert_raw (raw_of_envelope user_id connection_id e identity_key content_hash payload new_id) db) (\<lambda>(db1, inserted).
     bindE (require (RuntimeError ''raw_event_upsert'')
              (case inserted of
                 Some i \<Rightarrow> Some i
               | None \<Rightarrow> map_option raw_id (select_one (\<lambda>r. raw_user r = user_id \<and> raw_connection r = connection_id \<and>
                   raw_identity r = identity_key) (raw_events db1)))) (\<lambda>selected.
     bindE (ensure (map_option raw_hash (select_one (\<lambda>r. raw_id r = selected \<and> raw_user r = user_id) (raw_events db1)) =
                Some content_hash)
              (IngestionConflictError ''SOURCE_IDENTITY_CONTENT_MISMATCH'')) (\<lambda>_.
       Inr (insert_processing user_id selected db1,
            \<lparr>sre_id = selected, sre_created = (inserted \<noteq> None), sre_hash = content_hash\<rparr>))))"

definition get_processing :: "uuid \<Rightarrow> uuid \<Rightarrow> 'a ingestion_db_scheme \<Rightarrow> processing_row result" where
  "get_processing user_id raw_event_id db =
     require (RuntimeError ''processing_state_missing'')
       (select_one (\<lambda>p. prc_raw p = raw_event_id \<and> prc_user p = user_id) (processing db))"

text \<open>Assignments to the loaded processing row reach the table at the next flush.\<close>

definition put_processing :: "processing_row \<Rightarrow> 'a ingestion_db_scheme \<Rightarrow> 'a ingestion_db_scheme" where
  "put_processing p db = db\<lparr>processing := modify_rows (\<lambda>r. prc_raw r = prc_raw p) (\<lambda>_. p) (processing db)\<rparr>"

definition normalized_of_event ::
  "uuid \<Rightarrow> uuid \<Rightarrow> financial_event \<Rightarrow> string \<Rightarrow> string \<Rightarrow> instant \<Rightarrow> uuid \<Rightarrow> normalized_row" where
  "normalized_of_event user_id raw_event_id event normalizer_key normalizer_version now new_id =
     \<lparr>nev_id = new_id, nev_user = user_id, nev_raw = raw_event_id, nev_schema = fe_schema event,
      nev_key = normalizer_key, nev_version = normalizer_version, nev_kind = fe_kind event,
      nev_amount = fe_amount event, nev_currency = fe_currency event, nev_description = fe_description event,
      nev_occurred_at = fe_occurred_at event, nev_merchant = fe_merchant event,
      nev_counterparty = fe_counterparty event, nev_category_hint = fe_category_hint event,
      nev_tags = fe_tags event, nev_identifiers = fe_identifiers event, nev_confidence = fe_confidence event,
      nev_created_at = now\<rparr>"

definition same_contract :: "normalized_row \<Rightarrow> normalized_row \<Rightarrow> bool" where
  "same_contract r x \<longleftrightarrow> nev_raw x = nev_raw r \<and> nev_schema x = nev_schema r \<and> nev_key x = nev_key r \<and>
     nev_version x = nev_version r"

definition insert_normalized ::
  "normalized_row \<Rightarrow> 'a ingestion_db_scheme \<Rightarrow> ('a ingestion_db_scheme \<times> uuid option) result" where
  "insert_normalized r db =
     (if list_ex (same_contract r) (normalized_events db) then Inr (db, None)
      else bindE (ensure (normalized_checks r \<and> fk_raw db (nev_raw r) (nev_user r)) (IntegrityError ''normalized_financial_events'')) (\<lambda>_.
           bindE (insert_row nev_id r (normalized_events db)) (\<lambda>rows.
             Inr (db\<lparr>normalized_events := rows\<rparr>, Some (nev_id r)))))"

definition store_normalized_event ::
  "uuid \<Rightarrow> uuid \<Rightarrow> financial_event \<Rightarrow> string \<Rightarrow> string \<Rightarrow> instant \<Rightarrow> uuid \<Rightarrow> 'a ingestion_db_scheme \<Rightarrow>
   ('a ingestion_db_scheme \<times> normalized_row) result" where
  "store_normalized_event user_id raw_event_id event normalizer_key normalizer_version now new_id db =
     (let r = normalized_of_event user_id raw_event_id event normalizer_key normalizer_version now new_id in
      bindE (insert_normalized r db) (\<lambda>(db1, inserted).
      bindE (require (RuntimeError ''normalized_event_upsert'')
               (case inserted of
                  Some i \<Rightarrow> Some i
                | None \<Rightarrow> map_option nev_id (select_one (\<lambda>x. nev_user x = user_id \<and> same_contract r x)
                            (normalized_events db1)))) (\<lambda>selected.
      bindE (require (RuntimeError ''normalized_event_disappeared'')
               (select_one (\<lambda>x. nev_id x = selected \<and> nev_user x = user_id) (normalized_events db1))) (\<lambda>row.
        Inr (db1, row)))))"

definition evidence_for_raw_event :: "uuid \<Rightarrow> uuid \<Rightarrow> 'a ingestion_db_scheme \<Rightarrow> evidence_row option" where
  "evidence_for_raw_event user_id raw_event_id db =
     select_one (\<lambda>x. evd_user x = user_id \<and> evd_raw x = raw_event_id) (evidence db)"

definition normalized_for_raw_event :: "uuid \<Rightarrow> uuid \<Rightarrow> 'a ingestion_db_scheme \<Rightarrow> normalized_row option" where
  "normalized_for_raw_event user_id raw_event_id db =
     (case sort_key (\<lambda>x. - nev_created_at x)
             (filter (\<lambda>x. nev_user x = user_id \<and> nev_raw x = raw_event_id) (normalized_events db)) of
        [] \<Rightarrow> None
      | x # _ \<Rightarrow> Some x)"

definition add_evidence ::
  "uuid \<Rightarrow> uuid \<Rightarrow> uuid \<Rightarrow> uuid \<Rightarrow> json_object \<Rightarrow> string option \<Rightarrow> uuid \<Rightarrow> 'a ingestion_db_scheme \<Rightarrow>
   'a ingestion_db_scheme result" where
  "add_evidence user_id raw_event_id normalized_event_id transaction_id locator excerpt new_id db =
     (let x = \<lparr>evd_id = new_id, evd_user = user_id, evd_raw = raw_event_id, evd_event = normalized_event_id,
               evd_transaction = transaction_id, evd_kind = SOURCE_EVENT, evd_locator = locator,
               evd_excerpt = excerpt\<rparr> in
      bindE (ensure (evidence_checks x \<and> fk_raw db raw_event_id user_id \<and>
               fk_normalized db normalized_event_id raw_event_id user_id \<and> fk_ledger db transaction_id user_id)
               (IntegrityError ''evidence'')) (\<lambda>_.
      bindE (ensure (normalized_event_id \<notin> set (map evd_event (evidence db)))
               (IntegrityError ''uq_evidence_normalized_event'')) (\<lambda>_.
      bindE (insert_row evd_id x (evidence db)) (\<lambda>rows. Inr (db\<lparr>evidence := rows\<rparr>)))))"

definition update_connection_cursor ::
  "uuid \<Rightarrow> uuid \<Rightarrow> json_object \<Rightarrow> instant \<Rightarrow> 'a ingestion_db_scheme \<Rightarrow> 'a ingestion_db_scheme result" where
  "update_connection_cursor user_id connection_id cursor synced_at db =
     bindE (ensure (list_ex (\<lambda>r. scn_id r = connection_id \<and> scn_user r = user_id) (connections db))
              (IngestionConflictError ''SOURCE_CONNECTION_NOT_FOUND'')) (\<lambda>_.
       Inr (db\<lparr>connections := modify_rows (\<lambda>r. scn_id r = connection_id \<and> scn_user r = user_id)
              (\<lambda>r. r\<lparr>scn_cursor := cursor, scn_synced_at := Some synced_at, scn_error := None\<rparr>) (connections db)\<rparr>))"

end
