(* ===== verification/Similarity.thy ===== *)
theory Similarity
  imports Decimals
begin

text \<open>
  The text similarity of \<open>reconciliation/scoring.py\<close>: the ratio of Python's
  \<open>difflib.SequenceMatcher\<close>, the overlap of word sets, and the arithmetic of 28 significant
  digits on exact rationals that the scores are computed with.

  \<open>SequenceMatcher.ratio\<close> is a float whose shortest decimal text is read back. Its operands are
  lengths of at most 500 characters, so the exact quotient is either a decimal of five places,
  which the text reproduces, or farther than \<open>10 ^ -8\<close> from every rounding boundary of four
  places; the rational used here has the same four-place value.
\<close>

section \<open>Arithmetic of 28 significant digits\<close>

definition round_even :: "rat \<Rightarrow> int" where
  "round_even x =
     (let f = \<lfloor>x\<rfloor>; r = x - of_int f in if r < 1 / 2 \<or> (r = 1 / 2 \<and> even f) then f else f + 1)"

text \<open>The number of digits before the decimal point (negative for leading zeros after it).\<close>

definition magnitude :: "rat \<Rightarrow> int" where
  "magnitude x =
     (let (n, d) = quotient_of x; m = int (ndigits n) - int (ndigits d)
      in if 10 powi m \<le> x then m + 1 else m)"

text \<open>The value of an operation's exact result after rounding to the context.\<close>

definition sig_round :: "rat \<Rightarrow> rat" where
  "sig_round x =
     (if x = 0 then 0
      else let s = PREC - magnitude \<bar>x\<bar> in sgn x * (of_int (round_even (\<bar>x\<bar> * 10 powi s)) / 10 powi s))"

text \<open>\<open>quantize(Decimal("0.0001"), ROUND_HALF_UP)\<close> of a non-negative value, in ten-thousandths.\<close>

definition quantize_half_up :: "rat \<Rightarrow> int" where
  "quantize_half_up x = \<lfloor>x * 10000 + 1 / 2\<rfloor>"

lemma round_even_error: "\<bar>of_int (round_even x) - x\<bar> \<le> 1 / 2"
proof -
  have "of_int \<lfloor>x\<rfloor> \<le> x" "x < of_int \<lfloor>x\<rfloor> + 1" by linarith+
  then show ?thesis by (auto simp: round_even_def Let_def abs_le_iff)
qed

lemma magnitude_lower:
  assumes "0 < x"
  shows "10 powi (magnitude x - 1) \<le> x"
proof -
  obtain n d where q: "quotient_of x = (n, d)" by fastforce
  then have x: "x = of_int n / of_int d" and d: "0 < d"
    using quotient_of_div quotient_of_denom_pos by blast+
  with assms have n: "0 < n" by (simp add: zero_less_divide_iff)
  let ?a = "int (ndigits n)" and ?b = "int (ndigits d)"
  have an: "0 < ndigits n" "10 ^ (ndigits n - 1) \<le> n" and bd: "d < 10 ^ ndigits d"
    using ndigits_bounds [OF n] ndigits_bounds [OF d] by auto
  have "(10 :: rat) powi (?a - 1 - ?b) = 10 ^ (ndigits n - 1) / 10 ^ ndigits d"
  proof -
    have e: "?a - 1 - ?b = int (ndigits n - 1) - int (ndigits d)" using an(1) by simp
    show ?thesis unfolding e by (simp only: power_int_diff power_int_of_nat rel_simps simp_thms)
  qed
  also have "\<dots> \<le> of_int n / of_int d"
  proof (rule frac_le)
    show "(10 :: rat) ^ (ndigits n - 1) \<le> of_int n" using an(2) by (metis of_int_le_iff of_int_numeral of_int_power)
    show "(of_int d :: rat) \<le> 10 ^ ndigits d" using bd by (metis less_imp_le of_int_le_iff of_int_numeral of_int_power)
  qed (use d n in simp_all)
  finally have "10 powi (?a - ?b - 1) \<le> x" by (simp add: x algebra_simps)
  then show ?thesis by (simp add: magnitude_def q Let_def)
qed

lemma sig_round_error: "\<bar>sig_round x - x\<bar> \<le> \<bar>x\<bar> / 10 ^ 27"
proof (cases "x = 0")
  case False
  let ?s = "PREC - magnitude \<bar>x\<bar>" and ?y = "\<bar>x\<bar>"
  let ?r = "of_int (round_even (?y * 10 powi ?s)) / 10 powi ?s :: rat"
  have p: "(0 :: rat) < 10 powi ?s" by simp
  have "\<bar>?r - ?y\<bar> = \<bar>of_int (round_even (?y * 10 powi ?s)) - ?y * 10 powi ?s\<bar> / 10 powi ?s"
    using p by (simp add: field_simps abs_divide)
  also have "\<dots> \<le> 1 / 10 powi ?s" using round_even_error [of "?y * 10 powi ?s"] p by (simp add: divide_right_mono)
  also have "\<dots> = 10 powi (magnitude ?y - 1) / 10 ^ 27"
    by (simp add: power_int_diff field_simps)
  also have "\<dots> \<le> ?y / 10 ^ 27" using magnitude_lower [of ?y] False by (simp add: divide_right_mono)
  finally have "\<bar>?r - ?y\<bar> \<le> ?y / 10 ^ 27" .
  moreover have "\<bar>sig_round x - x\<bar> = \<bar>?r - ?y\<bar>"
    using False by (cases "0 < x") (simp_all add: sig_round_def Let_def abs_if)
  ultimately show ?thesis by simp
qed (simp add: sig_round_def)

text \<open>The rounding error stays far below one unit of the four places that are kept.\<close>

lemma sig_round_bounds:
  assumes "0 \<le> x"
  shows "0 \<le> sig_round x" "x * (1 - 1 / 10 ^ 27) \<le> sig_round x" "sig_round x \<le> x * (1 + 1 / 10 ^ 27)"
proof -
  define d where "d = x / 10 ^ 27"
  have "\<bar>sig_round x - x\<bar> \<le> d" using sig_round_error [of x] assms by (simp add: d_def)
  then have "x - d \<le> sig_round x" "sig_round x \<le> x + d" by linarith+
  then show l: "x * (1 - 1 / 10 ^ 27) \<le> sig_round x" and "sig_round x \<le> x * (1 + 1 / 10 ^ 27)"
    by (simp_all add: d_def algebra_simps)
  have "0 \<le> x * (1 - 1 / 10 ^ 27)" using assms by simp
  with l show "0 \<le> sig_round x" by linarith
qed

section \<open>Matching characters\<close>

text \<open>
  \<open>find_longest_match\<close> on two segments. A best match \<open>(i, j, k)\<close> is its starts and its length;
  the table \<open>j2len\<close> of one row is the list of the match lengths that end at each position of \<open>b\<close>.
  \<open>junk\<close> holds the popular characters that \<open>autojunk\<close> leaves out of the search.
\<close>

definition popular :: "string \<Rightarrow> char \<Rightarrow> bool" where
  "popular b c \<longleftrightarrow> 200 \<le> length b \<and> length b div 100 + 1 < count_list b c"

definition next_row :: "(char \<Rightarrow> bool) \<Rightarrow> char \<Rightarrow> nat list \<Rightarrow> string \<Rightarrow> nat list" where
  "next_row junk c prev b = map (\<lambda>(k, y). if y = c \<and> \<not> junk c then Suc k else 0) (zip (0 # prev) b)"

fun scan_row :: "nat \<Rightarrow> nat \<Rightarrow> nat list \<Rightarrow> nat \<times> nat \<times> nat \<Rightarrow> nat \<times> nat \<times> nat" where
  "scan_row i j [] best = best"
| "scan_row i j (k # ks) (bi, bj, bs) =
     scan_row i (Suc j) ks (if bs < k then (Suc i - k, Suc j - k, k) else (bi, bj, bs))"

fun scan_rows :: "(char \<Rightarrow> bool) \<Rightarrow> nat \<Rightarrow> string \<Rightarrow> string \<Rightarrow> nat list \<Rightarrow> nat \<times> nat \<times> nat \<Rightarrow> nat \<times> nat \<times> nat" where
  "scan_rows junk i [] b prev best = best"
| "scan_rows junk i (c # cs) b prev best =
     (let row = next_row junk c prev b in scan_rows junk (Suc i) cs b row (scan_row i 0 row best))"

fun extend_left :: "string \<Rightarrow> string \<Rightarrow> nat \<Rightarrow> nat \<Rightarrow> nat \<Rightarrow> nat \<times> nat \<times> nat" where
  "extend_left a b (Suc i) (Suc j) k =
     (if a ! i = b ! j then extend_left a b i j (Suc k) else (Suc i, Suc j, k))"
| "extend_left a b i j k = (i, j, k)"

fun common_prefix :: "string \<Rightarrow> string \<Rightarrow> nat" where
  "common_prefix (x # xs) (y # ys) = (if x = y then Suc (common_prefix xs ys) else 0)"
| "common_prefix xs ys = 0"

definition extend_right :: "string \<Rightarrow> string \<Rightarrow> nat \<times> nat \<times> nat \<Rightarrow> nat \<times> nat \<times> nat" where
  "extend_right a b m = (case m of (i, j, k) \<Rightarrow> (i, j, k + common_prefix (drop (i + k) a) (drop (j + k) b)))"

definition find_longest_match :: "(char \<Rightarrow> bool) \<Rightarrow> string \<Rightarrow> string \<Rightarrow> nat \<times> nat \<times> nat" where
  "find_longest_match junk a b =
     (let (i, j, k) = scan_rows junk 0 a b (replicate (length b) 0) (0, 0, 0)
      in extend_right a b (extend_left a b i j k))"

text \<open>A match lies within both segments.\<close>

definition match_in :: "string \<Rightarrow> string \<Rightarrow> nat \<times> nat \<times> nat \<Rightarrow> bool" where
  "match_in a b m = (case m of (i, j, k) \<Rightarrow> i + k \<le> length a \<and> j + k \<le> length b)"

lemma scan_row_in:
  assumes "match_in a b best" "i < length a" "\<forall>n < length ks. ks ! n \<le> Suc i \<and> ks ! n \<le> Suc (j + n)"
    "j + length ks \<le> length b"
  shows "match_in a b (scan_row i j ks best)"
  using assms
proof (induction i j ks best rule: scan_row.induct)
  case (2 i j k ks bi bj bs)
  have "k \<le> Suc i" "k \<le> Suc j" using 2(4) by force+
  moreover have "ks ! n \<le> Suc i \<and> ks ! n \<le> Suc (Suc j + n)" if "n < length ks" for n
    using 2(4) that by (metis Suc_less_eq add_Suc_shift length_Cons nth_Cons_Suc)
  ultimately show ?case using 2 by (simp add: match_in_def)
qed simp

lemma next_row_bounds:
  assumes "length prev = length b" "\<forall>n < length prev. prev ! n \<le> i \<and> prev ! n \<le> Suc n"
  shows "length (next_row junk c prev b) = length b \<and>
    (\<forall>n < length b. next_row junk c prev b ! n \<le> Suc i \<and> next_row junk c prev b ! n \<le> Suc n)"
proof -
  have "(0 # prev) ! n \<le> i \<and> (0 # prev) ! n \<le> n" if "n < length b" for n
    using assms that by (cases n) auto
  then show ?thesis using assms(1) by (auto simp: next_row_def)
qed

lemma scan_rows_in:
  assumes "match_in a b best" "i + length cs \<le> length a" "length prev = length b"
    "\<forall>n < length prev. prev ! n \<le> i \<and> prev ! n \<le> Suc n"
  shows "match_in a b (scan_rows junk i cs b prev best)"
  using assms
proof (induction cs arbitrary: i prev best)
  case (Cons c cs)
  let ?row = "next_row junk c prev b"
  note row = next_row_bounds [OF Cons.prems(3,4), of junk c]
  have "match_in a b (scan_row i 0 ?row best)"
    using Cons.prems row by (intro scan_row_in) auto
  then show ?case using Cons.prems row by (simp add: Let_def) (rule Cons.IH, auto)
qed simp

lemma extend_left_in: "match_in a b (i, j, k) \<Longrightarrow> match_in a b (extend_left a b i j k)"
  by (induction a b i j k rule: extend_left.induct) (auto simp: match_in_def)

lemma common_prefix_le: "common_prefix xs ys \<le> length xs \<and> common_prefix xs ys \<le> length ys"
  by (induction xs ys rule: common_prefix.induct) auto

lemma extend_right_in: "match_in a b m \<Longrightarrow> match_in a b (extend_right a b m)"
  using common_prefix_le [of "drop (fst m + snd (snd m)) a" "drop (fst (snd m) + snd (snd m)) b"]
  by (auto simp: match_in_def extend_right_def split: prod.splits)

lemma find_longest_match_in: "match_in a b (find_longest_match junk a b)"
proof -
  have "match_in a b (scan_rows junk 0 a b (replicate (length b) 0) (0, 0, 0))"
    by (rule scan_rows_in) (auto simp: match_in_def)
  then show ?thesis
    unfolding find_longest_match_def Let_def
    by (auto split: prod.splits intro!: extend_right_in extend_left_in)
qed

text \<open>The sizes of \<open>get_matching_blocks\<close>, added up: the longest match, then both sides of it.\<close>

function matched :: "(char \<Rightarrow> bool) \<Rightarrow> string \<Rightarrow> string \<Rightarrow> nat" where
  "matched junk a b =
     (case find_longest_match junk a b of (i, j, k) \<Rightarrow>
        if k = 0 then 0
        else k + matched junk (take i a) (take j b) + matched junk (drop (i + k) a) (drop (j + k) b))"
  by pat_completeness auto
termination
proof (relation "measure (\<lambda>(junk, a, b). length a)", goal_cases)
  case (2 junk a b x y xa ya)
  then show ?case using find_longest_match_in [of a b junk] by (auto simp: match_in_def)
next
  case (3 junk a b x y xa ya)
  then show ?case using find_longest_match_in [of a b junk] by (auto simp: match_in_def)
qed simp

declare matched.simps [simp del]

lemma matched_le: "matched junk a b \<le> length a \<and> matched junk a b \<le> length b"
proof (induction junk a b rule: matched.induct)
  case (1 junk a b)
  obtain i j k where m: "find_longest_match junk a b = (i, j, k)" by (metis prod_cases3)
  then have le: "i + k \<le> length a" "j + k \<le> length b"
    using find_longest_match_in [of a b junk] by (auto simp: match_in_def)
  show ?case
  proof (cases "k = 0")
    case False
    with 1 [OF m [symmetric] refl] le m show ?thesis by (simp add: matched.simps [of junk a b]) linarith
  qed (simp add: matched.simps [of junk a b] m)
qed

section \<open>Similarity of two texts\<close>

definition character_ratio :: "string \<Rightarrow> string \<Rightarrow> rat" where
  "character_ratio a b = 2 * of_nat (matched (popular b) a b) / of_nat (length a + length b)"

definition token_ratio :: "string \<Rightarrow> string \<Rightarrow> rat" where
  "token_ratio a b =
     (let left = remdups (split_words a); right = remdups (split_words b);
          union = remdups (left @ right)
      in if union = [] then 0
         else sig_round (of_nat (length (filter (\<lambda>w. w \<in> set right) left)) / of_nat (length union)))"

text \<open>The result has four places; it is held in ten-thousandths.\<close>

definition text_similarity :: "string option \<Rightarrow> string option \<Rightarrow> int" where
  "text_similarity left right =
     (case (left, right) of
        (Some l, Some r) \<Rightarrow>
          let nl = casefold (normalize_display_text l); nr = casefold (normalize_display_text r)
          in if nl = [] \<or> nr = [] then 0
             else if nl = nr then 10000
             else quantize_half_up (max (character_ratio nl nr) (token_ratio nl nr))
      | _ \<Rightarrow> 0)"

lemma quantize_half_up_bounds: "0 \<le> x \<Longrightarrow> x < 10001 / 10000 - 1 / 20000 \<Longrightarrow> 0 \<le> quantize_half_up x \<and> quantize_half_up x \<le> 10000"
  unfolding quantize_half_up_def by linarith

lemma character_ratio_bounds: "0 \<le> character_ratio a b \<and> character_ratio a b \<le> 1"
proof -
  have "2 * matched (popular b) a b \<le> length a + length b" using matched_le [of "popular b" a b] by linarith
  then have "2 * (of_nat (matched (popular b) a b) :: rat) \<le> of_nat (length a + length b)"
    by (metis of_nat_le_iff of_nat_mult of_nat_numeral)
  then show ?thesis by (auto simp: character_ratio_def divide_le_eq)
qed

lemma token_ratio_bounds: "0 \<le> token_ratio a b \<and> token_ratio a b \<le> 1 + 1 / 10 ^ 27"
proof -
  let ?l = "remdups (split_words a)" and ?r = "remdups (split_words b)"
  let ?u = "remdups (?l @ ?r)" and ?i = "filter (\<lambda>w. w \<in> set ?r) ?l"
  let ?q = "of_nat (length ?i) / of_nat (length ?u) :: rat"
  have "card (set ?i) \<le> card (set ?u)" by (intro card_mono) auto
  then have "length ?i \<le> length ?u" by (simp add: distinct_card [symmetric] del: set_filter)
  then have q: "0 \<le> ?q" "?q \<le> 1" by (auto simp: divide_le_eq)
  have "?q * (1 + 1 / 10 ^ 27) \<le> 1 + 1 / 10 ^ 27" using q by (intro mult_left_le_one_le) simp_all
  with sig_round_bounds [OF q(1)] have "0 \<le> sig_round ?q \<and> sig_round ?q \<le> 1 + 1 / 10 ^ 27" by linarith
  then show ?thesis by (simp add: token_ratio_def Let_def)
qed

lemma text_similarity_bounds: "0 \<le> text_similarity l r \<and> text_similarity l r \<le> 10000"
proof -
  have "0 \<le> max (character_ratio a b) (token_ratio a b) \<and>
      max (character_ratio a b) (token_ratio a b) < 10001 / 10000 - 1 / 20000" for a b
    using character_ratio_bounds [of a b] token_ratio_bounds [of a b] by auto
  then show ?thesis
    using quantize_half_up_bounds by (auto simp: text_similarity_def Let_def split: option.split)
qed

end
