(* ===== verification/Duplicate_Scoring.thy ===== *)
theory Duplicate_Scoring
  imports Ingestion Similarity
begin

text \<open>
  The pure part of duplicate detection: the policy of \<open>reconciliation/policy.py\<close>, the projections
  of \<open>reconciliation/dto.py\<close> and the scoring of \<open>reconciliation/scoring.py\<close>. Scores and
  similarities are in ten-thousandths; weights and thresholds are exact rationals.
\<close>

section \<open>The policy\<close>

record policy =
  pol_window_minutes :: int
  pol_max_candidates :: nat
  pol_duplicate :: rat
  pol_merge :: rat
  pol_amount :: rat
  pol_time :: rat
  pol_merchant :: rat
  pol_description :: rat

definition default_policy :: policy where
  "default_policy =
     \<lparr>pol_window_minutes = 1440, pol_max_candidates = 20, pol_duplicate = 70 / 100, pol_merge = 92 / 100,
      pol_amount = 35 / 100, pol_time = 25 / 100, pol_merchant = 20 / 100, pol_description = 20 / 100\<rparr>"

definition weight_total :: "policy \<Rightarrow> rat" where
  "weight_total p =
     sig_round (sig_round (sig_round (pol_amount p + pol_time p) + pol_merchant p) + pol_description p)"

definition candidate_window :: "policy \<Rightarrow> int" where
  "candidate_window p = pol_window_minutes p * 60 * 1000000"

definition validate_policy :: "policy \<Rightarrow> policy result" where
  "validate_policy p =
     (if pol_window_minutes p < 1 \<or> pol_window_minutes p > 10080 then Inl ValueError
      else if pol_max_candidates p < 1 \<or> pol_max_candidates p > 100 then Inl ValueError
      else if list_ex (\<lambda>v. v < 0 \<or> v > 1)
                [pol_duplicate p, pol_merge p, pol_amount p, pol_time p, pol_merchant p, pol_description p]
      then Inl ValueError
      else if pol_duplicate p \<ge> pol_merge p then Inl ValueError
      else if weight_total p \<noteq> 1 then Inl ValueError
      else Inr p)"

section \<open>Candidates and results\<close>

record candidate_transaction =
  can_id :: uuid
  can_amount :: money
  can_currency :: string
  can_type :: transaction_type
  can_description :: string
  can_date :: instant
  can_merchant :: "string option"
  can_identifiers :: "string list"

record reconciliation_result =
  rr_candidate :: "uuid option"
  rr_score :: int
  rr_decision :: reconciliation_decision
  rr_reasons :: "string list"

fun EVENT_TYPES :: "normalized_event_kind \<Rightarrow> transaction_type option" where
  "EVENT_TYPES KIND_EXPENSE = Some EXPENSE"
| "EVENT_TYPES KIND_INCOME = Some INCOME"
| "EVENT_TYPES KIND_TRANSFER = Some TRANSFER"
| "EVENT_TYPES KIND_REFUND = Some REFUND"
| "EVENT_TYPES KIND_SHARED_EXPENSE = Some SHARED_EXPENSE"
| "EVENT_TYPES _ = None"

definition SCORE_VERSION :: string where "SCORE_VERSION = ''reconciliation-score/v1''"

section \<open>Scoring one candidate\<close>

text \<open>Same amount, currency and type: what every match requires.\<close>

definition same_money :: "normalized_row \<Rightarrow> candidate_transaction \<Rightarrow> bool" where
  "same_money event c \<longleftrightarrow>
     nev_amount event = Some (can_amount c) \<and> nev_currency event = Some (can_currency c) \<and>
     nev_occurred_at event \<noteq> None \<and> EVENT_TYPES (nev_kind event) = Some (can_type c)"

definition time_similarity :: "policy \<Rightarrow> instant \<Rightarrow> instant \<Rightarrow> rat" where
  "time_similarity p occurred_at transaction_date =
     max 0 (sig_round (1 - sig_round (of_int \<bar>occurred_at - transaction_date\<bar> / of_int (candidate_window p))))"

text \<open>A weighted similarity given in ten-thousandths.\<close>

definition weighted :: "rat \<Rightarrow> int \<Rightarrow> rat" where
  "weighted w s = sig_round (w * (of_int s / 10000))"

definition combined_score :: "policy \<Rightarrow> rat \<Rightarrow> int \<Rightarrow> int \<Rightarrow> int" where
  "combined_score p time_sim merchant_sim description_sim =
     quantize_half_up
       (sig_round (sig_round (sig_round (pol_amount p + sig_round (pol_time p * time_sim)) +
          weighted (pol_merchant p) merchant_sim) + weighted (pol_description p) description_sim))"

definition similarity_reasons :: "rat \<Rightarrow> int \<Rightarrow> int \<Rightarrow> string list" where
  "similarity_reasons time_sim merchant_sim description_sim =
     [''AMOUNT_CURRENCY_EXACT'', if time_sim \<ge> 95 / 100 then ''TIME_CLOSE'' else ''TIME_WITHIN_WINDOW''] @
     (if merchant_sim = 10000 then [''MERCHANT_EXACT''] else if merchant_sim \<ge> 7000 then [''MERCHANT_SIMILAR''] else []) @
     (if description_sim = 10000 then [''DESCRIPTION_EXACT'']
      else if description_sim \<ge> 7000 then [''DESCRIPTION_SIMILAR''] else [])"

definition decide :: "policy \<Rightarrow> int \<Rightarrow> reconciliation_decision \<times> string" where
  "decide p score =
     (if of_int score / 10000 \<ge> pol_merge p then (MERGE, ''SCORE_AUTO_MERGE'')
      else if of_int score / 10000 \<ge> pol_duplicate p then (POSSIBLE_DUPLICATE, ''SCORE_POSSIBLE_DUPLICATE'')
      else (NEW_TRANSACTION, ''SCORE_NEW_TRANSACTION''))"

definition score_candidate :: "normalized_row \<Rightarrow> candidate_transaction \<Rightarrow> policy \<Rightarrow> reconciliation_result" where
  "score_candidate event c p =
     (if \<not> same_money event c
      then \<lparr>rr_candidate = Some (can_id c), rr_score = 0, rr_decision = NEW_TRANSACTION,
            rr_reasons = [''MONEY_OR_TYPE_MISMATCH'', ''SCORE_NEW_TRANSACTION'']\<rparr>
      else if list_ex (\<lambda>i. i \<in> set (can_identifiers c)) (nev_identifiers event)
      then \<lparr>rr_candidate = Some (can_id c), rr_score = 10000, rr_decision = MERGE,
            rr_reasons = [''PAYMENT_IDENTIFIER_EXACT'', ''AMOUNT_CURRENCY_EXACT'', ''SCORE_AUTO_MERGE'']\<rparr>
      else let time_sim = time_similarity p (the (nev_occurred_at event)) (can_date c);
               merchant_sim = text_similarity (nev_merchant event) (can_merchant c);
               description_sim = text_similarity (Some (nev_description event)) (Some (can_description c));
               score = combined_score p time_sim merchant_sim description_sim;
               (decision, reason) = decide p score
           in \<lparr>rr_candidate = Some (can_id c), rr_score = score, rr_decision = decision,
               rr_reasons = similarity_reasons time_sim merchant_sim description_sim @ [reason]\<rparr>)"

section \<open>Choosing the candidate\<close>

text \<open>The best score first, then the smaller id.\<close>

definition rank_key :: "reconciliation_result \<Rightarrow> int \<times> uuid" where
  "rank_key r = (- rr_score r, case rr_candidate r of Some i \<Rightarrow> i | None \<Rightarrow> 0)"

definition reconcile_candidates ::
  "normalized_row \<Rightarrow> candidate_transaction list \<Rightarrow> policy \<Rightarrow> reconciliation_result" where
  "reconcile_candidates event candidates p =
     (case sort_key rank_key (map (\<lambda>c. score_candidate event c p) candidates) of
        [] \<Rightarrow> \<lparr>rr_candidate = None, rr_score = 0, rr_decision = NEW_TRANSACTION,
              rr_reasons = [''NO_CANDIDATES'', ''SCORE_NEW_TRANSACTION'']\<rparr>
      | r # _ \<Rightarrow> r)"

section \<open>Scores stay between 0 and 1\<close>

abbreviation ULP :: rat where
  "ULP \<equiv> 1 / 10 ^ 27"

lemma sig_round_le: "0 \<le> x \<Longrightarrow> x \<le> b \<Longrightarrow> sig_round x \<le> b * (1 + ULP)"
  using sig_round_bounds(3) [of x] mult_right_mono [of x b "1 + ULP"] by auto

lemma sig_round_ge: "0 \<le> b \<Longrightarrow> b \<le> x \<Longrightarrow> b * (1 - ULP) \<le> sig_round x"
  using sig_round_bounds(2) [of x] mult_right_mono [of b x "1 - ULP"] by auto

lemma validate_policy_Inr:
  assumes "validate_policy p = Inr q"
  shows "q = p" "1 \<le> pol_window_minutes p" "1 \<le> pol_max_candidates p" "0 \<le> pol_amount p" "0 \<le> pol_time p"
    "0 \<le> pol_merchant p" "0 \<le> pol_description p" "0 \<le> pol_duplicate p" "pol_duplicate p < pol_merge p"
    "pol_merge p \<le> 1" "weight_total p = 1"
  using assms by (simp_all add: validate_policy_def split: if_splits)

lemma weights_bounded:
  assumes "validate_policy p = Inr p"
  shows "(pol_amount p + pol_time p + pol_merchant p + pol_description p) * ((1 - ULP) * (1 - ULP) * (1 - ULP)) \<le> 1"
proof -
  note w = validate_policy_Inr [OF assms]
  let ?a = "sig_round (pol_amount p + pol_time p)" and ?d = "(1 - ULP) * (1 - ULP)"
  have 1: "(pol_amount p + pol_time p) * (1 - ULP) \<le> ?a" using w by (intro sig_round_ge) auto
  have "pol_merchant p * (1 - ULP) \<le> pol_merchant p" using w by (intro mult_left_le) auto
  then have 2: "(pol_amount p + pol_time p + pol_merchant p) * (1 - ULP) * (1 - ULP) \<le> sig_round (?a + pol_merchant p)"
    using 1 w by (intro sig_round_ge) (auto simp: distrib_right simp del: power_numeral)
  have "pol_description p * ?d \<le> pol_description p" using w by (intro mult_left_le) auto
  then have "(pol_amount p + pol_time p + pol_merchant p + pol_description p) * ?d * (1 - ULP) \<le> weight_total p"
    unfolding weight_total_def using 2 w
    by (intro sig_round_ge) (auto simp: distrib_right mult.assoc simp del: power_numeral)
  then show ?thesis using w by (simp add: mult.assoc)
qed

lemma time_similarity_bounds:
  assumes "validate_policy p = Inr p"
  shows "0 \<le> time_similarity p t u \<and> time_similarity p t u \<le> 1 + ULP"
proof -
  let ?q = "sig_round (of_int \<bar>t - u\<bar> / of_int (candidate_window p))"
  have "0 < candidate_window p" using validate_policy_Inr(2) [OF assms] by (simp add: candidate_window_def)
  then have "0 \<le> ?q" by (intro sig_round_bounds) simp
  have "sig_round (1 - ?q) \<le> 1 + ULP"
  proof (cases "?q \<le> 1")
    case True
    with \<open>0 \<le> ?q\<close> sig_round_le [of "1 - ?q" 1] show ?thesis by simp
  next
    case False
    have "\<bar>1 - ?q\<bar> / 10 ^ 27 \<le> \<bar>1 - ?q\<bar>" by simp
    with False sig_round_error [of "1 - ?q"] show ?thesis by (auto simp: abs_if split: if_splits)
  qed
  then show ?thesis by (simp add: time_similarity_def)
qed

lemma weighted_bounds:
  assumes "0 \<le> w" "0 \<le> s" "s \<le> 10000"
  shows "0 \<le> weighted w s \<and> weighted w s \<le> w * (1 + ULP)"
proof -
  have r: "0 \<le> (of_int s :: rat) / 10000" "(of_int s :: rat) / 10000 \<le> 1" using assms by simp_all
  then have "0 \<le> w * (of_int s / 10000)" "w * (of_int s / 10000) \<le> w"
    using assms mult_left_le [of "of_int s / 10000" w] by auto
  then show ?thesis unfolding weighted_def using sig_round_bounds(1) sig_round_le by blast
qed

text \<open>One rounded addition: the errors collect in a power of \<open>1 + ULP\<close>.\<close>

lemma score_step:
  fixes k :: rat
  assumes "k = 1 + ULP" "0 \<le> x" "x \<le> a * k ^ i" "0 \<le> y" "y \<le> w * k ^ j" "j \<le> i" "0 \<le> w"
  shows "0 \<le> sig_round (x + y) \<and> sig_round (x + y) \<le> (a + w) * k ^ Suc i"
proof -
  have "1 \<le> k" using assms(1) by simp
  then have "w * k ^ j \<le> w * k ^ i" using assms(6,7) by (intro mult_left_mono power_increasing)
  then have "x + y \<le> (a + w) * k ^ i" using assms(3,5) by (simp add: distrib_right)
  with assms(2,4) have "sig_round (x + y) \<le> (a + w) * k ^ i * (1 + ULP)" by (intro sig_round_le) simp_all
  then have "sig_round (x + y) \<le> (a + w) * k ^ Suc i"
    unfolding assms(1) [symmetric] by (simp add: ac_simps)
  moreover have "0 \<le> sig_round (x + y)" using assms(2,4) by (intro sig_round_bounds(1)) simp
  ultimately show ?thesis by blast
qed

lemma combined_score_bounds:
  assumes "validate_policy p = Inr p" "0 \<le> t" "t \<le> 1 + ULP" "0 \<le> m" "m \<le> 10000" "0 \<le> d" "d \<le> 10000"
  shows "0 \<le> combined_score p t m d \<and> combined_score p t m d \<le> 10000"
proof -
  define k :: rat where "k = 1 + ULP"
  note w = validate_policy_Inr [OF assms(1)]
  let ?x1 = "sig_round (pol_time p * t)"
  let ?x2 = "sig_round (pol_amount p + ?x1)"
  let ?x3 = "sig_round (?x2 + weighted (pol_merchant p) m)"
  let ?x4 = "sig_round (?x3 + weighted (pol_description p) d)"
  have m: "0 \<le> weighted (pol_merchant p) m" "weighted (pol_merchant p) m \<le> pol_merchant p * k ^ 1"
    and d: "0 \<le> weighted (pol_description p) d" "weighted (pol_description p) d \<le> pol_description p * k ^ 1"
    using weighted_bounds w assms by (simp_all add: k_def)
  have "pol_time p * t \<le> pol_time p * k" using w assms by (intro mult_left_mono) (simp_all add: k_def)
  then have "?x1 \<le> pol_time p * k * (1 + ULP)" using w assms by (intro sig_round_le) simp_all
  then have x1: "0 \<le> ?x1" "?x1 \<le> pol_time p * k ^ 2"
    using sig_round_bounds(1) [of "pol_time p * t"] w assms
    unfolding k_def [symmetric] by (simp_all add: power2_eq_square mult.assoc)
  have k1: "1 \<le> k" by (simp add: k_def)
  have "pol_amount p \<le> pol_amount p * k ^ 2"
    using w k1 mult_left_mono [of 1 "k ^ 2" "pol_amount p"] one_le_power [of k 2] by auto
  from score_step [OF k_def w(4) this x1 order_refl w(5)]
  have x2: "0 \<le> ?x2" "?x2 \<le> (pol_amount p + pol_time p) * k ^ Suc 2" by blast+
  from score_step [OF k_def x2 m _ w(6)]
  have x3: "0 \<le> ?x3" "?x3 \<le> (pol_amount p + pol_time p + pol_merchant p) * k ^ Suc (Suc 2)" by auto
  from score_step [OF k_def x3 d _ w(7)]
  have x4: "0 \<le> ?x4"
    "?x4 \<le> (pol_amount p + pol_time p + pol_merchant p + pol_description p) * k ^ Suc (Suc (Suc 2))" by auto
  let ?low = "(1 - ULP) * (1 - ULP) * (1 - ULP)"
  have "?x4 * ?low \<le> (pol_amount p + pol_time p + pol_merchant p + pol_description p) * k ^ Suc (Suc (Suc 2)) * ?low"
    using x4(2) by (rule mult_right_mono) simp
  also have "\<dots> = (pol_amount p + pol_time p + pol_merchant p + pol_description p) * ?low * k ^ Suc (Suc (Suc 2))"
    by (simp only: mult.commute mult.left_commute mult.assoc)
  also have "\<dots> \<le> 1 * k ^ Suc (Suc (Suc 2))"
    using weights_bounded [OF assms(1)] k1 by (intro mult_right_mono) simp_all
  finally have low: "?x4 * ?low \<le> k ^ Suc (Suc (Suc 2))" by simp
  have "?x4 < 10001 / 10000 - 1 / 20000"
  proof (rule ccontr)
    assume "\<not> ?thesis"
    then have "(10001 / 10000 - 1 / 20000) * ?low \<le> ?x4 * ?low" by (intro mult_right_mono) simp_all
    with low have "(10001 / 10000 - 1 / 20000) * ?low \<le> k ^ Suc (Suc (Suc 2))" by linarith
    then show False by (simp add: k_def power_divide)
  qed
  then show ?thesis unfolding combined_score_def using quantize_half_up_bounds x4(1) by blast
qed

section \<open>The decision is sound\<close>

lemma score_bounds:
  assumes "validate_policy p = Inr p"
  shows "0 \<le> rr_score (score_candidate event c p) \<and> rr_score (score_candidate event c p) \<le> 10000"
  using combined_score_bounds [OF assms] time_similarity_bounds [OF assms] text_similarity_bounds
  by (simp add: score_candidate_def Let_def split: prod.split)

definition shares_identifier :: "normalized_row \<Rightarrow> candidate_transaction \<Rightarrow> bool" where
  "shares_identifier event c \<longleftrightarrow> list_ex (\<lambda>i. i \<in> set (can_identifiers c)) (nev_identifiers event)"

lemma score_candidate_cases:
  fixes event c p
  defines "r \<equiv> score_candidate event c p"
  shows "rr_candidate r = Some (can_id c)"
    and "\<not> same_money event c \<Longrightarrow> rr_score r = 0 \<and> rr_decision r = NEW_TRANSACTION"
    and "same_money event c \<Longrightarrow> shares_identifier event c \<Longrightarrow> rr_score r = 10000 \<and> rr_decision r = MERGE"
    and "same_money event c \<Longrightarrow> \<not> shares_identifier event c \<Longrightarrow> rr_decision r = fst (decide p (rr_score r))"
  by (simp_all add: r_def score_candidate_def shares_identifier_def Let_def split: prod.split)

lemma reconcile_best:
  assumes "candidates \<noteq> []"
  obtains c where "c \<in> set candidates" "reconcile_candidates event candidates p = score_candidate event c p"
    "\<forall>c' \<in> set candidates. rr_score (score_candidate event c' p) \<le> rr_score (score_candidate event c p)"
proof -
  let ?rs = "map (\<lambda>c. score_candidate event c p) candidates"
  have "?rs \<noteq> []" using assms by simp
  then obtain r rest where s: "sort_key rank_key ?rs = r # rest" by (metis neq_Nil_conv set_empty set_sort)
  then have "sorted (map rank_key (r # rest))" by (metis sorted_sort_key)
  then have least: "rank_key r \<le> rank_key x" if "x \<in> set ?rs" for x
    using that s by (metis list.simps(9) list.set_map image_eqI set_ConsD set_sort sorted_simps(2) order_refl)
  have "r \<in> set ?rs" using s by (metis list.set_intros(1) set_sort)
  then obtain c where c: "c \<in> set candidates" "r = score_candidate event c p" by auto
  have "rr_score (score_candidate event c' p) \<le> rr_score r" if "c' \<in> set candidates" for c'
    using least [of "score_candidate event c' p"] that by (auto simp: rank_key_def less_eq_prod_def)
  with c s that show ?thesis by (simp add: reconcile_candidates_def)
qed

lemma decide_merge: "fst (decide p s) = MERGE \<longleftrightarrow> pol_merge p \<le> of_int s / 10000"
  and decide_duplicate: "pol_duplicate p < pol_merge p \<Longrightarrow>
    fst (decide p s) = POSSIBLE_DUPLICATE \<longleftrightarrow> pol_duplicate p \<le> of_int s / 10000 \<and> of_int s / 10000 < pol_merge p"
  by (auto simp: decide_def)

text \<open>
  C40: for a valid policy the decision about an event is the one of a best scored candidate and its
  score lies between 0 and 1. An automatic merge needs the same amount, currency and type, and
  either a shared payment identifier or a score that reaches the merge threshold; a possible
  duplicate has the same money and a score between the thresholds. A candidate with the same money
  and a shared identifier is always merged.
\<close>

theorem duplicate_decision_is_sound:
  fixes event :: normalized_row and p :: policy and candidates :: "candidate_transaction list"
  assumes "validate_policy p = Inr p" "candidates \<noteq> []"
  defines "r \<equiv> reconcile_candidates event candidates p"
  shows "\<exists>c \<in> set candidates.
    rr_candidate r = Some (can_id c) \<and> r = score_candidate event c p \<and> 0 \<le> rr_score r \<and> rr_score r \<le> 10000 \<and>
    (\<forall>c' \<in> set candidates. rr_score (score_candidate event c' p) \<le> rr_score r) \<and>
    (rr_decision r = MERGE \<longrightarrow>
       same_money event c \<and> (shares_identifier event c \<or> pol_merge p \<le> of_int (rr_score r) / 10000)) \<and>
    (rr_decision r = POSSIBLE_DUPLICATE \<longrightarrow>
       same_money event c \<and> pol_duplicate p \<le> of_int (rr_score r) / 10000 \<and> of_int (rr_score r) / 10000 < pol_merge p) \<and>
    ((\<exists>c' \<in> set candidates. same_money event c' \<and> shares_identifier event c') \<longrightarrow> rr_decision r = MERGE)"
proof -
  note w = validate_policy_Inr [OF assms(1)]
  from reconcile_best [OF assms(2), of event p] obtain c where
    c: "c \<in> set candidates" "r = score_candidate event c p" and
    best: "\<forall>c' \<in> set candidates. rr_score (score_candidate event c' p) \<le> rr_score r"
    unfolding r_def by metis
  note cases = score_candidate_cases [of event c p, folded c(2)]
  have bounds: "0 \<le> rr_score r" "rr_score r \<le> 10000" using score_bounds [OF assms(1), of event c] c(2) by auto
  have exact: "rr_decision r = MERGE" if "c' \<in> set candidates" "same_money event c'" "shares_identifier event c'" for c'
  proof -
    have "rr_score (score_candidate event c' p) = 10000" using score_candidate_cases(3) that(2,3) by blast
    with best that(1) bounds have top: "rr_score r = 10000" by fastforce
    with cases(2) have "same_money event c" by force
    with cases(3,4) top w show ?thesis by (cases "shares_identifier event c") (auto simp: decide_merge)
  qed
  have "rr_decision r = MERGE \<longrightarrow>
      same_money event c \<and> (shares_identifier event c \<or> pol_merge p \<le> of_int (rr_score r) / 10000)"
    using cases(2,4) decide_merge [of p "rr_score r"] by fastforce
  moreover have "rr_decision r = POSSIBLE_DUPLICATE \<longrightarrow>
      same_money event c \<and> pol_duplicate p \<le> of_int (rr_score r) / 10000 \<and> of_int (rr_score r) / 10000 < pol_merge p"
    using cases(2,3,4) decide_duplicate [OF w(9), of "rr_score r"] by fastforce
  ultimately show ?thesis using c bounds best exact cases(1) by blast
qed

text \<open>A card payment seen twice: the second delivery names the merchant differently.\<close>

definition sample_coffee :: normalized_row where
  "sample_coffee =
     \<lparr>nev_id = 31, nev_user = 1, nev_raw = 21, nev_schema = SCHEMA_VERSION, nev_key = ''gmail'', nev_version = ''1'',
      nev_kind = KIND_EXPENSE, nev_amount = Some 2500000, nev_currency = Some ''INR'',
      nev_description = ''Blue Tokai coffee'', nev_occurred_at = Some 2160000000,
      nev_merchant = Some ''Blue Tokai'', nev_counterparty = None, nev_category_hint = None, nev_tags = [],
      nev_identifiers = [''upi:412345678901''], nev_confidence = None, nev_created_at = 2200000000\<rparr>"

definition sample_candidate :: "uuid \<Rightarrow> string \<Rightarrow> string list \<Rightarrow> candidate_transaction" where
  "sample_candidate i description identifiers =
     \<lparr>can_id = i, can_amount = 2500000, can_currency = ''INR'', can_type = EXPENSE, can_description = description,
      can_date = 0, can_merchant = Some ''blue tokai'', can_identifiers = identifiers\<rparr>"

lemma default_policy_valid: "validate_policy default_policy = Inr default_policy"
  by code_simp

lemma sample_similarities:
  "time_similarity default_policy 2160000000 0 = 39 / 40"
  "text_similarity (Some ''Blue Tokai'') (Some ''blue tokai'') = 10000"
  "text_similarity (Some ''Blue Tokai coffee'') (Some ''Lunch'') = 2727"
  "text_similarity (Some ''Blue Tokai coffee'') (Some ''Blue Tokai Coffee'') = 10000"
  by code_simp+

lemma sample_combined:
  "combined_score default_policy (39 / 40) 10000 2727 = 8483"
  "combined_score default_policy (39 / 40) 10000 10000 = 9938"
  "decide default_policy 8483 = (POSSIBLE_DUPLICATE, ''SCORE_POSSIBLE_DUPLICATE'')"
  "decide default_policy 9938 = (MERGE, ''SCORE_AUTO_MERGE'')"
  by code_simp+

lemma sample_scores:
  "\<exists>reasons. score_candidate sample_coffee (sample_candidate 7 ''Lunch'' []) default_policy =
     \<lparr>rr_candidate = Some 7, rr_score = 8483, rr_decision = POSSIBLE_DUPLICATE, rr_reasons = reasons\<rparr>"
  "\<exists>reasons. score_candidate sample_coffee (sample_candidate 8 ''Blue Tokai Coffee'' []) default_policy =
     \<lparr>rr_candidate = Some 8, rr_score = 9938, rr_decision = MERGE, rr_reasons = reasons\<rparr>"
  by (simp_all add: score_candidate_def sample_coffee_def sample_candidate_def same_money_def
      sample_similarities sample_combined)

lemma duplicate_decision_is_sound_witness:
  defines "cs \<equiv> [sample_candidate 7 ''Lunch'' [], sample_candidate 8 ''Blue Tokai Coffee'' []]"
  shows "validate_policy default_policy = Inr default_policy \<and> cs \<noteq> [] \<and>
    rr_candidate (reconcile_candidates sample_coffee cs default_policy) = Some 8 \<and>
    rr_decision (reconcile_candidates sample_coffee cs default_policy) = MERGE \<and>
    same_money sample_coffee (sample_candidate 8 ''Blue Tokai Coffee'' [])"
proof -
  obtain r1 where 1: "score_candidate sample_coffee (sample_candidate 7 ''Lunch'' []) default_policy =
     \<lparr>rr_candidate = Some 7, rr_score = 8483, rr_decision = POSSIBLE_DUPLICATE, rr_reasons = r1\<rparr>"
    using sample_scores(1) by blast
  obtain r2 where 2: "score_candidate sample_coffee (sample_candidate 8 ''Blue Tokai Coffee'' []) default_policy =
     \<lparr>rr_candidate = Some 8, rr_score = 9938, rr_decision = MERGE, rr_reasons = r2\<rparr>"
    using sample_scores(2) by blast
  have r: "reconcile_candidates sample_coffee cs default_policy =
      \<lparr>rr_candidate = Some 8, rr_score = 9938, rr_decision = MERGE, rr_reasons = r2\<rparr>"
    by (simp add: cs_def reconcile_candidates_def 1 2 rank_key_def)
  have ne: "cs \<noteq> []" by (simp add: cs_def)
  from duplicate_decision_is_sound [OF default_policy_valid ne, of sample_coffee] r
  have "same_money sample_coffee (sample_candidate 8 ''Blue Tokai Coffee'' [])"
    by (auto simp: cs_def sample_candidate_def)
  with r ne default_policy_valid show ?thesis by simp
qed

end
