(* ===== verification/Reconciliation.thy ===== *)
theory Reconciliation
  imports Duplicate_Scoring
begin

text \<open>
  Duplicate reconciliation: the tables of \<open>models/reconciliation.py\<close> and \<open>models/proposal.py\<close>, the
  queries and inserts of \<open>reconciliation/repository.py\<close>, and of \<open>reconciliation/service.py\<close> the
  hand-off of one event (\<open>ReconciliationCoordinator\<close>) and the owner's review
  (\<open>ReconciliationService\<close>). All writers of one owner hold the advisory lock of
  \<open>acquire_user_write_lock\<close> until they commit, so a call is one step on the tables.

  A fresh id, the clock and the order of an unordered query are arguments: \<open>he_rank\<close> numbers the
  rows of \<open>SELECT DISTINCT\<close> in the order in which the database returns them.
\<close>

section \<open>Tables\<close>

record proposal_row =
  fp_id :: uuid
  fp_user :: uuid
  fp_raw :: uuid
  fp_kind :: normalized_event_kind
  fp_amount :: "money option"
  fp_currency :: "string option"
  fp_description :: string
  fp_occurred_at :: "instant option"
  fp_due_date :: "date option"
  fp_merchant :: "string option"
  fp_counterparty :: "string option"
  fp_recurrence :: "recurrence_rule option"
  fp_next_date :: "date option"
  fp_category_hint :: "string option"
  fp_tags :: "string list"
  fp_confidence :: int
  fp_status :: proposal_status
  fp_reasons :: "string list"
  fp_provider :: string
  fp_model :: string
  fp_prompt :: string
  fp_version :: string
  fp_schema :: string
  fp_latency :: int
  fp_input_tokens :: "int option"
  fp_output_tokens :: "int option"
  fp_attempts :: int
  fp_transaction :: "uuid option"
  fp_receivable :: "uuid option"
  fp_payable :: "uuid option"
  fp_recurring :: "uuid option"
  fp_created_at :: instant

record case_row =
  rcs_id :: uuid
  rcs_user :: uuid
  rcs_event :: uuid
  rcs_raw :: uuid
  rcs_candidate :: "uuid option"
  rcs_result :: "uuid option"
  rcs_decision :: reconciliation_decision
  rcs_status :: reconciliation_status
  rcs_score :: int
  rcs_version :: string
  rcs_reasons :: "string list"
  rcs_locator :: json_object
  rcs_excerpt :: "string option"
  rcs_created_at :: instant
  rcs_updated_at :: instant

record action_row =
  rac_id :: uuid
  rac_case :: uuid
  rac_user :: uuid
  rac_type :: reconciliation_action_type
  rac_from :: "uuid option"
  rac_to :: "uuid option"
  rac_score :: int
  rac_reasons :: "string list"
  rac_created_at :: instant

record reconciliation_db = ingestion_db +
  proposals :: "proposal_row list"
  cases :: "case_row list"
  actions :: "action_row list"

section \<open>Constraints\<close>

text \<open>
  \<open>status_targets_consistent\<close>. A CHECK is violated only when it evaluates to false: in the
  \<open>merged\<close> disjunct the comparison with a null result is unknown, so the row passes.
\<close>

definition targets_consistent :: "case_row \<Rightarrow> bool" where
  "targets_consistent c =
     (case rcs_status c of
        CASE_PENDING \<Rightarrow> rcs_decision c = POSSIBLE_DUPLICATE \<and> rcs_candidate c \<noteq> None \<and> rcs_result c = None
      | CASE_MERGED \<Rightarrow> rcs_candidate c \<noteq> None \<and> (rcs_result c = None \<or> rcs_result c = rcs_candidate c)
      | CASE_KEPT_SEPARATE \<Rightarrow> rcs_result c \<noteq> None \<and> rcs_result c \<noteq> rcs_candidate c
      | CASE_UNMERGED \<Rightarrow> rcs_candidate c \<noteq> None \<and> rcs_result c \<noteq> None \<and> rcs_result c \<noteq> rcs_candidate c)"

definition decision_lifecycle :: "case_row \<Rightarrow> bool" where
  "decision_lifecycle c =
     (case rcs_decision c of
        MERGE \<Rightarrow> rcs_status c = CASE_MERGED \<or> rcs_status c = CASE_UNMERGED
      | POSSIBLE_DUPLICATE \<Rightarrow> True
      | NEW_TRANSACTION \<Rightarrow> rcs_status c = CASE_KEPT_SEPARATE)"

definition fk_target :: "'a reconciliation_db_scheme \<Rightarrow> uuid option \<Rightarrow> uuid \<Rightarrow> bool" where
  "fk_target db t u = (case t of None \<Rightarrow> True | Some i \<Rightarrow> fk_ledger db i u)"

definition case_checks :: "case_row \<Rightarrow> 'a reconciliation_db_scheme \<Rightarrow> bool" where
  "case_checks c db \<longleftrightarrow>
     fk_user db (rcs_user c) \<and> fk_normalized db (rcs_event c) (rcs_raw c) (rcs_user c) \<and>
     fk_target db (rcs_candidate c) (rcs_user c) \<and> fk_target db (rcs_result c) (rcs_user c) \<and>
     0 \<le> rcs_score c \<and> rcs_score c \<le> 10000 \<and>
     (case rcs_excerpt c of None \<Rightarrow> True | Some x \<Rightarrow> length x \<le> 500) \<and> not_blank (rcs_version c) \<and>
     targets_consistent c \<and> decision_lifecycle c"

definition fk_case :: "'a reconciliation_db_scheme \<Rightarrow> uuid \<Rightarrow> uuid \<Rightarrow> bool" where
  "fk_case db c u \<longleftrightarrow> (c, u) \<in> set (map (\<lambda>r. (rcs_id r, rcs_user r)) (cases db))"

text \<open>\<open>approved_has_canonical_target\<close> and \<open>at_most_one_canonical_target\<close>.\<close>

definition targets :: "proposal_row \<Rightarrow> uuid list" where
  "targets p = List.map_filter id [fp_transaction p, fp_receivable p, fp_payable p, fp_recurring p]"

definition proposal_targets_ok :: "proposal_row \<Rightarrow> bool" where
  "proposal_targets_ok p \<longleftrightarrow>
     length (targets p) \<le> 1 \<and>
     (if fp_status p = PROPOSAL_APPROVED then length (targets p) = 1 else length (targets p) = 0)"

section \<open>Finding candidates\<close>

definition same_ledger_money :: "uuid \<Rightarrow> normalized_row \<Rightarrow> transaction_type \<Rightarrow> transaction_row \<Rightarrow> bool" where
  "same_ledger_money user_id event ty t \<longleftrightarrow>
     tx_user t = user_id \<and> nev_amount event = Some (tx_amount t) \<and> nev_currency event = Some (tx_currency t) \<and>
     tx_type t = ty \<and> tx_status t = POSTED"

definition temporal_ids ::
  "uuid \<Rightarrow> normalized_row \<Rightarrow> instant \<Rightarrow> transaction_type \<Rightarrow> policy \<Rightarrow> 'a reconciliation_db_scheme \<Rightarrow> uuid list" where
  "temporal_ids user_id event occurred_at ty p db =
     map tx_id (take (pol_max_candidates p) (sort_key (\<lambda>t. (\<bar>tx_date t - occurred_at\<bar>, tx_id t))
       (filter (\<lambda>t. same_ledger_money user_id event ty t \<and> occurred_at - candidate_window p \<le> tx_date t \<and>
          tx_date t \<le> occurred_at + candidate_window p) (transactions db))))"

definition evidence_event :: "uuid \<Rightarrow> evidence_row \<Rightarrow> 'a reconciliation_db_scheme \<Rightarrow> normalized_row option" where
  "evidence_event user_id x db =
     select_one (\<lambda>n. nev_id n = evd_event x \<and> nev_user n = user_id) (normalized_events db)"

definition overlaps :: "string list \<Rightarrow> normalized_row option \<Rightarrow> bool" where
  "overlaps identifiers n = (case n of None \<Rightarrow> False | Some e \<Rightarrow> list_ex (\<lambda>i. i \<in> set (nev_identifiers e)) identifiers)"

definition exact_ids ::
  "(uuid \<Rightarrow> int) \<Rightarrow> uuid \<Rightarrow> normalized_row \<Rightarrow> transaction_type \<Rightarrow> policy \<Rightarrow> 'a reconciliation_db_scheme \<Rightarrow> uuid list" where
  "exact_ids rank user_id event ty p db =
     (if nev_identifiers event = [] then []
      else take (pol_max_candidates p) (sort_key rank (remdups (map evd_transaction
        (filter (\<lambda>x. evd_user x = user_id \<and> overlaps (nev_identifiers event) (evidence_event user_id x db) \<and>
           list_ex (\<lambda>t. tx_id t = evd_transaction x \<and> same_ledger_money user_id event ty t) (transactions db))
           (evidence db))))))"

text \<open>The identifiers of all events that support a transaction.\<close>

definition identifiers_of :: "uuid \<Rightarrow> uuid \<Rightarrow> 'a reconciliation_db_scheme \<Rightarrow> string list" where
  "identifiers_of user_id transaction_id db =
     sort (remdups (concat (map (\<lambda>x. case evidence_event user_id x db of None \<Rightarrow> [] | Some n \<Rightarrow> nev_identifiers n)
       (filter (\<lambda>x. evd_user x = user_id \<and> evd_transaction x = transaction_id) (evidence db)))))"

definition candidate_of :: "uuid \<Rightarrow> transaction_row \<Rightarrow> 'a reconciliation_db_scheme \<Rightarrow> candidate_transaction" where
  "candidate_of user_id t db =
     \<lparr>can_id = tx_id t, can_amount = tx_amount t, can_currency = tx_currency t, can_type = tx_type t,
      can_description = tx_description t, can_date = tx_date t,
      can_merchant = merchant_display db (tx_merchant t),
      can_identifiers = identifiers_of user_id (tx_id t) db\<rparr>"

definition find_candidates ::
  "(uuid \<Rightarrow> int) \<Rightarrow> uuid \<Rightarrow> normalized_row \<Rightarrow> transaction_type \<Rightarrow> policy \<Rightarrow> 'a reconciliation_db_scheme \<Rightarrow>
   candidate_transaction list" where
  "find_candidates rank user_id event ty p db =
     (case (nev_amount event, nev_currency event, nev_occurred_at event) of
        (Some _, Some _, Some occurred_at) \<Rightarrow>
          let ids = take (pol_max_candidates p)
                (first_by id [] (exact_ids rank user_id event ty p db @ temporal_ids user_id event occurred_at ty p db))
          in List.map_filter (\<lambda>i. map_option (\<lambda>t. candidate_of user_id t db)
               (select_one (\<lambda>t. tx_id t = i \<and> tx_user t = user_id) (transactions db))) ids
      | _ \<Rightarrow> [])"

definition lock_transaction :: "uuid \<Rightarrow> uuid \<Rightarrow> 'a reconciliation_db_scheme \<Rightarrow> transaction_row result" where
  "lock_transaction user_id transaction_id db =
     require (ReconciliationNotFoundError ''RECONCILIATION_TRANSACTION_NOT_FOUND'')
       (select_one (\<lambda>t. tx_id t = transaction_id \<and> tx_user t = user_id) (transactions db))"

section \<open>Cases and their audit trail\<close>

definition append_action ::
  "uuid \<Rightarrow> case_row \<Rightarrow> reconciliation_action_type \<Rightarrow> uuid option \<Rightarrow> uuid option \<Rightarrow> instant \<Rightarrow> uuid \<Rightarrow>
   'a reconciliation_db_scheme \<Rightarrow> 'a reconciliation_db_scheme result" where
  "append_action user_id c action_type from_id to_id now new_id db =
     bindE (ensure (fk_case db (rcs_id c) user_id \<and> fk_target db from_id user_id \<and> fk_target db to_id user_id \<and>
              0 \<le> rcs_score c \<and> rcs_score c \<le> 10000) (IntegrityError ''reconciliation_actions'')) (\<lambda>_.
     bindE (insert_row rac_id \<lparr>rac_id = new_id, rac_case = rcs_id c, rac_user = user_id, rac_type = action_type,
              rac_from = from_id, rac_to = to_id, rac_score = rcs_score c, rac_reasons = rcs_reasons c,
              rac_created_at = now\<rparr> (actions db)) (\<lambda>rows. Inr (db\<lparr>actions := rows\<rparr>)))"

definition case_of_result ::
  "uuid \<Rightarrow> normalized_row \<Rightarrow> reconciliation_result \<Rightarrow> reconciliation_status \<Rightarrow> uuid option \<Rightarrow> json_object \<Rightarrow>
   string option \<Rightarrow> string \<Rightarrow> instant \<Rightarrow> uuid \<Rightarrow> case_row" where
  "case_of_result user_id event r status resulting locator excerpt version now new_id =
     \<lparr>rcs_id = new_id, rcs_user = user_id, rcs_event = nev_id event, rcs_raw = nev_raw event,
      rcs_candidate = rr_candidate r, rcs_result = resulting, rcs_decision = rr_decision r, rcs_status = status,
      rcs_score = rr_score r, rcs_version = version, rcs_reasons = rr_reasons r, rcs_locator = locator,
      rcs_excerpt = excerpt, rcs_created_at = now, rcs_updated_at = now\<rparr>"

definition insert_case :: "case_row \<Rightarrow> 'a reconciliation_db_scheme \<Rightarrow> 'a reconciliation_db_scheme result" where
  "insert_case c db =
     bindE (ensure (case_checks c db) (IntegrityError ''reconciliation_cases'')) (\<lambda>_.
     bindE (ensure (rcs_event c \<notin> set (map rcs_event (cases db)))
              (IntegrityError ''uq_reconciliation_cases_normalized_event'')) (\<lambda>_.
     bindE (insert_row rcs_id c (cases db)) (\<lambda>rows. Inr (db\<lparr>cases := rows\<rparr>))))"

definition create_case ::
  "uuid \<Rightarrow> normalized_row \<Rightarrow> reconciliation_result \<Rightarrow> reconciliation_status \<Rightarrow> uuid option \<Rightarrow>
   reconciliation_action_type \<Rightarrow> json_object \<Rightarrow> string option \<Rightarrow> string \<Rightarrow> instant \<Rightarrow> uuid \<times> uuid \<Rightarrow>
   'a reconciliation_db_scheme \<Rightarrow> ('a reconciliation_db_scheme \<times> case_row) result" where
  "create_case user_id event r status resulting action_type locator excerpt version now ids db =
     (let c = case_of_result user_id event r status resulting locator excerpt version now (fst ids) in
      bindE (insert_case c db) (\<lambda>db1.
      bindE (append_action user_id c action_type None resulting now (snd ids) db1) (\<lambda>db2. Inr (db2, c))))"

text \<open>Changing a locked case: the row is written at the flush, where its constraints are checked.\<close>

definition update_case :: "case_row \<Rightarrow> 'a reconciliation_db_scheme \<Rightarrow> 'a reconciliation_db_scheme result" where
  "update_case c db =
     bindE (ensure (case_checks c db) (IntegrityError ''reconciliation_cases'')) (\<lambda>_.
       Inr (db\<lparr>cases := modify_rows (\<lambda>r. rcs_id r = rcs_id c) (\<lambda>_. c) (cases db)\<rparr>))"

definition lock_case :: "uuid \<Rightarrow> uuid \<Rightarrow> 'a reconciliation_db_scheme \<Rightarrow> case_row option" where
  "lock_case user_id case_id db = select_one (\<lambda>c. rcs_id c = case_id \<and> rcs_user c = user_id) (cases db)"

definition normalized_for_case :: "uuid \<Rightarrow> case_row \<Rightarrow> 'a reconciliation_db_scheme \<Rightarrow> normalized_row result" where
  "normalized_for_case user_id c db =
     require (ReconciliationNotFoundError ''RECONCILIATION_EVENT_NOT_FOUND'')
       (select_one (\<lambda>n. nev_id n = rcs_event c \<and> nev_raw n = rcs_raw c \<and> nev_user n = user_id) (normalized_events db))"

definition evidence_for_case :: "uuid \<Rightarrow> case_row \<Rightarrow> 'a reconciliation_db_scheme \<Rightarrow> evidence_row option" where
  "evidence_for_case user_id c db =
     select_one (\<lambda>x. evd_event x = rcs_event c \<and> evd_raw x = rcs_raw c \<and> evd_user x = user_id) (evidence db)"

definition proposal_for_raw_event :: "uuid \<Rightarrow> uuid \<Rightarrow> 'a reconciliation_db_scheme \<Rightarrow> proposal_row option" where
  "proposal_for_raw_event user_id raw_event_id db =
     select_one (\<lambda>p. fp_raw p = raw_event_id \<and> fp_user p = user_id \<and>
       (fp_status p = PROPOSAL_RECONCILIATION_REVIEW \<or> fp_status p = PROPOSAL_APPROVED)) (proposals db)"

definition update_proposal :: "proposal_row \<Rightarrow> 'a reconciliation_db_scheme \<Rightarrow> 'a reconciliation_db_scheme result" where
  "update_proposal p db =
     bindE (ensure (proposal_targets_ok p \<and> fk_target db (fp_transaction p) (fp_user p))
              (IntegrityError ''financial_event_proposals'')) (\<lambda>_.
       Inr (db\<lparr>proposals := modify_rows (\<lambda>r. fp_id r = fp_id p) (\<lambda>_. p) (proposals db)\<rparr>))"

end
