(* ===== verification/Reconciliation_Service.thy ===== *)
theory Reconciliation_Service
  imports Reconciliation
begin

text \<open>
  \<open>reconciliation/service.py\<close>: the hand-off of one normalized event to the ledger
  (\<open>ReconciliationCoordinator.reconcile_transaction\<close>) and the owner's review of ambiguous and
  merged events (\<open>ReconciliationService\<close>), with the projections of \<open>reconciliation/dto.py\<close>.
\<close>

section \<open>Helpers of the service\<close>

record handoff_env =
  he_now :: instant
  he_rank :: "uuid \<Rightarrow> int"
  he_merchant :: uuid
  he_transaction :: uuid
  he_evidence :: uuid
  he_case :: uuid
  he_action :: uuid

abbreviation ledger_ids :: "handoff_env \<Rightarrow> uuid \<times> uuid" where
  "ledger_ids env \<equiv> (he_merchant env, he_transaction env)"

abbreviation case_ids :: "handoff_env \<Rightarrow> uuid \<times> uuid" where
  "case_ids env \<equiv> (he_case env, he_action env)"

definition require_candidate_id :: "uuid option \<Rightarrow> uuid result" where
  "require_candidate_id v = require (ReconciliationConflictError ''RECONCILIATION_CANDIDATE_REQUIRED'') v"

definition validate_candidate :: "transaction_row \<Rightarrow> normalized_row \<Rightarrow> transaction_type \<Rightarrow> unit result" where
  "validate_candidate t event ty =
     ensure (tx_status t = POSTED \<and> nev_amount event = Some (tx_amount t) \<and> nev_currency event = Some (tx_currency t) \<and>
        tx_type t = ty) (ReconciliationConflictError ''RECONCILIATION_CANDIDATE_CHANGED'')"

definition transaction_type_of :: "normalized_row \<Rightarrow> transaction_type result" where
  "transaction_type_of event =
     require (ReconciliationConflictError ''RECONCILIATION_EVENT_KIND_UNSUPPORTED'') (EVENT_TYPES (nev_kind event))"

definition require_pending :: "case_row option \<Rightarrow> case_row result" where
  "require_pending c =
     bindE (require (ReconciliationNotFoundError ''RECONCILIATION_CASE_NOT_FOUND'') c) (\<lambda>c.
     bindE (ensure (rcs_status c = CASE_PENDING) (ReconciliationConflictError ''RECONCILIATION_CASE_ALREADY_RESOLVED'')) (\<lambda>_.
       Inr c))"

definition require_merged :: "case_row option \<Rightarrow> case_row result" where
  "require_merged c =
     bindE (require (ReconciliationNotFoundError ''RECONCILIATION_CASE_NOT_FOUND'') c) (\<lambda>c.
     bindE (ensure (rcs_status c = CASE_MERGED) (ReconciliationConflictError ''RECONCILIATION_CASE_NOT_MERGED'')) (\<lambda>_.
       Inr c))"

section \<open>The ledger command of an event\<close>

definition event_merchant_key :: "normalized_row \<Rightarrow> string option" where
  "event_merchant_key event =
     (case nev_merchant event of None \<Rightarrow> None | Some m \<Rightarrow> if m = [] then None else Some (normalize_lookup_text m))"

definition model_confidence :: "normalized_row \<Rightarrow> decimal option" where
  "model_confidence event = map_option (\<lambda>c. Dec c (-4)) (nev_confidence event)"

text \<open>The learned category, else the category that the source's hint names.\<close>

definition event_category ::
  "uuid \<Rightarrow> normalized_row \<Rightarrow> category_assignment option \<Rightarrow> 'a categorization_db_scheme \<Rightarrow> uuid option" where
  "event_category user_id event assigned db =
     (case assigned of
        Some a \<Rightarrow> Some (as_category a)
      | None \<Rightarrow> (case nev_category_hint event of None \<Rightarrow> None
                | Some hint \<Rightarrow> find_visible_category_id user_id (normalize_lookup_text hint) db))"

definition with_provenance ::
  "category_assignment option \<Rightarrow> uuid option \<Rightarrow> int option \<Rightarrow> create_transaction_command \<Rightarrow> create_transaction_command" where
  "with_provenance assigned category_id confidence command =
     (case assigned of
        Some a \<Rightarrow> command\<lparr>ct_category_source := Some (as_source a), ct_category_version := Some (as_version a),
                    ct_category_confidence := Some (as_confidence a), ct_category_overridden := False\<rparr>
      | None \<Rightarrow>
          if category_id \<noteq> None
          then command\<lparr>ct_category_source := Some MODEL, ct_category_version := Some CLASSIFIER_VERSION,
                 ct_category_confidence := confidence, ct_category_overridden := False\<rparr>
          else command)"

text \<open>The common part of \<open>_transaction_command\<close> and of the ingestion's posting step.\<close>

definition event_command ::
  "uuid \<Rightarrow> normalized_row \<Rightarrow> money \<Rightarrow> string \<Rightarrow> instant \<Rightarrow> transaction_type \<Rightarrow> 'a categorization_db_scheme \<Rightarrow>
   create_transaction_command result" where
  "event_command user_id event amount currency occurred_at ty db =
     (let assigned = classify user_id (nev_description event) (event_merchant_key event) db;
          category_id = event_category user_id event assigned db
      in bindE (parse_create_transaction (format_f amount) currency ty (nev_description event) (Aware occurred_at)
                  POSTED category_id (nev_merchant event) INGESTION (model_confidence event)) (\<lambda>command.
           Inr (with_provenance assigned category_id (nev_confidence event) command)))"

definition transaction_command ::
  "uuid \<Rightarrow> normalized_row \<Rightarrow> 'a categorization_db_scheme \<Rightarrow> create_transaction_command result" where
  "transaction_command user_id event db =
     (case (nev_amount event, nev_currency event, nev_occurred_at event) of
        (Some amount, Some currency, Some occurred_at) \<Rightarrow>
          bindE (transaction_type_of event) (\<lambda>ty. event_command user_id event amount currency occurred_at ty db)
      | _ \<Rightarrow> Inl (ReconciliationConflictError ''RECONCILIATION_EVENT_INCOMPLETE''))"

section \<open>The coordinator\<close>

record outcome =
  oc_case :: uuid
  oc_transaction :: "uuid option"
  oc_result :: reconciliation_result

definition requires_review :: "outcome \<Rightarrow> bool" where
  "requires_review out \<longleftrightarrow> rr_decision (oc_result out) = POSSIBLE_DUPLICATE"

definition merge_automatically ::
  "uuid \<Rightarrow> normalized_row \<Rightarrow> transaction_type \<Rightarrow> reconciliation_result \<Rightarrow> json_object \<Rightarrow> string option \<Rightarrow> handoff_env \<Rightarrow>
   'a reconciliation_db_scheme \<Rightarrow> ('a reconciliation_db_scheme \<times> outcome) result" where
  "merge_automatically user_id event ty r locator excerpt env db =
     bindE (require_candidate_id (rr_candidate r)) (\<lambda>candidate_id.
     bindE (lock_transaction user_id candidate_id db) (\<lambda>t.
     bindE (validate_candidate t event ty) (\<lambda>_.
     bindE (add_evidence user_id (nev_raw event) (nev_id event) (tx_id t) locator excerpt (he_evidence env) db) (\<lambda>db1.
     bindE (create_case user_id event r CASE_MERGED (Some (tx_id t)) AUTO_MERGED locator excerpt SCORE_VERSION
              (he_now env) (case_ids env) db1) (\<lambda>(db2, c).
       Inr (db2, \<lparr>oc_case = rcs_id c, oc_transaction = Some (tx_id t), oc_result = r\<rparr>))))))"

definition flag_candidate ::
  "uuid \<Rightarrow> normalized_row \<Rightarrow> reconciliation_result \<Rightarrow> json_object \<Rightarrow> string option \<Rightarrow> handoff_env \<Rightarrow>
   'a reconciliation_db_scheme \<Rightarrow> ('a reconciliation_db_scheme \<times> outcome) result" where
  "flag_candidate user_id event r locator excerpt env db =
     bindE (create_case user_id event r CASE_PENDING None CANDIDATE_FLAGGED locator excerpt SCORE_VERSION
              (he_now env) (case_ids env) db) (\<lambda>(db1, c).
       Inr (db1, \<lparr>oc_case = rcs_id c, oc_transaction = None, oc_result = r\<rparr>))"

definition post_new ::
  "uuid \<Rightarrow> normalized_row \<Rightarrow> create_transaction_command \<Rightarrow> reconciliation_result \<Rightarrow> json_object \<Rightarrow> string option \<Rightarrow>
   handoff_env \<Rightarrow> 'a reconciliation_db_scheme \<Rightarrow> ('a reconciliation_db_scheme \<times> outcome) result" where
  "post_new user_id event command r locator excerpt env db =
     bindE (repo_create_transaction user_id command (ledger_ids env) db) (\<lambda>(db1, v).
     bindE (add_evidence user_id (nev_raw event) (nev_id event) (tv_id v) locator excerpt (he_evidence env) db1) (\<lambda>db2.
     bindE (create_case user_id event r CASE_KEPT_SEPARATE (Some (tv_id v)) CREATED_NEW locator excerpt SCORE_VERSION
              (he_now env) (case_ids env) db2) (\<lambda>(db3, c).
       Inr (db3, \<lparr>oc_case = rcs_id c, oc_transaction = Some (tv_id v), oc_result = r\<rparr>))))"

definition reconcile_transaction ::
  "policy \<Rightarrow> uuid \<Rightarrow> normalized_row \<Rightarrow> create_transaction_command \<Rightarrow> json_object \<Rightarrow> string option \<Rightarrow> handoff_env \<Rightarrow>
   'a reconciliation_db_scheme \<Rightarrow> ('a reconciliation_db_scheme \<times> outcome) result" where
  "reconcile_transaction p user_id event command locator excerpt env db =
     (let r = reconcile_candidates event (find_candidates (he_rank env) user_id event (ct_type command) p db) p
      in case rr_decision r of
           MERGE \<Rightarrow> merge_automatically user_id event (ct_type command) r locator excerpt env db
         | POSSIBLE_DUPLICATE \<Rightarrow> flag_candidate user_id event r locator excerpt env db
         | NEW_TRANSACTION \<Rightarrow> post_new user_id event command r locator excerpt env db)"

section \<open>Review\<close>

definition complete_source ::
  "uuid \<Rightarrow> case_row \<Rightarrow> uuid \<Rightarrow> 'a reconciliation_db_scheme \<Rightarrow> 'a reconciliation_db_scheme result" where
  "complete_source user_id c transaction_id db =
     bindE (get_processing user_id (rcs_raw c) db) (\<lambda>p.
     bindE (ensure (prc_state p = NEEDS_REVIEW) (ReconciliationConflictError ''RECONCILIATION_SOURCE_NOT_REVIEWABLE'')) (\<lambda>_.
     bindE (require_state_transition (prc_state p) PROCESSED) (\<lambda>_.
     let db1 = put_processing (p\<lparr>prc_state := PROCESSED, prc_error := None\<rparr>) db
     in case proposal_for_raw_event user_id (rcs_raw c) db1 of
          None \<Rightarrow> Inr db1
        | Some q \<Rightarrow>
            bindE (ensure (fp_status q = PROPOSAL_RECONCILIATION_REVIEW)
                     (ReconciliationConflictError ''RECONCILIATION_PROPOSAL_NOT_REVIEWABLE'')) (\<lambda>_.
              update_proposal (q\<lparr>fp_status := PROPOSAL_APPROVED, fp_transaction := Some transaction_id\<rparr>) db1))))"

definition resolve_case :: "case_row \<Rightarrow> reconciliation_status \<Rightarrow> uuid \<Rightarrow> instant \<Rightarrow> case_row" where
  "resolve_case c status transaction_id now =
     c\<lparr>rcs_status := status, rcs_result := Some transaction_id, rcs_updated_at := now\<rparr>"

definition no_evidence_yet :: "uuid \<Rightarrow> case_row \<Rightarrow> 'a reconciliation_db_scheme \<Rightarrow> unit result" where
  "no_evidence_yet user_id c db =
     ensure (evidence_for_case user_id c db = None) (ReconciliationConflictError ''RECONCILIATION_EVIDENCE_ALREADY_LINKED'')"

text \<open>The three commands without their final projection.\<close>

definition apply_merge ::
  "uuid \<Rightarrow> uuid \<Rightarrow> handoff_env \<Rightarrow> 'a reconciliation_db_scheme \<Rightarrow> 'a reconciliation_db_scheme result" where
  "apply_merge user_id case_id env db =
     bindE (require_pending (lock_case user_id case_id db)) (\<lambda>c.
     bindE (require_candidate_id (rcs_candidate c)) (\<lambda>candidate_id.
     bindE (normalized_for_case user_id c db) (\<lambda>event.
     bindE (transaction_type_of event) (\<lambda>ty.
     bindE (lock_transaction user_id candidate_id db) (\<lambda>t.
     bindE (validate_candidate t event ty) (\<lambda>_.
     bindE (no_evidence_yet user_id c db) (\<lambda>_.
     bindE (add_evidence user_id (rcs_raw c) (rcs_event c) (tx_id t) (rcs_locator c) (rcs_excerpt c) (he_evidence env) db) (\<lambda>db1.
     bindE (update_case (resolve_case c CASE_MERGED (tx_id t) (he_now env)) db1) (\<lambda>db2.
     bindE (append_action user_id c USER_MERGED None (Some (tx_id t)) (he_now env) (he_action env) db2) (\<lambda>db3.
       complete_source user_id c (tx_id t) db3))))))))))"

definition apply_keep_separate ::
  "uuid \<Rightarrow> uuid \<Rightarrow> handoff_env \<Rightarrow> 'a reconciliation_db_scheme \<Rightarrow> 'a reconciliation_db_scheme result" where
  "apply_keep_separate user_id case_id env db =
     bindE (require_pending (lock_case user_id case_id db)) (\<lambda>c.
     bindE (no_evidence_yet user_id c db) (\<lambda>_.
     bindE (normalized_for_case user_id c db) (\<lambda>event.
     bindE (transaction_command user_id event db) (\<lambda>command.
     bindE (repo_create_transaction user_id command (ledger_ids env) db) (\<lambda>(db1, v).
     bindE (add_evidence user_id (rcs_raw c) (rcs_event c) (tv_id v) (rcs_locator c) (rcs_excerpt c) (he_evidence env) db1) (\<lambda>db2.
     bindE (update_case (resolve_case c CASE_KEPT_SEPARATE (tv_id v) (he_now env)) db2) (\<lambda>db3.
     bindE (append_action user_id c USER_KEPT_SEPARATE None (Some (tv_id v)) (he_now env) (he_action env) db3) (\<lambda>db4.
       complete_source user_id c (tv_id v) db4))))))))"

text \<open>The evidence that a merged case must have.\<close>

definition merged_evidence :: "uuid \<Rightarrow> case_row \<Rightarrow> 'a reconciliation_db_scheme \<Rightarrow> evidence_row result" where
  "merged_evidence user_id c db =
     (case (evidence_for_case user_id c db, rcs_result c) of
        (Some x, Some t) \<Rightarrow>
          bindE (ensure (evd_transaction x = t) (ReconciliationConflictError ''RECONCILIATION_EVIDENCE_MISMATCH'')) (\<lambda>_. Inr x)
      | _ \<Rightarrow> Inl (ReconciliationConflictError ''RECONCILIATION_EVIDENCE_MISMATCH''))"

definition move_evidence ::
  "evidence_row \<Rightarrow> uuid \<Rightarrow> 'a reconciliation_db_scheme \<Rightarrow> 'a reconciliation_db_scheme result" where
  "move_evidence x transaction_id db =
     bindE (ensure (fk_ledger db transaction_id (evd_user x)) (IntegrityError ''evidence'')) (\<lambda>_.
       Inr (db\<lparr>evidence := modify_rows (\<lambda>r. evd_id r = evd_id x) (\<lambda>r. r\<lparr>evd_transaction := transaction_id\<rparr>) (evidence db)\<rparr>))"

definition apply_unmerge ::
  "uuid \<Rightarrow> uuid \<Rightarrow> handoff_env \<Rightarrow> 'a reconciliation_db_scheme \<Rightarrow> 'a reconciliation_db_scheme result" where
  "apply_unmerge user_id case_id env db =
     bindE (require_merged (lock_case user_id case_id db)) (\<lambda>c.
     bindE (merged_evidence user_id c db) (\<lambda>x.
     bindE (normalized_for_case user_id c db) (\<lambda>event.
     bindE (transaction_command user_id event db) (\<lambda>command.
     bindE (repo_create_transaction user_id command (ledger_ids env) db) (\<lambda>(db1, v).
     bindE (move_evidence x (tv_id v) db1) (\<lambda>db2.
     bindE (update_case (resolve_case c CASE_UNMERGED (tv_id v) (he_now env)) db2) (\<lambda>db3.
     bindE (append_action user_id c USER_UNMERGED (Some (evd_transaction x)) (Some (tv_id v)) (he_now env) (he_action env) db3) (\<lambda>db4.
       case proposal_for_raw_event user_id (rcs_raw c) db4 of
         None \<Rightarrow> Inr db4
       | Some q \<Rightarrow> update_proposal (q\<lparr>fp_transaction := Some (tv_id v)\<rparr>) db4))))))))"

section \<open>Projections\<close>

record action_view =
  acv_id :: uuid
  acv_type :: reconciliation_action_type
  acv_from :: "uuid option"
  acv_to :: "uuid option"
  acv_score :: int
  acv_reasons :: "string list"
  acv_created_at :: instant

record case_view =
  csv_id :: uuid
  csv_event :: uuid
  csv_source :: connector_type
  csv_kind :: normalized_event_kind
  csv_amount :: money
  csv_currency :: string
  csv_description :: string
  csv_occurred_at :: instant
  csv_merchant :: "string option"
  csv_candidate :: "uuid option"
  csv_candidate_description :: "string option"
  csv_candidate_date :: "instant option"
  csv_candidate_merchant :: "string option"
  csv_result :: "uuid option"
  csv_decision :: reconciliation_decision
  csv_status :: reconciliation_status
  csv_score :: int
  csv_version :: string
  csv_reasons :: "string list"
  csv_created_at :: instant
  csv_updated_at :: instant
  csv_actions :: "action_view list"

definition can_unmerge :: "case_view \<Rightarrow> bool" where
  "can_unmerge v \<longleftrightarrow> csv_status v = CASE_MERGED"

definition action_view :: "action_row \<Rightarrow> action_view" where
  "action_view a =
     \<lparr>acv_id = rac_id a, acv_type = rac_type a, acv_from = rac_from a, acv_to = rac_to a, acv_score = rac_score a,
      acv_reasons = rac_reasons a, acv_created_at = rac_created_at a\<rparr>"

definition actions_of :: "uuid \<Rightarrow> uuid \<Rightarrow> 'a reconciliation_db_scheme \<Rightarrow> action_view list" where
  "actions_of user_id case_id db =
     map action_view (sort_key (\<lambda>a. (rac_created_at a, rac_id a))
       (filter (\<lambda>a. rac_user a = user_id \<and> rac_case a = case_id) (actions db)))"

text \<open>The rows that the inner joins of the listing give for a case: its event and its connector.\<close>

definition case_source ::
  "uuid \<Rightarrow> case_row \<Rightarrow> 'a reconciliation_db_scheme \<Rightarrow> (normalized_row \<times> connector_type) option" where
  "case_source user_id c db =
     Option.bind (select_one (\<lambda>n. nev_id n = rcs_event c \<and> nev_user n = user_id) (normalized_events db)) (\<lambda>event.
     Option.bind (select_one (\<lambda>r. raw_id r = rcs_raw c \<and> raw_user r = user_id) (raw_events db)) (\<lambda>raw.
     map_option (\<lambda>s. (event, scn_type s))
       (select_one (\<lambda>s. scn_id s = raw_connection raw \<and> scn_user s = user_id) (connections db))))"

definition case_view ::
  "uuid \<Rightarrow> case_row \<Rightarrow> normalized_row \<times> connector_type \<Rightarrow> 'a reconciliation_db_scheme \<Rightarrow> case_view result" where
  "case_view user_id c src db =
     (let event = fst src; candidate = Option.bind (rcs_candidate c) (\<lambda>i. select_one (\<lambda>t. tx_id t = i) (transactions db))
      in case (nev_amount event, nev_currency event, nev_occurred_at event) of
           (Some amount, Some currency, Some occurred_at) \<Rightarrow>
             Inr \<lparr>csv_id = rcs_id c, csv_event = nev_id event, csv_source = snd src, csv_kind = nev_kind event,
                  csv_amount = amount, csv_currency = currency, csv_description = nev_description event,
                  csv_occurred_at = occurred_at, csv_merchant = nev_merchant event,
                  csv_candidate = rcs_candidate c, csv_candidate_description = map_option tx_description candidate,
                  csv_candidate_date = map_option tx_date candidate,
                  csv_candidate_merchant = Option.bind candidate (\<lambda>t. merchant_display db (tx_merchant t)),
                  csv_result = rcs_result c, csv_decision = rcs_decision c, csv_status = rcs_status c,
                  csv_score = rcs_score c, csv_version = rcs_version c, csv_reasons = rcs_reasons c,
                  csv_created_at = rcs_created_at c, csv_updated_at = rcs_updated_at c,
                  csv_actions = actions_of user_id (rcs_id c) db\<rparr>
         | _ \<Rightarrow> Inl (RuntimeError ''incomplete_reconciliation_event''))"

definition list_views ::
  "uuid \<Rightarrow> reconciliation_status option \<Rightarrow> uuid option \<Rightarrow> nat \<Rightarrow> 'a reconciliation_db_scheme \<Rightarrow> (case_view list) result" where
  "list_views user_id status case_id limit db =
     mapE (\<lambda>(c, src). case_view user_id c src db)
       (take limit (List.map_filter (\<lambda>c. map_option (Pair c) (case_source user_id c db))
          (sort_key (\<lambda>c. (- rcs_created_at c, - int (rcs_id c)))
             (filter (\<lambda>c. rcs_user c = user_id \<and> (case status of None \<Rightarrow> True | Some s \<Rightarrow> rcs_status c = s) \<and>
                (case case_id of None \<Rightarrow> True | Some i \<Rightarrow> rcs_id c = i)) (cases db)))))"

definition get_view :: "uuid \<Rightarrow> uuid \<Rightarrow> 'a reconciliation_db_scheme \<Rightarrow> (case_view option) result" where
  "get_view user_id case_id db =
     bindE (list_views user_id None (Some case_id) 1 db) (\<lambda>views. Inr (select_one (\<lambda>v. csv_id v = case_id) views))"

definition require_view :: "case_view option \<Rightarrow> case_view result" where
  "require_view v = require (ReconciliationNotFoundError ''RECONCILIATION_CASE_NOT_FOUND'') v"

definition with_view ::
  "uuid \<Rightarrow> uuid \<Rightarrow> 'a reconciliation_db_scheme \<Rightarrow> ('a reconciliation_db_scheme \<times> case_view) result" where
  "with_view user_id case_id db =
     bindE (get_view user_id case_id db) (\<lambda>v. bindE (require_view v) (\<lambda>view. Inr (db, view)))"

section \<open>The review service\<close>

definition list_cases ::
  "uuid \<Rightarrow> reconciliation_status option \<Rightarrow> 'a reconciliation_db_scheme \<Rightarrow> (case_view list) result" where
  "list_cases user_id status db = list_views user_id status None 100 db"

definition merge_case ::
  "uuid \<Rightarrow> uuid \<Rightarrow> handoff_env \<Rightarrow> 'a reconciliation_db_scheme \<Rightarrow> ('a reconciliation_db_scheme \<times> case_view) result" where
  "merge_case user_id case_id env db = bindE (apply_merge user_id case_id env db) (with_view user_id case_id)"

definition keep_separate ::
  "uuid \<Rightarrow> uuid \<Rightarrow> handoff_env \<Rightarrow> 'a reconciliation_db_scheme \<Rightarrow> ('a reconciliation_db_scheme \<times> case_view) result" where
  "keep_separate user_id case_id env db = bindE (apply_keep_separate user_id case_id env db) (with_view user_id case_id)"

definition unmerge ::
  "uuid \<Rightarrow> uuid \<Rightarrow> handoff_env \<Rightarrow> 'a reconciliation_db_scheme \<Rightarrow> ('a reconciliation_db_scheme \<times> case_view) result" where
  "unmerge user_id case_id env db = bindE (apply_unmerge user_id case_id env db) (with_view user_id case_id)"

end
