(* ===== verification/Ingestion_Service.thy ===== *)
theory Ingestion_Service
  imports Reconciliation_Service
begin

text \<open>
  \<open>ingestion/service.py\<close>: receiving one delivery, and the page loop of a connector.

  A delivery runs through several short database transactions: ensuring the connection, storing
  the raw event, reading a terminal outcome, and processing or failing it. Each is a function from
  the tables to a \<open>result\<close>; the service composes them so that what an earlier transaction committed
  stays when a later one raises (\<open>and_then\<close>). A connector is a record of the operations of the
  protocol \<open>connectors/contracts.py:Connector\<close>.
\<close>

section \<open>Composing transactions\<close>

definition and_then :: "'db \<times> 'a result \<Rightarrow> ('a \<Rightarrow> 'db \<Rightarrow> 'db \<times> 'b result) \<Rightarrow> 'db \<times> 'b result" where
  "and_then m f = (case m of (db, Inl e) \<Rightarrow> (db, Inl e) | (db, Inr x) \<Rightarrow> f x db)"

section \<open>Connectors\<close>

datatype connector_health_status = HEALTHY | MISCONFIGURED | UNAVAILABLE

record connector =
  cn_descriptor :: "connector_type \<times> string"
  cn_health :: "connector_health_status \<times> string option"
  cn_fetch :: "json_object \<Rightarrow> (envelope list \<times> json_object) result"
  cn_normalize :: "envelope \<Rightarrow> financial_event result"

record ingest_env =
  ie_raw :: uuid
  ie_event :: uuid
  ie_handoff :: handoff_env

record ingestion_result =
  ir_raw :: uuid
  ir_event :: "uuid option"
  ir_transaction :: "uuid option"
  ir_state :: raw_event_state
  ir_replayed :: bool
  ir_error :: "string option"

definition NORMALIZER_VERSION :: string where "NORMALIZER_VERSION = ''1''"

definition terminal :: "raw_event_state \<Rightarrow> bool" where
  "terminal s \<longleftrightarrow> s = PROCESSED \<or> s = NEEDS_REVIEW"

section \<open>Connection and raw event\<close>

definition ensure_active_connection ::
  "uuid \<Rightarrow> connector_type \<times> string \<Rightarrow> string \<Rightarrow> uuid \<Rightarrow> 'a reconciliation_db_scheme \<Rightarrow>
   ('a reconciliation_db_scheme \<times> connection_view) result" where
  "ensure_active_connection user_id descriptor connection_key new_id db =
     (let normalized_key = normalize_display_text connection_key in
      bindE (ensure (normalized_key \<noteq> [] \<and> length normalized_key \<le> 128) (IngestionConflictError ''INVALID_CONNECTION_KEY'')) (\<lambda>_.
      bindE (ensure (get_user user_id db \<noteq> None) (LedgerNotFoundError ''PROFILE_NOT_FOUND'' None)) (\<lambda>_.
      bindE (ensure_connection user_id descriptor normalized_key new_id db) (\<lambda>(db1, connection).
      bindE (ensure (cnv_status connection = CONN_ACTIVE) (IngestionConflictError ''SOURCE_CONNECTION_INACTIVE'')) (\<lambda>_.
        Inr (db1, connection))))))"

definition receive_raw_event ::
  "envelope_codec \<Rightarrow> uuid \<Rightarrow> uuid \<Rightarrow> envelope \<Rightarrow> uuid \<Rightarrow> 'a reconciliation_db_scheme \<Rightarrow>
   ('a reconciliation_db_scheme \<times> stored_raw_event) result" where
  "receive_raw_event codec user_id connection_id e new_id db =
     bindE (canonical_envelope codec e) (\<lambda>serialized.
     bindE (content_sha256 codec e) (\<lambda>content_hash.
     bindE (case map_of serialized ''payload'' of
              Some (JObj payload) \<Rightarrow> Inr payload
            | _ \<Rightarrow> Inl (ConnectorContentError ''INVALID_SOURCE_PAYLOAD'')) (\<lambda>payload.
       store_raw_event user_id connection_id e (event_identity_key e content_hash) content_hash payload new_id db)))"

section \<open>Outcomes\<close>

definition replay_of ::
  "uuid \<Rightarrow> stored_raw_event \<Rightarrow> processing_row \<Rightarrow> 'a reconciliation_db_scheme \<Rightarrow> ingestion_result" where
  "replay_of user_id stored p db =
     \<lparr>ir_raw = sre_id stored, ir_event = map_option nev_id (normalized_for_raw_event user_id (sre_id stored) db),
      ir_transaction = map_option evd_transaction (evidence_for_raw_event user_id (sre_id stored) db),
      ir_state = prc_state p, ir_replayed = (\<not> sre_created stored), ir_error = prc_error p\<rparr>"

definition terminal_result ::
  "uuid \<Rightarrow> stored_raw_event \<Rightarrow> 'a reconciliation_db_scheme \<Rightarrow> (ingestion_result option) result" where
  "terminal_result user_id stored db =
     bindE (get_processing user_id (sre_id stored) db) (\<lambda>p.
       Inr (if terminal (prc_state p) then Some (replay_of user_id stored p db) else None))"

definition mark_failed ::
  "uuid \<Rightarrow> stored_raw_event \<Rightarrow> string \<Rightarrow> 'a reconciliation_db_scheme \<Rightarrow>
   ('a reconciliation_db_scheme \<times> ingestion_result) result" where
  "mark_failed user_id stored code db =
     bindE (get_processing user_id (sre_id stored) db) (\<lambda>p.
       if terminal (prc_state p) then Inr (db, replay_of user_id stored p db)
       else bindE (require_state_transition (prc_state p) FAILED) (\<lambda>_.
         Inr (put_processing (p\<lparr>prc_state := FAILED, prc_attempts := prc_attempts p + 1, prc_error := Some code\<rparr>) db,
              \<lparr>ir_raw = sre_id stored, ir_event = None, ir_transaction = None, ir_state = FAILED,
               ir_replayed = (\<not> sre_created stored), ir_error = Some code\<rparr>)))"

definition queue_review :: "processing_row \<Rightarrow> string \<Rightarrow> processing_row result" where
  "queue_review p code =
     bindE (require_state_transition (prc_state p) NEEDS_REVIEW) (\<lambda>_.
       Inr (p\<lparr>prc_state := NEEDS_REVIEW, prc_error := Some code\<rparr>))"

fun is_ledger_error :: "error \<Rightarrow> bool" where
  "is_ledger_error (LedgerValidationError _ _) = True"
| "is_ledger_error (LedgerNotFoundError _ _) = True"
| "is_ledger_error (LedgerConflictError _ _) = True"
| "is_ledger_error _ = False"

section \<open>Posting\<close>

definition post_command ::
  "policy \<Rightarrow> uuid \<Rightarrow> envelope \<Rightarrow> processing_row \<Rightarrow> normalized_row \<Rightarrow> create_transaction_command \<Rightarrow> handoff_env \<Rightarrow>
   'a reconciliation_db_scheme \<Rightarrow> ('a reconciliation_db_scheme \<times> processing_row \<times> uuid option) result" where
  "post_command pol user_id e p event command env db =
     bindE (reconcile_transaction pol user_id event command (env_locator e) (env_excerpt e) env db) (\<lambda>(db1, out).
       if requires_review out
       then bindE (queue_review p ''POSSIBLE_DUPLICATE'') (\<lambda>p'. Inr (db1, p', None))
       else bindE (require (IngestionConflictError ''RECONCILIATION_TARGET_MISSING'') (oc_transaction out)) (\<lambda>t.
            bindE (require_state_transition (prc_state p) PROCESSED) (\<lambda>_.
              Inr (db1, p\<lparr>prc_state := PROCESSED, prc_error := None\<rparr>, Some t))))"

definition post_or_queue_review ::
  "policy \<Rightarrow> uuid \<Rightarrow> envelope \<Rightarrow> processing_row \<Rightarrow> normalized_row \<Rightarrow> handoff_env \<Rightarrow> 'a reconciliation_db_scheme \<Rightarrow>
   ('a reconciliation_db_scheme \<times> processing_row \<times> uuid option) result" where
  "post_or_queue_review pol user_id e p event env db =
     (case (EVENT_TYPES (nev_kind event), nev_amount event, nev_currency event, nev_occurred_at event) of
        (Some ty, Some amount, Some currency, Some occurred_at) \<Rightarrow>
          (case event_command user_id event amount currency occurred_at ty db of
             Inl err \<Rightarrow>
               if is_ledger_error err
               then bindE (queue_review p ''LEDGER_VALIDATION_REVIEW'') (\<lambda>p'. Inr (db, p', None))
               else Inl err
           | Inr command \<Rightarrow> post_command pol user_id e p event command env db)
      | _ \<Rightarrow> bindE (queue_review p ''REVIEW_REQUIRED'') (\<lambda>p'. Inr (db, p', None)))"

definition start_attempt :: "processing_row \<Rightarrow> processing_row result" where
  "start_attempt p =
     (let p1 = p\<lparr>prc_attempts := prc_attempts p + 1\<rparr>
      in if prc_state p = NORMALIZED then Inr (p1\<lparr>prc_error := None\<rparr>)
         else bindE (require_state_transition (prc_state p) NORMALIZED) (\<lambda>_.
              Inr (p1\<lparr>prc_state := NORMALIZED, prc_error := None\<rparr>)))"

definition process_normalized ::
  "policy \<Rightarrow> uuid \<Rightarrow> connector_type \<Rightarrow> envelope \<Rightarrow> stored_raw_event \<Rightarrow> financial_event \<Rightarrow> ingest_env \<Rightarrow>
   'a reconciliation_db_scheme \<Rightarrow> ('a reconciliation_db_scheme \<times> ingestion_result) result" where
  "process_normalized pol user_id source e stored event env db =
     bindE (get_processing user_id (sre_id stored) db) (\<lambda>p.
       if terminal (prc_state p) then Inr (db, replay_of user_id stored p db)
       else
         bindE (store_normalized_event user_id (sre_id stored) event (connector_type_value source) NORMALIZER_VERSION
                  (he_now (ie_handoff env)) (ie_event env) db) (\<lambda>(db1, persisted).
         bindE (start_attempt p) (\<lambda>p1.
         bindE (post_or_queue_review pol user_id e p1 persisted (ie_handoff env) db1) (\<lambda>(db2, p2, transaction_id).
           Inr (put_processing p2 db2,
                \<lparr>ir_raw = sre_id stored, ir_event = Some (nev_id persisted), ir_transaction = transaction_id,
                 ir_state = prc_state p2, ir_replayed = (\<not> sre_created stored), ir_error = prc_error p2\<rparr>)))))"

section \<open>Deliveries\<close>

definition ingest_for_connection ::
  "policy \<Rightarrow> envelope_codec \<Rightarrow> uuid \<Rightarrow> connection_view \<Rightarrow> connector \<Rightarrow> envelope \<Rightarrow> ingest_env \<Rightarrow>
   'a reconciliation_db_scheme \<Rightarrow> 'a reconciliation_db_scheme \<times> ingestion_result result" where
  "ingest_for_connection pol codec user_id connection cn e env db =
     and_then (atomically (receive_raw_event codec user_id (cnv_id connection) e (ie_raw env)) db) (\<lambda>stored db1.
       case terminal_result user_id stored db1 of
         Inl err \<Rightarrow> (db1, Inl err)
       | Inr (Some r) \<Rightarrow> (db1, Inr r)
       | Inr None \<Rightarrow>
           (case cn_normalize cn e of
              Inl (ConnectorContentError code) \<Rightarrow> atomically (mark_failed user_id stored code) db1
            | Inl err \<Rightarrow> (db1, Inl err)
            | Inr event \<Rightarrow> atomically (process_normalized pol user_id (cnv_type connection) e stored event env) db1))"

definition ingest_envelope ::
  "policy \<Rightarrow> envelope_codec \<Rightarrow> uuid \<Rightarrow> connector \<Rightarrow> envelope \<Rightarrow> string \<Rightarrow> uuid \<Rightarrow> ingest_env \<Rightarrow>
   'a reconciliation_db_scheme \<Rightarrow> 'a reconciliation_db_scheme \<times> ingestion_result result" where
  "ingest_envelope pol codec user_id cn e connection_key new_id env db =
     and_then (atomically (ensure_active_connection user_id (cn_descriptor cn) connection_key new_id) db) (\<lambda>connection db1.
       ingest_for_connection pol codec user_id connection cn e env db1)"

fun ingest_all ::
  "policy \<Rightarrow> envelope_codec \<Rightarrow> uuid \<Rightarrow> connection_view \<Rightarrow> connector \<Rightarrow> (envelope \<times> ingest_env) list \<Rightarrow>
   'a reconciliation_db_scheme \<Rightarrow> 'a reconciliation_db_scheme \<times> ingestion_result list result" where
  "ingest_all pol codec user_id connection cn [] db = (db, Inr [])"
| "ingest_all pol codec user_id connection cn ((e, env) # rest) db =
     and_then (ingest_for_connection pol codec user_id connection cn e env db) (\<lambda>r db1.
     and_then (ingest_all pol codec user_id connection cn rest db1) (\<lambda>rs db2. (db2, Inr (r # rs))))"

text \<open>\<open>envs\<close> supplies the fresh values for each event of the page; \<open>synced_at\<close> is the clock at the end.\<close>

definition sync_connector ::
  "policy \<Rightarrow> envelope_codec \<Rightarrow> uuid \<Rightarrow> connector \<Rightarrow> string \<Rightarrow> uuid \<Rightarrow> (nat \<Rightarrow> ingest_env) \<Rightarrow> instant \<Rightarrow>
   'a reconciliation_db_scheme \<Rightarrow> 'a reconciliation_db_scheme \<times> (uuid \<times> ingestion_result list) result" where
  "sync_connector pol codec user_id cn connection_key new_id envs synced_at db =
     and_then (atomically (ensure_active_connection user_id (cn_descriptor cn) connection_key new_id) db) (\<lambda>connection db1.
       if fst (cn_health cn) \<noteq> HEALTHY
       then (db1, Inl (ConnectorUnavailableError (case snd (cn_health cn) of
              Some code \<Rightarrow> if code = [] then ''CONNECTOR_UNAVAILABLE'' else code | None \<Rightarrow> ''CONNECTOR_UNAVAILABLE'')))
       else case cn_fetch cn (cnv_cursor connection) of
              Inl err \<Rightarrow> (db1, Inl err)
            | Inr (events, next_cursor) \<Rightarrow>
                and_then (ingest_all pol codec user_id connection cn (zip events (map envs [0..<length events])) db1) (\<lambda>rs db2.
                and_then (atomically (\<lambda>db. bindE (update_connection_cursor user_id (cnv_id connection) next_cursor synced_at db)
                                             (\<lambda>db'. Inr (db', ()))) db2) (\<lambda>_ db3.
                  (db3, Inr (cnv_id connection, rs)))))"

end
