(* ===== verification/Provenance_Laws.thy ===== *)
theory Provenance_Laws
  imports Ingestion_Service Lifecycle Ledger_Service
begin

text \<open>
  The invariant that ingestion and review keep over the ledger, the sources, the evidence that ties
  a source to a transaction, and the cases with their audit trail, and the facts about the single
  writes that its preservation rests on.
\<close>

section \<open>The invariant\<close>

text \<open>Sources: keys, references, and one processing row per raw event.\<close>

definition source_wf :: "'a ingestion_db_scheme \<Rightarrow> bool" where
  "source_wf db \<longleftrightarrow>
     distinct (map scn_id (connections db)) \<and> distinct (map raw_id (raw_events db)) \<and>
     distinct (map (\<lambda>r. (raw_connection r, raw_identity r)) (raw_events db)) \<and>
     list_all (\<lambda>r. fk_connection db (raw_connection r) (raw_user r)) (raw_events db) \<and>
     distinct (map prc_raw (processing db)) \<and>
     list_all (\<lambda>p. fk_raw db (prc_raw p) (prc_user p)) (processing db) \<and>
     list_all (\<lambda>r. raw_id r \<in> prc_raw ` set (processing db)) (raw_events db) \<and>
     distinct (map nev_id (normalized_events db)) \<and>
     list_all (\<lambda>n. normalized_checks n \<and> fk_raw db (nev_raw n) (nev_user n)) (normalized_events db)"

text \<open>Evidence: the transaction has the owner, amount, currency and type of the event, and is posted.\<close>

definition same_value :: "normalized_row \<Rightarrow> transaction_row \<Rightarrow> bool" where
  "same_value n t \<longleftrightarrow>
     tx_user t = nev_user n \<and> nev_amount n = Some (tx_amount t) \<and> nev_currency n = Some (tx_currency t) \<and>
     EVENT_TYPES (nev_kind n) = Some (tx_type t) \<and> tx_status t = POSTED"

definition supported :: "'a ingestion_db_scheme \<Rightarrow> evidence_row \<Rightarrow> bool" where
  "supported db x \<longleftrightarrow>
     (\<exists>n \<in> set (normalized_events db). nev_id n = evd_event x \<and> nev_raw n = evd_raw x \<and> nev_user n = evd_user x \<and>
       (\<exists>t \<in> set (transactions db). tx_id t = evd_transaction x \<and> same_value n t))"

definition evidence_wf :: "'a ingestion_db_scheme \<Rightarrow> bool" where
  "evidence_wf db \<longleftrightarrow>
     distinct (map evd_id (evidence db)) \<and> distinct (map evd_event (evidence db)) \<and> list_all (supported db) (evidence db)"

text \<open>A pending case has no evidence yet, a resolved one exactly the evidence of its result.\<close>

definition backed :: "evidence_row set \<Rightarrow> case_row \<Rightarrow> bool" where
  "backed xs c \<longleftrightarrow>
     (if rcs_status c = CASE_PENDING then rcs_event c \<notin> evd_event ` xs
      else \<exists>x \<in> xs. evd_event x = rcs_event c \<and> rcs_result c = Some (evd_transaction x))"

definition linked :: "evidence_row set \<Rightarrow> case_row set \<Rightarrow> bool" where
  "linked xs cs \<longleftrightarrow> (\<forall>c \<in> cs. backed xs c) \<and> (\<forall>x \<in> xs. \<exists>c \<in> cs. rcs_event c = evd_event x)"

text \<open>The audit trail of a case ends with the action that led to its result.\<close>

definition trail :: "uuid \<Rightarrow> action_row list \<Rightarrow> action_row list" where
  "trail i as = filter (\<lambda>a. rac_case a = i) as"

definition audited :: "action_row list \<Rightarrow> case_row \<Rightarrow> bool" where
  "audited as c \<longleftrightarrow> trail (rcs_id c) as \<noteq> [] \<and> rac_to (last (trail (rcs_id c) as)) = rcs_result c"

definition cases_wf :: "'a reconciliation_db_scheme \<Rightarrow> bool" where
  "cases_wf db \<longleftrightarrow>
     distinct (map rcs_id (cases db)) \<and> distinct (map rcs_event (cases db)) \<and>
     list_all (\<lambda>c. case_checks c db \<and> audited (actions db) c) (cases db) \<and>
     list_all (\<lambda>a. rac_case a \<in> rcs_id ` set (cases db)) (actions db) \<and>
     linked (set (evidence db)) (set (cases db))"

definition provenance_wf :: "'a reconciliation_db_scheme \<Rightarrow> bool" where
  "provenance_wf db \<longleftrightarrow> categorization_wf db \<and> source_wf db \<and> evidence_wf db \<and> cases_wf db"

text \<open>The tables of sources, and the users, that a write of the ledger and the review leaves alone.\<close>

definition sources_of ::
  "'a ingestion_db_scheme \<Rightarrow> user_row list \<times> connection_row list \<times> raw_row list \<times> processing_row list" where
  "sources_of db = (users db, connections db, raw_events db, processing db)"

section \<open>Replacing one row\<close>

lemma set_replace_row:
  assumes "distinct (map key rows)" "r \<in> set rows" "key r' = key r"
  shows "set (modify_rows (\<lambda>x. key x = key r) (\<lambda>_. r') rows) = insert r' (set rows - {r})"
proof -
  have "key x = key r \<longleftrightarrow> x = r" if "x \<in> set rows" for x
    using assms(1,2) that by (metis distinct_map inj_on_eq_iff)
  then show ?thesis using assms(2) by (auto simp: set_modify_rows)
qed

lemma map_replace_row:
  assumes "distinct (map key rows)" "r \<in> set rows" "key r' = key r" "f r' = f r"
  shows "map f (modify_rows (\<lambda>x. key x = key r) (\<lambda>_. r') rows) = map f rows"
proof -
  have "key x = key r \<longleftrightarrow> x = r" if "x \<in> set rows" for x
    using assms(1,2) that by (metis distinct_map inj_on_eq_iff)
  with assms(4) show ?thesis by (auto simp: modify_rows_def)
qed

section \<open>What a change of the other tables leaves intact\<close>

lemma supported_mono:
  assumes "supported db x" "set (normalized_events db) \<subseteq> set (normalized_events db')"
    "\<And>t. t \<in> set (transactions db) \<Longrightarrow> \<exists>t' \<in> set (transactions db'). tx_id t' = tx_id t \<and>
       (\<forall>n. same_value n t \<longrightarrow> same_value n t')"
  shows "supported db' x"
proof -
  from assms(1) obtain n t where n: "n \<in> set (normalized_events db)" "nev_id n = evd_event x" "nev_raw n = evd_raw x"
      "nev_user n = evd_user x" and t: "t \<in> set (transactions db)" "tx_id t = evd_transaction x" "same_value n t"
    by (auto simp: supported_def)
  from assms(3) [OF t(1)] obtain t' where "t' \<in> set (transactions db')" "tx_id t' = tx_id t" "same_value n t'"
    using t(3) by blast
  with n t assms(2) show ?thesis by (auto simp: supported_def)
qed

lemma fk_ledger_mono:
  assumes "fk_ledger db t u"
    "\<And>x. x \<in> set (transactions db) \<Longrightarrow> \<exists>y \<in> set (transactions db'). tx_id y = tx_id x \<and> tx_user y = tx_user x"
  shows "fk_ledger db' t u"
proof -
  from assms(1) obtain x where "x \<in> set (transactions db)" "tx_id x = t" "tx_user x = u" by (auto simp: fk_ledger_def)
  with assms(2) obtain y where "y \<in> set (transactions db')" "tx_id y = t" "tx_user y = u" by blast
  then show ?thesis by (force simp: fk_ledger_def)
qed

lemma case_checks_mono:
  assumes "case_checks c db" "users db' = users db" "set (normalized_events db) \<subseteq> set (normalized_events db')"
    "\<And>x. x \<in> set (transactions db) \<Longrightarrow> \<exists>y \<in> set (transactions db'). tx_id y = tx_id x \<and> tx_user y = tx_user x"
  shows "case_checks c db'"
proof -
  have "fk_target db' i u" if "fk_target db i u" for i u
    using that fk_ledger_mono [OF _ assms(4)] by (auto simp: fk_target_def split: option.splits)
  moreover have "fk_normalized db' n r u" if "fk_normalized db n r u" for n r u
    using that assms(3) by (auto simp: fk_normalized_def)
  ultimately show ?thesis using assms(1,2) by (simp add: case_checks_def fk_user_def)
qed

lemma case_checks_frame:
  "users db' = users db \<Longrightarrow> normalized_events db' = normalized_events db \<Longrightarrow> transactions db' = transactions db \<Longrightarrow>
    case_checks c db' = case_checks c db"
  by (simp add: case_checks_def fk_user_def fk_normalized_def fk_target_def fk_ledger_def split: option.split)

lemma audited_append:
  "rac_case a \<noteq> rcs_id c \<Longrightarrow> audited (as @ [a]) c = audited as c"
  "rac_case a = rcs_id c \<Longrightarrow> audited (as @ [a]) c \<longleftrightarrow> rac_to a = rcs_result c"
  by (simp_all add: audited_def trail_def)

lemma audited_cong: "rcs_id c' = rcs_id c \<Longrightarrow> rcs_result c' = rcs_result c \<Longrightarrow> audited as c' = audited as c"
  by (simp add: audited_def)

text \<open>The ledger may grow, and what it has keeps its value.\<close>

definition ledger_kept :: "'a reconciliation_db_scheme \<Rightarrow> 'a reconciliation_db_scheme \<Rightarrow> bool" where
  "ledger_kept db db' \<longleftrightarrow>
     (\<forall>t \<in> set (transactions db). \<exists>t' \<in> set (transactions db'). tx_id t' = tx_id t \<and> tx_user t' = tx_user t \<and>
        (\<forall>n. same_value n t \<longrightarrow> same_value n t')) \<and>
     users db' = users db \<and>
     connections db' = connections db \<and> raw_events db' = raw_events db \<and> processing db' = processing db \<and>
     normalized_events db' = normalized_events db \<and> evidence db' = evidence db \<and> cases db' = cases db \<and>
     actions db' = actions db"

lemma ledger_kept_wf:
  assumes "ledger_kept db db'" "provenance_wf db" "categorization_wf db'"
  shows "provenance_wf db'"
proof -
  have "supported db' x" if "supported db x" for x
    by (rule supported_mono [OF that]) (use assms(1) in \<open>auto simp: ledger_kept_def\<close>)
  moreover have "case_checks c db'" if "case_checks c db" for c
    by (rule case_checks_mono [OF that]) (use assms(1) in \<open>auto simp: ledger_kept_def\<close>)
  ultimately show ?thesis
    using assms by (auto simp: provenance_wf_def source_wf_def evidence_wf_def cases_wf_def ledger_kept_def
        fk_connection_def fk_raw_def list_all_iff)
qed

section \<open>The command of an event\<close>

lemma format_f_nonempty: "0 \<le> a \<Longrightarrow> \<exists>c cs. format_f a = c # cs \<and> is_digit c"
  using show_digits_facts [of "a div 10000"]
  by (cases "show_digits (a div 10000)") (auto simp: format_f_def Let_def pos_imp_zdiv_nonneg_iff)

lemma parse_amount_of_stored:
  assumes "parse_amount (format_f a) = Inr d" "0 < a"
  shows "d = stored_decimal a"
  using parse_amount_Inr [OF assms(1)] parse_format [of a] assms(2) by simp

lemma normalize_pattern:
  assumes "currency_pattern c" "normalize_currency_code c = Inr c'"
  shows "c' = c"
proof -
  have up: "list_all is_upper_letter c" using assms(1) by (simp add: currency_pattern_def)
  then have plain: "\<forall>x \<in> set c. \<not> is_space x \<and> ascii_upper x = x"
    by (auto simp: list_all_iff is_upper_letter_def is_space_def ascii_upper_def Let_def)
  have stop: "dropWhile is_space xs = xs" if "\<forall>x \<in> set xs. \<not> is_space x" for xs
    using that by (cases xs) auto
  have "dropWhile is_space c = c" "dropWhile is_space (rev c) = rev c" using plain by (auto intro!: stop)
  moreover have "upper c = c" using plain by (simp add: upper_def map_idI)
  ultimately show ?thesis using assms by (simp add: normalize_currency_code_def strip_def Let_def)
qed

lemma find_visible_category:
  assumes "find_visible_category_id u name db = Some c"
  shows "category_is_visible u c db"
proof -
  from assms obtain r rs where s: "sort_key (\<lambda>c. case cat_user c of None \<Rightarrow> (0, 0) | Some u \<Rightarrow> (1 :: nat, u))
      (filter (\<lambda>c. cat_normalized c = name \<and> visible_to u c) (categories db)) = r # rs" and c: "c = cat_id r"
    by (auto simp: find_visible_category_id_def split: list.splits)
  from sort_key_first [OF s] c show ?thesis by (auto simp: category_is_visible_iff)
qed

text \<open>What \<open>parse_create_transaction\<close> returns for a stored event is worth exactly the event.\<close>

lemma event_command_facts:
  assumes "event_command u n a cur t ty db = Inr command" "learned_ok db" "0 < a" "a < 10 ^ 19" "currency_pattern cur"
  shows "numeric_19_4 (ct_amount command) = a" "ct_currency command = cur" "ct_type command = ty"
    "ct_status command = POSTED" "command_ok command"
    "case ct_category_id command of None \<Rightarrow> True | Some c \<Rightarrow> category_is_visible u c db"
proof -
  let ?as = "classify u (nev_description n) (event_merchant_key n) db"
  let ?cat = "event_category u n ?as db"
  from assms(1) obtain c where
    p: "parse_create_transaction (format_f a) cur ty (nev_description n) (Aware t) POSTED ?cat (nev_merchant n) INGESTION
      (model_confidence n) = Inr c" and command: "command = with_provenance ?as ?cat (nev_confidence n) c"
    by (auto simp: event_command_def Let_def result_simps)
  from p have c: "parse_amount (format_f a) = Inr (ct_amount c)" "parse_currency cur = Inr (ct_currency c)" "ct_type c = ty"
      "ct_status c = POSTED" "ct_category_id c = ?cat"
    by (auto simp: parse_create_transaction_def Let_def result_simps)
  have amount: "ct_amount c = stored_decimal a" using parse_amount_of_stored [OF c(1) assms(3)] .
  have "ndigits a \<le> 28" using ndigits_le [OF assms(3,4)] by simp
  then have "exact_literal (ct_amount c)" using assms(3) by (simp add: amount stored_decimal_def exact_literal_def)
  then have ok: "command_ok c" by (rule parse_create_transaction_ok [OF p])
  have cur: "ct_currency c = cur"
    using c(2) normalize_pattern [OF assms(5)] by (auto simp: parse_currency_def split: sum.splits if_splits)
  have vis: "case ?cat of None \<Rightarrow> True | Some i \<Rightarrow> category_is_visible u i db"
    using classify_visible [OF assms(2)] find_visible_category
    by (fastforce simp: event_category_def split: option.splits)
  have same: "ct_amount command = ct_amount c" "ct_currency command = ct_currency c" "ct_type command = ct_type c"
      "ct_status command = ct_status c" "ct_category_id command = ct_category_id c"
    by (auto simp: command with_provenance_def split: option.split)
  have "length CLASSIFIER_VERSION \<le> 40" by (simp add: CLASSIFIER_VERSION_def)
  then have "command_ok command"
    using ok classify_version [of u "nev_description n" "event_merchant_key n" db]
    by (cases ?as; cases "ct_merchant_name c") (simp_all add: command with_provenance_def command_ok_def)
  show "numeric_19_4 (ct_amount command) = a" "ct_currency command = cur" "ct_type command = ty"
    "ct_status command = POSTED" "command_ok command" using same amount cur c \<open>command_ok command\<close> by simp_all
  show "case ct_category_id command of None \<Rightarrow> True | Some c \<Rightarrow> category_is_visible u c db" using same c vis by simp
qed

section \<open>Posting a transaction\<close>

text \<open>What a posted transaction leaves of the tables and what it adds.\<close>

definition posted :: "'a reconciliation_db_scheme \<Rightarrow> 'a reconciliation_db_scheme \<Rightarrow> transaction_row \<Rightarrow> bool" where
  "posted db db' t \<longleftrightarrow>
     ledger_kept db db' \<and> proposals db' = proposals db \<and> categorization_wf db' \<and>
     transactions db' = transactions db @ [t] \<and> tx_id t \<notin> tx_id ` set (transactions db)"

lemma more_tables:
  assumes "ledger_db.more db' = ledger_db.more (db :: 'a reconciliation_db_scheme)"
  shows "connections db' = connections db" "raw_events db' = raw_events db" "processing db' = processing db"
    "normalized_events db' = normalized_events db" "evidence db' = evidence db" "cases db' = cases db"
    "actions db' = actions db" "proposals db' = proposals db"
  using assms by (cases db; cases db'; simp)+

lemma repo_create_posts:
  assumes "repo_create_transaction u command ids db = Inr (db', v)" "categorization_wf db"
    "case ct_category_id command of None \<Rightarrow> True | Some c \<Rightarrow> category_is_visible u c db"
  shows "\<exists>m. posted db db' (transaction_of_command u command m (snd ids)) \<and> tv_id v = snd ids"
proof -
  from repo_create_transaction_frame [OF assms(1)] obtain m where
    f: "users db' = users db" "categories db' = categories db" "ledger_db.more db' = ledger_db.more db"
      "transactions db' = transactions db @ [transaction_of_command u command m (snd ids)]"
      "snd ids \<notin> tx_id ` set (transactions db)" "repo_get_transaction u (snd ids) db' = Some v" by blast
  have "ledger_wf db'" using repo_create_transaction_wf [OF assms(1) _ assms(3)] assms(2) by (simp add: categorization_wf_def)
  moreover have "learned_ok db'" using assms(2) learned_ok_frame [OF f(2,3)] by (simp add: categorization_wf_def)
  ultimately have "categorization_wf db'" by (simp add: categorization_wf_def)
  moreover have "ledger_kept db db'" using f(1,4) more_tables [OF f(3)] by (fastforce simp: ledger_kept_def)
  moreover have "tv_id v = snd ids"
    using f(6) by (auto simp: repo_get_transaction_def transaction_view_def dest: select_one_SomeD)
  ultimately show ?thesis
    using f more_tables(8) [OF f(3)] by (auto simp: posted_def transaction_of_command_def)
qed

text \<open>A transaction made from an event's command has the event's value.\<close>

lemma command_value:
  assumes "event_command (nev_user n) n a cur t ty db = Inr command" "learned_ok db" "0 < a" "a < 10 ^ 19"
    "currency_pattern cur" "nev_amount n = Some a" "nev_currency n = Some cur" "EVENT_TYPES (nev_kind n) = Some ty"
  shows "same_value n (transaction_of_command (nev_user n) command m i)"
  using event_command_facts [OF assms(1-5)] assms(6-8) by (simp add: same_value_def transaction_of_command_def)

section \<open>Linking evidence and cases\<close>

lemma linked_pending:
  "linked xs cs \<Longrightarrow> rcs_event c \<notin> rcs_event ` cs \<Longrightarrow> rcs_status c = CASE_PENDING \<Longrightarrow> linked xs (insert c cs)"
  by (auto simp: linked_def backed_def) (metis image_eqI)

lemma linked_new:
  assumes "linked xs cs" "rcs_event c \<notin> rcs_event ` cs" "rcs_status c \<noteq> CASE_PENDING" "evd_event x = rcs_event c"
    "rcs_result c = Some (evd_transaction x)"
  shows "linked (insert x xs) (insert c cs)"
proof -
  have "rcs_event d \<noteq> evd_event x" if "d \<in> cs" for d using that assms(2,4) by (metis image_eqI)
  then show ?thesis using assms by (auto simp: linked_def backed_def split: if_splits)
qed

lemma linked_resolve:
  assumes "linked xs cs" "inj_on rcs_event cs" "c \<in> cs" "rcs_event c' = rcs_event c" "rcs_status c' \<noteq> CASE_PENDING"
    "evd_event x = rcs_event c" "rcs_result c' = Some (evd_transaction x)"
  shows "linked (insert x xs) (insert c' (cs - {c}))"
proof -
  have other: "rcs_event d \<noteq> rcs_event c" if "d \<in> cs - {c}" for d using that assms(2,3) by (metis DiffE inj_onD insertI1)
  have "\<exists>d \<in> insert c' (cs - {c}). rcs_event d = evd_event y" if "y \<in> xs" for y
  proof -
    from assms(1) that obtain d where "d \<in> cs" "rcs_event d = evd_event y" by (auto simp: linked_def)
    with assms(4) show ?thesis by (cases "d = c") auto
  qed
  then show ?thesis using assms other by (auto simp: linked_def backed_def split: if_splits)
qed

lemma linked_move:
  assumes "linked xs cs" "inj_on rcs_event cs" "c \<in> cs" "rcs_event c' = rcs_event c" "rcs_status c' \<noteq> CASE_PENDING"
    "inj_on evd_event xs" "x \<in> xs" "evd_event x = rcs_event c" "evd_event x' = evd_event x"
    "rcs_result c' = Some (evd_transaction x')"
  shows "linked (insert x' (xs - {x})) (insert c' (cs - {c}))"
proof -
  have other: "rcs_event d \<noteq> rcs_event c" if "d \<in> cs - {c}" for d using that assms(2,3) by (metis DiffE inj_onD insertI1)
  have keep: "\<exists>d \<in> insert c' (cs - {c}). rcs_event d = evd_event y" if "y \<in> insert x' (xs - {x})" for y
  proof (cases "evd_event y = rcs_event c")
    case False
    with that assms(8,9) have "y \<in> xs" by auto
    with assms(1) obtain d where "d \<in> cs" "rcs_event d = evd_event y" by (auto simp: linked_def)
    with False show ?thesis by auto
  qed (use assms(4) in auto)
  have old: "backed (insert x' (xs - {x})) d" if "d \<in> cs - {c}" for d
  proof -
    from other [OF that] have "rcs_event d \<noteq> evd_event x" "rcs_event d \<noteq> evd_event x'" using assms(8,9) by simp_all
    moreover from assms(1) that have "backed xs d" by (auto simp: linked_def)
    ultimately show ?thesis by (auto simp: backed_def split: if_splits)
  qed
  have "backed (insert x' (xs - {x})) c'" using assms(4,5,8,9,10) by (simp add: backed_def)
  with keep old show ?thesis unfolding linked_def by blast
qed

section \<open>The writes\<close>

lemma add_evidence_Inr:
  "add_evidence u r n t loc ex i db = Inr db' \<longleftrightarrow>
    (case ex of None \<Rightarrow> True | Some y \<Rightarrow> length y \<le> 500) \<and> fk_raw db r u \<and> fk_normalized db n r u \<and> fk_ledger db t u \<and>
    n \<notin> evd_event ` set (evidence db) \<and> i \<notin> evd_id ` set (evidence db) \<and>
    db' = db\<lparr>evidence := evidence db @ [\<lparr>evd_id = i, evd_user = u, evd_raw = r, evd_event = n, evd_transaction = t,
      evd_kind = SOURCE_EVENT, evd_locator = loc, evd_excerpt = ex\<rparr>]\<rparr>"
  by (auto simp: add_evidence_def Let_def result_simps table_simps evidence_checks_def)

text \<open>The audit entry of a change.\<close>

definition entry ::
  "uuid \<Rightarrow> case_row \<Rightarrow> reconciliation_action_type \<Rightarrow> uuid option \<Rightarrow> uuid option \<Rightarrow> instant \<Rightarrow> uuid \<Rightarrow> action_row" where
  "entry u c ty from_id to_id now i =
     \<lparr>rac_id = i, rac_case = rcs_id c, rac_user = u, rac_type = ty, rac_from = from_id, rac_to = to_id,
      rac_score = rcs_score c, rac_reasons = rcs_reasons c, rac_created_at = now\<rparr>"

lemma append_action_Inr:
  "append_action u c ty f t now i db = Inr db' \<longleftrightarrow>
    fk_case db (rcs_id c) u \<and> fk_target db f u \<and> fk_target db t u \<and> 0 \<le> rcs_score c \<and> rcs_score c \<le> 10000 \<and>
    i \<notin> rac_id ` set (actions db) \<and> db' = db\<lparr>actions := actions db @ [entry u c ty f t now i]\<rparr>"
  by (auto simp: append_action_def entry_def result_simps table_simps)

lemma create_case_Inr:
  assumes "create_case u n r st res ty loc ex ver now ids db = Inr (db', c)"
  shows "c = case_of_result u n r st res loc ex ver now (fst ids)" "case_checks c db"
    "nev_id n \<notin> rcs_event ` set (cases db)" "fst ids \<notin> rcs_id ` set (cases db)"
    "db' = db\<lparr>cases := cases db @ [c], actions := actions db @ [entry u c ty None res now (snd ids)]\<rparr>"
  using assms by (auto simp: create_case_def insert_case_def Let_def append_action_Inr case_of_result_def result_simps table_simps)

lemma case_of_result_fields:
  "rcs_id (case_of_result u n r st res loc ex ver now i) = i" "rcs_event (case_of_result u n r st res loc ex ver now i) = nev_id n"
  "rcs_status (case_of_result u n r st res loc ex ver now i) = st" "rcs_result (case_of_result u n r st res loc ex ver now i) = res"
  "rcs_raw (case_of_result u n r st res loc ex ver now i) = nev_raw n" "rcs_user (case_of_result u n r st res loc ex ver now i) = u"
  by (simp_all add: case_of_result_def)

lemma update_case_Inr:
  "update_case c db = Inr db' \<longleftrightarrow> case_checks c db \<and>
    db' = db\<lparr>cases := modify_rows (\<lambda>r. rcs_id r = rcs_id c) (\<lambda>_. c) (cases db)\<rparr>"
  by (auto simp: update_case_def result_simps)

lemma update_proposal_Inr:
  "update_proposal q db = Inr db' \<Longrightarrow> \<exists>ps. db' = db\<lparr>proposals := ps\<rparr>"
  by (auto simp: update_proposal_def result_simps)

lemma complete_source_Inr:
  assumes "complete_source u c t db = Inr db'"
  shows "\<exists>p ps. select_one (\<lambda>p. prc_raw p = rcs_raw c \<and> prc_user p = u) (processing db) = Some p \<and> prc_state p = NEEDS_REVIEW \<and>
    db' = db\<lparr>processing := modify_rows (\<lambda>r. prc_raw r = prc_raw p) (\<lambda>_. p\<lparr>prc_state := PROCESSED, prc_error := None\<rparr>)
      (processing db), proposals := ps\<rparr>"
proof -
  from assms obtain p where p: "select_one (\<lambda>p. prc_raw p = rcs_raw c \<and> prc_user p = u) (processing db) = Some p"
      "prc_state p = NEEDS_REVIEW" and
    r: "(case proposal_for_raw_event u (rcs_raw c) (put_processing (p\<lparr>prc_state := PROCESSED, prc_error := None\<rparr>) db) of
        None \<Rightarrow> Inr (put_processing (p\<lparr>prc_state := PROCESSED, prc_error := None\<rparr>) db)
      | Some q \<Rightarrow> bindE (ensure (fp_status q = PROPOSAL_RECONCILIATION_REVIEW)
          (ReconciliationConflictError ''RECONCILIATION_PROPOSAL_NOT_REVIEWABLE'')) (\<lambda>_.
          update_proposal (q\<lparr>fp_status := PROPOSAL_APPROVED, fp_transaction := Some t\<rparr>)
            (put_processing (p\<lparr>prc_state := PROCESSED, prc_error := None\<rparr>) db))) = Inr db'"
    by (auto simp: complete_source_def get_processing_def result_simps Let_def)
  from r have "\<exists>ps. db' = (put_processing (p\<lparr>prc_state := PROCESSED, prc_error := None\<rparr>) db)\<lparr>proposals := ps\<rparr>"
    by (auto simp: result_simps split: option.splits dest: update_proposal_Inr)
      (metis (no_types, lifting) reconciliation_db.surjective reconciliation_db.update_convs(1))
  with p show ?thesis by (auto simp: put_processing_def)
qed

section \<open>Preservation, one change of the tables at a time\<close>

lemma categorization_wf_frame:
  assumes "users db' = users db" "categories db' = categories db" "merchants db' = merchants db"
    "transactions db' = transactions db" "category_rules db' = category_rules db" "merchant_maps db' = merchant_maps db"
    "corrections db' = corrections db"
  shows "categorization_wf db' = categorization_wf db"
proof -
  have "category_is_visible u c db' = category_is_visible u c db" for u c using assms by (simp add: category_is_visible_def)
  moreover have "fk_user db' u = fk_user db u" "fk_merchant db' m = fk_merchant db m" for u m
    using assms by (simp_all add: fk_user_def fk_merchant_def split: option.split)
  ultimately have "transaction_ok db' = transaction_ok db" by (intro ext) (simp add: transaction_ok_def split: option.split)
  with \<open>\<And>u c. category_is_visible u c db' = category_is_visible u c db\<close> assms show ?thesis
    by (simp add: categorization_wf_def ledger_wf_def learned_ok_def)
qed

lemma audited_others:
  assumes "cases_wf db" "rac_case a \<notin> rcs_id ` (set (cases db) - S)" "c \<in> set (cases db) - S"
  shows "audited (actions db @ [a]) c"
proof -
  have "rac_case a \<noteq> rcs_id c" using assms(2,3) by blast
  then show ?thesis using assms(1,3) by (auto simp: audited_append cases_wf_def list_all_iff)
qed

text \<open>The tables of evidence and cases change together; the rest of the invariant is untouched.\<close>

lemma provenance_change:
  assumes "provenance_wf db"
    and db': "db' = db\<lparr>evidence := xs, cases := cs, actions := actions db @ [a]\<rparr>"
    and "distinct (map evd_id xs)" "distinct (map evd_event xs)" "\<forall>x \<in> set xs. supported db x"
    and "distinct (map rcs_id cs)" "distinct (map rcs_event cs)" "rcs_id ` set (cases db) \<subseteq> rcs_id ` set cs"
    and "\<forall>c \<in> set cs. case_checks c db \<and> audited (actions db @ [a]) c"
    and "rac_case a \<in> rcs_id ` set cs" "linked (set xs) (set cs)"
  shows "provenance_wf db'"
proof -
  have "categorization_wf db' = categorization_wf db" by (rule categorization_wf_frame) (simp_all add: db')
  moreover have "source_wf db' = source_wf db" by (simp add: source_wf_def db' fk_connection_def fk_raw_def)
  moreover have "supported db' x = supported db x" "case_checks c db' = case_checks c db" for x c
    using case_checks_frame [of db' db c] by (simp_all add: db' supported_def)
  ultimately show ?thesis
    using assms(1,3-) by (auto simp: provenance_wf_def evidence_wf_def cases_wf_def list_all_iff db')
qed

lemma pending_wf:
  assumes wf: "provenance_wf db" and c: "case_checks c db" "rcs_status c = CASE_PENDING"
    "rcs_event c \<notin> rcs_event ` set (cases db)" "rcs_id c \<notin> rcs_id ` set (cases db)"
    and a: "rac_case a = rcs_id c" "rac_to a = rcs_result c"
  shows "provenance_wf (db\<lparr>cases := cases db @ [c], actions := actions db @ [a]\<rparr>)"
proof (rule provenance_change [OF wf, where xs = "evidence db" and cs = "cases db @ [c]" and a = a])
  have cw: "cases_wf db" using wf by (simp add: provenance_wf_def)
  show "\<forall>d \<in> set (cases db @ [c]). case_checks d db \<and> audited (actions db @ [a]) d"
    using cw c a audited_others [OF cw, of a "{}"] by (auto simp: cases_wf_def list_all_iff audited_append)
  show "linked (set (evidence db)) (set (cases db @ [c]))"
    using linked_pending [of "set (evidence db)" "set (cases db)" c] cw c by (simp add: cases_wf_def)
qed (use assms in \<open>auto simp: provenance_wf_def evidence_wf_def cases_wf_def list_all_iff\<close>)

lemma link_wf:
  assumes wf: "provenance_wf db" and c: "case_checks c db" "rcs_status c \<noteq> CASE_PENDING"
    "rcs_event c \<notin> rcs_event ` set (cases db)" "rcs_id c \<notin> rcs_id ` set (cases db)"
    and a: "rac_case a = rcs_id c" "rac_to a = rcs_result c"
    and x: "evd_event x = rcs_event c" "rcs_result c = Some (evd_transaction x)" "supported db x"
      "evd_id x \<notin> evd_id ` set (evidence db)" "evd_event x \<notin> evd_event ` set (evidence db)"
  shows "provenance_wf (db\<lparr>evidence := evidence db @ [x], cases := cases db @ [c], actions := actions db @ [a]\<rparr>)"
proof (rule provenance_change [OF wf, where xs = "evidence db @ [x]" and cs = "cases db @ [c]" and a = a])
  have cw: "cases_wf db" using wf by (simp add: provenance_wf_def)
  show "\<forall>d \<in> set (cases db @ [c]). case_checks d db \<and> audited (actions db @ [a]) d"
    using cw c a audited_others [OF cw, of a "{}"] by (auto simp: cases_wf_def list_all_iff audited_append)
  show "linked (set (evidence db @ [x])) (set (cases db @ [c]))"
    using linked_new [of "set (evidence db)" "set (cases db)" c x] cw c x by (simp add: cases_wf_def)
qed (use assms in \<open>auto simp: provenance_wf_def evidence_wf_def cases_wf_def list_all_iff\<close>)

text \<open>The table of cases after one of them changed, together with the audit entry of the change.\<close>

lemma replace_case:
  assumes cw: "cases_wf db" and c: "c \<in> set (cases db)" "case_checks c' db" "rcs_id c' = rcs_id c" "rcs_event c' = rcs_event c"
    and a: "rac_case a = rcs_id c" "rac_to a = rcs_result c'"
    and cs: "cs = modify_rows (\<lambda>r. rcs_id r = rcs_id c') (\<lambda>_. c') (cases db)"
  shows "set cs = insert c' (set (cases db) - {c})" "distinct (map rcs_id cs)" "distinct (map rcs_event cs)"
    "rcs_id ` set (cases db) \<subseteq> rcs_id ` set cs" "rac_case a \<in> rcs_id ` set cs"
    "\<forall>d \<in> set cs. case_checks d db \<and> audited (actions db @ [a]) d"
proof -
  from cw have ids: "distinct (map rcs_id (cases db))" and evs: "distinct (map rcs_event (cases db))" by (simp_all add: cases_wf_def)
  show S: "set cs = insert c' (set (cases db) - {c})" using set_replace_row [OF ids c(1,3)] by (simp add: c(3) cs)
  have M: "map rcs_id cs = map rcs_id (cases db)" "map rcs_event cs = map rcs_event (cases db)"
    using map_replace_row [OF ids c(1,3)] c(3,4) by (simp_all add: cs)
  show "distinct (map rcs_id cs)" "distinct (map rcs_event cs)" using ids evs by (simp_all only: M)
  have I: "rcs_id ` set cs = rcs_id ` set (cases db)" using M(1) by (metis list.set_map)
  then show "rcs_id ` set (cases db) \<subseteq> rcs_id ` set cs" "rac_case a \<in> rcs_id ` set cs" using a(1) c(1) by auto
  have "rac_case a \<notin> rcs_id ` (set (cases db) - {c})"
    using ids a(1) c(1) by (auto simp: distinct_map dest: inj_onD)
  then show "\<forall>d \<in> set cs. case_checks d db \<and> audited (actions db @ [a]) d"
    unfolding S using cw c a audited_others [OF cw, of a "{c}"]
    by (auto simp: cases_wf_def list_all_iff audited_append)
qed

lemma resolve_wf:
  assumes wf: "provenance_wf db" and c: "c \<in> set (cases db)" "case_checks c' db" "rcs_id c' = rcs_id c" "rcs_event c' = rcs_event c" and fin: "rcs_status c' \<noteq> CASE_PENDING"
    and a: "rac_case a = rcs_id c" "rac_to a = rcs_result c'"
    and x: "evd_event x = rcs_event c" "rcs_result c' = Some (evd_transaction x)" "supported db x"
      "evd_id x \<notin> evd_id ` set (evidence db)" "evd_event x \<notin> evd_event ` set (evidence db)"
  shows "provenance_wf (db\<lparr>evidence := evidence db @ [x],
    cases := modify_rows (\<lambda>r. rcs_id r = rcs_id c') (\<lambda>_. c') (cases db), actions := actions db @ [a]\<rparr>)"
proof -
  let ?cs = "modify_rows (\<lambda>r. rcs_id r = rcs_id c') (\<lambda>_. c') (cases db)"
  have cw: "cases_wf db" and ew: "evidence_wf db" using wf by (simp_all add: provenance_wf_def)
  note R = replace_case [OF cw c a refl]
  have "linked (set (evidence db @ [x])) (set ?cs)"
    unfolding R(1) using linked_resolve [of "set (evidence db)" "set (cases db)" c c' x] cw c fin x
    by (simp add: cases_wf_def distinct_map)
  then show ?thesis
    using ew x by (intro provenance_change [OF wf refl _ _ _ R(2,3,4,6,5)]) (auto simp: evidence_wf_def list_all_iff)
qed

lemma move_wf:
  assumes wf: "provenance_wf db" and c: "c \<in> set (cases db)" "case_checks c' db" "rcs_id c' = rcs_id c" "rcs_event c' = rcs_event c" and fin: "rcs_status c' \<noteq> CASE_PENDING"
    and a: "rac_case a = rcs_id c" "rac_to a = rcs_result c'"
    and x: "x \<in> set (evidence db)" "evd_event x = rcs_event c" "rcs_result c' = Some t"
      "supported db (x\<lparr>evd_transaction := t\<rparr>)"
  shows "provenance_wf (db\<lparr>evidence := modify_rows (\<lambda>r. evd_id r = evd_id x) (\<lambda>r. r\<lparr>evd_transaction := t\<rparr>) (evidence db),
    cases := modify_rows (\<lambda>r. rcs_id r = rcs_id c') (\<lambda>_. c') (cases db), actions := actions db @ [a]\<rparr>)"
proof -
  let ?cs = "modify_rows (\<lambda>r. rcs_id r = rcs_id c') (\<lambda>_. c') (cases db)"
  let ?x = "x\<lparr>evd_transaction := t\<rparr>"
  let ?xs = "modify_rows (\<lambda>r. evd_id r = evd_id x) (\<lambda>r. r\<lparr>evd_transaction := t\<rparr>) (evidence db)"
  have cw: "cases_wf db" and ew: "evidence_wf db" using wf by (simp_all add: provenance_wf_def)
  note R = replace_case [OF cw c a refl]
  from ew have ids: "distinct (map evd_id (evidence db))" and evs: "distinct (map evd_event (evidence db))"
    by (simp_all add: evidence_wf_def)
  have "evd_id r = evd_id x \<longleftrightarrow> r = x" if "r \<in> set (evidence db)" for r
    using ids x(1) that by (metis distinct_map inj_on_eq_iff)
  then have X: "?xs = modify_rows (\<lambda>r. evd_id r = evd_id x) (\<lambda>_. ?x) (evidence db)"
    by (auto simp: modify_rows_def)
  have S: "set ?xs = insert ?x (set (evidence db) - {x})" unfolding X by (rule set_replace_row [OF ids x(1)]) simp
  have M: "map evd_id ?xs = map evd_id (evidence db)" "map evd_event ?xs = map evd_event (evidence db)"
    by (auto simp: modify_rows_def)
  have "linked (set ?xs) (set ?cs)"
    unfolding R(1) S using linked_move [of "set (evidence db)" "set (cases db)" c c' x ?x] cw c fin x evs
    by (simp add: cases_wf_def distinct_map)
  moreover have "\<forall>r \<in> set ?xs. supported db r" unfolding S using ew x(4) by (auto simp: evidence_wf_def list_all_iff)
  ultimately show ?thesis
    using ids evs by (intro provenance_change [OF wf refl _ _ _ R(2,3,4,6,5)]) (simp_all only: M)
qed

section \<open>Preservation, one write of the sources at a time\<close>

text \<open>
  Writes that leave the ledger, the evidence, the cases and the audit trail alone, and only add to
  the normalized events, keep the invariant when they keep the sources consistent.
\<close>

lemma source_change:
  assumes wf: "provenance_wf db" and source: "source_wf db'"
    and same: "users db' = users db" "categories db' = categories db" "merchants db' = merchants db"
      "transactions db' = transactions db" "category_rules db' = category_rules db" "merchant_maps db' = merchant_maps db"
      "corrections db' = corrections db" "evidence db' = evidence db" "cases db' = cases db" "actions db' = actions db"
    and more: "set (normalized_events db) \<subseteq> set (normalized_events db')"
  shows "provenance_wf db'"
proof -
  have "categorization_wf db' = categorization_wf db" by (rule categorization_wf_frame) (simp_all add: same)
  moreover have "supported db' x" if "supported db x" for x
    using supported_mono [OF that more] by (auto simp: same)
  moreover have "case_checks c db'" if "case_checks c db" for c
    by (rule case_checks_mono [OF that]) (use more in \<open>auto simp: same\<close>)
  ultimately show ?thesis
    using wf source by (auto simp: provenance_wf_def evidence_wf_def cases_wf_def list_all_iff same)
qed

lemma connections_wf:
  assumes wf: "provenance_wf db" and cs: "distinct (map scn_id cs)"
    "set (map (\<lambda>r. (scn_id r, scn_user r)) (connections db)) \<subseteq> set (map (\<lambda>r. (scn_id r, scn_user r)) cs)"
  shows "provenance_wf (db\<lparr>connections := cs\<rparr>)"
proof (rule source_change [OF wf])
  have "fk_connection (db\<lparr>connections := cs\<rparr>) c u" if "fk_connection db c u" for c u
    using that cs(2) by (auto simp: fk_connection_def)
  then show "source_wf (db\<lparr>connections := cs\<rparr>)"
    using wf cs(1) by (auto simp: provenance_wf_def source_wf_def fk_raw_def list_all_iff)
qed simp_all

lemma ensure_connection_Inr:
  assumes "ensure_connection u d k i db = Inr (db', v)"
  shows "db' = db \<or> (\<exists>r. scn_id r = i \<and> i \<notin> scn_id ` set (connections db) \<and> db' = db\<lparr>connections := connections db @ [r]\<rparr>)"
proof (cases "select_one (\<lambda>r. scn_user r = u \<and> scn_type r = fst d \<and> scn_key r = k) (connections db)")
  case None
  let ?r = "\<lparr>scn_id = i, scn_user = u, scn_type = fst d, scn_key = k, scn_display = snd d, scn_status = CONN_ACTIVE,
    scn_cursor = [], scn_synced_at = None, scn_error = None\<rparr>"
  have "i \<notin> scn_id ` set (connections db) \<and> db' = db\<lparr>connections := connections db @ [?r]\<rparr>"
    using assms None by (auto simp: ensure_connection_def Let_def result_simps table_simps)
  then show ?thesis by (intro disjI2 exI [of _ ?r]) simp
qed (use assms in \<open>simp add: ensure_connection_def result_simps\<close>)

lemma ensure_connection_wf:
  assumes "ensure_connection u d k i db = Inr (db', v)" "provenance_wf db"
  shows "provenance_wf db'"
proof -
  have "distinct (map scn_id (connections db))" using assms(2) by (simp add: provenance_wf_def source_wf_def)
  with ensure_connection_Inr [OF assms(1)] assms(2) show ?thesis by (auto intro!: connections_wf)
qed

lemma update_cursor_wf:
  assumes "update_connection_cursor u c cursor now db = Inr db'" "provenance_wf db"
  shows "provenance_wf db'"
proof -
  let ?f = "\<lambda>r. r\<lparr>scn_cursor := cursor, scn_synced_at := Some now, scn_error := None\<rparr>"
  let ?cs = "modify_rows (\<lambda>r. scn_id r = c \<and> scn_user r = u) ?f (connections db)"
  have "map scn_id ?cs = map scn_id (connections db)"
    "map (\<lambda>r. (scn_id r, scn_user r)) ?cs = map (\<lambda>r. (scn_id r, scn_user r)) (connections db)"
    by (auto simp: modify_rows_def)
  moreover have "db' = db\<lparr>connections := ?cs\<rparr>" using assms(1) by (auto simp: update_connection_cursor_def result_simps)
  moreover have "distinct (map scn_id (connections db))" using assms(2) by (simp add: provenance_wf_def source_wf_def)
  ultimately show ?thesis using connections_wf [OF assms(2), of ?cs] by simp
qed

text \<open>Storing a delivery: the raw event, if it is new, and its processing row.\<close>

lemma insert_raw_Inr:
  assumes "insert_raw r db = Inr (db', inserted)"
  shows "(db' = db \<and> inserted = None) \<or>
    (inserted = Some (raw_id r) \<and> raw_id r \<notin> raw_id ` set (raw_events db) \<and> fk_connection db (raw_connection r) (raw_user r) \<and>
     (raw_connection r, raw_identity r) \<notin> (\<lambda>r. (raw_connection r, raw_identity r)) ` set (raw_events db) \<and>
     db' = db\<lparr>raw_events := raw_events db @ [r]\<rparr>)"
  using assms by (auto simp: insert_raw_def result_simps table_simps list_ex_iff split: if_splits)

lemma insert_raw_rows: "insert_raw r db = Inr (db', ins) \<Longrightarrow> \<exists>rs. db' = db\<lparr>raw_events := raw_events db @ rs\<rparr>"
  using insert_raw_Inr [of r db db' ins] by (auto intro: exI [of _ "[]"] exI [of _ "[r]"])

lemma insert_processing_raws:
  "prc_raw ` set (processing (insert_processing u i db)) = insert i (prc_raw ` set (processing db))"
  by (auto simp: insert_processing_def list_ex_iff)

lemma store_raw_event_wf:
  assumes "store_raw_event u c e k h pl i db = Inr (db', s)" "provenance_wf db"
  shows "provenance_wf db'"
proof -
  let ?r = "raw_of_envelope u c e k h pl i"
  from assms(1) obtain db1 ins i' x where ins: "insert_raw ?r db = Inr (db1, ins)"
      and sel: "(case ins of Some i \<Rightarrow> Some i | None \<Rightarrow> map_option raw_id (select_one (\<lambda>r. raw_user r = u \<and>
        raw_connection r = c \<and> raw_identity r = k) (raw_events db1))) = Some i'"
      and x: "select_one (\<lambda>r. raw_id r = i' \<and> raw_user r = u) (raw_events db1) = Some x" "raw_hash x = h"
      and db': "db' = insert_processing u i' db1" and s: "s = \<lparr>sre_id = i', sre_created = (ins \<noteq> None), sre_hash = h\<rparr>"
    by (auto simp: store_raw_event_def result_simps)
  have s: "sre_id s = i'" "\<And>y. ins = Some y \<Longrightarrow> i' = y" using s sel by auto
  have db': "db' = insert_processing u (sre_id s) db1" using db' s by simp
  have x: "select_one (\<lambda>r. raw_id r = sre_id s \<and> raw_user r = u) (raw_events db1) = Some x" using x s by simp
  have sw: "source_wf db" using assms(2) by (simp add: provenance_wf_def)
  from select_one_SomeD [OF x] have fk: "fk_raw db1 (sre_id s) u" by (force simp: fk_raw_def)
  have "distinct (map raw_id (raw_events db1)) \<and> distinct (map (\<lambda>r. (raw_connection r, raw_identity r)) (raw_events db1)) \<and>
    list_all (\<lambda>r. fk_connection db (raw_connection r) (raw_user r)) (raw_events db1) \<and>
    (\<forall>r \<in> set (raw_events db1). raw_id r \<in> insert (sre_id s) (prc_raw ` set (processing db))) \<and>
    (\<forall>r u. fk_raw db r u \<longrightarrow> fk_raw db1 r u)"
    using insert_raw_Inr [OF ins]
  proof (elim disjE conjE)
    assume "db1 = db" "ins = None"
    with sw show ?thesis by (simp add: source_wf_def list_all_iff)
  next
    assume "ins = Some (raw_id ?r)" "raw_id ?r \<notin> raw_id ` set (raw_events db)" "fk_connection db (raw_connection ?r) (raw_user ?r)"
      "(raw_connection ?r, raw_identity ?r) \<notin> (\<lambda>r. (raw_connection r, raw_identity r)) ` set (raw_events db)"
      and db1: "db1 = db\<lparr>raw_events := raw_events db @ [?r]\<rparr>"
    moreover from this(1) s have "sre_id s = raw_id ?r" by simp
    moreover have "fk_raw db r u \<longrightarrow> fk_raw db1 r u" for r u by (simp add: fk_raw_def db1)
    ultimately show ?thesis using sw by (simp add: source_wf_def list_all_iff)
  qed
  then have raws: "distinct (map raw_id (raw_events db1))"
    "distinct (map (\<lambda>r. (raw_connection r, raw_identity r)) (raw_events db1))"
    "list_all (\<lambda>r. fk_connection db (raw_connection r) (raw_user r)) (raw_events db1)"
    "\<forall>r \<in> set (raw_events db1). raw_id r \<in> insert (sre_id s) (prc_raw ` set (processing db))"
    "\<And>r u. fk_raw db r u \<Longrightarrow> fk_raw db1 r u" by blast+
  obtain rs where rest: "db1 = db\<lparr>raw_events := rs\<rparr>" using insert_raw_Inr [OF ins] by (cases db) auto
  have "source_wf db'"
    using raws fk sw insert_processing_raws [of u "sre_id s" db1]
    by (auto simp: source_wf_def db' rest insert_processing_def list_all_iff list_ex_iff fk_connection_def fk_raw_def)
  then show ?thesis by (rule source_change [OF assms(2)]) (simp_all add: db' insert_processing_def rest)
qed

text \<open>Writing back a processing row, and changes of the proposals.\<close>

lemma put_processing_wf:
  assumes "p' \<in> set (processing db)" "prc_raw p = prc_raw p'" "prc_user p = prc_user p'" "provenance_wf db"
  shows "provenance_wf (put_processing p db)"
proof (rule source_change [OF assms(4)])
  have sw: "source_wf db" using assms(4) by (simp add: provenance_wf_def)
  have M: "map prc_raw (processing (put_processing p db)) = map prc_raw (processing db)"
    by (auto simp: put_processing_def modify_rows_def)
  then have I: "prc_raw ` set (processing (put_processing p db)) = prc_raw ` set (processing db)" by (metis list.set_map)
  have "fk_raw db (prc_raw p) (prc_user p)" using sw assms(1-3) by (auto simp: source_wf_def list_all_iff)
  then show "source_wf (put_processing p db)"
    using sw M I by (auto simp: source_wf_def list_all_iff put_processing_def set_modify_rows fk_connection_def fk_raw_def)
qed (simp_all add: put_processing_def)

lemma proposals_wf: "provenance_wf db \<Longrightarrow> provenance_wf (db\<lparr>proposals := ps\<rparr>)"
  by (rule source_change [where db = db]) (simp_all add: provenance_wf_def source_wf_def fk_connection_def fk_raw_def)

text \<open>Storing the normalized event.\<close>

lemma insert_normalized_Inr:
  assumes "insert_normalized r db = Inr (db', inserted)"
  shows "(db' = db \<and> inserted = None) \<or>
    (inserted = Some (nev_id r) \<and> nev_id r \<notin> nev_id ` set (normalized_events db) \<and> normalized_checks r \<and>
     fk_raw db (nev_raw r) (nev_user r) \<and> db' = db\<lparr>normalized_events := normalized_events db @ [r]\<rparr>)"
  using assms by (auto simp: insert_normalized_def result_simps table_simps split: if_splits)

lemma store_normalized_event_Inr:
  assumes "store_normalized_event u r e k v now i db = Inr (db', n)" "source_wf db"
  shows "n \<in> set (normalized_events db')" "nev_user n = u" "nev_raw n = r" "source_wf db'"
    "db' = db\<lparr>normalized_events := normalized_events db'\<rparr>" "set (normalized_events db) \<subseteq> set (normalized_events db')"
proof -
  let ?n = "normalized_of_event u r e k v now i"
  from assms(1) obtain ins sel where ins: "insert_normalized ?n db = Inr (db', ins)"
      and sel: "(case ins of Some i \<Rightarrow> Some i | None \<Rightarrow> map_option nev_id
        (select_one (\<lambda>x. nev_user x = u \<and> same_contract ?n x) (normalized_events db'))) = Some sel"
      and n: "select_one (\<lambda>x. nev_id x = sel \<and> nev_user x = u) (normalized_events db') = Some n"
    by (auto simp: store_normalized_event_def Let_def result_simps)
  note I = insert_normalized_Inr [OF ins]
  show "n \<in> set (normalized_events db')" "nev_user n = u" using select_one_SomeD [OF n] by simp_all
  show sw: "source_wf db'"
    using I assms(2) by (auto simp: source_wf_def list_all_iff fk_connection_def fk_raw_def)
  show "db' = db\<lparr>normalized_events := normalized_events db'\<rparr>" "set (normalized_events db) \<subseteq> set (normalized_events db')"
    using I by auto
  obtain m where m: "m \<in> set (normalized_events db')" "nev_id m = sel" "nev_raw m = r"
  proof (cases ins)
    case None
    with sel obtain x where "select_one (\<lambda>x. nev_user x = u \<and> same_contract ?n x) (normalized_events db') = Some x" "nev_id x = sel"
      by auto
    with select_one_SomeD [OF this(1)] that show ?thesis by (auto simp: same_contract_def normalized_of_event_def)
  next
    case (Some y)
    with I have "?n \<in> set (normalized_events db')" "nev_id ?n = y" by auto
    with that Some sel show ?thesis by (auto simp: normalized_of_event_def)
  qed
  have "inj_on nev_id (set (normalized_events db'))" using sw by (simp add: source_wf_def distinct_map)
  with m select_one_SomeD [OF n] show "nev_raw n = r" by (auto dest: inj_onD)
qed

section \<open>The hand-off of an event\<close>

lemma supportedI:
  "n \<in> set (normalized_events db) \<Longrightarrow> t \<in> set (transactions db) \<Longrightarrow> same_value n t \<Longrightarrow> evd_event x = nev_id n \<Longrightarrow>
   evd_raw x = nev_raw n \<Longrightarrow> evd_user x = nev_user n \<Longrightarrow> evd_transaction x = tx_id t \<Longrightarrow> supported db x"
  by (auto simp: supported_def)

text \<open>A candidate that passed the validation has the value of the event.\<close>

lemma validated_candidate:
  assumes "lock_transaction u i db = Inr t" "validate_candidate t n ty = Inr z" "nev_user n = u"
    "EVENT_TYPES (nev_kind n) = Some ty"
  shows "t \<in> set (transactions db) \<and> tx_id t = i \<and> same_value n t"
  using assms by (auto simp: lock_transaction_def validate_candidate_def same_value_def result_simps dest: select_one_SomeD)

text \<open>The transaction posted for an event has its value.\<close>

lemma post_event:
  assumes wf: "provenance_wf db" and n: "n \<in> set (normalized_events db)" "nev_amount n = Some a" "nev_currency n = Some cur"
      "EVENT_TYPES (nev_kind n) = Some ty"
    and command: "event_command (nev_user n) n a cur t ty db = Inr command"
    and post: "repo_create_transaction (nev_user n) command ids db = Inr (db1, v)"
  shows "provenance_wf db1" "\<exists>t. posted db db1 t \<and> tx_id t = tv_id v \<and> same_value n t"
proof -
  have cw: "categorization_wf db" and lo: "learned_ok db" using wf by (simp_all add: provenance_wf_def categorization_wf_def)
  have "normalized_checks n" using wf n(1) by (auto simp: provenance_wf_def source_wf_def list_all_iff)
  then have val: "0 < a" "a < 10 ^ 19" "currency_pattern cur" using n by (simp_all add: normalized_checks_def)
  from repo_create_posts [OF post cw event_command_facts(6) [OF command lo val]] obtain m where
    m: "posted db db1 (transaction_of_command (nev_user n) command m (snd ids))" "tv_id v = snd ids" by blast
  then show "provenance_wf db1" using ledger_kept_wf [OF _ wf] by (simp add: posted_def)
  show "\<exists>t. posted db db1 t \<and> tx_id t = tv_id v \<and> same_value n t"
    using m command_value [OF command lo val n(2-4), of m "snd ids"] by (auto simp: transaction_of_command_def)
qed

lemma post_event_keeps:
  assumes "posted db db1 t"
  shows "t \<in> set (transactions db1)" "normalized_events db1 = normalized_events db" "evidence db1 = evidence db"
    "cases db1 = cases db" "actions db1 = actions db" "processing db1 = processing db" "raw_events db1 = raw_events db"
    "proposals db1 = proposals db" "connections db1 = connections db" "sources_of db1 = sources_of db"
  using assms by (simp_all add: posted_def ledger_kept_def sources_of_def)

text \<open>Evidence and case written for one event.\<close>

lemma record_case:
  assumes wf: "provenance_wf db" and n: "n \<in> set (normalized_events db)" "nev_user n = u"
    and t: "t \<in> set (transactions db)" "same_value n t"
    and e: "add_evidence u (nev_raw n) (nev_id n) (tx_id t) loc ex i db = Inr db1"
    and c: "create_case u n r st (Some (tx_id t)) act loc ex ver now ids db1 = Inr (db2, c)" "st \<noteq> CASE_PENDING"
  shows "provenance_wf db2 \<and> sources_of db2 = sources_of db"
proof -
  let ?x = "\<lparr>evd_id = i, evd_user = u, evd_raw = nev_raw n, evd_event = nev_id n, evd_transaction = tx_id t,
    evd_kind = SOURCE_EVENT, evd_locator = loc, evd_excerpt = ex\<rparr>"
  from e have x: "nev_id n \<notin> evd_event ` set (evidence db)" "i \<notin> evd_id ` set (evidence db)" "db1 = db\<lparr>evidence := evidence db @ [?x]\<rparr>"
    by (simp_all add: add_evidence_Inr)
  note C = create_case_Inr [OF c(1)]
  have "case_checks c db" using C(2) by (simp add: x(3) case_checks_frame [of "db\<lparr>evidence := ys\<rparr>" db for ys])
  moreover have "db2 = db\<lparr>evidence := evidence db @ [?x], cases := cases db @ [c],
      actions := actions db @ [entry u c act None (Some (tx_id t)) now (snd ids)]\<rparr>"
    using C(5) by (simp add: x(3))
  moreover have "supported db ?x" by (rule supportedI [OF n(1) t]) (simp_all add: n(2))
  moreover have "rcs_id c = fst ids" "rcs_event c = nev_id n" "rcs_status c = st" "rcs_result c = Some (tx_id t)"
    using C(1) by (simp_all add: case_of_result_fields)
  moreover have "nev_id n \<notin> rcs_event ` set (cases db)" "fst ids \<notin> rcs_id ` set (cases db)" using C(3,4) by (simp_all add: x(3))
  ultimately show ?thesis using x(1,2) c(2) by (simp add: link_wf [OF wf] entry_def sources_of_def)
qed

lemma merge_automatically_wf:
  assumes "merge_automatically u n ty r loc ex env db = Inr (db', out)" "provenance_wf db"
    "n \<in> set (normalized_events db)" "nev_user n = u" "EVENT_TYPES (nev_kind n) = Some ty"
  shows "provenance_wf db' \<and> sources_of db' = sources_of db \<and> oc_transaction out \<noteq> None \<and> oc_result out = r"
proof -
  from assms(1) obtain i t z db1 c where t: "lock_transaction u i db = Inr t" "validate_candidate t n ty = Inr z"
    and e: "add_evidence u (nev_raw n) (nev_id n) (tx_id t) loc ex (he_evidence env) db = Inr db1"
    and c: "create_case u n r CASE_MERGED (Some (tx_id t)) AUTO_MERGED loc ex SCORE_VERSION (he_now env) (case_ids env) db1 = Inr (db', c)"
    and out: "out = \<lparr>oc_case = rcs_id c, oc_transaction = Some (tx_id t), oc_result = r\<rparr>"
    by (auto simp: merge_automatically_def result_simps)
  from validated_candidate [OF t assms(4,5)] record_case [OF assms(2-4) _ _ e c] out show ?thesis by simp
qed

lemma flag_candidate_wf:
  assumes "flag_candidate u n r loc ex env db = Inr (db', out)" "provenance_wf db"
  shows "provenance_wf db' \<and> sources_of db' = sources_of db \<and> oc_transaction out = None \<and> oc_result out = r"
proof -
  from assms(1) obtain c where
    c: "create_case u n r CASE_PENDING None CANDIDATE_FLAGGED loc ex SCORE_VERSION (he_now env) (case_ids env) db = Inr (db', c)"
    and out: "out = \<lparr>oc_case = rcs_id c, oc_transaction = None, oc_result = r\<rparr>"
    by (auto simp: flag_candidate_def result_simps)
  note C = create_case_Inr [OF c]
  have "rcs_id c = he_case env" "rcs_event c = nev_id n" "rcs_status c = CASE_PENDING" "rcs_result c = None"
    using C(1) by (simp_all add: case_of_result_fields)
  then show ?thesis
    using C(2-5) out by (simp add: pending_wf [OF assms(2)] entry_def sources_of_def)
qed

lemma post_new_wf:
  assumes "post_new u n command r loc ex env db = Inr (db', out)" and wf: "provenance_wf db"
    and n: "n \<in> set (normalized_events db)" "nev_user n = u" "nev_amount n = Some a" "nev_currency n = Some cur"
      "EVENT_TYPES (nev_kind n) = Some ty"
    and command: "event_command u n a cur t ty db = Inr command"
  shows "provenance_wf db' \<and> sources_of db' = sources_of db \<and> oc_transaction out \<noteq> None \<and> oc_result out = r"
proof -
  from assms(1) obtain db1 v db2 c where
    p: "repo_create_transaction u command (ledger_ids env) db = Inr (db1, v)"
    and e: "add_evidence u (nev_raw n) (nev_id n) (tv_id v) loc ex (he_evidence env) db1 = Inr db2"
    and c: "create_case u n r CASE_KEPT_SEPARATE (Some (tv_id v)) CREATED_NEW loc ex SCORE_VERSION (he_now env) (case_ids env) db2 = Inr (db', c)"
    and out: "out = \<lparr>oc_case = rcs_id c, oc_transaction = Some (tv_id v), oc_result = r\<rparr>"
    by (auto simp: post_new_def result_simps)
  note P = post_event [OF wf n(1,3-5), unfolded n(2), OF command p]
  from P(2) obtain t' where t': "posted db db1 t'" "tx_id t' = tv_id v" "same_value n t'" by blast
  note K = post_event_keeps [OF t'(1)]
  have n1: "n \<in> set (normalized_events db1)" using n(1) K(2) by simp
  show ?thesis using record_case [OF P(1) n1 n(2) K(1) t'(3), unfolded t'(2), OF e c] K(10) out by simp
qed

end
