(* ===== verification/Provenance_Steps.thy ===== *)
theory Provenance_Steps
  imports Provenance_Laws
begin

text \<open>
  The committed transactions of ingestion, review and the ledger as steps on the tables, all of which
  keep \<open>provenance_wf\<close> and move the processing state of a raw event only along the table
  \<open>ALLOWED_TRANSITIONS\<close> (an instance of the locale \<open>lifecycle\<close>). Deliveries and whole connector
  pages are sequences of such steps.
\<close>

section \<open>The hand-off and the processing of one event\<close>

lemma reconcile_wf:
  assumes run: "reconcile_transaction pol u n command loc ex env db = Inr (db', out)" and wf: "provenance_wf db"
    and n: "n \<in> set (normalized_events db)" "nev_user n = u" "nev_amount n = Some a" "nev_currency n = Some cur"
      "EVENT_TYPES (nev_kind n) = Some ty"
    and command: "event_command u n a cur t ty db = Inr command"
  shows "provenance_wf db' \<and> sources_of db' = sources_of db \<and> (requires_review out \<longleftrightarrow> oc_transaction out = None)"
proof -
  have "normalized_checks n" using wf n(1) by (auto simp: provenance_wf_def source_wf_def list_all_iff)
  then have val: "0 < a" "a < 10 ^ 19" "currency_pattern cur" using n by (simp_all add: normalized_checks_def)
  have "learned_ok db" using wf by (simp add: provenance_wf_def categorization_wf_def)
  then have ty: "ct_type command = ty" by (rule event_command_facts(3) [OF command _ val])
  let ?r = "reconcile_candidates n (find_candidates (he_rank env) u n (ct_type command) pol db) pol"
  show ?thesis
  proof (cases "rr_decision ?r")
    case MERGE
    with run have "merge_automatically u n ty ?r loc ex env db = Inr (db', out)" by (simp add: reconcile_transaction_def Let_def ty)
    from merge_automatically_wf [OF this wf n(1,2,5)] MERGE show ?thesis by (simp add: requires_review_def)
  next
    case POSSIBLE_DUPLICATE
    with run have "flag_candidate u n ?r loc ex env db = Inr (db', out)" by (simp add: reconcile_transaction_def Let_def)
    from flag_candidate_wf [OF this wf] POSSIBLE_DUPLICATE show ?thesis by (simp add: requires_review_def)
  next
    case NEW_TRANSACTION
    with run have "post_new u n command ?r loc ex env db = Inr (db', out)" by (simp add: reconcile_transaction_def Let_def)
    from post_new_wf [OF this wf n command] NEW_TRANSACTION show ?thesis by (simp add: requires_review_def)
  qed
qed

abbreviation raw_edges :: "raw_event_state \<Rightarrow> raw_event_state set" where
  "raw_edges s \<equiv> set (ALLOWED_TRANSITIONS s)"

lemma queue_review_Inr:
  "queue_review p code = Inr p' \<longleftrightarrow>
    NEEDS_REVIEW \<in> raw_edges (prc_state p) \<and> p' = p\<lparr>prc_state := NEEDS_REVIEW, prc_error := Some code\<rparr>"
  by (auto simp: queue_review_def require_state_transition_def result_simps)

text \<open>The outcome of posting: the source is done with a transaction, or waits for its owner.\<close>

definition settled :: "processing_row \<Rightarrow> processing_row \<Rightarrow> uuid option \<Rightarrow> bool" where
  "settled p p' t \<longleftrightarrow>
     prc_raw p' = prc_raw p \<and> prc_user p' = prc_user p \<and> prc_attempts p' = prc_attempts p \<and>
     prc_state p' \<in> raw_edges (prc_state p) \<and>
     (if t = None then prc_state p' = NEEDS_REVIEW \<and> prc_error p' \<noteq> None else prc_state p' = PROCESSED \<and> prc_error p' = None)"

lemma queue_review_settled: "queue_review p code = Inr p' \<Longrightarrow> settled p p' None"
  by (auto simp: queue_review_Inr settled_def)

lemma post_command_wf:
  assumes run: "post_command pol u e p n command env db = Inr (db', p', tid)" and wf: "provenance_wf db"
    and n: "n \<in> set (normalized_events db)" "nev_user n = u" "nev_amount n = Some a" "nev_currency n = Some cur"
      "EVENT_TYPES (nev_kind n) = Some ty"
    and command: "event_command u n a cur t ty db = Inr command"
  shows "provenance_wf db' \<and> sources_of db' = sources_of db \<and> settled p p' tid"
proof -
  from run obtain db1 out where
    r: "reconcile_transaction pol u n command (env_locator e) (env_excerpt e) env db = Inr (db1, out)" and
    q: "(if requires_review out
       then bindE (queue_review p ''POSSIBLE_DUPLICATE'') (\<lambda>p'. Inr (db1, p', None))
       else bindE (require (IngestionConflictError ''RECONCILIATION_TARGET_MISSING'') (oc_transaction out)) (\<lambda>t.
            bindE (require_state_transition (prc_state p) PROCESSED) (\<lambda>_.
              Inr (db1, p\<lparr>prc_state := PROCESSED, prc_error := None\<rparr>, Some t)))) = Inr (db', p', tid)"
    by (auto simp: post_command_def result_simps)
  from q have "db' = db1 \<and> settled p p' tid"
    by (auto simp: result_simps require_state_transition_def settled_def queue_review_Inr split: if_splits)
  with reconcile_wf [OF r wf n command] show ?thesis by simp
qed

lemma post_or_queue_review_wf:
  assumes run: "post_or_queue_review pol u e p n env db = Inr (db', p', tid)" and wf: "provenance_wf db"
    and n: "n \<in> set (normalized_events db)" "nev_user n = u"
  shows "provenance_wf db' \<and> sources_of db' = sources_of db \<and> settled p p' tid"
proof (cases "\<exists>ty a cur t. EVENT_TYPES (nev_kind n) = Some ty \<and> nev_amount n = Some a \<and> nev_currency n = Some cur \<and>
    nev_occurred_at n = Some t")
  case True
  then obtain ty a cur t where v: "EVENT_TYPES (nev_kind n) = Some ty" "nev_amount n = Some a" "nev_currency n = Some cur"
      "nev_occurred_at n = Some t" by blast
  show ?thesis
  proof (cases "event_command u n a cur t ty db")
    case (Inl err)
    with run v have "bindE (queue_review p ''LEDGER_VALIDATION_REVIEW'') (\<lambda>p'. Inr (db, p', None)) = Inr (db', p', tid)"
      by (simp add: post_or_queue_review_def split: if_splits)
    with wf show ?thesis by (auto simp: result_simps dest: queue_review_settled)
  next
    case (Inr command)
    with run v have "post_command pol u e p n command env db = Inr (db', p', tid)" by (simp add: post_or_queue_review_def)
    from post_command_wf [OF this wf n v(2,3,1) Inr] show ?thesis .
  qed
next
  case False
  then have "post_or_queue_review pol u e p n env db = bindE (queue_review p ''REVIEW_REQUIRED'') (\<lambda>p'. Inr (db, p', None))"
    by (auto simp: post_or_queue_review_def split: option.split)
  with run wf show ?thesis by (auto simp: result_simps dest: queue_review_settled)
qed

lemma start_attempt_Inr:
  "start_attempt p = Inr p' \<Longrightarrow> prc_raw p' = prc_raw p \<and> prc_user p' = prc_user p \<and> prc_state p' = NORMALIZED \<and>
    prc_attempts p' = prc_attempts p + 1 \<and> path raw_edges (prc_state p) (prc_state p')"
  by (auto simp: start_attempt_def Let_def require_state_transition_def result_simps intro: path.stay path_edge split: if_splits)

section \<open>Moves of the processing states\<close>

definition status_of_raw :: "'a ingestion_db_scheme \<Rightarrow> uuid \<Rightarrow> raw_event_state option" where
  "status_of_raw db i = map_option prc_state (select_one (\<lambda>p. prc_raw p = i) (processing db))"

text \<open>
  What every step keeps of the sources: the users, the raw events, each connection's identity and
  status under its key; and a processing state only moves along the table.
\<close>

definition connection_at ::
  "uuid \<Rightarrow> connector_type \<Rightarrow> string \<Rightarrow> 'a ingestion_db_scheme \<Rightarrow> (uuid \<times> source_connection_status) option" where
  "connection_at u ty k db = map_option (\<lambda>r. (scn_id r, scn_status r))
     (select_one (\<lambda>r. scn_user r = u \<and> scn_type r = ty \<and> scn_key r = k) (connections db))"

definition sources_kept :: "'a ingestion_db_scheme \<Rightarrow> 'a ingestion_db_scheme \<Rightarrow> bool" where
  "sources_kept db db' \<longleftrightarrow>
     users db' = users db \<and> set (raw_events db) \<subseteq> set (raw_events db') \<and>
     (\<forall>u ty k c. connection_at u ty k db = Some c \<longrightarrow> connection_at u ty k db' = Some c)"

definition advances :: "'a ingestion_db_scheme \<Rightarrow> 'a ingestion_db_scheme \<Rightarrow> bool" where
  "advances db db' \<longleftrightarrow> (\<forall>i s. status_of_raw db i = Some s \<longrightarrow> (\<exists>s'. status_of_raw db' i = Some s' \<and> path raw_edges s s'))"

definition moves :: "'a ingestion_db_scheme \<Rightarrow> 'a ingestion_db_scheme \<Rightarrow> bool" where
  "moves db db' \<longleftrightarrow> sources_kept db db' \<and> advances db db'"

lemma moves_trans: "moves db db1 \<Longrightarrow> moves db1 db2 \<Longrightarrow> moves db db2"
proof -
  assume a: "moves db db1" "moves db1 db2"
  then have "advances db db2" unfolding moves_def advances_def by (meson path_trans)
  moreover have "sources_kept db db2" using a by (auto simp: moves_def sources_kept_def)
  ultimately show "moves db db2" by (simp add: moves_def)
qed

lemma advances_same: "processing db' = processing db \<Longrightarrow> advances db db'"
  by (auto simp: advances_def status_of_raw_def intro: path.stay)

lemma moves_same: "sources_of db' = sources_of db \<Longrightarrow> moves db db'"
  by (auto simp: moves_def sources_kept_def sources_of_def connection_at_def intro: advances_same)

lemma moves_sources: "sources_of db1 = sources_of db \<Longrightarrow> moves db1 db2 \<Longrightarrow> moves db db2"
  using moves_same moves_trans by blast

lemma advances_insert_processing: "processing db1 = processing db \<Longrightarrow> advances db (insert_processing u i db1)"
  by (auto simp: advances_def status_of_raw_def insert_processing_def select_one_append intro: path.stay)

lemma moves_put:
  assumes "distinct (map prc_raw (processing db))" "p \<in> set (processing db)" "prc_raw p' = prc_raw p"
    "path raw_edges (prc_state p) (prc_state p')"
  shows "moves db (put_processing p' db)"
proof -
  have p: "q = p" if "q \<in> set (processing db)" "prc_raw q = prc_raw p" for q
    using that assms(1,2) by (auto simp: distinct_map dest: inj_onD)
  have "\<exists>s'. status_of_raw (put_processing p' db) i = Some s' \<and> path raw_edges s s'" if "status_of_raw db i = Some s" for i s
  proof -
    from that obtain q where q: "select_one (\<lambda>p. prc_raw p = i) (processing db) = Some q" "prc_state q = s"
      by (auto simp: status_of_raw_def)
    have "select_one (\<lambda>p. prc_raw p = i) (processing (put_processing p' db)) = Some (if prc_raw q = prc_raw p then p' else q)"
      using select_one_modify_rows [of "\<lambda>r. prc_raw r = prc_raw p'" "\<lambda>p. prc_raw p = i" "\<lambda>_. p'" "processing db"] q(1) assms(3)
      by (auto simp: put_processing_def)
    with q p select_one_SomeD [OF q(1)] assms(4) show ?thesis by (auto simp: status_of_raw_def intro: path.stay)
  qed
  then show ?thesis by (simp add: moves_def advances_def sources_kept_def connection_at_def put_processing_def)
qed

lemma processing_facts:
  assumes "provenance_wf db"
  shows "distinct (map prc_raw (processing db))" "source_wf db"
  using assms by (simp_all add: provenance_wf_def source_wf_def)

section \<open>Steps of the ingestion\<close>

lemma ensure_active_connection_wf:
  assumes "ensure_active_connection u d k i db = Inr (db', v)" "provenance_wf db"
  shows "provenance_wf db' \<and> moves db db'"
proof -
  from assms(1) have e: "ensure_connection u d (normalize_display_text k) i db = Inr (db', v)"
    by (auto simp: ensure_active_connection_def Let_def result_simps)
  have "moves db (db\<lparr>connections := connections db @ rs\<rparr>)" for rs
    by (auto simp: moves_def sources_kept_def connection_at_def select_one_append intro: advances_same)
  then show ?thesis using ensure_connection_wf [OF e assms(2)] ensure_connection_Inr [OF e] moves_same by auto
qed

lemma update_cursor_moves:
  assumes "update_connection_cursor u c cursor now db = Inr db'"
  shows "moves db db'"
proof -
  let ?f = "\<lambda>r. r\<lparr>scn_cursor := cursor, scn_synced_at := Some now, scn_error := None\<rparr>"
  have db': "db' = db\<lparr>connections := modify_rows (\<lambda>r. scn_id r = c \<and> scn_user r = u) ?f (connections db)\<rparr>"
    using assms by (auto simp: update_connection_cursor_def result_simps)
  have "connection_at v ty k db' = connection_at v ty k db" for v ty k
    by (auto simp: connection_at_def db' select_one_modify_rows option.map_comp o_def intro!: map_option_cong)
  then show ?thesis by (simp add: moves_def sources_kept_def advances_same db')
qed

lemma receive_Inr:
  assumes "receive_raw_event codec u c e i db = Inr (db', s)"
  shows "\<exists>k h pl. store_raw_event u c e k h pl i db = Inr (db', s)"
  using assms by (auto simp: receive_raw_event_def result_simps)

lemma store_raw_event_moves:
  assumes "store_raw_event u c e k h pl i db = Inr (db', s)"
  shows "moves db db'"
proof -
  from assms obtain db1 ins j where ins: "insert_raw (raw_of_envelope u c e k h pl i) db = Inr (db1, ins)"
      and db': "db' = insert_processing u j db1"
    by (auto simp: store_raw_event_def result_simps)
  obtain rs where "db1 = db\<lparr>raw_events := raw_events db @ rs\<rparr>" using insert_raw_rows [OF ins] by blast
  then show ?thesis
    using advances_insert_processing [of db1 db u j]
    by (auto simp: moves_def sources_kept_def connection_at_def db' insert_processing_def)
qed

lemma get_processing_Inr:
  assumes "get_processing u i db = Inr p"
  shows "p \<in> set (processing db)" "prc_raw p = i" "prc_user p = u"
  using assms by (auto simp: get_processing_def result_simps dest: select_one_SomeD)

lemma put_processing_step:
  assumes "p \<in> set (processing db)" "prc_raw p' = prc_raw p" "prc_user p' = prc_user p"
    "path raw_edges (prc_state p) (prc_state p')" "provenance_wf db"
  shows "provenance_wf (put_processing p' db) \<and> moves db (put_processing p' db)"
  using moves_put [OF processing_facts(1) [OF assms(5)] assms(1,2,4)] put_processing_wf [OF assms(1-3,5)] by simp

lemma mark_failed_wf:
  assumes "mark_failed u s code db = Inr (db', r)" "provenance_wf db"
  shows "provenance_wf db' \<and> moves db db'"
proof -
  from assms(1) obtain p where p: "get_processing u (sre_id s) db = Inr p" and
    r: "(if terminal (prc_state p) then Inr (db, replay_of u s p db)
       else bindE (require_state_transition (prc_state p) FAILED) (\<lambda>_.
         Inr (put_processing (p\<lparr>prc_state := FAILED, prc_attempts := prc_attempts p + 1, prc_error := Some code\<rparr>) db,
              \<lparr>ir_raw = sre_id s, ir_event = None, ir_transaction = None, ir_state = FAILED,
               ir_replayed = (\<not> sre_created s), ir_error = Some code\<rparr>))) = Inr (db', r)"
    by (auto simp: mark_failed_def result_simps)
  show ?thesis
  proof (cases "terminal (prc_state p)")
    case True
    with r assms(2) show ?thesis by (simp add: moves_same)
  next
    case False
    with r have "FAILED \<in> raw_edges (prc_state p)"
      and db': "db' = put_processing (p\<lparr>prc_state := FAILED, prc_attempts := prc_attempts p + 1, prc_error := Some code\<rparr>) db"
      by (auto simp: result_simps require_state_transition_def)
    then show ?thesis
      unfolding db' by (intro put_processing_step [OF get_processing_Inr(1) [OF p]]) (simp_all add: path_edge assms(2))
  qed
qed

text \<open>One processed delivery: what it leaves, and that its row is done or waits for review.\<close>

lemma process_normalized_Inr:
  assumes "process_normalized pol u src e s ev env db = Inr (db', r)" "\<not> terminal (prc_state p)"
    "get_processing u (sre_id s) db = Inr p" "provenance_wf db"
  shows "\<exists>p2. db' = put_processing p2 (db'\<lparr>processing := processing db\<rparr>) \<and> provenance_wf (db'\<lparr>processing := processing db\<rparr>) \<and>
    sources_of (db'\<lparr>processing := processing db\<rparr>) = sources_of db \<and> prc_raw p2 = prc_raw p \<and> prc_user p2 = u \<and> path raw_edges (prc_state p) (prc_state p2) \<and>
    ir_state r = prc_state p2 \<and> ir_raw r = sre_id s \<and> terminal (ir_state r) \<and>
    (ir_transaction r = None \<longleftrightarrow> ir_state r = NEEDS_REVIEW)"
proof -
  from assms(1-3) obtain db1 n p1 db2 p2 tid where
    st: "store_normalized_event u (sre_id s) ev (connector_type_value src) NORMALIZER_VERSION (he_now (ie_handoff env)) (ie_event env) db = Inr (db1, n)"
    and sa: "start_attempt p = Inr p1"
    and po: "post_or_queue_review pol u e p1 n (ie_handoff env) db1 = Inr (db2, p2, tid)"
    and db': "db' = put_processing p2 db2"
    and r: "r = \<lparr>ir_raw = sre_id s, ir_event = Some (nev_id n), ir_transaction = tid, ir_state = prc_state p2,
      ir_replayed = (\<not> sre_created s), ir_error = prc_error p2\<rparr>"
    by (auto simp: process_normalized_def result_simps)
  note N = store_normalized_event_Inr [OF st processing_facts(2) [OF assms(4)]]
  note S = start_attempt_Inr [OF sa]
  obtain ns where d1: "db1 = db\<lparr>normalized_events := ns\<rparr>" using N(5) by blast
  have wf1: "provenance_wf db1" by (rule source_change [OF assms(4) N(4)]) (use N(6) in \<open>simp_all add: d1\<close>)
  from post_or_queue_review_wf [OF po wf1 N(1,2)] have wf2: "provenance_wf db2" and same: "sources_of db2 = sources_of db"
    and set: "settled p1 p2 tid" by (simp_all add: d1 sources_of_def)
  have prev: "db'\<lparr>processing := processing db\<rparr> = db2" using same by (cases db2) (simp add: db' put_processing_def sources_of_def)
  have "path raw_edges (prc_state p) (prc_state p2)" using S set by (auto simp: settled_def intro: path.move)
  then show ?thesis
    using set S wf2 same get_processing_Inr [OF assms(3)]
    by (intro exI [of _ p2]) (auto simp: prev db' [symmetric] r settled_def terminal_def split: if_splits)
qed

lemma process_normalized_wf:
  assumes run: "process_normalized pol u src e s ev env db = Inr (db', r)" and wf: "provenance_wf db"
  shows "provenance_wf db' \<and> moves db db'"
proof -
  from run obtain p where p: "get_processing u (sre_id s) db = Inr p" by (auto simp: process_normalized_def result_simps)
  show ?thesis
  proof (cases "terminal (prc_state p)")
    case True
    with run p wf show ?thesis by (auto simp: process_normalized_def result_simps moves_same)
  next
    case False
    let ?db = "db'\<lparr>processing := processing db\<rparr>"
    from process_normalized_Inr [OF run False p wf] obtain p2 where db': "db' = put_processing p2 ?db"
      and wf2: "provenance_wf ?db" and same: "sources_of ?db = sources_of db" and p2: "prc_raw p2 = prc_raw p" "prc_user p2 = u" "path raw_edges (prc_state p) (prc_state p2)"
      by blast
    have "provenance_wf (put_processing p2 ?db) \<and> moves ?db (put_processing p2 ?db)"
      using get_processing_Inr [OF p] p2 by (intro put_processing_step [OF _ _ _ _ wf2, of p]) simp_all
    with same db' show ?thesis using moves_sources by auto
  qed
qed

section \<open>Steps of the review\<close>

lemma locked_case:
  assumes "lock_case u i db = Some c"
  shows "c \<in> set (cases db)" "rcs_id c = i" "rcs_user c = u"
  using assms by (auto simp: lock_case_def dest: select_one_SomeD)

lemma require_pending_Inr: "require_pending x = Inr c \<longleftrightarrow> x = Some c \<and> rcs_status c = CASE_PENDING"
  by (auto simp: require_pending_def result_simps)

lemma require_merged_Inr: "require_merged x = Inr c \<longleftrightarrow> x = Some c \<and> rcs_status c = CASE_MERGED"
  by (auto simp: require_merged_def result_simps)

lemma normalized_for_case_Inr:
  assumes "normalized_for_case u c db = Inr n"
  shows "n \<in> set (normalized_events db)" "nev_id n = rcs_event c" "nev_raw n = rcs_raw c" "nev_user n = u"
  using assms by (auto simp: normalized_for_case_def result_simps dest: select_one_SomeD)

lemma complete_source_wf:
  assumes "complete_source u c t db = Inr db'" "provenance_wf db"
  shows "provenance_wf db' \<and> moves db db'"
proof -
  from complete_source_Inr [OF assms(1)] obtain p ps where
    p: "select_one (\<lambda>p. prc_raw p = rcs_raw c \<and> prc_user p = u) (processing db) = Some p" "prc_state p = NEEDS_REVIEW" and
    db': "db' = (put_processing (p\<lparr>prc_state := PROCESSED, prc_error := None\<rparr>) db)\<lparr>proposals := ps\<rparr>"
    by (auto simp: put_processing_def)
  have "provenance_wf (put_processing (p\<lparr>prc_state := PROCESSED, prc_error := None\<rparr>) db) \<and>
    moves db (put_processing (p\<lparr>prc_state := PROCESSED, prc_error := None\<rparr>) db)"
    using select_one_SomeD [OF p(1)] p(2) by (intro put_processing_step [OF _ _ _ _ assms(2)]) (auto intro: path_edge)
  moreover have "moves (put_processing (p\<lparr>prc_state := PROCESSED, prc_error := None\<rparr>) db) db'"
    by (rule moves_same) (simp add: sources_of_def db')
  ultimately show ?thesis using proposals_wf moves_trans by (auto simp: db')
qed

lemma update_proposal_wf:
  "update_proposal q db = Inr db' \<Longrightarrow> provenance_wf db \<Longrightarrow> provenance_wf db' \<and> moves db db'"
  using proposals_wf update_proposal_Inr [of q db db'] by (auto intro!: moves_same simp: sources_of_def)

text \<open>Linking a pending case to a transaction of the same value, and completing its source.\<close>

lemma resolve_step:
  assumes wf: "provenance_wf db" and c: "lock_case u i db = Some c" "normalized_for_case u c db = Inr n"
    and t: "t \<in> set (transactions db)" "same_value n t"
    and e: "add_evidence u (rcs_raw c) (rcs_event c) (tx_id t) loc ex j db = Inr db1"
    and r: "update_case (resolve_case c st (tx_id t) now) db1 = Inr db2" "st \<noteq> CASE_PENDING"
    and a: "append_action u c act None (Some (tx_id t)) now k db2 = Inr db3"
    and s: "complete_source u c (tx_id t) db3 = Inr db4"
  shows "provenance_wf db4 \<and> moves db db4"
proof -
  let ?x = "\<lparr>evd_id = j, evd_user = u, evd_raw = rcs_raw c, evd_event = rcs_event c, evd_transaction = tx_id t,
    evd_kind = SOURCE_EVENT, evd_locator = loc, evd_excerpt = ex\<rparr>"
  let ?c = "resolve_case c st (tx_id t) now"
  note N = normalized_for_case_Inr [OF c(2)]
  from e have x: "rcs_event c \<notin> evd_event ` set (evidence db)" "j \<notin> evd_id ` set (evidence db)"
      and d1: "db1 = db\<lparr>evidence := evidence db @ [?x]\<rparr>"
    by (simp_all add: add_evidence_Inr)
  from r(1) have chk: "case_checks ?c db1" and d2: "db2 = db1\<lparr>cases := modify_rows (\<lambda>r. rcs_id r = rcs_id ?c) (\<lambda>_. ?c) (cases db1)\<rparr>"
    by (simp_all add: update_case_Inr)
  have ok: "case_checks ?c db" using chk by (simp add: d1 case_checks_frame [of "db\<lparr>evidence := ys\<rparr>" db for ys])
  from a have d3: "db3 = db2\<lparr>actions := actions db2 @ [entry u c act None (Some (tx_id t)) now k]\<rparr>" by (simp add: append_action_Inr)
  have "provenance_wf (db\<lparr>evidence := evidence db @ [?x], cases := modify_rows (\<lambda>r. rcs_id r = rcs_id ?c) (\<lambda>_. ?c) (cases db),
      actions := actions db @ [entry u c act None (Some (tx_id t)) now k]\<rparr>)"
    by (rule resolve_wf [OF wf locked_case(1) [OF c(1)] ok])
      (use x r(2) supportedI [OF N(1) t, of ?x] N in \<open>simp_all add: resolve_case_def entry_def\<close>)
  then have "provenance_wf db3" "sources_of db3 = sources_of db" by (simp_all add: d1 d2 d3 sources_of_def)
  with complete_source_wf [OF s] show ?thesis using moves_sources by blast
qed

lemma apply_merge_wf:
  assumes "apply_merge u i env db = Inr db'" "provenance_wf db"
  shows "provenance_wf db' \<and> moves db db'"
proof -
  from assms(1) obtain c cid n ty t z db1 db2 db3 where
    c: "lock_case u i db = Some c" and n: "normalized_for_case u c db = Inr n"
    and t: "lock_transaction u cid db = Inr t" "validate_candidate t n ty = Inr z" and ty: "EVENT_TYPES (nev_kind n) = Some ty"
    and w: "add_evidence u (rcs_raw c) (rcs_event c) (tx_id t) (rcs_locator c) (rcs_excerpt c) (he_evidence env) db = Inr db1"
      "update_case (resolve_case c CASE_MERGED (tx_id t) (he_now env)) db1 = Inr db2"
      "append_action u c USER_MERGED None (Some (tx_id t)) (he_now env) (he_action env) db2 = Inr db3"
      "complete_source u c (tx_id t) db3 = Inr db'"
    by (auto simp: apply_merge_def result_simps require_pending_Inr transaction_type_of_def)
  from validated_candidate [OF t normalized_for_case_Inr(4) [OF n] ty]
  show ?thesis using resolve_step [OF assms(2) c n _ _ w(1,2) _ w(3,4)] by simp
qed

text \<open>The command of a locked case's event posts a transaction of its value.\<close>

lemma transaction_command_posts:
  assumes "provenance_wf db" "n \<in> set (normalized_events db)" "nev_user n = u" "transaction_command u n db = Inr command"
    "repo_create_transaction u command ids db = Inr (db1, v)"
  shows "provenance_wf db1 \<and> (\<exists>t. posted db db1 t \<and> tx_id t = tv_id v \<and> same_value n t)"
proof -
  from assms(4) obtain a cur t ty where "nev_amount n = Some a" "nev_currency n = Some cur" "EVENT_TYPES (nev_kind n) = Some ty"
      "event_command (nev_user n) n a cur t ty db = Inr command"
    by (auto simp: transaction_command_def transaction_type_of_def result_simps assms(3) split: option.splits)
  from post_event [OF assms(1,2) this, unfolded assms(3), OF assms(5)] show ?thesis by blast
qed

lemma posted_case:
  assumes "posted db db1 t"
  shows "lock_case u i db1 = lock_case u i db" "normalized_for_case u c db1 = normalized_for_case u c db" "moves db db1"
  using post_event_keeps [OF assms] by (simp_all add: lock_case_def normalized_for_case_def moves_same)

lemma apply_keep_separate_wf:
  assumes "apply_keep_separate u i env db = Inr db'" "provenance_wf db"
  shows "provenance_wf db' \<and> moves db db'"
proof -
  from assms(1) obtain c n command db1 v db2 db3 db4 where
    c: "lock_case u i db = Some c" and n: "normalized_for_case u c db = Inr n"
    and p: "transaction_command u n db = Inr command" "repo_create_transaction u command (ledger_ids env) db = Inr (db1, v)"
    and w: "add_evidence u (rcs_raw c) (rcs_event c) (tv_id v) (rcs_locator c) (rcs_excerpt c) (he_evidence env) db1 = Inr db2"
      "update_case (resolve_case c CASE_KEPT_SEPARATE (tv_id v) (he_now env)) db2 = Inr db3"
      "append_action u c USER_KEPT_SEPARATE None (Some (tv_id v)) (he_now env) (he_action env) db3 = Inr db4"
      "complete_source u c (tv_id v) db4 = Inr db'"
    by (auto simp: apply_keep_separate_def result_simps require_pending_Inr)
  note N = normalized_for_case_Inr [OF n]
  from transaction_command_posts [OF assms(2) N(1,4) p] obtain t where wf1: "provenance_wf db1"
    and t: "posted db db1 t" "tx_id t = tv_id v" "same_value n t" by blast
  have "provenance_wf db' \<and> moves db1 db'"
    using resolve_step [OF wf1 _ _ post_event_keeps(1) [OF t(1)] t(3), unfolded t(2), OF _ _ w(1,2) _ w(3,4)] c n
    by (simp add: posted_case [OF t(1)])
  with posted_case(3) [OF t(1)] show ?thesis by (blast intro: moves_trans)
qed

lemma merged_evidence_Inr:
  assumes "merged_evidence u c db = Inr x"
  shows "x \<in> set (evidence db)" "evd_event x = rcs_event c" "evd_raw x = rcs_raw c" "evd_user x = u"
    "rcs_result c = Some (evd_transaction x)"
  using assms by (auto simp: merged_evidence_def evidence_for_case_def result_simps split: option.splits dest: select_one_SomeD)

lemma move_step:
  assumes wf: "provenance_wf db" and c: "lock_case u i db = Some c" "normalized_for_case u c db = Inr n"
    and t: "t \<in> set (transactions db)" "same_value n t"
    and x: "x \<in> set (evidence db)" "evd_event x = rcs_event c" "evd_raw x = rcs_raw c" "evd_user x = u"
    and e: "move_evidence x (tx_id t) db = Inr db1"
    and r: "update_case (resolve_case c st (tx_id t) now) db1 = Inr db2" "st \<noteq> CASE_PENDING"
    and a: "append_action u c act f (Some (tx_id t)) now k db2 = Inr db3"
  shows "provenance_wf db3 \<and> sources_of db3 = sources_of db"
proof -
  let ?c = "resolve_case c st (tx_id t) now"
  let ?xs = "modify_rows (\<lambda>r. evd_id r = evd_id x) (\<lambda>r. r\<lparr>evd_transaction := tx_id t\<rparr>) (evidence db)"
  note N = normalized_for_case_Inr [OF c(2)]
  from e have d1: "db1 = db\<lparr>evidence := ?xs\<rparr>" by (auto simp: move_evidence_def result_simps)
  from r(1) have chk: "case_checks ?c db1" and d2: "db2 = db1\<lparr>cases := modify_rows (\<lambda>r. rcs_id r = rcs_id ?c) (\<lambda>_. ?c) (cases db1)\<rparr>"
    by (simp_all add: update_case_Inr)
  have ok: "case_checks ?c db" using chk by (simp add: d1 case_checks_frame [of "db\<lparr>evidence := ys\<rparr>" db for ys])
  from a have d3: "db3 = db2\<lparr>actions := actions db2 @ [entry u c act f (Some (tx_id t)) now k]\<rparr>" by (simp add: append_action_Inr)
  have "provenance_wf (db\<lparr>evidence := ?xs, cases := modify_rows (\<lambda>r. rcs_id r = rcs_id ?c) (\<lambda>_. ?c) (cases db),
      actions := actions db @ [entry u c act f (Some (tx_id t)) now k]\<rparr>)"
    by (rule move_wf [OF wf locked_case(1) [OF c(1)] ok _ _ _ _ _ x(1,2)])
      (use x r(2) supportedI [OF N(1) t, of "x\<lparr>evd_transaction := tx_id t\<rparr>"] N in \<open>simp_all add: resolve_case_def entry_def\<close>)
  then show ?thesis by (simp add: d1 d2 d3 sources_of_def)
qed

lemma apply_unmerge_wf:
  assumes "apply_unmerge u i env db = Inr db'" "provenance_wf db"
  shows "provenance_wf db' \<and> moves db db'"
proof -
  from assms(1) obtain c x n command db1 v db2 db3 db4 where
    c: "lock_case u i db = Some c" and x: "merged_evidence u c db = Inr x" and n: "normalized_for_case u c db = Inr n"
    and p: "transaction_command u n db = Inr command" "repo_create_transaction u command (ledger_ids env) db = Inr (db1, v)"
    and w: "move_evidence x (tv_id v) db1 = Inr db2" "update_case (resolve_case c CASE_UNMERGED (tv_id v) (he_now env)) db2 = Inr db3"
      "append_action u c USER_UNMERGED (Some (evd_transaction x)) (Some (tv_id v)) (he_now env) (he_action env) db3 = Inr db4"
    and q: "(case proposal_for_raw_event u (rcs_raw c) db4 of None \<Rightarrow> Inr db4
       | Some q \<Rightarrow> update_proposal (q\<lparr>fp_transaction := Some (tv_id v)\<rparr>) db4) = Inr db'"
    by (auto simp: apply_unmerge_def result_simps require_merged_Inr)
  note N = normalized_for_case_Inr [OF n] and X = merged_evidence_Inr [OF x]
  from transaction_command_posts [OF assms(2) N(1,4) p] obtain t where wf1: "provenance_wf db1"
    and t: "posted db db1 t" "tx_id t = tv_id v" "same_value n t" by blast
  have "provenance_wf db4 \<and> sources_of db4 = sources_of db1"
    using move_step [OF wf1 _ _ post_event_keeps(1) [OF t(1)] t(3) _ X(2-4), unfolded t(2), OF _ _ _ w(1,2) _ w(3)] c n X(1)
    by (simp add: posted_case [OF t(1)] post_event_keeps [OF t(1)])
  moreover have "provenance_wf db' \<and> moves db4 db'" if "provenance_wf db4"
    using q that update_proposal_wf by (auto simp: moves_same split: option.splits)
  ultimately show ?thesis using posted_case(3) [OF t(1)] by (blast intro: moves_trans moves_same)
qed

section \<open>Steps of the ledger\<close>

lemma same_value_corrected: "same_value n (corrected_transaction c t) = same_value n t"
  by (simp add: same_value_def corrected_transaction_def)

lemma create_transaction_kept:
  assumes "create_transaction u command ids db = Inr (db', v)" "provenance_wf db"
  shows "provenance_wf db' \<and> sources_of db' = sources_of db"
proof -
  from assms(1) have "repo_create_transaction u (select_category u command db) ids db = Inr (db', v)"
    by (simp add: create_transaction_Inr)
  from repo_create_transaction_frame [OF this] obtain t where
    f: "transactions db' = transactions db @ [t]" "ledger_db.more db' = ledger_db.more db" "users db' = users db" by blast
  note M = more_tables [OF f(2)]
  have "ledger_kept db db'" using f(1,3) M by (fastforce simp: ledger_kept_def)
  from ledger_kept_wf [OF this assms(2) create_transaction_wf [OF assms(1)]] assms(2) M f(3) show ?thesis
    by (simp add: provenance_wf_def sources_of_def)
qed

lemma correct_transaction_kept:
  assumes "correct_transaction u i c now ids db = Inr (db', v)" "provenance_wf db"
  shows "provenance_wf db' \<and> sources_of db' = sources_of db"
proof -
  from assms(1) have vis: "category_is_visible u c db" and run: "repo_correct u i c now ids db = Inr (db', Some v)"
    by (simp_all add: correct_transaction_Inr)
  from repo_correct_Some [OF run] obtain ms cs where
    db': "db' = db\<lparr>transactions := modify_rows (\<lambda>r. tx_id r = i) (corrected_transaction c) (transactions db),
      merchant_maps := ms, corrections := cs\<rparr>" by blast
  have "\<exists>t' \<in> set (transactions db'). tx_id t' = tx_id t \<and> tx_user t' = tx_user t \<and> (\<forall>n. same_value n t \<longrightarrow> same_value n t')"
    if "t \<in> set (transactions db)" for t
    using that same_value_corrected [of _ c t]
    by (intro bexI [of _ "if tx_id t = i then corrected_transaction c t else t"])
      (auto simp: db' set_modify_rows corrected_transaction_def)
  then have "ledger_kept db db'" by (simp add: ledger_kept_def db')
  moreover have "categorization_wf db'" using repo_correct_wf [OF run vis] assms(2) by (simp add: provenance_wf_def)
  ultimately show ?thesis using ledger_kept_wf assms(2) by (auto simp: db' sources_of_def)
qed

section \<open>The step relation\<close>

inductive provenance_step :: "'a reconciliation_db_scheme \<Rightarrow> 'a reconciliation_db_scheme \<Rightarrow> bool" where
  connected: "ensure_active_connection u d k i db = Inr (db', cv) \<Longrightarrow> provenance_step db db'"
| received: "receive_raw_event codec u c e i db = Inr (db', s) \<Longrightarrow> provenance_step db db'"
| failed: "mark_failed u s code db = Inr (db', r) \<Longrightarrow> provenance_step db db'"
| processed: "process_normalized pol u src e s ev env db = Inr (db', r) \<Longrightarrow> provenance_step db db'"
| synced: "update_connection_cursor u c cursor now db = Inr db' \<Longrightarrow> provenance_step db db'"
| merged: "merge_case u i henv db = Inr (db', v) \<Longrightarrow> provenance_step db db'"
| kept_separate: "keep_separate u i henv db = Inr (db', v) \<Longrightarrow> provenance_step db db'"
| unmerged: "unmerge u i henv db = Inr (db', v) \<Longrightarrow> provenance_step db db'"
| booked: "create_transaction u tc ids db = Inr (db', tv) \<Longrightarrow> provenance_step db db'"
| recategorized: "correct_transaction u i c now ids db = Inr (db', cv) \<Longrightarrow> provenance_step db db'"

lemma with_view_Inr: "bindE x (with_view u i) = Inr (db', v) \<Longrightarrow> x = Inr db'"
  by (auto simp: with_view_def result_simps)

lemma provenance_step_keeps: "provenance_step db db' \<Longrightarrow> provenance_wf db \<Longrightarrow> provenance_wf db' \<and> moves db db'"
proof (induction rule: provenance_step.induct)
  case (received codec u c e i db db' s)
  then obtain k h pl where "store_raw_event u c e k h pl i db = Inr (db', s)" using receive_Inr by blast
  with received(2) show ?case by (blast intro: store_raw_event_wf store_raw_event_moves)
qed (auto simp: merge_case_def keep_separate_def unmerge_def dest!: with_view_Inr intro: moves_same
  dest: ensure_active_connection_wf update_cursor_wf update_cursor_moves mark_failed_wf process_normalized_wf apply_merge_wf apply_keep_separate_wf
    apply_unmerge_wf create_transaction_kept correct_transaction_kept)

lemma raw_lifecycle: "lifecycle provenance_wf provenance_step status_of_raw raw_edges"
  using provenance_step_keeps by unfold_locales (auto simp: moves_def advances_def)

interpretation raw_life: lifecycle provenance_wf provenance_step status_of_raw raw_edges
  by (rule raw_lifecycle)

end
