(* ===== verification/Deliveries.thy ===== *)
theory Deliveries
  imports Provenance_Steps
begin

text \<open>
  Whole deliveries and connector pages as sequences of committed steps, and what a second delivery of
  an envelope finds: the connection, the raw event and its processing row of the first one.
\<close>

section \<open>Sequences of steps\<close>

lemma reaches_trans: "reaches step db db1 \<Longrightarrow> reaches step db1 db2 \<Longrightarrow> reaches step db db2"
  by (rotate_tac, induction rule: reaches.induct) (auto intro: reaches.more)

lemma atomically_reaches:
  assumes "\<And>db' v. body db = Inr (db', v) \<Longrightarrow> step db db'"
  shows "reaches step db (fst (atomically body db))"
proof (cases "body db")
  case (Inr y)
  with assms show ?thesis by (cases y) (auto simp: atomically_def intro: reaches_step)
qed (simp add: atomically_def reaches.none)

lemma and_then_reaches:
  assumes "reaches step db (fst m)" "\<And>x. snd m = Inr x \<Longrightarrow> reaches step (fst m) (fst (f x (fst m)))"
  shows "reaches step db (fst (and_then m f))"
  using assms by (cases m; cases "snd m") (auto simp: and_then_def intro: reaches_trans)

lemma and_then_Inr: "and_then m f = (db', Inr y) \<longleftrightarrow> (\<exists>x. snd m = Inr x \<and> f x (fst m) = (db', Inr y))"
  by (cases m; cases "snd m") (auto simp: and_then_def)

lemma atomically_Inr_iff: "atomically body db = (db', Inr v) \<longleftrightarrow> body db = Inr (db', v)"
  by (auto simp: atomically_def split: sum.splits)

lemma ingest_for_connection_reaches:
  "reaches provenance_step db (fst (ingest_for_connection pol codec u c cn e env db))"
  unfolding ingest_for_connection_def
  by (intro and_then_reaches atomically_reaches)
    (auto intro: provenance_step.intros atomically_reaches reaches.none split: sum.split option.split error.split)

lemma ingest_envelope_reaches: "reaches provenance_step db (fst (ingest_envelope pol codec u cn e key i env db))"
  unfolding ingest_envelope_def
  by (intro and_then_reaches atomically_reaches ingest_for_connection_reaches) (rule provenance_step.connected)

lemma ingest_all_reaches: "reaches provenance_step db (fst (ingest_all pol codec u c cn es db))"
proof (induction es arbitrary: db)
  case (Cons x es)
  obtain e env where x: "x = (e, env)" by (cases x)
  show ?case
    unfolding x ingest_all.simps by (intro and_then_reaches ingest_for_connection_reaches Cons) (simp add: reaches.none)
qed (simp add: reaches.none)

lemma cursor_reaches:
  "reaches provenance_step db (fst (atomically (\<lambda>db. bindE (update_connection_cursor u c cur now db) (\<lambda>db'. Inr (db', ()))) db))"
  by (rule atomically_reaches) (auto simp: result_simps intro: provenance_step.synced)

lemma sync_connector_reaches:
  "reaches provenance_step db (fst (sync_connector pol codec u cn key i envs now db))"
  unfolding sync_connector_def
proof (intro and_then_reaches atomically_reaches)
  show "provenance_step db db'" if "ensure_active_connection u (cn_descriptor cn) key i db = Inr (db', v)" for db' v
    using that by (rule provenance_step.connected)
  let ?m = "atomically (ensure_active_connection u (cn_descriptor cn) key i) db"
  show "reaches provenance_step (fst ?m) (fst (if fst (cn_health cn) \<noteq> HEALTHY
       then (fst ?m, Inl (ConnectorUnavailableError (case snd (cn_health cn) of
              Some code \<Rightarrow> if code = [] then ''CONNECTOR_UNAVAILABLE'' else code | None \<Rightarrow> ''CONNECTOR_UNAVAILABLE'')))
       else case cn_fetch cn (cnv_cursor x) of
              Inl err \<Rightarrow> (fst ?m, Inl err)
            | Inr (events, next_cursor) \<Rightarrow>
                and_then (ingest_all pol codec u x cn (zip events (map envs [0..<length events])) (fst ?m)) (\<lambda>rs db2.
                and_then (atomically (\<lambda>db. bindE (update_connection_cursor u (cnv_id x) next_cursor now db)
                                             (\<lambda>db'. Inr (db', ()))) db2) (\<lambda>_ db3.
                  (db3, Inr (cnv_id x, rs))))))" for x
    by (auto split: sum.split intro!: and_then_reaches ingest_all_reaches cursor_reaches reaches.none)
qed

section \<open>What a delivery leaves\<close>

text \<open>The connection that a key names is found again.\<close>

lemma get_connection_Inr:
  assumes "get_connection u c db = Inr v"
  shows "\<exists>r \<in> set (connections db). scn_id r = c \<and> scn_user r = u \<and> cnv_id v = c \<and> cnv_status v = scn_status r"
  using assms by (auto simp: get_connection_def result_simps dest!: select_one_SomeD)

lemma get_connection_of:
  assumes "source_wf db" "r \<in> set (connections db)"
  shows "\<exists>v. get_connection (scn_user r) (scn_id r) db = Inr v \<and> cnv_id v = scn_id r \<and> cnv_status v = scn_status r"
proof -
  have "select_one (\<lambda>x. scn_id x = scn_id r \<and> scn_user x = scn_user r) (connections db) = Some r"
    using assms by (intro select_one_unique [where key = scn_id]) (auto simp: source_wf_def)
  then show ?thesis by (simp add: get_connection_def)
qed

lemma ensure_connection_at:
  assumes "ensure_connection u d k i db = Inr (db', v)" "source_wf db"
  shows "connection_at u (fst d) k db' = Some (cnv_id v, cnv_status v)"
proof (cases "select_one (\<lambda>r. scn_user r = u \<and> scn_type r = fst d \<and> scn_key r = k) (connections db)")
  case None
  let ?r = "\<lparr>scn_id = i, scn_user = u, scn_type = fst d, scn_key = k, scn_display = snd d, scn_status = CONN_ACTIVE,
    scn_cursor = [], scn_synced_at = None, scn_error = None\<rparr>"
  from assms(1) None have new: "i \<notin> scn_id ` set (connections db)" and db': "db' = db\<lparr>connections := connections db @ [?r]\<rparr>"
    and v: "get_connection u i db' = Inr v"
    by (auto simp: ensure_connection_def Let_def result_simps table_simps)
  from get_connection_Inr [OF v] new have "cnv_id v = i" "cnv_status v = CONN_ACTIVE" by (auto simp: db')
  with None show ?thesis by (simp add: connection_at_def db' select_one_append)
next
  case (Some r)
  with assms(1) have "get_connection u (scn_id r) db = Inr v" "db' = db" by (auto simp: ensure_connection_def result_simps)
  with Some select_one_SomeD [OF Some] get_connection_of [OF assms(2), of r] show ?thesis by (auto simp: connection_at_def)
qed

lemma ensure_active_connection_at:
  assumes "ensure_active_connection u d key i db = Inr (db', v)" "source_wf db"
  shows "connection_at u (fst d) (normalize_display_text key) db' = Some (cnv_id v, CONN_ACTIVE)"
    "normalize_display_text key \<noteq> [] \<and> length (normalize_display_text key) \<le> 128 \<and> get_user u db' \<noteq> None"
proof -
  from assms(1) have e: "ensure_connection u d (normalize_display_text key) i db = Inr (db', v)" and a: "cnv_status v = CONN_ACTIVE"
    and k: "normalize_display_text key \<noteq> [] \<and> length (normalize_display_text key) \<le> 128" and g: "get_user u db \<noteq> None"
    by (auto simp: ensure_active_connection_def Let_def result_simps)
  show "connection_at u (fst d) (normalize_display_text key) db' = Some (cnv_id v, CONN_ACTIVE)"
    using ensure_connection_at [OF e assms(2)] a by simp
  have "users db' = users db" using ensure_connection_Inr [OF e] by auto
  with g k show "normalize_display_text key \<noteq> [] \<and> length (normalize_display_text key) \<le> 128 \<and> get_user u db' \<noteq> None"
    by (simp add: get_user_def)
qed

lemma active_connection_again:
  assumes "connection_at u (fst d) (normalize_display_text key) db = Some (c, CONN_ACTIVE)" "source_wf db"
    "normalize_display_text key \<noteq> []" "length (normalize_display_text key) \<le> 128" "get_user u db \<noteq> None"
  shows "\<exists>v. ensure_active_connection u d key i db = Inr (db, v) \<and> cnv_id v = c"
proof -
  from assms(1) obtain r where r: "select_one (\<lambda>r. scn_user r = u \<and> scn_type r = fst d \<and> scn_key r = normalize_display_text key)
      (connections db) = Some r" "scn_id r = c" "scn_status r = CONN_ACTIVE"
    by (auto simp: connection_at_def)
  from select_one_SomeD [OF r(1)] get_connection_of [OF assms(2), of r] obtain v where
    "get_connection u (scn_id r) db = Inr v" "cnv_id v = c" "cnv_status v = CONN_ACTIVE" using r(2,3) by auto
  with r(1) assms(3-5) show ?thesis by (auto simp: ensure_active_connection_def ensure_connection_def Let_def)
qed

text \<open>A stored delivery: its raw event, found under the identity and the content of the envelope.\<close>

definition delivered :: "envelope_codec \<Rightarrow> uuid \<Rightarrow> uuid \<Rightarrow> envelope \<Rightarrow> uuid \<Rightarrow> 'a ingestion_db_scheme \<Rightarrow> bool" where
  "delivered codec u c e i db \<longleftrightarrow>
     (\<exists>x \<in> set (raw_events db). raw_id x = i \<and> raw_user x = u \<and> raw_connection x = c \<and>
        content_sha256 codec e = Inr (raw_hash x) \<and> raw_identity x = event_identity_key e (raw_hash x))"

lemma raw_by_id:
  "source_wf db \<Longrightarrow> x \<in> set (raw_events db) \<Longrightarrow>
    select_one (\<lambda>r. raw_id r = raw_id x \<and> raw_user r = raw_user x) (raw_events db) = Some x"
  by (rule select_one_unique [where key = raw_id]) (auto simp: source_wf_def)

lemma raw_by_identity:
  "source_wf db \<Longrightarrow> x \<in> set (raw_events db) \<Longrightarrow>
    select_one (\<lambda>r. raw_user r = raw_user x \<and> raw_connection r = raw_connection x \<and> raw_identity r = raw_identity x)
      (raw_events db) = Some x"
  by (rule select_one_unique [where key = "\<lambda>r. (raw_connection r, raw_identity r)"]) (auto simp: source_wf_def)

lemma receive_delivers:
  assumes run: "receive_raw_event codec u c e i db = Inr (db', s)" and wf: "source_wf db'"
  shows "delivered codec u c e (sre_id s) db'"
proof -
  from run obtain h pl where h: "content_sha256 codec e = Inr h" and
    st: "store_raw_event u c e (event_identity_key e h) h pl i db = Inr (db', s)"
    by (auto simp: receive_raw_event_def result_simps)
  let ?k = "event_identity_key e h" and ?r = "raw_of_envelope u c e (event_identity_key e h) h pl i"
  from st obtain db1 ins j x where ins: "insert_raw ?r db = Inr (db1, ins)"
      and sel: "(case ins of Some i \<Rightarrow> Some i | None \<Rightarrow> map_option raw_id (select_one (\<lambda>r. raw_user r = u \<and>
        raw_connection r = c \<and> raw_identity r = ?k) (raw_events db1))) = Some j"
      and x: "select_one (\<lambda>r. raw_id r = j \<and> raw_user r = u) (raw_events db1) = Some x" "raw_hash x = h"
      and db': "db' = insert_processing u j db1" and s: "s = \<lparr>sre_id = j, sre_created = (ins \<noteq> None), sre_hash = h\<rparr>"
    by (auto simp: store_raw_event_def result_simps)
  have raws: "raw_events db1 = raw_events db'" by (simp add: db' insert_processing_def)
  obtain y where y: "y \<in> set (raw_events db')" "raw_id y = j" "raw_user y = u" "raw_connection y = c" "raw_identity y = ?k"
  proof (cases ins)
    case None
    with sel obtain y where "select_one (\<lambda>r. raw_user r = u \<and> raw_connection r = c \<and> raw_identity r = ?k) (raw_events db1) = Some y"
      "raw_id y = j" by auto
    with select_one_SomeD [OF this(1)] that raws show ?thesis by auto
  next
    case (Some i')
    with insert_raw_Inr [OF ins] have "?r \<in> set (raw_events db1)" "raw_id ?r = j" using sel by auto
    with that raws show ?thesis by (auto simp: raw_of_envelope_def)
  qed
  with select_one_SomeD [OF x(1)] wf raws have "y = x" by (auto simp: source_wf_def distinct_map dest: inj_onD)
  with y x(2) h show ?thesis by (auto simp: delivered_def s)
qed

lemma delivered_mono: "delivered codec u c e i db \<Longrightarrow> set (raw_events db) \<subseteq> set (raw_events db') \<Longrightarrow> delivered codec u c e i db'"
  by (auto simp: delivered_def)

lemma processing_of_raw:
  assumes "source_wf db" "x \<in> set (raw_events db)"
  shows "\<exists>p \<in> set (processing db). prc_raw p = raw_id x \<and> prc_user p = raw_user x \<and>
    get_processing (raw_user x) (raw_id x) db = Inr p \<and> status_of_raw db (raw_id x) = Some (prc_state p)"
proof -
  from assms obtain p where p: "p \<in> set (processing db)" "prc_raw p = raw_id x" by (force simp: source_wf_def list_all_iff)
  with assms(1) obtain y where "y \<in> set (raw_events db)" "raw_id y = raw_id x" "raw_user y = prc_user p"
    by (auto simp: source_wf_def list_all_iff fk_raw_def)
  with assms have "prc_user p = raw_user x" by (auto simp: source_wf_def distinct_map dest: inj_onD)
  moreover have "select_one (\<lambda>q. prc_raw q = raw_id x) (processing db) = Some p"
    using assms(1) p by (intro select_one_unique [where key = prc_raw]) (auto simp: source_wf_def)
  moreover have "select_one (\<lambda>q. prc_raw q = raw_id x \<and> prc_user q = prc_user p) (processing db) = Some p"
    using assms(1) p by (intro select_one_unique [where key = prc_raw]) (auto simp: source_wf_def)
  ultimately show ?thesis using p by (auto simp: get_processing_def status_of_raw_def intro!: bexI [of _ p])
qed

text \<open>Receiving the envelope again changes nothing.\<close>

lemma receive_again:
  assumes "delivered codec u c e i db" "source_wf db" "canonical_envelope codec e = Inr ser" "map_of ser ''payload'' = Some (JObj pl)"
  shows "\<exists>h. receive_raw_event codec u c e j db = Inr (db, \<lparr>sre_id = i, sre_created = False, sre_hash = h\<rparr>)"
proof -
  from assms(1) obtain x where x: "x \<in> set (raw_events db)" "raw_id x = i" "raw_user x = u" "raw_connection x = c"
      "content_sha256 codec e = Inr (raw_hash x)" "raw_identity x = event_identity_key e (raw_hash x)"
    by (auto simp: delivered_def)
  let ?r = "raw_of_envelope u c e (raw_identity x) (raw_hash x) pl j"
  have "insert_raw ?r db = Inr (db, None)"
    using x by (auto simp: insert_raw_def list_ex_iff raw_of_envelope_def)
  moreover have "insert_processing u i db = db"
    using processing_of_raw [OF assms(2) x(1)] x(2) by (auto simp: insert_processing_def list_ex_iff)
  ultimately have "store_raw_event u c e (raw_identity x) (raw_hash x) pl j db =
      Inr (db, \<lparr>sre_id = i, sre_created = False, sre_hash = raw_hash x\<rparr>)"
    using raw_by_id [OF assms(2) x(1)] raw_by_identity [OF assms(2) x(1)] x(2-4) by (simp add: store_raw_event_def)
  then show ?thesis using x(5,6) assms(3,4) by (auto simp: receive_raw_event_def)
qed

section \<open>The outcome of a delivery\<close>

lemma status_after_put:
  assumes "p \<in> set (processing db)" "prc_raw p' = prc_raw p"
  shows "status_of_raw (put_processing p' db) (prc_raw p) = Some (prc_state p')"
proof -
  have "select_one (\<lambda>q. prc_raw q = prc_raw p) (processing db) \<noteq> None" using assms(1) unfolding select_one_ex by blast
  then obtain z where z: "select_one (\<lambda>q. prc_raw q = prc_raw p) (processing db) = Some z" by blast
  have "select_one (\<lambda>q. prc_raw q = prc_raw p) (processing (put_processing p' db)) = Some p'"
    using assms(2) z select_one_SomeD [OF z]
      select_one_modify_rows [of "\<lambda>r. prc_raw r = prc_raw p'" "\<lambda>q. prc_raw q = prc_raw p" "\<lambda>_. p'" "processing db"]
    by (simp add: put_processing_def)
  then show ?thesis by (simp add: status_of_raw_def)
qed

lemma status_of_processing:
  assumes "get_processing u i db = Inr p" "source_wf db"
  shows "status_of_raw db i = Some (prc_state p)"
proof -
  note G = get_processing_Inr [OF assms(1)]
  have "select_one (\<lambda>q. prc_raw q = i) (processing db) = Some p"
    using assms(2) G by (intro select_one_unique [where key = prc_raw]) (auto simp: source_wf_def)
  then show ?thesis by (simp add: status_of_raw_def)
qed

text \<open>The state that a delivery reports is the stored one.\<close>

definition reported :: "'a ingestion_db_scheme \<Rightarrow> uuid \<Rightarrow> ingestion_result \<Rightarrow> bool" where
  "reported db i r \<longleftrightarrow> ir_raw r = i \<and> status_of_raw db i = Some (ir_state r)"

lemma replay_reported:
  "get_processing u (sre_id s) db = Inr p \<Longrightarrow> source_wf db \<Longrightarrow> reported db (sre_id s) (replay_of u s p db)"
  using status_of_processing by (simp add: reported_def replay_of_def)

lemma mark_failed_reported:
  assumes "mark_failed u s code db = Inr (db', r)" "source_wf db"
  shows "reported db' (sre_id s) r"
proof -
  from assms(1) obtain p where p: "get_processing u (sre_id s) db = Inr p" by (auto simp: mark_failed_def result_simps)
  note G = get_processing_Inr [OF p]
  show ?thesis
  proof (cases "terminal (prc_state p)")
    case True
    with assms(1) p replay_reported [OF p assms(2)] show ?thesis by (auto simp: mark_failed_def)
  next
    case False
    with assms(1) p have db': "db' = put_processing (p\<lparr>prc_state := FAILED, prc_attempts := prc_attempts p + 1, prc_error := Some code\<rparr>) db"
      and r: "ir_raw r = sre_id s" "ir_state r = FAILED" by (auto simp: mark_failed_def result_simps)
    show ?thesis using status_after_put [OF G(1)] G(2) r by (simp add: reported_def db')
  qed
qed

lemma process_normalized_reported:
  assumes run: "process_normalized pol u src e s ev env db = Inr (db', r)" and wf: "provenance_wf db"
  shows "reported db' (sre_id s) r"
proof -
  from run obtain p where p: "get_processing u (sre_id s) db = Inr p" by (auto simp: process_normalized_def result_simps)
  note G = get_processing_Inr [OF p]
  show ?thesis
  proof (cases "terminal (prc_state p)")
    case True
    with run p replay_reported [OF p processing_facts(2) [OF wf]] show ?thesis by (auto simp: process_normalized_def)
  next
    case False
    from process_normalized_Inr [OF run False p wf] obtain p2 where db': "db' = put_processing p2 (db'\<lparr>processing := processing db\<rparr>)"
      and p2: "prc_raw p2 = prc_raw p" "ir_state r = prc_state p2" "ir_raw r = sre_id s" by blast
    have "status_of_raw (put_processing p2 (db'\<lparr>processing := processing db\<rparr>)) (prc_raw p) = Some (prc_state p2)"
      using G(1) p2(1) by (intro status_after_put) simp_all
    with db' p2 G(2) show ?thesis by (simp add: reported_def)
  qed
qed

lemma provenance_reaches:
  assumes "reaches provenance_step db db'" "provenance_wf db"
  shows "provenance_wf db' \<and> moves db db'"
  using assms
proof (induction rule: reaches.induct)
  case (more db db1 db2)
  then show ?case using provenance_step_keeps moves_trans by blast
qed (simp add: moves_same)

lemma atomically_snd: "snd (atomically body db) = Inr v \<longleftrightarrow> body db = Inr (fst (atomically body db), v)"
  by (auto simp: atomically_def split: sum.splits prod.splits)

lemma payload_object: "(case x of Some (JObj p) \<Rightarrow> Inr p | _ \<Rightarrow> Inl err) = Inr q \<Longrightarrow> x = Some (JObj q)"
  by (simp split: option.splits json.splits)

lemma received_payload:
  assumes "receive_raw_event codec u c e i db = Inr (db', s)"
  shows "\<exists>ser pl. canonical_envelope codec e = Inr ser \<and> map_of ser ''payload'' = Some (JObj pl)"
proof -
  from assms obtain ser pl where "canonical_envelope codec e = Inr ser"
    "(case map_of ser ''payload'' of Some (JObj payload) \<Rightarrow> Inr payload
            | _ \<Rightarrow> Inl (ConnectorContentError ''INVALID_SOURCE_PAYLOAD'')) = Inr pl"
    by (force simp: receive_raw_event_def result_simps)
  then show ?thesis using payload_object by fast
qed

text \<open>A delivery that returns has stored its raw event and reports its state.\<close>

lemma delivery_stores:
  assumes run: "ingest_for_connection pol codec u c cn e env db = (db', Inr r)" and wf: "provenance_wf db"
  shows "\<exists>i. delivered codec u (cnv_id c) e i db' \<and> reported db' i r \<and>
    (\<exists>ser pl. canonical_envelope codec e = Inr ser \<and> map_of ser ''payload'' = Some (JObj pl))"
proof -
  from run obtain db1 s where rc: "receive_raw_event codec u (cnv_id c) e (ie_raw env) db = Inr (db1, s)" and
    k: "(case terminal_result u s db1 of
         Inl err \<Rightarrow> (db1, Inl err)
       | Inr (Some r) \<Rightarrow> (db1, Inr r)
       | Inr None \<Rightarrow>
           (case cn_normalize cn e of
              Inl (ConnectorContentError code) \<Rightarrow> atomically (mark_failed u s code) db1
            | Inl err \<Rightarrow> (db1, Inl err)
            | Inr event \<Rightarrow> atomically (process_normalized pol u (cnv_type c) e s event env) db1)) = (db', Inr r)"
    by (auto simp: ingest_for_connection_def and_then_Inr atomically_snd)
  have st: "provenance_step db db1" using rc by (rule provenance_step.received)
  have wf1: "provenance_wf db1" using provenance_step_keeps [OF st wf] by simp
  note sw1 = processing_facts(2) [OF wf1]
  have pl: "\<exists>ser pl. canonical_envelope codec e = Inr ser \<and> map_of ser ''payload'' = Some (JObj pl)"
    by (rule received_payload [OF rc])
  have d1: "delivered codec u (cnv_id c) e (sre_id s) db1" by (rule receive_delivers [OF rc sw1])
  consider (replay) p where "get_processing u (sre_id s) db1 = Inr p" "db' = db1" "r = replay_of u s p db1"
    | (failed) code where "mark_failed u s code db1 = Inr (db', r)"
    | (processed) event where "process_normalized pol u (cnv_type c) e s event env db1 = Inr (db', r)"
  proof (cases "terminal_result u s db1")
    case (Inr x)
    show thesis
    proof (cases x)
      case None
      show thesis
      proof (cases "cn_normalize cn e")
        case (Inl err)
        with k Inr None show thesis using failed by (cases err) (simp_all add: atomically_Inr_iff)
      qed (use k Inr None processed in \<open>simp add: atomically_Inr_iff\<close>)
    next
      case (Some r')
      with Inr obtain p where p: "get_processing u (sre_id s) db1 = Inr p" "r' = replay_of u s p db1"
        by (auto simp: terminal_result_def result_simps split: if_splits)
      moreover from k Inr Some have "db' = db1" "r = r'" by simp_all
      ultimately show thesis by (intro replay) simp_all
    qed
  qed (use k in simp)
  then have "reported db' (sre_id s) r \<and> moves db1 db'"
  proof cases
    case replay
    with replay_reported [OF replay(1) sw1] show ?thesis by (simp add: moves_same)
  next
    case failed
    with mark_failed_reported [OF failed sw1] mark_failed_wf [OF failed wf1] show ?thesis by simp
  next
    case processed
    with process_normalized_reported [OF processed wf1] process_normalized_wf [OF processed wf1] show ?thesis by simp
  qed
  moreover from this have "delivered codec u (cnv_id c) e (sre_id s) db'"
    by (intro delivered_mono [OF d1]) (simp add: moves_def sources_kept_def)
  ultimately show ?thesis using pl by blast
qed

lemma terminal_path: "path raw_edges s s' \<Longrightarrow> terminal s \<Longrightarrow> terminal s' \<and> (s = PROCESSED \<longrightarrow> s' = PROCESSED)"
proof (induction rule: path.induct)
  case (move s t t')
  then show ?case by (cases t) (auto simp: terminal_def)
qed simp

text \<open>Delivering a settled envelope again.\<close>

lemma replayed_delivery:
  assumes d: "delivered codec u c e i db" and wf: "provenance_wf db" and s: "status_of_raw db i = Some s" "terminal s"
    and at: "connection_at u (fst (cn_descriptor cn)) (normalize_display_text key) db = Some (c, CONN_ACTIVE)"
    and ok: "normalize_display_text key \<noteq> []" "length (normalize_display_text key) \<le> 128" "get_user u db \<noteq> None"
    and pl: "canonical_envelope codec e = Inr ser" "map_of ser ''payload'' = Some (JObj pl)"
  shows "\<exists>r. ingest_envelope pol codec u cn e key j env db = (db, Inr r) \<and> ir_raw r = i \<and> ir_state r = s \<and> ir_replayed r \<and>
    ir_transaction r = map_option evd_transaction (evidence_for_raw_event u i db)"
proof -
  note sw = processing_facts(2) [OF wf]
  from active_connection_again [OF at sw ok] obtain v where
    v: "ensure_active_connection u (cn_descriptor cn) key j db = Inr (db, v)" "cnv_id v = c" by blast
  from receive_again [OF d sw pl, of "ie_raw env"] obtain h where
    r: "receive_raw_event codec u c e (ie_raw env) db = Inr (db, \<lparr>sre_id = i, sre_created = False, sre_hash = h\<rparr>)" by blast
  from d obtain x where x: "x \<in> set (raw_events db)" "raw_id x = i" "raw_user x = u" by (auto simp: delivered_def)
  from processing_of_raw [OF sw x(1)] x obtain p where p: "get_processing u i db = Inr p" "status_of_raw db i = Some (prc_state p)"
    by auto
  with s have "prc_state p = s" "terminal (prc_state p)" by simp_all
  with p v r show ?thesis
    by (simp add: ingest_envelope_def ingest_for_connection_def and_then_def atomically_def terminal_result_def replay_of_def)
qed

lemma redelivery_after:
  assumes wf: "provenance_wf db"
    and run: "ingest_envelope pol codec u cn e key i env db = (db1, Inr r)" and settled: "terminal (ir_state r)"
    and later: "moves db1 db2" "provenance_wf db2" and same: "fst (cn_descriptor cn') = fst (cn_descriptor cn)"
  shows "\<exists>r'. ingest_envelope pol' codec u cn' e key i' env' db2 = (db2, Inr r') \<and> ir_raw r' = ir_raw r \<and> ir_replayed r' \<and>
    terminal (ir_state r') \<and> (ir_state r = PROCESSED \<longrightarrow> ir_state r' = PROCESSED) \<and>
    ir_transaction r' = map_option evd_transaction (evidence_for_raw_event u (ir_raw r) db2)"
proof -
  from run obtain db0 c where c: "ensure_active_connection u (cn_descriptor cn) key i db = Inr (db0, c)"
    and d: "ingest_for_connection pol codec u c cn e env db0 = (db1, Inr r)"
    by (auto simp: ingest_envelope_def and_then_Inr atomically_snd)
  from ensure_active_connection_wf [OF c wf] have wf0: "provenance_wf db0" by simp
  note at = ensure_active_connection_at [OF c processing_facts(2) [OF wf]]
  have "reaches provenance_step db0 db1" using ingest_for_connection_reaches [of db0 pol codec u c cn e env] d by simp
  from provenance_reaches [OF this wf0] have m01: "moves db0 db1" by simp
  from m01 later(1) have m02: "moves db0 db2" by (rule moves_trans)
  from delivery_stores [OF d wf0] obtain j ser pl where j: "delivered codec u (cnv_id c) e j db1" "reported db1 j r"
    and pl: "canonical_envelope codec e = Inr ser" "map_of ser ''payload'' = Some (JObj pl)" by blast
  from j(2) later(1) obtain s where s: "status_of_raw db2 j = Some s" "path raw_edges (ir_state r) s"
    by (auto simp: reported_def moves_def advances_def)
  have d2: "delivered codec u (cnv_id c) e j db2"
    by (rule delivered_mono [OF j(1)]) (use later(1) in \<open>simp add: moves_def sources_kept_def\<close>)
  have "terminal s" "ir_state r = PROCESSED \<longrightarrow> s = PROCESSED" using terminal_path [OF s(2) settled] by simp_all
  moreover have "connection_at u (fst (cn_descriptor cn')) (normalize_display_text key) db2 = Some (cnv_id c, CONN_ACTIVE)"
    "get_user u db2 \<noteq> None" using at m02 same by (simp_all add: moves_def sources_kept_def get_user_def)
  ultimately show ?thesis
    using replayed_delivery [OF d2 later(2) s(1) _ _ _ _ _ pl, where cn = cn' and key = key and pol = pol' and j = i' and env = env'] at(2)
      j(2) by (auto simp: reported_def)
qed

end
