(* ===== verification/Provenance_Properties.thy ===== *)
theory Provenance_Properties
  imports Deliveries
begin

text \<open>
  The properties of ingestion and review: the tables stay consistent whatever steps run, evidence has
  the value of its event, a repeated delivery changes nothing, and the processing states follow their
  table.
\<close>

section \<open>A sample delivery\<close>

text \<open>A note about a card payment, its connector, and tables that hold one ledger transaction.\<close>

definition sample_payload :: json_object where
  "sample_payload = [(''text'', JStr ''Paid 120'')]"

definition sample_envelope :: envelope where
  "sample_envelope =
     \<lparr>env_external_id = Some ''note-1'', env_event_type = ''note'', env_occurred_at = Some 1778500000000000,
      env_payload = sample_payload, env_locator = [], env_excerpt = Some ''Paid 120''\<rparr>"

definition sample_envelope_codec :: envelope_codec where
  "sample_envelope_codec =
     \<lparr>ec_dump = (\<lambda>e. Some [(''payload'', JObj (env_payload e))]), ec_sha256 = (\<lambda>s. replicate 64 (CHR ''a''))\<rparr>"

definition sample_event :: financial_event where
  "sample_event =
     \<lparr>fe_schema = SCHEMA_VERSION, fe_kind = KIND_EXPENSE, fe_amount = Some 1200000, fe_currency = Some ''INR'',
      fe_description = ''Chai'', fe_occurred_at = Some 1778500000000000, fe_merchant = Some ''Blue Tokai'',
      fe_counterparty = None, fe_category_hint = None, fe_tags = [], fe_identifiers = [], fe_confidence = None\<rparr>"

definition sample_connector :: connector where
  "sample_connector =
     \<lparr>cn_descriptor = (MANUAL_NOTE, ''Notes''), cn_health = (HEALTHY, None), cn_fetch = (\<lambda>_. Inr ([], [])),
      cn_normalize = (\<lambda>_. Inr sample_event)\<rparr>"

definition sample_ingest_env :: ingest_env where
  "sample_ingest_env =
     \<lparr>ie_raw = 60, ie_event = 61, ie_handoff =
       \<lparr>he_now = 1778600000000000, he_rank = int, he_merchant = 62, he_transaction = 63, he_evidence = 64,
        he_case = 65, he_action = 66\<rparr>\<rparr>"

definition sample_inbox :: reconciliation_db where
  "sample_inbox =
     \<lparr>users = sample_users, categories = sample_categories, merchants = sample_merchants,
      transactions = [sample_transaction], category_rules = [], merchant_maps = [], corrections = [],
      people = [], receivables = [], payables = [], settlements = [], recurring_payments = [],
      connections = [], raw_events = [], processing = [], normalized_events = [], evidence = [],
      proposals = [], cases = [], actions = []\<rparr>"

lemma sample_inbox_wf: "provenance_wf sample_inbox"
  by (simp add: provenance_wf_def source_wf_def evidence_wf_def cases_wf_def linked_def categorization_wf_def ledger_wf_def
      learned_ok_def sample_inbox_def sample_defs transaction_ok_def transaction_checks_def fk_user_def fk_merchant_def
      category_is_visible_def visible_to_def currency_pattern_def is_upper_letter_def not_blank_def)

abbreviation deliver_sample :: "reconciliation_db \<Rightarrow> reconciliation_db \<times> ingestion_result result" where
  "deliver_sample \<equiv> ingest_envelope default_policy sample_envelope_codec 1 sample_connector sample_envelope ''inbox'' 50 sample_ingest_env"

lemma sample_delivery:
  "\<exists>r. snd (deliver_sample sample_inbox) = Inr r \<and> ir_state r = PROCESSED"
  "evidence (fst (deliver_sample sample_inbox)) \<noteq> []"
  "status_of_raw (fst (deliver_sample sample_inbox)) 60 = Some PROCESSED"
proof -
  have run: "(case deliver_sample sample_inbox of (_, Inl _) \<Rightarrow> False
     | (db, Inr r) \<Rightarrow> ir_state r = PROCESSED \<and> evidence db \<noteq> [] \<and> status_of_raw db 60 = Some PROCESSED)" by code_simp
  then show "\<exists>r. snd (deliver_sample sample_inbox) = Inr r \<and> ir_state r = PROCESSED"
    "evidence (fst (deliver_sample sample_inbox)) \<noteq> []"
    "status_of_raw (fst (deliver_sample sample_inbox)) 60 = Some PROCESSED"
    by (auto simp: case_prod_unfold split: sum.splits)
qed

section \<open>Properties\<close>

text \<open>
  C6: ingestion and review never leave the tables inconsistent. Whatever connector, normalizer, codec and
  policy a page or a delivery runs with, and wherever it fails, the committed tables satisfy
  \<open>provenance_wf\<close> again (ledger, sources with one processing row per raw event, evidence of equal value,
  cases with their audit trail), and so do they after any interleaving of committed steps, including
  the owner's reviews, new transactions and category corrections.
\<close>

theorem pipeline_keeps_provenance:
  assumes "provenance_wf db"
  shows "provenance_wf (fst (sync_connector pol codec u cn key i envs now db)) \<and>
    provenance_wf (fst (ingest_envelope pol codec u cn e key i env db)) \<and>
    (\<forall>db'. reaches provenance_step db db' \<longrightarrow> provenance_wf db')"
  using raw_life.reaches_wf [OF _ assms] sync_connector_reaches ingest_envelope_reaches by blast

lemma pipeline_keeps_provenance_witness:
  "provenance_wf sample_inbox \<and> provenance_wf (fst (deliver_sample sample_inbox))"
  using pipeline_keeps_provenance [OF sample_inbox_wf] sample_inbox_wf by blast

text \<open>
  C5: no transaction is credited with a source of another value. After any steps, every piece of evidence
  links an event of its owner to a posted transaction of the same owner with exactly the event's amount,
  currency and type, also after automatic merges, the owner's merges and moved evidence, and no event
  supports two transactions.
\<close>

theorem evidence_has_the_value_of_its_event:
  assumes "provenance_wf db" "reaches provenance_step db db'"
  shows "distinct (map evd_event (evidence db')) \<and>
    (\<forall>x \<in> set (evidence db'). \<exists>n \<in> set (normalized_events db'). \<exists>t \<in> set (transactions db').
       nev_id n = evd_event x \<and> nev_raw n = evd_raw x \<and> nev_user n = evd_user x \<and> tx_id t = evd_transaction x \<and>
       tx_user t = evd_user x \<and> nev_amount n = Some (tx_amount t) \<and> nev_currency n = Some (tx_currency t) \<and>
       EVENT_TYPES (nev_kind n) = Some (tx_type t) \<and> tx_status t = POSTED)"
proof -
  from raw_life.reaches_wf [OF assms(2,1)] have "evidence_wf db'" by (simp add: provenance_wf_def)
  then show ?thesis by (fastforce simp: evidence_wf_def list_all_iff supported_def same_value_def)
qed

lemma evidence_has_the_value_of_its_event_witness:
  "\<exists>x \<in> set (evidence (fst (deliver_sample sample_inbox))). \<exists>t \<in> set (transactions (fst (deliver_sample sample_inbox))).
     tx_id t = evd_transaction x \<and> tx_user t = evd_user x"
proof -
  obtain x where x: "x \<in> set (evidence (fst (deliver_sample sample_inbox)))"
    using sample_delivery(2) by (cases "evidence (fst (deliver_sample sample_inbox))") auto
  with evidence_has_the_value_of_its_event [OF sample_inbox_wf ingest_envelope_reaches, of default_policy sample_envelope_codec 1
      sample_connector sample_envelope "''inbox''" 50 sample_ingest_env]
  show ?thesis by blast
qed

text \<open>
  C4: deliveries are idempotent. Once a delivery of an envelope has settled (its raw event is processed or
  waits for review), delivering the same envelope again at any later time, after any steps in between,
  with any policy, clock and fresh ids and any connector of the same type, returns normally and changes no
  table; it names the same raw event, says that it is a replay, reports the current state (a processed
  event stays processed) and the transaction that its evidence supports now.
\<close>

theorem redelivery_changes_nothing:
  assumes wf: "provenance_wf db"
    and run: "ingest_envelope pol codec u cn e key i env db = (db1, Inr r)" and settled: "terminal (ir_state r)"
    and steps: "reaches provenance_step db1 db2" and same: "fst (cn_descriptor cn') = fst (cn_descriptor cn)"
  shows "\<exists>r'. ingest_envelope pol' codec u cn' e key i' env' db2 = (db2, Inr r') \<and> ir_raw r' = ir_raw r \<and> ir_replayed r' \<and>
    terminal (ir_state r') \<and> (ir_state r = PROCESSED \<longrightarrow> ir_state r' = PROCESSED) \<and>
    ir_transaction r' = map_option evd_transaction (evidence_for_raw_event u (ir_raw r) db2)"
proof -
  from run have "reaches provenance_step db db1" using ingest_envelope_reaches [of db pol codec u cn e key i env] by simp
  from provenance_reaches [OF this wf] have wf1: "provenance_wf db1" by simp
  from provenance_reaches [OF steps wf1] redelivery_after [OF wf run settled _ _ same] show ?thesis by blast
qed

lemma redelivery_changes_nothing_witness:
  "\<exists>db r'. provenance_wf db \<and> deliver_sample db = (db, Inr r') \<and> ir_replayed r' \<and> ir_state r' = PROCESSED"
proof -
  let ?db = "fst (deliver_sample sample_inbox)"
  obtain r where r: "deliver_sample sample_inbox = (?db, Inr r)" "ir_state r = PROCESSED"
    using sample_delivery(1) by (metis prod.collapse)
  have "terminal (ir_state r)" by (simp add: r(2) terminal_def)
  from redelivery_changes_nothing [OF sample_inbox_wf r(1) this reaches.none refl] r(2) obtain r' where
    "deliver_sample ?db = (?db, Inr r')" "ir_replayed r'" "ir_state r' = PROCESSED" by blast
  moreover have "provenance_wf ?db"
    using raw_life.reaches_wf [OF ingest_envelope_reaches sample_inbox_wf] .
  ultimately show ?thesis by blast
qed

text \<open>
  C7: the processing state of a raw event follows the declared table. Whatever deliveries, failures,
  reviews and ledger commands run, a stored state only moves along \<open>ALLOWED_TRANSITIONS\<close>: a processed
  source is never reopened, one that waits for review leaves that state only by being processed, and only
  an unsettled one can be retried.
\<close>

theorem raw_states_follow_the_table:
  assumes "provenance_wf db" "reaches provenance_step db db'" "status_of_raw db i = Some s"
  shows "\<exists>s'. status_of_raw db' i = Some s' \<and> path raw_edges s s' \<and> (s = PROCESSED \<longrightarrow> s' = PROCESSED) \<and>
    (s = NEEDS_REVIEW \<longrightarrow> s' = NEEDS_REVIEW \<or> s' = PROCESSED)"
proof -
  from raw_life.reaches_path [OF assms(2,1,3)] obtain s' where s': "status_of_raw db' i = Some s'" "path raw_edges s s'" by blast
  with terminal_path [OF s'(2)] show ?thesis by (auto simp: terminal_def)
qed

lemma raw_states_follow_the_table_witness:
  "\<exists>db. status_of_raw db 60 = Some PROCESSED \<and> status_of_raw (fst (deliver_sample db)) 60 = Some PROCESSED"
proof -
  let ?db = "fst (deliver_sample sample_inbox)"
  have "provenance_wf ?db" using raw_life.reaches_wf [OF ingest_envelope_reaches sample_inbox_wf] .
  from raw_states_follow_the_table [OF this ingest_envelope_reaches sample_delivery(3)] sample_delivery(3) show ?thesis by blast
qed

end
