(* ===== verification/Reviews.thy ===== *)
theory Reviews
  imports Deliveries
begin

text \<open>
  The owner's review: every case can be viewed, and a pending one can always be kept as a separate
  transaction.
\<close>

section \<open>Viewing a case\<close>

lemma wf_tables:
  assumes "provenance_wf db"
  shows "source_wf db" "cases_wf db" "evidence_wf db" "categorization_wf db" "learned_ok db"
  using assms by (simp_all add: provenance_wf_def categorization_wf_def)

lemma case_in_table:
  assumes "provenance_wf db" "c \<in> set (cases db)"
  shows "case_checks c db" "lock_case (rcs_user c) (rcs_id c) db = Some c"
    "filter (\<lambda>d. rcs_user d = rcs_user c \<and> rcs_id d = rcs_id c) (cases db) = [c]"
proof -
  have ids: "distinct (map rcs_id (cases db))" and "list_all (\<lambda>c. case_checks c db \<and> audited (actions db) c) (cases db)"
    using wf_tables(2) [OF assms(1)] by (simp_all add: cases_wf_def)
  then show "case_checks c db" using assms(2) by (auto simp: list_all_iff)
  show "lock_case (rcs_user c) (rcs_id c) db = Some c"
    unfolding lock_case_def by (rule select_one_unique [OF ids assms(2)]) simp_all
  have "filter (\<lambda>d. rcs_user d = rcs_user c \<and> rcs_id d = rcs_id c) rows = [c]"
    if "distinct (map rcs_id rows)" "c \<in> set rows" for rows
    using that by (induction rows) (auto simp: filter_empty_conv image_iff)
  then show "filter (\<lambda>d. rcs_user d = rcs_user c \<and> rcs_id d = rcs_id c) (cases db) = [c]" using ids assms(2) .
qed

lemma event_of_case:
  assumes wf: "provenance_wf db" and c: "c \<in> set (cases db)"
  shows "\<exists>n ty. n \<in> set (normalized_events db) \<and> nev_id n = rcs_event c \<and> nev_raw n = rcs_raw c \<and> nev_user n = rcs_user c \<and>
    normalized_for_case (rcs_user c) c db = Inr n \<and> case_source (rcs_user c) c db = Some (n, ty)"
proof -
  note sw = wf_tables(1) [OF wf]
  from case_in_table(1) [OF wf c] obtain n where n: "n \<in> set (normalized_events db)" "nev_id n = rcs_event c"
      "nev_raw n = rcs_raw c" "nev_user n = rcs_user c" by (auto simp: case_checks_def fk_normalized_def)
  have e: "select_one (\<lambda>n. nev_id n = rcs_event c \<and> nev_user n = rcs_user c) (normalized_events db) = Some n"
    "select_one (\<lambda>n. nev_id n = rcs_event c \<and> nev_raw n = rcs_raw c \<and> nev_user n = rcs_user c) (normalized_events db) = Some n"
    using sw n by (intro select_one_unique [where key = nev_id]; auto simp: source_wf_def)+
  from sw n have "fk_raw db (rcs_raw c) (rcs_user c)" by (auto simp: source_wf_def list_all_iff)
  then obtain r where r: "r \<in> set (raw_events db)" "raw_id r = rcs_raw c" "raw_user r = rcs_user c" by (auto simp: fk_raw_def)
  with sw have "fk_connection db (raw_connection r) (rcs_user c)" by (auto simp: source_wf_def list_all_iff)
  then obtain s where s: "s \<in> set (connections db)" "scn_id s = raw_connection r" "scn_user s = rcs_user c"
    by (auto simp: fk_connection_def)
  have "select_one (\<lambda>s. scn_id s = raw_connection r \<and> scn_user s = rcs_user c) (connections db) = Some s"
    using sw s by (intro select_one_unique [where key = scn_id]) (auto simp: source_wf_def)
  with e(1) raw_by_id [OF sw r(1)] r have "case_source (rcs_user c) c db = Some (n, scn_type s)" by (simp add: case_source_def)
  with n e(2) show ?thesis by (auto simp: normalized_for_case_def)
qed

text \<open>The case's own view, for a case whose event is complete.\<close>

lemma case_can_be_viewed:
  assumes wf: "provenance_wf db" and c: "c \<in> set (cases db)" and n: "normalized_for_case (rcs_user c) c db = Inr n"
    and full: "nev_amount n = Some a" "nev_currency n = Some cur" "nev_occurred_at n = Some t"
  shows "\<exists>v. with_view (rcs_user c) (rcs_id c) db = Inr (db, v) \<and> csv_id v = rcs_id c \<and> csv_status v = rcs_status c \<and>
    csv_result v = rcs_result c \<and> csv_actions v = actions_of (rcs_user c) (rcs_id c) db"
proof -
  from event_of_case [OF wf c] n obtain ty where src: "case_source (rcs_user c) c db = Some (n, ty)" by auto
  obtain v where v: "case_view (rcs_user c) c (n, ty) db = Inr v"
    and f: "csv_id v = rcs_id c" "csv_status v = rcs_status c" "csv_result v = rcs_result c"
      "csv_actions v = actions_of (rcs_user c) (rcs_id c) db"
    using full by (simp add: case_view_def Let_def)
  have "list_views (rcs_user c) None (Some (rcs_id c)) 1 db = Inr [v]"
    using case_in_table(3) [OF wf c] src v by (simp add: list_views_def)
  with f show ?thesis by (simp add: with_view_def get_view_def require_view_def)
qed

section \<open>Keeping a case separate\<close>

lemma pending_has_no_evidence:
  assumes "provenance_wf db" "c \<in> set (cases db)" "rcs_status c = CASE_PENDING"
  shows "rcs_event c \<notin> evd_event ` set (evidence db)" "no_evidence_yet u c db = Inr ()"
proof -
  show no: "rcs_event c \<notin> evd_event ` set (evidence db)"
    using wf_tables(2) [OF assms(1)] assms(2,3) by (auto simp: cases_wf_def linked_def backed_def)
  have "evidence_for_case u c db = None"
    unfolding evidence_for_case_def select_one_None using no by (metis image_eqI)
  then show "no_evidence_yet u c db = Inr ()" by (simp add: no_evidence_yet_def)
qed

lemma fk_user_get: "fk_user db u \<Longrightarrow> get_user u db \<noteq> None"
  using select_one_ex [of "\<lambda>r. usr_id r = u" "users db"] by (auto simp: fk_user_def get_user_def)

lemma transaction_command_facts:
  assumes "transaction_command u n db = Inr command" "learned_ok db" "normalized_checks n"
  shows "\<exists>a cur t ty. nev_amount n = Some a \<and> nev_currency n = Some cur \<and> nev_occurred_at n = Some t \<and>
    EVENT_TYPES (nev_kind n) = Some ty \<and> event_command u n a cur t ty db = Inr command \<and> command_ok command \<and>
    (case ct_category_id command of None \<Rightarrow> True | Some c \<Rightarrow> category_is_visible u c db)"
proof -
  from assms(1) obtain a cur t ty where f: "nev_amount n = Some a" "nev_currency n = Some cur" "nev_occurred_at n = Some t"
      "EVENT_TYPES (nev_kind n) = Some ty" "event_command u n a cur t ty db = Inr command"
    by (auto simp: transaction_command_def transaction_type_of_def result_simps split: option.splits)
  with assms(3) have "0 < a" "a < 10 ^ 19" "currency_pattern cur" by (simp_all add: normalized_checks_def)
  from event_command_facts(5,6) [OF f(5) assms(2) this] f show ?thesis by blast
qed

text \<open>Posting for a case: the new transaction has the given id and the event's value.\<close>

lemma case_posts:
  assumes wf: "provenance_wf db" and n: "n \<in> set (normalized_events db)" "nev_user n = u" and user: "fk_user db u"
    and command: "transaction_command u n db = Inr command"
    and fresh: "fst ids \<notin> mer_id ` set (merchants db)" "snd ids \<notin> tx_id ` set (transactions db)"
  shows "\<exists>db1 v t. repo_create_transaction u command ids db = Inr (db1, v) \<and> provenance_wf db1 \<and> posted db db1 t \<and>
    tv_id v = snd ids \<and> tx_id t = snd ids \<and> same_value n t"
proof -
  have "normalized_checks n" using wf_tables(1) [OF wf] n(1) by (auto simp: source_wf_def list_all_iff)
  from transaction_command_facts [OF command wf_tables(5) [OF wf] this]
  have ok: "command_ok command" "case ct_category_id command of None \<Rightarrow> True | Some c \<Rightarrow> category_is_visible u c db" by blast+
  from repo_create_transaction_total [OF wf_tables(4) [OF wf] ok(1) fk_user_get [OF user] ok(2) fresh]
  obtain db1 v where run: "repo_create_transaction u command ids db = Inr (db1, v)" by blast
  from repo_create_posts [OF run wf_tables(4) [OF wf] ok(2)] have "tv_id v = snd ids" by blast
  with transaction_command_posts [OF wf n command run] run show ?thesis by auto
qed

lemma map_modify_key:
  assumes "distinct (map key rows)" "r \<in> set rows" "key r' = key r" "f r' = f r"
  shows "map f (modify_rows (\<lambda>x. key x = key r') (\<lambda>_. r') rows) = map f rows"
  using map_replace_row [OF assms] assms(3) by simp

text \<open>The writes of one resolution all pass their constraints.\<close>

lemma resolution_writes:
  assumes wf: "provenance_wf db" and c: "c \<in> set (cases db)" "rcs_status c = CASE_PENDING"
    and t: "t \<in> set (transactions db)" "tx_user t = rcs_user c" "rcs_candidate c \<noteq> Some (tx_id t)"
    and fresh: "i \<notin> evd_id ` set (evidence db)" "j \<notin> rac_id ` set (actions db)"
  shows "\<exists>db1 db2 db3. add_evidence (rcs_user c) (rcs_raw c) (rcs_event c) (tx_id t) (rcs_locator c) (rcs_excerpt c) i db = Inr db1 \<and>
    update_case (resolve_case c CASE_KEPT_SEPARATE (tx_id t) now) db1 = Inr db2 \<and>
    append_action (rcs_user c) c USER_KEPT_SEPARATE None (Some (tx_id t)) now j db2 = Inr db3 \<and>
    sources_of db3 = sources_of db \<and> proposals db3 = proposals db \<and> transactions db3 = transactions db \<and>
    normalized_events db3 = normalized_events db \<and> resolve_case c CASE_KEPT_SEPARATE (tx_id t) now \<in> set (cases db3)"
proof -
  let ?u = "rcs_user c" and ?c = "resolve_case c CASE_KEPT_SEPARATE (tx_id t) now"
  let ?x = "\<lparr>evd_id = i, evd_user = ?u, evd_raw = rcs_raw c, evd_event = rcs_event c, evd_transaction = tx_id t,
    evd_kind = SOURCE_EVENT, evd_locator = rcs_locator c, evd_excerpt = rcs_excerpt c\<rparr>"
  let ?db1 = "db\<lparr>evidence := evidence db @ [?x]\<rparr>"
  let ?db2 = "?db1\<lparr>cases := modify_rows (\<lambda>r. rcs_id r = rcs_id ?c) (\<lambda>_. ?c) (cases db)\<rparr>"
  let ?a = "entry ?u c USER_KEPT_SEPARATE None (Some (tx_id t)) now j"
  note chk = case_in_table(1) [OF wf c(1)]
  have ids: "distinct (map rcs_id (cases db))" using wf_tables(2) [OF wf] by (simp add: cases_wf_def)
  have led: "fk_ledger db (tx_id t) ?u" using t(1,2) by (force simp: fk_ledger_def)
  have raw: "fk_raw db (rcs_raw c) ?u"
    using chk wf_tables(1) [OF wf] by (auto simp: case_checks_def fk_normalized_def source_wf_def list_all_iff)
  have 1: "add_evidence ?u (rcs_raw c) (rcs_event c) (tx_id t) (rcs_locator c) (rcs_excerpt c) i db = Inr ?db1"
    using chk led raw fresh(1) pending_has_no_evidence(1) [OF wf c] by (simp add: add_evidence_Inr case_checks_def)
  have "rcs_decision c = POSSIBLE_DUPLICATE" using chk c(2) by (simp add: case_checks_def targets_consistent_def)
  then have "case_checks ?c db"
    using chk led t(3) by (simp add: case_checks_def resolve_case_def targets_consistent_def decision_lifecycle_def fk_target_def)
  then have 2: "update_case ?c ?db1 = Inr ?db2"
    using case_checks_frame [of ?db1 db ?c] by (simp add: update_case_Inr)
  have "map (\<lambda>r. (rcs_id r, rcs_user r)) (cases ?db2) = map (\<lambda>r. (rcs_id r, rcs_user r)) (cases db)"
    using map_modify_key [OF ids c(1), of ?c "\<lambda>r. (rcs_id r, rcs_user r)"] by (simp add: resolve_case_def)
  then have "fk_case ?db2 (rcs_id c) ?u" using c(1) unfolding fk_case_def by force
  then have 3: "append_action ?u c USER_KEPT_SEPARATE None (Some (tx_id t)) now j ?db2 = Inr (?db2\<lparr>actions := actions db @ [?a]\<rparr>)"
    using chk led fresh(2) by (simp add: append_action_Inr fk_target_def fk_ledger_def case_checks_def)
  have "set (cases ?db2) = insert ?c (set (cases db) - {c})"
    using set_replace_row [OF ids c(1), of ?c] by (simp add: resolve_case_def)
  then show ?thesis
    by (intro exI [of _ ?db1] exI [of _ ?db2] exI [of _ "?db2\<lparr>actions := actions db @ [?a]\<rparr>"] conjI 1 2 3)
      (simp_all add: sources_of_def)
qed

text \<open>Completing the source of a case, when its proposal (if any) is in review too.\<close>

lemma source_wf_frame:
  "sources_of db' = sources_of db \<Longrightarrow> normalized_events db' = normalized_events db \<Longrightarrow> source_wf db' = source_wf db"
  by (simp add: source_wf_def sources_of_def fk_connection_def fk_raw_def)

lemma source_completes:
  assumes sw: "source_wf db" and s: "status_of_raw db (rcs_raw c) = Some NEEDS_REVIEW" and raw: "fk_raw db (rcs_raw c) u"
    and led: "fk_ledger db t u"
    and q: "\<And>q. proposal_for_raw_event u (rcs_raw c) db = Some q \<Longrightarrow> fp_status q = PROPOSAL_RECONCILIATION_REVIEW \<and> targets q = []"
  shows "\<exists>db'. complete_source u c t db = Inr db' \<and> status_of_raw db' (rcs_raw c) = Some PROCESSED"
proof -
  from raw obtain x where x: "x \<in> set (raw_events db)" "raw_id x = rcs_raw c" "raw_user x = u" by (auto simp: fk_raw_def)
  from processing_of_raw [OF sw x(1)] obtain p where p: "get_processing u (rcs_raw c) db = Inr p"
      "p \<in> set (processing db)" "prc_raw p = rcs_raw c" "status_of_raw db (rcs_raw c) = Some (prc_state p)" using x(2,3) by auto
  with s have st: "prc_state p = NEEDS_REVIEW" by simp
  let ?p = "p\<lparr>prc_state := PROCESSED, prc_error := None\<rparr>"
  let ?db = "put_processing ?p db"
  have fin: "status_of_raw (?db\<lparr>proposals := ps\<rparr>) (rcs_raw c) = Some PROCESSED" for ps
    using status_after_put [OF p(2), of ?p] p(3) by (simp add: status_of_raw_def)
  have same: "proposal_for_raw_event u (rcs_raw c) ?db = proposal_for_raw_event u (rcs_raw c) db" "fk_ledger ?db t u"
    using led by (simp_all add: put_processing_def proposal_for_raw_event_def fk_ledger_def)
  show ?thesis
  proof (cases "proposal_for_raw_event u (rcs_raw c) db")
    case None
    with p st same show ?thesis using status_after_put [OF p(2), of ?p]
      by (simp add: complete_source_def Let_def require_state_transition_def)
  next
    case (Some q)
    let ?q = "q\<lparr>fp_status := PROPOSAL_APPROVED, fp_transaction := Some t\<rparr>"
    have "fp_user q = u" using Some by (auto simp: proposal_for_raw_event_def dest: select_one_SomeD)
    moreover have "proposal_targets_ok ?q" using assms(5) [OF Some] by (simp add: proposal_targets_ok_def targets_def List.map_filter_simps split: option.splits)
    ultimately have "update_proposal ?q ?db = Inr (?db\<lparr>proposals := modify_rows (\<lambda>r. fp_id r = fp_id q) (\<lambda>_. ?q) (proposals ?db)\<rparr>)"
      using same(2) by (simp add: update_proposal_def fk_target_def)
    with p st same Some assms(5) [OF Some] fin show ?thesis
      by (simp add: complete_source_def Let_def require_state_transition_def)
  qed
qed

lemma complete_source_frame:
  assumes "complete_source u c t db = Inr db'"
  shows "cases db' = cases db" "normalized_events db' = normalized_events db" "transactions db' = transactions db"
proof -
  from complete_source_Inr [OF assms] obtain ps qs where "db' = db\<lparr>processing := ps, proposals := qs\<rparr>" by blast
  then show "cases db' = cases db" "normalized_events db' = normalized_events db" "transactions db' = transactions db" by simp_all
qed

section \<open>A sample review\<close>

text \<open>A source repeats the recorded lunch under another description; the hand-off flagged it.\<close>

definition sample_repeat :: normalized_row where
  "sample_repeat =
     \<lparr>nev_id = 61, nev_user = 1, nev_raw = 60, nev_schema = SCHEMA_VERSION, nev_key = ''gmail'', nev_version = ''1'',
      nev_kind = KIND_EXPENSE, nev_amount = Some 2500000, nev_currency = Some ''INR'', nev_description = ''Team lunch'',
      nev_occurred_at = Some 1778500000000000, nev_merchant = None, nev_counterparty = None, nev_category_hint = None,
      nev_tags = [], nev_identifiers = [], nev_confidence = None, nev_created_at = 1778600000000000\<rparr>"

definition sample_case :: case_row where
  "sample_case =
     \<lparr>rcs_id = 65, rcs_user = 1, rcs_event = 61, rcs_raw = 60, rcs_candidate = Some 30, rcs_result = None,
      rcs_decision = POSSIBLE_DUPLICATE, rcs_status = CASE_PENDING, rcs_score = 8483, rcs_version = SCORE_VERSION,
      rcs_reasons = [''SCORE_POSSIBLE_DUPLICATE''], rcs_locator = [], rcs_excerpt = None,
      rcs_created_at = 1778600000000000, rcs_updated_at = 1778600000000000\<rparr>"

definition sample_review :: reconciliation_db where
  "sample_review =
     \<lparr>users = sample_users, categories = sample_categories, merchants = sample_merchants,
      transactions = [sample_transaction], category_rules = [], merchant_maps = [], corrections = [],
      people = [], receivables = [], payables = [], settlements = [], recurring_payments = [],
      connections = [\<lparr>scn_id = 50, scn_user = 1, scn_type = GMAIL, scn_key = ''inbox'', scn_display = ''Gmail'',
        scn_status = CONN_ACTIVE, scn_cursor = [], scn_synced_at = None, scn_error = None\<rparr>],
      raw_events = [\<lparr>raw_id = 60, raw_user = 1, raw_connection = 50, raw_identity = ''external:m-1'', raw_external = Some ''m-1'',
        raw_hash = replicate 64 (CHR ''a''), raw_type = ''email'', raw_occurred_at = None, raw_payload = []\<rparr>],
      processing = [\<lparr>prc_raw = 60, prc_user = 1, prc_state = NEEDS_REVIEW, prc_attempts = 1,
        prc_error = Some ''POSSIBLE_DUPLICATE''\<rparr>],
      normalized_events = [sample_repeat], evidence = [], proposals = [], cases = [sample_case],
      actions = [entry 1 sample_case CANDIDATE_FLAGGED None None 1778600000000000 66]\<rparr>"

definition sample_handoff :: handoff_env where
  "sample_handoff =
     \<lparr>he_now = 1778700000000000, he_rank = int, he_merchant = 72, he_transaction = 73, he_evidence = 74, he_case = 75, he_action = 76\<rparr>"

lemma sample_review_wf: "provenance_wf sample_review"
  by (simp add: provenance_wf_def source_wf_def evidence_wf_def cases_wf_def linked_def backed_def categorization_wf_def
      ledger_wf_def learned_ok_def sample_review_def sample_defs sample_repeat_def sample_case_def entry_def audited_def trail_def
      case_checks_def fk_normalized_def fk_target_def fk_ledger_def fk_raw_def fk_connection_def targets_consistent_def
      decision_lifecycle_def normalized_checks_def SCORE_VERSION_def SCHEMA_VERSION_def
      transaction_ok_def transaction_checks_def fk_user_def fk_merchant_def
      category_is_visible_def visible_to_def currency_pattern_def is_upper_letter_def not_blank_def)

lemma sample_command: "\<exists>command. transaction_command 1 sample_repeat sample_review = Inr command"
proof -
  have "case transaction_command 1 sample_repeat sample_review of Inl _ \<Rightarrow> False | Inr _ \<Rightarrow> True" by code_simp
  then show ?thesis by (simp split: sum.splits)
qed

section \<open>Properties\<close>

text \<open>
  C8: a flagged event is never stuck. Its owner can always keep a pending case separate while its source
  waits for review and its event still gives a ledger command: with unused ids no check, constraint or
  foreign key refuses it. Exactly one transaction is added, with the event's value; the source is
  processed, the case is resolved with that transaction, and the owner gets the case's view back.
\<close>

theorem pending_case_can_be_kept_separate:
  assumes wf: "provenance_wf db" and c: "c \<in> set (cases db)" "rcs_status c = CASE_PENDING"
    and s: "status_of_raw db (rcs_raw c) = Some NEEDS_REVIEW"
    and n: "normalized_for_case (rcs_user c) c db = Inr n" "transaction_command (rcs_user c) n db = Inr command"
    and q: "\<And>q. proposal_for_raw_event (rcs_user c) (rcs_raw c) db = Some q \<Longrightarrow>
      fp_status q = PROPOSAL_RECONCILIATION_REVIEW \<and> targets q = []"
    and fresh: "he_merchant env \<notin> mer_id ` set (merchants db)" "he_transaction env \<notin> tx_id ` set (transactions db)"
      "he_evidence env \<notin> evd_id ` set (evidence db)" "he_action env \<notin> rac_id ` set (actions db)"
  shows "\<exists>db' v t. keep_separate (rcs_user c) (rcs_id c) env db = Inr (db', v) \<and> provenance_wf db' \<and>
    csv_id v = rcs_id c \<and> csv_status v = CASE_KEPT_SEPARATE \<and> csv_result v = Some (he_transaction env) \<and>
    status_of_raw db' (rcs_raw c) = Some PROCESSED \<and>
    transactions db' = transactions db @ [t] \<and> tx_id t = he_transaction env \<and> same_value n t"
proof -
  let ?u = "rcs_user c" and ?c = "resolve_case c CASE_KEPT_SEPARATE (he_transaction env) (he_now env)"
  note chk = case_in_table(1) [OF wf c(1)] and N = normalized_for_case_Inr [OF n(1)]
  from chk have user: "fk_user db ?u" and cand: "fk_target db (rcs_candidate c) ?u" by (simp_all add: case_checks_def)
  from case_posts [OF wf N(1,4) user n(2), of "ledger_ids env"] fresh(1,2) obtain db1 v t where
    p: "repo_create_transaction ?u command (ledger_ids env) db = Inr (db1, v)" "provenance_wf db1" "posted db db1 t"
      "tv_id v = he_transaction env" "tx_id t = he_transaction env" "same_value n t" by auto
  note K = post_event_keeps [OF p(3)]
  have tu: "tx_user t = ?u" using p(6) N(4) by (simp add: same_value_def)
  have "rcs_candidate c \<noteq> Some (tx_id t)" using cand fresh(2) p(5) by (auto simp: fk_target_def fk_ledger_def)
  with resolution_writes [OF p(2) _ c(2) K(1) tu, of "he_evidence env" "he_action env" "he_now env"] c(1) fresh(3,4) K p(5)
  obtain db2 db3 db4 where
    w: "add_evidence ?u (rcs_raw c) (rcs_event c) (tv_id v) (rcs_locator c) (rcs_excerpt c) (he_evidence env) db1 = Inr db2"
      "update_case (resolve_case c CASE_KEPT_SEPARATE (tv_id v) (he_now env)) db2 = Inr db3"
      "append_action ?u c USER_KEPT_SEPARATE None (Some (tv_id v)) (he_now env) (he_action env) db3 = Inr db4"
    and k: "sources_of db4 = sources_of db1" "proposals db4 = proposals db1" "transactions db4 = transactions db1"
      "normalized_events db4 = normalized_events db1" "?c \<in> set (cases db4)"
    unfolding p(4) by auto
  have sw: "source_wf db4" using source_wf_frame [OF k(1,4)] wf_tables(1) [OF p(2)] by simp
  have "status_of_raw db4 (rcs_raw c) = Some NEEDS_REVIEW" using s k(1) K(10) by (simp add: status_of_raw_def sources_of_def)
  moreover have "fk_raw db (rcs_raw c) ?u" using wf_tables(1) [OF wf] N by (auto simp: source_wf_def list_all_iff)
  then have "fk_raw db4 (rcs_raw c) ?u" using k(1) K(10) by (simp add: fk_raw_def sources_of_def)
  moreover have "fk_ledger db4 (he_transaction env) ?u" using K(1) tu p(5) k(3) by (force simp: fk_ledger_def)
  moreover have "proposal_for_raw_event ?u (rcs_raw c) db4 = proposal_for_raw_event ?u (rcs_raw c) db"
    using k(2) K(8) by (simp add: proposal_for_raw_event_def)
  ultimately obtain db5 where d5: "complete_source ?u c (tv_id v) db4 = Inr db5" "status_of_raw db5 (rcs_raw c) = Some PROCESSED"
    using source_completes [OF sw, of c ?u "he_transaction env"] q p(4) by auto
  note F = complete_source_frame [OF d5(1)]
  have run: "apply_keep_separate ?u (rcs_id c) env db = Inr db5"
    using case_in_table(2) [OF wf c(1)] c(2) pending_has_no_evidence(2) [OF wf c] n p(1) w d5(1)
    by (simp add: apply_keep_separate_def require_pending_def)
  from apply_keep_separate_wf [OF run wf] have wf5: "provenance_wf db5" by simp
  have "normalized_checks n" using wf_tables(1) [OF wf] N(1) by (auto simp: source_wf_def list_all_iff)
  from transaction_command_facts [OF n(2) wf_tables(5) [OF wf] this] obtain a cur ts where
    full: "nev_amount n = Some a" "nev_currency n = Some cur" "nev_occurred_at n = Some ts" by blast
  have "normalized_for_case (rcs_user ?c) ?c db5 = Inr n"
    using n(1) F(2) k(4) K(2) by (simp add: normalized_for_case_def resolve_case_def)
  from case_can_be_viewed [OF wf5 _ this full] k(5) F(1) obtain vw where
    vw: "with_view ?u (rcs_id c) db5 = Inr (db5, vw)" "csv_id vw = rcs_id c" "csv_status vw = CASE_KEPT_SEPARATE"
      "csv_result vw = Some (he_transaction env)" by (auto simp: resolve_case_def)
  have "keep_separate ?u (rcs_id c) env db = Inr (db5, vw)" using run vw(1) by (simp add: keep_separate_def)
  moreover have "transactions db5 = transactions db @ [t]" using F(3) k(3) p(3) by (simp add: posted_def)
  ultimately show ?thesis using wf5 vw d5(2) p(5,6) by blast
qed

lemma pending_case_can_be_kept_separate_witness:
  "\<exists>db' v t. keep_separate 1 65 sample_handoff sample_review = Inr (db', v) \<and> csv_status v = CASE_KEPT_SEPARATE \<and>
    transactions db' = [sample_transaction, t] \<and> tx_id t = 73 \<and> tx_amount t = 2500000"
proof -
  obtain command where "transaction_command 1 sample_repeat sample_review = Inr command" using sample_command by blast
  moreover have "sample_case \<in> set (cases sample_review)" "rcs_status sample_case = CASE_PENDING" "rcs_user sample_case = 1"
    "rcs_id sample_case = 65" "status_of_raw sample_review (rcs_raw sample_case) = Some NEEDS_REVIEW"
    "normalized_for_case 1 sample_case sample_review = Inr sample_repeat"
    "proposal_for_raw_event 1 (rcs_raw sample_case) sample_review = None"
    "he_merchant sample_handoff \<notin> mer_id ` set (merchants sample_review)"
    "he_transaction sample_handoff \<notin> tx_id ` set (transactions sample_review)"
    "he_evidence sample_handoff \<notin> evd_id ` set (evidence sample_review)"
    "he_action sample_handoff \<notin> rac_id ` set (actions sample_review)"
    "transactions sample_review = [sample_transaction]" "he_transaction sample_handoff = 73" "nev_amount sample_repeat = Some 2500000"
    by (simp_all add: sample_review_def sample_case_def sample_repeat_def sample_handoff_def sample_defs status_of_raw_def
        normalized_for_case_def proposal_for_raw_event_def entry_def)
  ultimately show ?thesis
    using pending_case_can_be_kept_separate [OF sample_review_wf, of sample_case sample_repeat command sample_handoff]
    by (auto simp: same_value_def)
qed

end
