(* ===== verification/Analytics.thy ===== *)
theory Analytics
  imports Ledger_Service Obligations "HOL-Library.List_Lexorder" "HOL-Library.Char_ord"
begin

text \<open>
  Period comparison and grounded insights: \<open>analytics/dto.py\<close>, \<open>analytics/calculations.py\<close>,
  \<open>analytics/repository.py\<close> and \<open>analytics/service.py\<close>.

  Sums of amounts are exact integers here: a sum of fewer than \<open>10 ^ 9\<close> amounts of \<open>NUMERIC(19, 4)\<close>
  has at most 28 digits, so Python's context does not round it. Quotients are rounded to the
  context as in theory \<open>Decimals\<close>. A dictionary of groups is a list of entries in order of first
  insertion.
\<close>

section \<open>Projections\<close>

record analytics_transaction =
  an_id :: uuid
  an_amount :: money
  an_type :: transaction_type
  an_occurred_at :: instant
  an_merchant :: "uuid option"
  an_merchant_name :: "string option"
  an_category :: "uuid option"
  an_category_name :: string

record overdue_receivable =
  od_id :: uuid
  od_due :: date

record period_metrics =
  pm_spent :: money
  pm_count :: nat
  pm_average :: money

record category_contribution =
  cat_contribution_id :: "uuid option"
  cat_contribution_name :: string
  contribution_current :: money
  contribution_previous :: money
  contribution_change :: money

record grounded_insight =
  gi_code :: string
  gi_title :: string
  gi_detail :: string
  gi_amount :: "money option"
  gi_percentage :: "int option"
  gi_transactions :: "uuid list"
  gi_obligations :: "uuid list"

record analytics_result =
  ar_currency :: string
  ar_current_start :: date
  ar_current_end :: date
  ar_previous_start :: date
  ar_previous_end :: date
  ar_current :: period_metrics
  ar_previous :: period_metrics
  ar_total_change :: money
  ar_count_change :: int
  ar_average_change :: money
  ar_contributions :: "category_contribution list"
  ar_insights :: "grounded_insight list"

section \<open>Calculations\<close>

text \<open>The keys of a dictionary filled in the given order.\<close>

definition dict_keys :: "'k list \<Rightarrow> 'k list" where
  "dict_keys ks = rev (remdups (rev ks))"

definition signed_amount :: "analytics_transaction \<Rightarrow> money" where
  "signed_amount t = (if an_type t = REFUND then - an_amount t else an_amount t)"

text \<open>\<open>(spent / count).quantize(Decimal("0.0001"))\<close>, in ten-thousandths.\<close>

definition average_amount :: "money \<Rightarrow> nat \<Rightarrow> money" where
  "average_amount spent n =
     (if spent = 0 then 0
      else let (c, k) = context_div \<bar>spent\<bar> (int n); (p, d) = at_scale c (- k) 0 in sgn spent * half_even p d)"

definition period_metrics_of :: "analytics_transaction list \<Rightarrow> period_metrics" where
  "period_metrics_of rows =
     (let spent = sum_rows signed_amount rows; n = length rows
      in \<lparr>pm_spent = spent, pm_count = n, pm_average = (if n = 0 then 0 else average_amount spent n)\<rparr>)"

definition category_key :: "analytics_transaction \<Rightarrow> uuid option \<times> string" where
  "category_key t = (an_category t, an_category_name t)"

definition group_total :: "(analytics_transaction \<Rightarrow> 'k) \<Rightarrow> 'k \<Rightarrow> analytics_transaction list \<Rightarrow> money" where
  "group_total key k rows = sum_rows signed_amount (filter (\<lambda>t. key t = k) rows)"

definition category_contributions ::
  "analytics_transaction list \<Rightarrow> analytics_transaction list \<Rightarrow> category_contribution list" where
  "category_contributions current previous =
     sort_key (\<lambda>c. (- \<bar>contribution_change c\<bar>, cat_contribution_name c))
       (map (\<lambda>k. let a = group_total category_key k current; b = group_total category_key k previous
             in \<lparr>cat_contribution_id = fst k, cat_contribution_name = snd k, contribution_current = a,
                 contribution_previous = b, contribution_change = a - b\<rparr>)
          (dict_keys (map category_key (current @ previous))))"

definition insight ::
  "string \<Rightarrow> string \<Rightarrow> string \<Rightarrow> money option \<Rightarrow> int option \<Rightarrow> uuid list \<Rightarrow> uuid list \<Rightarrow> grounded_insight" where
  "insight code title detail amount percent ts obls =
     \<lparr>gi_code = code, gi_title = title, gi_detail = detail, gi_amount = amount, gi_percentage = percent,
      gi_transactions = ts, gi_obligations = obls\<rparr>"

definition spending_increase ::
  "analytics_transaction list \<Rightarrow> period_metrics \<Rightarrow> period_metrics \<Rightarrow> grounded_insight list" where
  "spending_increase current previous_metrics current_metrics =
     (if pm_spent previous_metrics > 0
      then let change = pm_spent current_metrics - pm_spent previous_metrics;
               percent = percent_of change (pm_spent previous_metrics)
           in if percent \<ge> 25
              then [insight ''spending_increase'' ''Spending increased''
                      ''Current-month posted spending is at least 25% above last month.'' (Some change) (Some percent)
                      (map an_id current) []]
              else []
      else [])"

definition positive_spending :: "analytics_transaction list \<Rightarrow> analytics_transaction list" where
  "positive_spending rows = filter (\<lambda>t. an_type t = EXPENSE \<or> an_type t = SHARED_EXPENSE) rows"

text \<open>Twice the median, which stays an integer for an even number of amounts.\<close>

definition double_median :: "int list \<Rightarrow> int" where
  "double_median xs =
     (let ys = sort xs; n = length ys
      in if odd n then 2 * ys ! (n div 2) else ys ! (n div 2 - 1) + ys ! (n div 2))"

definition name_or :: "string option \<Rightarrow> string \<Rightarrow> string" where
  "name_or name fallback = (case name of None \<Rightarrow> fallback | Some n \<Rightarrow> if n = [] then fallback else n)"

definition large_transactions :: "analytics_transaction list \<Rightarrow> grounded_insight list" where
  "large_transactions positive =
     (if length positive < 3 then []
      else map (\<lambda>t. insight ''large_transaction'' ''Large transaction''
             (name_or (an_merchant_name t) (an_category_name t) @ '' is at least twice the current median expense.'')
             (Some (an_amount t)) None [an_id t] [])
           (filter (\<lambda>t. double_median (map an_amount positive) \<le> an_amount t) positive))"

definition merchant_key :: "analytics_transaction \<Rightarrow> (uuid \<times> string) option" where
  "merchant_key t =
     (case (an_merchant t, an_merchant_name t) of (Some i, Some n) \<Rightarrow> Some (i, n) | _ \<Rightarrow> None)"

text \<open>The entries of a dictionary of row lists, in order of first insertion.\<close>

definition groups_by :: "('r \<Rightarrow> 'k option) \<Rightarrow> 'r list \<Rightarrow> ('k \<times> 'r list) list" where
  "groups_by key rows = map (\<lambda>k. (k, filter (\<lambda>r. key r = Some k) rows)) (dict_keys (List.map_filter key rows))"

text \<open>Python's \<open>max\<close>: the first entry whose key is the greatest.\<close>

fun max_by :: "('a \<Rightarrow> int) \<Rightarrow> 'a \<Rightarrow> 'a list \<Rightarrow> 'a" where
  "max_by f best [] = best"
| "max_by f best (x # xs) = max_by f (if f best < f x then x else best) xs"

definition merchant_concentration :: "analytics_transaction list \<Rightarrow> grounded_insight list" where
  "merchant_concentration positive =
     (let positive_total = sum_rows an_amount positive
      in case groups_by merchant_key positive of
           [] \<Rightarrow> []
         | g # gs \<Rightarrow>
             if positive_total \<le> 0 then []
             else let (merchant, rows) = max_by (\<lambda>g. sum_rows an_amount (snd g)) g gs;
                      merchant_total = sum_rows an_amount rows; share = percent_of merchant_total positive_total
                  in if share \<ge> 50
                     then [insight ''merchant_concentration'' ''Merchant concentration''
                             (snd merchant @ '' represents at least half of positive spending.'') (Some merchant_total)
                             (Some share) (map an_id rows) []]
                     else [])"

definition recurring_key :: "analytics_transaction \<Rightarrow> (uuid \<times> money) option" where
  "recurring_key t =
     (case an_merchant t of
        None \<Rightarrow> None
      | Some i \<Rightarrow> if an_type t = EXPENSE \<or> an_type t = SHARED_EXPENSE then Some (i, an_amount t) else None)"

text \<open>The UTC day of an instant, and the gaps in days between neighbours.\<close>

definition utc_day :: "instant \<Rightarrow> int" where
  "utc_day t = t div DAY_US"

fun day_gaps :: "instant list \<Rightarrow> int list" where
  "day_gaps (a # b # rest) = (utc_day b - utc_day a) # day_gaps (b # rest)"
| "day_gaps _ = []"

definition possible_recurring :: "analytics_transaction list \<Rightarrow> grounded_insight list" where
  "possible_recurring history =
     List.map_filter (\<lambda>(_, rows).
       let ordered = sort_key an_occurred_at rows; gaps = day_gaps (map an_occurred_at ordered)
       in if length ordered < 3 then None
          else if gaps \<noteq> [] \<and> list_all (\<lambda>g. 25 \<le> g \<and> g \<le> 35) gaps
          then Some (insight ''possible_recurring'' ''Possible recurring payment''
                 (name_or (an_merchant_name (last ordered)) ''A merchant'' @
                  '' repeated with the same amount on a monthly cadence.'')
                 (Some (an_amount (last ordered))) None (map an_id ordered) [])
          else None) (groups_by recurring_key history)"

definition forgotten_debt :: "overdue_receivable list \<Rightarrow> date \<Rightarrow> grounded_insight list" where
  "forgotten_debt overdue today =
     (let forgotten = filter (\<lambda>d. od_due d < today) overdue
      in if forgotten = [] then []
         else [insight ''forgotten_debt'' ''Receivable may need attention'' ''An open receivable is past its due date.''
                 None None [] (map od_id forgotten)])"

definition build_insights ::
  "analytics_transaction list \<Rightarrow> analytics_transaction list \<Rightarrow> period_metrics \<Rightarrow> period_metrics \<Rightarrow>
   overdue_receivable list \<Rightarrow> date \<Rightarrow> grounded_insight list" where
  "build_insights current history previous_metrics current_metrics overdue today =
     (let positive = positive_spending current
      in spending_increase current previous_metrics current_metrics @ large_transactions positive @
         merchant_concentration positive @ possible_recurring history @ forgotten_debt overdue today)"

section \<open>The repository\<close>

definition analytics_of :: "'a ledger_db_scheme \<Rightarrow> transaction_row \<Rightarrow> analytics_transaction" where
  "analytics_of db t =
     \<lparr>an_id = tx_id t, an_amount = tx_amount t, an_type = tx_type t, an_occurred_at = tx_date t,
      an_merchant = tx_merchant t, an_merchant_name = merchant_display db (tx_merchant t),
      an_category = tx_category t,
      an_category_name = name_or (category_display db (tx_category t)) ''Uncategorized''\<rparr>"

definition analytics_transactions ::
  "uuid \<Rightarrow> string \<Rightarrow> instant \<Rightarrow> instant \<Rightarrow> 'a ledger_db_scheme \<Rightarrow> analytics_transaction list" where
  "analytics_transactions user_id currency start_utc end_utc db =
     map (analytics_of db) (sort_key (\<lambda>t. (tx_date t, tx_id t)) (spending_rows user_id currency start_utc end_utc db))"

text \<open>The order of the unordered query is an argument.\<close>

definition overdue_receivables ::
  "(uuid \<Rightarrow> int) \<Rightarrow> uuid \<Rightarrow> string \<Rightarrow> date \<Rightarrow> 'a obligation_db_scheme \<Rightarrow> overdue_receivable list" where
  "overdue_receivables rank user_id currency today db =
     List.map_filter (\<lambda>r. map_option (\<lambda>d. \<lparr>od_id = obl_id r, od_due = d\<rparr>) (obl_due r))
       (sort_key (\<lambda>r. rank (obl_id r)) (filter (\<lambda>r. obl_user r = user_id \<and> obl_currency r = currency \<and>
          (case obl_due r of None \<Rightarrow> False | Some d \<Rightarrow> d < today) \<and> (obl_status r = OPEN \<or> obl_status r = PARTIALLY_PAID))
          (receivables db)))"

section \<open>The service\<close>

text \<open>Going back a number of months.\<close>

fun months_back :: "nat \<Rightarrow> year_month \<Rightarrow> year_month result" where
  "months_back 0 m = Inr m"
| "months_back (Suc n) m = bindE (previous_month m) (months_back n)"

definition local_date :: "tzdata \<Rightarrow> py_datetime \<Rightarrow> string \<Rightarrow> date result" where
  "local_date tz clock zone_name =
     bindE (parse_timezone tz zone_name) (\<lambda>zone.
       case clock of Naive _ \<Rightarrow> Inl ValueError | Aware t \<Rightarrow> Inr (wall_date (tz_local tz zone t)))"

record analytics_scope =
  rs_currency :: string
  rs_current :: month_period
  rs_previous :: month_period
  rs_history :: month_period
  rs_today :: date

definition analytics_scope ::
  "tzdata \<Rightarrow> py_datetime \<Rightarrow> uuid \<Rightarrow> string option \<Rightarrow> 'a ledger_db_scheme \<Rightarrow> analytics_scope result" where
  "analytics_scope tz clock user_id currency db =
     bindE (require_user user_id db) (\<lambda>user.
     bindE (selected_currency currency user) (\<lambda>cur.
     bindE (containing tz clock (uv_timezone user)) (\<lambda>current_month.
     bindE (previous_month current_month) (\<lambda>previous.
     bindE (months_back 11 current_month) (\<lambda>history_month.
     bindE (month_period tz current_month (uv_timezone user)) (\<lambda>current_period.
     bindE (month_period tz previous (uv_timezone user)) (\<lambda>previous_period.
     bindE (month_period tz history_month (uv_timezone user)) (\<lambda>history_period.
     bindE (local_date tz clock (uv_timezone user)) (\<lambda>today.
       Inr \<lparr>rs_currency = cur, rs_current = current_period, rs_previous = previous_period,
            rs_history = history_period, rs_today = today\<rparr>)))))))))"

text \<open>The clock is read once here; between its two readings in the program a day may end.\<close>

definition analytics_report ::
  "(uuid \<Rightarrow> int) \<Rightarrow> tzdata \<Rightarrow> py_datetime \<Rightarrow> uuid \<Rightarrow> string option \<Rightarrow> 'a obligation_db_scheme \<Rightarrow> analytics_result result" where
  "analytics_report rank tz clock user_id currency db =
     bindE (analytics_scope tz clock user_id currency db) (\<lambda>s.
       let rows = \<lambda>a b. analytics_transactions user_id (rs_currency s) (mp_start_utc a) (mp_end_utc b) db;
           current = rows (rs_current s) (rs_current s);
           previous = rows (rs_previous s) (rs_previous s);
           history = rows (rs_history s) (rs_current s);
           overdue = overdue_receivables rank user_id (rs_currency s) (rs_today s) db;
           cm = period_metrics_of current; pm = period_metrics_of previous
       in Inr \<lparr>ar_currency = rs_currency s, ar_current_start = mp_start_date (rs_current s),
               ar_current_end = mp_end_date (rs_current s), ar_previous_start = mp_start_date (rs_previous s),
               ar_previous_end = mp_end_date (rs_previous s), ar_current = cm, ar_previous = pm,
               ar_total_change = pm_spent cm - pm_spent pm, ar_count_change = int (pm_count cm) - int (pm_count pm),
               ar_average_change = pm_average cm - pm_average pm,
               ar_contributions = category_contributions current previous,
               ar_insights = build_insights current history pm cm overdue (rs_today s)\<rparr>)"

section \<open>Facts about the calculations\<close>

lemma dict_keys_set [simp]: "set (dict_keys ks) = set ks"
  by (simp add: dict_keys_def)

lemma dict_keys_distinct [simp]: "distinct (dict_keys ks)"
  by (simp add: dict_keys_def)

lemma group_totals_add_up:
  assumes "distinct ks" "key ` set rows \<subseteq> set ks"
  shows "(\<Sum>k\<leftarrow>ks. group_total key k rows) = sum_rows signed_amount rows"
  unfolding group_total_def using assms by (intro sum_rows_partition) auto

lemma sum_list_sort_key: "(\<Sum>x\<leftarrow>sort_key k xs. (f x :: int)) = (\<Sum>x\<leftarrow>xs. f x)"
  by (metis mset_map mset_sort sum_mset_sum_list)

text \<open>The contributions partition both periods.\<close>

lemma contributions_add_up:
  "(\<Sum>c\<leftarrow>category_contributions current previous. contribution_current c) = sum_rows signed_amount current"
  "(\<Sum>c\<leftarrow>category_contributions current previous. contribution_previous c) = sum_rows signed_amount previous"
  by (simp_all add: category_contributions_def sum_list_sort_key comp_def Let_def group_totals_add_up)

lemma contributions_change:
  "c \<in> set (category_contributions current previous) \<Longrightarrow>
    contribution_change c = contribution_current c - contribution_previous c"
  by (auto simp: category_contributions_def Let_def)

lemma contributions_distinct:
  "distinct (map (\<lambda>c. (cat_contribution_id c, cat_contribution_name c)) (category_contributions current previous))"
proof -
  have "distinct (map f (sort_key k xs)) = distinct (map f xs)"
    for f :: "category_contribution \<Rightarrow> uuid option \<times> string" and k :: "category_contribution \<Rightarrow> int \<times> string" and xs
    by (rule mset_eq_imp_distinct_iff) simp
  then show ?thesis by (simp add: category_contributions_def comp_def Let_def)
qed

text \<open>The rows of a period, and the totals that the ledger reports for it.\<close>

lemma analytics_transactions_set:
  "x \<in> set (analytics_transactions u cur a b db) \<longleftrightarrow> (\<exists>t \<in> set (spending_rows u cur a b db). x = analytics_of db t)"
  by (auto simp: analytics_transactions_def)

lemma analytics_spent:
  "sum_rows signed_amount (analytics_transactions u cur a b db) =
    sum_rows summary_spending (filter (posted_in u cur a b) (transactions db))"
proof -
  have "sum_rows signed_amount (map (analytics_of db) rows) = sum_rows spending_amount rows"
    if "\<forall>t \<in> set rows. tx_type t \<in> set spending_types" for rows
    using that by (induction rows) (auto simp: signed_amount_def spending_amount_def analytics_of_def spending_types_def)
  then have "sum_rows signed_amount (analytics_transactions u cur a b db) =
      sum_rows spending_amount (sort_key (\<lambda>t. (tx_date t, tx_id t)) (spending_rows u cur a b db))"
    by (simp add: analytics_transactions_def spending_rows_def)
  also have "\<dots> = sum_rows spending_amount (spending_rows u cur a b db)" by (rule sum_rows_mset) simp
  finally show ?thesis by (simp add: spending_rows_total)
qed

section \<open>What supports an insight\<close>

lemma percent_nonpos:
  assumes "amount \<le> 0" "0 < whole"
  shows "percent_of amount whole \<le> 0"
proof (cases "amount = 0")
  case False
  obtain c k where ck: "context_div \<bar>amount\<bar> whole = (c, k)" by fastforce
  obtain n d where nd: "at_scale c (- k) 2 = (n, d)" by fastforce
  have "0 \<le> c" using ck assms(2) by (auto simp: context_div_def Let_def intro!: half_even_lower)
  with nd have "0 \<le> n" "0 < d" by (auto simp: at_scale_def)
  then have "0 \<le> half_up n d" by (simp add: half_up_def sgn_if pos_imp_zdiv_nonneg_iff)
  moreover have "percent_of amount whole = sgn amount * half_up n d"
    using False by (simp only: percent_of_def ck nd prod.case Let_def if_False)
  ultimately show ?thesis using False assms(1) by (simp add: sgn_if)
qed (simp add: percent_of_def)

lemma groups_by_rows:
  assumes "(k, rs) \<in> set (groups_by key rows)"
  shows "rs \<noteq> []" "set rs \<subseteq> set rows"
proof -
  from assms have rs: "rs = filter (\<lambda>r. key r = Some k) rows" and k: "k \<in> set (List.map_filter key rows)"
    by (auto simp: groups_by_def)
  show "set rs \<subseteq> set rows" by (auto simp: rs)
  from k obtain r where "r \<in> set rows" "key r = Some k" by (auto simp: List.map_filter_def)
  then show "rs \<noteq> []" by (auto simp: rs filter_empty_conv)
qed

lemma max_by_mem: "max_by f best xs \<in> insert best (set xs)"
  by (induction xs arbitrary: best) (auto split: if_splits)

text \<open>
  The owner's records behind the insights, over the raw tables: the posted spending and the expenses of
  a span of months, and the unsettled receivables whose due date has passed.
\<close>

definition own_spending ::
  "uuid \<Rightarrow> analytics_scope \<Rightarrow> month_period \<Rightarrow> month_period \<Rightarrow> transaction_row \<Rightarrow> bool" where
  "own_spending u s a b t \<longleftrightarrow>
     tx_user t = u \<and> tx_currency t = rs_currency s \<and> tx_status t = POSTED \<and>
     mp_start_utc a \<le> tx_date t \<and> tx_date t < mp_end_utc b \<and>
     (tx_type t = EXPENSE \<or> tx_type t = SHARED_EXPENSE \<or> tx_type t = REFUND)"

definition own_expense ::
  "uuid \<Rightarrow> analytics_scope \<Rightarrow> month_period \<Rightarrow> month_period \<Rightarrow> transaction_row \<Rightarrow> bool" where
  "own_expense u s a b t \<longleftrightarrow> own_spending u s a b t \<and> tx_type t \<noteq> REFUND"

definition past_due :: "uuid \<Rightarrow> analytics_scope \<Rightarrow> obligation_row \<Rightarrow> bool" where
  "past_due u s b \<longleftrightarrow>
     obl_user b = u \<and> obl_currency b = rs_currency s \<and> (obl_status b = OPEN \<or> obl_status b = PARTIALLY_PAID) \<and>
     (\<exists>d. obl_due b = Some d \<and> d < rs_today s)"

text \<open>The insight cites exactly the transactions that satisfy a predicate, each once, and nothing else.\<close>

definition cites_rows :: "(transaction_row \<Rightarrow> bool) \<Rightarrow> 'a ledger_db_scheme \<Rightarrow> grounded_insight \<Rightarrow> bool" where
  "cites_rows P db i \<longleftrightarrow>
     mset (gi_transactions i) = mset (map tx_id (filter P (transactions db))) \<and> gi_transactions i \<noteq> [] \<and>
     gi_obligations i = []"

definition amount_of_rows :: "(transaction_row \<Rightarrow> bool) \<Rightarrow> 'a ledger_db_scheme \<Rightarrow> money" where
  "amount_of_rows P db = sum_rows tx_amount (filter P (transactions db))"

text \<open>What each kind of insight must be able to point at.\<close>

definition increase_supported ::
  "uuid \<Rightarrow> analytics_scope \<Rightarrow> analytics_result \<Rightarrow> 'a ledger_db_scheme \<Rightarrow> grounded_insight \<Rightarrow> bool" where
  "increase_supported u s r db i \<longleftrightarrow>
     cites_rows (own_spending u s (rs_current s) (rs_current s)) db i \<and>
     0 < ar_total_change r \<and> gi_amount i = Some (ar_total_change r) \<and> 0 < pm_spent (ar_previous r) \<and>
     (\<exists>p \<ge> 25. gi_percentage i = Some p \<and> p = percent_of (ar_total_change r) (pm_spent (ar_previous r)))"

definition large_supported ::
  "uuid \<Rightarrow> analytics_scope \<Rightarrow> 'a ledger_db_scheme \<Rightarrow> grounded_insight \<Rightarrow> bool" where
  "large_supported u s db i \<longleftrightarrow>
     (let expenses = filter (own_expense u s (rs_current s) (rs_current s)) (transactions db) in
      3 \<le> length expenses \<and> gi_obligations i = [] \<and> gi_percentage i = None \<and>
      (\<exists>t \<in> set expenses. gi_transactions i = [tx_id t] \<and> gi_amount i = Some (tx_amount t) \<and>
         length expenses \<le> 2 * length (filter (\<lambda>x. 2 * tx_amount x \<le> tx_amount t) expenses)))"

definition concentration_supported ::
  "uuid \<Rightarrow> analytics_scope \<Rightarrow> 'a ledger_db_scheme \<Rightarrow> grounded_insight \<Rightarrow> bool" where
  "concentration_supported u s db i \<longleftrightarrow>
     (\<exists>m. let expense = own_expense u s (rs_current s) (rs_current s);
              at_merchant = (\<lambda>t. expense t \<and> tx_merchant t = Some m) in
      cites_rows at_merchant db i \<and> gi_amount i = Some (amount_of_rows at_merchant db) \<and>
      0 < amount_of_rows expense db \<and>
      (\<exists>p \<ge> 50. gi_percentage i = Some p \<and> p = percent_of (amount_of_rows at_merchant db) (amount_of_rows expense db)))"

definition recurring_supported ::
  "uuid \<Rightarrow> analytics_scope \<Rightarrow> 'a ledger_db_scheme \<Rightarrow> grounded_insight \<Rightarrow> bool" where
  "recurring_supported u s db i \<longleftrightarrow>
     (\<exists>m a. let same = (\<lambda>t. own_expense u s (rs_history s) (rs_current s) t \<and> tx_merchant t = Some m \<and> tx_amount t = a) in
      cites_rows same db i \<and> gi_amount i = Some a \<and> gi_percentage i = None \<and> 3 \<le> length (gi_transactions i) \<and>
      (\<forall>g \<in> set (day_gaps (sort (map tx_date (filter same (transactions db))))). 25 \<le> g \<and> g \<le> 35))"

definition debt_supported ::
  "uuid \<Rightarrow> analytics_scope \<Rightarrow> 'a obligation_db_scheme \<Rightarrow> grounded_insight \<Rightarrow> bool" where
  "debt_supported u s db i \<longleftrightarrow>
     mset (gi_obligations i) = mset (map obl_id (filter (past_due u s) (receivables db))) \<and> gi_obligations i \<noteq> [] \<and>
     gi_transactions i = [] \<and> gi_amount i = None \<and> gi_percentage i = None"

definition supported ::
  "uuid \<Rightarrow> analytics_scope \<Rightarrow> analytics_result \<Rightarrow> 'a obligation_db_scheme \<Rightarrow> grounded_insight \<Rightarrow> bool" where
  "supported u s r db i \<longleftrightarrow>
     gi_code i = ''spending_increase'' \<and> increase_supported u s r db i \<or>
     gi_code i = ''large_transaction'' \<and> large_supported u s db i \<or>
     gi_code i = ''merchant_concentration'' \<and> concentration_supported u s db i \<or>
     gi_code i = ''possible_recurring'' \<and> recurring_supported u s db i \<or>
     gi_code i = ''forgotten_debt'' \<and> debt_supported u s db i"

section \<open>The report\<close>

abbreviation scope_rows ::
  "uuid \<Rightarrow> analytics_scope \<Rightarrow> month_period \<Rightarrow> month_period \<Rightarrow> 'a ledger_db_scheme \<Rightarrow> analytics_transaction list" where
  "scope_rows u s a b db \<equiv> analytics_transactions u (rs_currency s) (mp_start_utc a) (mp_end_utc b) db"

lemma analytics_report_Inr:
  assumes "analytics_report rank tz clock u currency db = Inr r"
  shows "\<exists>s. analytics_scope tz clock u currency db = Inr s \<and> ar_currency r = rs_currency s \<and>
    ar_current_start r = mp_start_date (rs_current s) \<and>
    (let rows = \<lambda>a b. analytics_transactions u (rs_currency s) (mp_start_utc a) (mp_end_utc b) db;
         cur = rows (rs_current s) (rs_current s); prev = rows (rs_previous s) (rs_previous s);
         overdue = overdue_receivables rank u (rs_currency s) (rs_today s) db
     in ar_current r = period_metrics_of cur \<and> ar_previous r = period_metrics_of prev \<and>
        ar_contributions r = category_contributions cur prev \<and>
        ar_insights r = build_insights cur (rows (rs_history s) (rs_current s)) (period_metrics_of prev) (period_metrics_of cur)
          overdue (rs_today s)) \<and>
    ar_total_change r = pm_spent (ar_current r) - pm_spent (ar_previous r)"
  using assms by (auto simp: analytics_report_def result_simps Let_def)

lemma analytics_scope_Inr:
  assumes "analytics_scope tz clock u currency db = Inr s"
  shows "report_scope tz clock u currency None db = Inr (rs_currency s, rs_current s)"
    "\<exists>m zone m'. containing tz clock zone = Inr m \<and> months_back 11 m = Inr m' \<and>
      month_period tz m zone = Inr (rs_current s) \<and> month_period tz m' zone = Inr (rs_history s)"
  using assms
  by (auto simp: analytics_scope_def report_scope_def result_simps service_now_def containing_def
      split: py_datetime.splits; blast)+

lemma spent_of_metrics: "pm_spent (period_metrics_of xs) = sum_rows signed_amount xs"
  by (simp add: period_metrics_of_def Let_def)

lemma contributions_total:
  assumes "analytics_report rank tz clock u currency db = Inr r"
  shows "(\<Sum>c\<leftarrow>ar_contributions r. contribution_change c) = ar_total_change r"
proof -
  from analytics_report_Inr [OF assms] obtain s where t: "ar_total_change r = pm_spent (ar_current r) - pm_spent (ar_previous r)"
    and rows: "ar_current r = period_metrics_of (scope_rows u s (rs_current s) (rs_current s) db)"
      "ar_previous r = period_metrics_of (scope_rows u s (rs_previous s) (rs_previous s) db)"
      "ar_contributions r = category_contributions (scope_rows u s (rs_current s) (rs_current s) db)
        (scope_rows u s (rs_previous s) (rs_previous s) db)"
    unfolding Let_def by blast
  have "(\<Sum>c\<leftarrow>ar_contributions r. contribution_change c) =
      (\<Sum>c\<leftarrow>ar_contributions r. contribution_current c - contribution_previous c)"
    unfolding rows(3) by (intro arg_cong [where f = sum_list] map_cong refl contributions_change)
  then show ?thesis by (simp add: sum_list_subtractf contributions_add_up rows t spent_of_metrics)
qed

text \<open>The spending that the financial summary of the same month reports.\<close>

lemma report_and_summary:
  assumes "analytics_report rank tz clock u currency db = Inr r"
  shows "\<exists>fs. financial_summary tz clock u currency None db = Inr fs \<and> fs_currency fs = ar_currency r \<and>
    fs_period_start fs = ar_current_start r \<and> fs_spent fs = pm_spent (ar_current r)"
proof -
  from analytics_report_Inr [OF assms] obtain s where s: "analytics_scope tz clock u currency db = Inr s"
    and f: "ar_currency r = rs_currency s" "ar_current_start r = mp_start_date (rs_current s)"
    and rows: "ar_current r = period_metrics_of (scope_rows u s (rs_current s) (rs_current s) db)"
    unfolding Let_def by blast
  have "pm_spent (ar_current r) = fst (financial_totals u (rs_currency s) (rs_current s) db)"
    by (simp add: rows spent_of_metrics analytics_spent financial_totals_def Let_def)
  then show ?thesis using analytics_scope_Inr(1) [OF s] f by (simp add: financial_summary_def Let_def case_prod_unfold)
qed

section \<open>Every insight is supported\<close>

lemma map_sort_key: "map f (sort_key f xs) = sort (map f xs)" for f :: "'b \<Rightarrow> 'c::linorder"
  by (rule properties_for_sort [symmetric]) simp_all

text \<open>The projected rows of a span, read in the table.\<close>

lemma projected_rows:
  assumes "\<And>t. f (analytics_of db t) = g t"
    "\<And>t. P t \<longleftrightarrow> posted_in u cur a b t \<and> tx_type t \<in> set spending_types \<and> Q (analytics_of db t)"
  shows "mset (map f (filter Q (analytics_transactions u cur a b db))) = mset (map g (filter P (transactions db)))"
proof -
  have "f \<circ> analytics_of db = g" using assms(1) by (auto simp: comp_def)
  then have "mset (map f (filter Q (analytics_transactions u cur a b db))) =
      image_mset g (filter_mset (Q \<circ> analytics_of db) (mset (spending_rows u cur a b db)))"
    by (simp add: analytics_transactions_def filter_map multiset.map_comp comp_def)
  also have "\<dots> = mset (map g (filter P (transactions db)))"
    by (simp add: spending_rows_def assms(2) filter_filter_mset conj_ac)
  finally show ?thesis .
qed

lemma own_spending_posted:
  "own_spending u s a b t \<longleftrightarrow>
    posted_in u (rs_currency s) (mp_start_utc a) (mp_end_utc b) t \<and> tx_type t \<in> set spending_types"
  by (auto simp: own_spending_def posted_in_def spending_types_def)

lemma cites_projected:
  assumes "mset ts = mset (map an_id (filter Q (scope_rows u s a b db)))" "ts \<noteq> []" "gi_transactions i = ts" "gi_obligations i = []"
    "\<And>t. P t \<longleftrightarrow> own_spending u s a b t \<and> Q (analytics_of db t)"
  shows "cites_rows P db i"
  using assms(1-4) projected_rows [of an_id db tx_id P u "rs_currency s" "mp_start_utc a" "mp_end_utc b" Q] assms(5)
  by (simp add: cites_rows_def own_spending_posted analytics_of_def)

lemma amount_projected:
  assumes "\<And>t. P t \<longleftrightarrow> own_spending u s a b t \<and> Q (analytics_of db t)"
  shows "amount_of_rows P db = sum_rows an_amount (filter Q (scope_rows u s a b db))"
proof -
  have "mset (map an_amount (filter Q (scope_rows u s a b db))) = mset (map tx_amount (filter P (transactions db)))"
    using projected_rows [of an_amount db tx_amount P u "rs_currency s" "mp_start_utc a" "mp_end_utc b" Q] assms
    by (simp add: own_spending_posted analytics_of_def)
  then show ?thesis unfolding amount_of_rows_def sum_rows_def by (metis sum_mset_sum_list)
qed

lemma expense_projected:
  "own_expense u s a b t \<longleftrightarrow> own_spending u s a b t \<and>
    (an_type (analytics_of db t) = EXPENSE \<or> an_type (analytics_of db t) = SHARED_EXPENSE)"
  by (auto simp: own_expense_def own_spending_def analytics_of_def)

lemma increase_is_supported:
  assumes "i \<in> set (spending_increase (scope_rows u s (rs_current s) (rs_current s) db) (ar_previous r) (ar_current r))"
    "ar_current r = period_metrics_of (scope_rows u s (rs_current s) (rs_current s) db)"
    "ar_total_change r = pm_spent (ar_current r) - pm_spent (ar_previous r)"
  shows "gi_code i = ''spending_increase'' \<and> increase_supported u s r db i"
proof -
  let ?rows = "scope_rows u s (rs_current s) (rs_current s) db"
  from assms(1,3) have p: "0 < pm_spent (ar_previous r)" "25 \<le> percent_of (ar_total_change r) (pm_spent (ar_previous r))" and
    i: "i = insight ''spending_increase'' ''Spending increased''
      ''Current-month posted spending is at least 25% above last month.'' (Some (ar_total_change r))
      (Some (percent_of (ar_total_change r) (pm_spent (ar_previous r)))) (map an_id ?rows) []"
    by (auto simp: spending_increase_def Let_def split: if_splits)
  have c: "0 < ar_total_change r" using percent_nonpos [of "ar_total_change r" "pm_spent (ar_previous r)"] p by linarith
  with p(1) assms(2,3) have "?rows \<noteq> []" by (auto simp: period_metrics_of_def Let_def)
  then have "cites_rows (own_spending u s (rs_current s) (rs_current s)) db i"
    using cites_projected [of "map an_id ?rows" "\<lambda>_. True" u s "rs_current s" "rs_current s" db i] by (simp add: i insight_def)
  with p c show ?thesis by (simp add: increase_supported_def i insight_def)
qed

text \<open>Half of the values are at most the median.\<close>

lemma below_median:
  assumes "xs \<noteq> []" "double_median xs \<le> a"
  shows "length xs \<le> 2 * length (filter (\<lambda>x. 2 * x \<le> a) xs)"
proof -
  let ?ys = "sort xs"
  define k where "k = (length xs + 1) div 2"
  have "1 \<le> length xs" using assms(1) by (cases xs) auto
  then have k: "0 < k" "k \<le> length xs" "length xs \<le> 2 * k" by (simp_all add: k_def)
  have s: "\<And>m n. m \<le> n \<Longrightarrow> n < length ?ys \<Longrightarrow> ?ys ! m \<le> ?ys ! n" by (simp add: sorted_nth_mono)
  have "2 * ?ys ! (k - 1) \<le> double_median xs"
  proof (cases "odd (length xs)")
    case True
    then have "k - 1 = length xs div 2" unfolding k_def by presburger
    with True show ?thesis by (simp add: double_median_def Let_def)
  next
    case False
    then have "k = length xs div 2" unfolding k_def by presburger
    moreover have "?ys ! (k - 1) \<le> ?ys ! k" using k False by (intro s) (auto simp: k_def)
    ultimately show ?thesis using False by (simp add: double_median_def Let_def)
  qed
  then have below: "2 * ?ys ! (k - 1) \<le> a" using assms(2) by linarith
  have "\<forall>x \<in> set (take k ?ys). 2 * x \<le> a"
  proof
    fix x assume "x \<in> set (take k ?ys)"
    then obtain m where "m < k" "x = ?ys ! m" by (auto simp: in_set_conv_nth)
    with s [of m "k - 1"] k have "x \<le> ?ys ! (k - 1)" by simp
    with below show "2 * x \<le> a" by linarith
  qed
  then have "take k ?ys = filter (\<lambda>x. 2 * x \<le> a) (take k ?ys)" by (metis filter_True)
  then have "k \<le> length (filter (\<lambda>x. 2 * x \<le> a) (take k ?ys))" using k by (metis length_take length_sort min.absorb2 order_refl)
  also have "\<dots> \<le> length (filter (\<lambda>x. 2 * x \<le> a) ?ys)"
    by (metis append_take_drop_id filter_append length_append le_add1)
  also have "\<dots> = length (filter (\<lambda>x. 2 * x \<le> a) xs)" by (metis mset_filter mset_sort size_mset)
  finally show ?thesis using k(3) by linarith
qed

lemma length_filter_values:
  assumes "mset (map f xs) = mset (map g ys)"
  shows "length (filter (\<lambda>x. Q (f x)) xs) = length (filter (\<lambda>y. Q (g y)) ys)"
proof -
  have "mset (filter Q (map f xs)) = mset (filter Q (map g ys))" using assms by simp
  then have "length (filter Q (map f xs)) = length (filter Q (map g ys))" by (metis size_mset)
  then show ?thesis by (simp add: filter_map comp_def)
qed

lemma large_is_supported:
  assumes "i \<in> set (large_transactions (positive_spending (scope_rows u s (rs_current s) (rs_current s) db)))"
  shows "gi_code i = ''large_transaction'' \<and> large_supported u s db i"
proof -
  let ?P = "own_expense u s (rs_current s) (rs_current s)"
  let ?pos = "positive_spending (scope_rows u s (rs_current s) (rs_current s) db)"
  let ?exps = "filter ?P (transactions db)"
  from assms obtain x where x: "x \<in> set ?pos" "double_median (map an_amount ?pos) \<le> an_amount x" "3 \<le> length ?pos" and
    i: "gi_code i = ''large_transaction''" "gi_transactions i = [an_id x]" "gi_amount i = Some (an_amount x)"
      "gi_obligations i = []" "gi_percentage i = None"
    by (auto simp: large_transactions_def insight_def split: if_splits)
  have m: "mset (map an_amount ?pos) = mset (map tx_amount ?exps)"
    using projected_rows [of an_amount db tx_amount ?P u "rs_currency s" "mp_start_utc (rs_current s)" "mp_end_utc (rs_current s)"
      "\<lambda>t. an_type t = EXPENSE \<or> an_type t = SHARED_EXPENSE"]
    by (simp add: positive_spending_def expense_projected [of _ _ _ _ _ db] own_spending_posted analytics_of_def)
  then have len: "length ?exps = length ?pos" by (metis length_map size_mset)
  from x(1) obtain t where t: "t \<in> set ?exps" "x = analytics_of db t"
    by (auto simp: positive_spending_def analytics_transactions_set expense_projected [of _ _ _ _ _ db] own_spending_posted
        spending_rows_def)
  have "length ?pos \<le> 2 * length (filter (\<lambda>y. 2 * y \<le> an_amount x) (map an_amount ?pos))"
    using below_median [of "map an_amount ?pos" "an_amount x"] x by fastforce
  also have "length (filter (\<lambda>y. 2 * y \<le> an_amount x) (map an_amount ?pos)) =
      length (filter (\<lambda>y. 2 * tx_amount y \<le> an_amount x) ?exps)"
    using length_filter_values [OF m, of "\<lambda>y. 2 * y \<le> an_amount x"] by (simp add: filter_map comp_def)
  finally show ?thesis
    using t i x(3) len by (auto simp: large_supported_def Let_def analytics_of_def intro!: bexI [of _ t])
qed

lemma concentration_is_supported:
  assumes "i \<in> set (merchant_concentration (positive_spending (scope_rows u s (rs_current s) (rs_current s) db)))"
  shows "gi_code i = ''merchant_concentration'' \<and> concentration_supported u s db i"
proof -
  let ?expense = "own_expense u s (rs_current s) (rs_current s)" and ?all = "scope_rows u s (rs_current s) (rs_current s) db"
  let ?pos = "positive_spending ?all" and ?Q = "\<lambda>t. an_type t = EXPENSE \<or> an_type t = SHARED_EXPENSE"
  from assms obtain g gs where g: "groups_by merchant_key ?pos = g # gs"
    by (cases "groups_by merchant_key ?pos") (auto simp: merchant_concentration_def)
  obtain k rs where m: "max_by (\<lambda>g. sum_rows an_amount (snd g)) g gs = (k, rs)" by fastforce
  with max_by_mem [of "\<lambda>g. sum_rows an_amount (snd g)" g gs] g have mem: "(k, rs) \<in> set (groups_by merchant_key ?pos)" by simp
  then have rs: "rs = filter (\<lambda>t. ?Q t \<and> merchant_key t = Some k) ?all"
    by (auto simp: groups_by_def positive_spending_def conj_commute)
  obtain x where "x \<in> set rs" using groups_by_rows(1) [OF mem] by (cases rs) auto
  then obtain t where t: "merchant_key (analytics_of db t) = Some k" by (auto simp: rs analytics_transactions_set)
  let ?at = "\<lambda>t. ?expense t \<and> tx_merchant t = Some (fst k)"
  have key: "merchant_key (analytics_of db y) = Some k \<longleftrightarrow> tx_merchant y = Some (fst k)" for y
    using t by (auto simp: merchant_key_def analytics_of_def split: option.splits)
  have at: "?at y \<longleftrightarrow> own_spending u s (rs_current s) (rs_current s) y \<and>
      (?Q (analytics_of db y) \<and> merchant_key (analytics_of db y) = Some k)" for y
    using expense_projected [of u s _ _ y db] key by auto
  have total: "sum_rows an_amount rs = amount_of_rows ?at db" "sum_rows an_amount ?pos = amount_of_rows ?expense db"
    using amount_projected [OF at] amount_projected [OF expense_projected [of u s "rs_current s" "rs_current s" _ db]]
    by (simp_all add: rs positive_spending_def)
  have i: "i = insight ''merchant_concentration'' ''Merchant concentration''
      (snd k @ '' represents at least half of positive spending.'') (Some (sum_rows an_amount rs))
      (Some (percent_of (sum_rows an_amount rs) (sum_rows an_amount ?pos))) (map an_id rs) []"
    "0 < sum_rows an_amount ?pos" "50 \<le> percent_of (sum_rows an_amount rs) (sum_rows an_amount ?pos)"
    using assms g m by (auto simp: merchant_concentration_def Let_def split: if_splits)
  have "cites_rows ?at db i"
    using cites_projected [OF _ _ _ _ at, of "map an_id rs" i] groups_by_rows(1) [OF mem]
    by (simp add: i(1) insight_def rs)
  then show ?thesis
    using i(2,3) unfolding total concentration_supported_def Let_def
    by (intro conjI exI [of _ "fst k"]) (simp_all add: i(1) insight_def total)
qed

lemma recurring_is_supported:
  assumes "i \<in> set (possible_recurring (scope_rows u s (rs_history s) (rs_current s) db))"
  shows "gi_code i = ''possible_recurring'' \<and> recurring_supported u s db i"
proof -
  let ?all = "scope_rows u s (rs_history s) (rs_current s) db"
  from assms obtain k rs where mem: "(k, rs) \<in> set (groups_by recurring_key ?all)" and
    len: "3 \<le> length rs" and gaps: "\<forall>g \<in> set (day_gaps (map an_occurred_at (sort_key an_occurred_at rs))). 25 \<le> g \<and> g \<le> 35" and
    i: "gi_code i = ''possible_recurring''" "gi_transactions i = map an_id (sort_key an_occurred_at rs)" "gi_obligations i = []"
      "gi_percentage i = None" "gi_amount i = Some (an_amount (last (sort_key an_occurred_at rs)))"
    by (auto simp: possible_recurring_def List.map_filter_def Let_def insight_def list_all_iff not_less split: if_splits)
  from mem have rs: "rs = filter (\<lambda>t. recurring_key t = Some k) ?all" by (auto simp: groups_by_def)
  let ?same = "\<lambda>t. own_expense u s (rs_history s) (rs_current s) t \<and> tx_merchant t = Some (fst k) \<and> tx_amount t = snd k"
  have same: "?same y \<longleftrightarrow> own_spending u s (rs_history s) (rs_current s) y \<and> recurring_key (analytics_of db y) = Some k" for y
    using expense_projected [of u s "rs_history s" "rs_current s" y db]
    by (cases k) (auto simp: recurring_key_def analytics_of_def split: option.splits if_splits)
  have "sort_key an_occurred_at rs \<noteq> []" using len by (metis length_0_conv length_sort not_numeral_le_zero)
  then have "last (sort_key an_occurred_at rs) \<in> set rs" by (metis last_in_set set_sort)
  moreover have "\<forall>x \<in> set rs. an_amount x = snd k"
    by (auto simp: rs recurring_key_def split: option.splits if_splits)
  ultimately have amount: "gi_amount i = Some (snd k)" using i(5) by simp
  have cited: "cites_rows ?same db i"
    using cites_projected [OF _ _ i(2,3) same] \<open>sort_key an_occurred_at rs \<noteq> []\<close> by (simp add: rs)
  have monthly: "\<forall>g \<in> set (day_gaps (sort (map tx_date (filter ?same (transactions db))))). 25 \<le> g \<and> g \<le> 35"
  proof -
    have "mset (map an_occurred_at rs) = mset (map tx_date (filter ?same (transactions db)))"
      unfolding rs
    proof (rule projected_rows)
      show "an_occurred_at (analytics_of db t) = tx_date t" for t by (simp add: analytics_of_def)
      show "?same t \<longleftrightarrow> posted_in u (rs_currency s) (mp_start_utc (rs_history s)) (mp_end_utc (rs_current s)) t \<and>
          tx_type t \<in> set spending_types \<and> recurring_key (analytics_of db t) = Some k" for t
        unfolding same own_spending_posted by blast
    qed
    from arg_cong [OF this, of sorted_list_of_multiset]
    have "sort (map an_occurred_at rs) = sort (map tx_date (filter ?same (transactions db)))"
      by (simp only: sorted_list_of_multiset_mset)
    with gaps show ?thesis by (simp only: map_sort_key)
  qed
  have "3 \<le> length (gi_transactions i)" using len by (simp add: i(2))
  then show ?thesis
    unfolding recurring_supported_def Let_def
    by (intro conjI [OF i(1)] exI [of _ "fst k"] exI [of _ "snd k"] conjI cited amount i(4) monthly)
qed

lemma overdue_ids:
  assumes "\<forall>b \<in> set bs. \<exists>d. obl_due b = Some d \<and> d < today"
  shows "map od_id (filter (\<lambda>d. od_due d < today)
    (List.map_filter (\<lambda>r. map_option (\<lambda>d. \<lparr>od_id = obl_id r, od_due = d\<rparr>) (obl_due r)) bs)) = map obl_id bs"
  using assms by (induction bs) (auto simp: List.map_filter_def)

lemma debt_is_supported:
  assumes "i \<in> set (forgotten_debt (overdue_receivables rank u (rs_currency s) (rs_today s) db) (rs_today s))"
  shows "gi_code i = ''forgotten_debt'' \<and> debt_supported u s db i"
proof -
  let ?P = "\<lambda>r. obl_user r = u \<and> obl_currency r = rs_currency s \<and>
    (case obl_due r of None \<Rightarrow> False | Some d \<Rightarrow> d < rs_today s) \<and> (obl_status r = OPEN \<or> obl_status r = PARTIALLY_PAID)"
  let ?bs = "sort_key (\<lambda>r. rank (obl_id r)) (filter ?P (receivables db))"
  have P: "?P = past_due u s" by (auto simp: past_due_def fun_eq_iff split: option.splits)
  have "\<forall>b \<in> set ?bs. \<exists>d. obl_due b = Some d \<and> d < rs_today s" by (auto split: option.splits)
  from overdue_ids [OF this] assms have i: "gi_code i = ''forgotten_debt''" "gi_obligations i = map obl_id ?bs"
      "gi_obligations i \<noteq> []" "gi_transactions i = []" "gi_amount i = None" "gi_percentage i = None"
    by (auto simp: forgotten_debt_def Let_def insight_def overdue_receivables_def split: if_splits)
  then show ?thesis by (simp add: debt_supported_def P)
qed

text \<open>In every case the citations are the owner's rows.\<close>

definition owner_citations :: "uuid \<Rightarrow> analytics_scope \<Rightarrow> 'a obligation_db_scheme \<Rightarrow> grounded_insight \<Rightarrow> bool" where
  "owner_citations u s db i \<longleftrightarrow>
     (gi_transactions i \<noteq> [] \<or> gi_obligations i \<noteq> []) \<and>
     (\<forall>x \<in> set (gi_transactions i). \<exists>t \<in> set (transactions db). tx_id t = x \<and> tx_user t = u \<and>
        tx_currency t = rs_currency s \<and> tx_status t = POSTED \<and> tx_type t \<in> set spending_types) \<and>
     (\<forall>x \<in> set (gi_obligations i). \<exists>b \<in> set (receivables db). obl_id b = x \<and> obl_user b = u \<and>
        obl_currency b = rs_currency s \<and> (obl_status b = OPEN \<or> obl_status b = PARTIALLY_PAID) \<and>
        (\<exists>d. obl_due b = Some d \<and> d < rs_today s))"

lemma own_spending_owner:
  "own_spending u s a b t \<Longrightarrow>
    tx_user t = u \<and> tx_currency t = rs_currency s \<and> tx_status t = POSTED \<and> tx_type t \<in> set spending_types"
  by (auto simp: own_spending_def spending_types_def)

lemma cited_owner:
  assumes "cites_rows P db i" "\<And>t. P t \<Longrightarrow> own_spending u s a b t"
  shows "owner_citations u s db i"
proof -
  from assms(1) have "set_mset (mset (gi_transactions i)) = set_mset (mset (map tx_id (filter P (transactions db))))"
    and "gi_transactions i \<noteq> []" "gi_obligations i = []"
    by (simp_all add: cites_rows_def)
  moreover have "\<forall>t. P t \<longrightarrow> tx_user t = u \<and> tx_currency t = rs_currency s \<and> tx_status t = POSTED \<and>
      tx_type t \<in> set spending_types"
    using own_spending_owner assms(2) by blast
  ultimately show ?thesis unfolding owner_citations_def set_mset_mset by auto
qed

lemma debt_owner:
  assumes "debt_supported u s db i"
  shows "owner_citations u s db i"
proof -
  from assms have "set_mset (mset (gi_obligations i)) = set_mset (mset (map obl_id (filter (past_due u s) (receivables db))))"
    and "gi_obligations i \<noteq> []" "gi_transactions i = []"
    by (simp_all add: debt_supported_def)
  then show ?thesis unfolding owner_citations_def set_mset_mset by (auto simp: past_due_def)
qed

lemma large_owner: "large_supported u s db i \<Longrightarrow> owner_citations u s db i"
  by (auto simp: large_supported_def owner_citations_def Let_def own_expense_def dest: own_spending_owner)

lemma supported_owner:
  assumes "supported u s r db i"
  shows "owner_citations u s db i"
proof -
  consider "increase_supported u s r db i" | "large_supported u s db i" | "concentration_supported u s db i"
    | "recurring_supported u s db i" | "debt_supported u s db i"
    using assms unfolding supported_def by blast
  then show ?thesis
  proof cases
    case 1
    then show ?thesis by (intro cited_owner [of "own_spending u s (rs_current s) (rs_current s)"]) (simp_all add: increase_supported_def)
  next
    case 3
    then obtain m where "cites_rows (\<lambda>t. own_expense u s (rs_current s) (rs_current s) t \<and> tx_merchant t = Some m) db i"
      by (auto simp: concentration_supported_def Let_def)
    then show ?thesis by (rule cited_owner [where a = "rs_current s" and b = "rs_current s"]) (simp add: own_expense_def)
  next
    case 4
    then obtain m a where "cites_rows (\<lambda>t. own_expense u s (rs_history s) (rs_current s) t \<and> tx_merchant t = Some m \<and>
        tx_amount t = a) db i"
      by (auto simp: recurring_supported_def Let_def)
    then show ?thesis by (rule cited_owner [where a = "rs_history s" and b = "rs_current s"]) (simp add: own_expense_def)
  qed (simp_all add: large_owner debt_owner)
qed

section \<open>A sample report\<close>

text \<open>One expense of 100 in April and one of 124.50 in May.\<close>

definition sample_report_db :: obligation_db where
  "sample_report_db =
     \<lparr>users = sample_users, categories = sample_categories, merchants = sample_merchants,
      transactions = [sample_transaction\<lparr>tx_id := 31, tx_amount := 1000000, tx_date := 1776211200000000\<rparr>,
        sample_transaction\<lparr>tx_id := 32, tx_amount := 1245000\<rparr>],
      category_rules = [], merchant_maps = [], corrections = [],
      people = [], receivables = [], payables = [], settlements = []\<rparr>"

abbreviation sample_report :: "analytics_result result" where
  "sample_report \<equiv> analytics_report int sample_zone (Aware 1778600000000000) 1 None sample_report_db"

lemma sample_report_value:
  obtains r where "sample_report = Inr r" "pm_spent (ar_current r) = 1245000" "pm_spent (ar_previous r) = 1000000"
    "map gi_code (ar_insights r) = [''spending_increase'', ''merchant_concentration'']"
proof -
  have "case sample_report of Inl _ \<Rightarrow> False | Inr r \<Rightarrow>
    pm_spent (ar_current r) = 1245000 \<and> pm_spent (ar_previous r) = 1000000 \<and>
    map gi_code (ar_insights r) = [''spending_increase'', ''merchant_concentration'']" by code_simp
  with that show ?thesis by (cases sample_report) (simp_all only: sum.case)
qed

section \<open>Properties\<close>

text \<open>
  The insight about increased spending says that the spending is at least 25% above last month's, but
  it is emitted from a rounded percentage: an increase from 100 to 124.50 is reported with it.
\<close>

lemma increase_below_a_quarter_is_reported:
  "\<exists>r. sample_report = Inr r \<and> ''spending_increase'' \<in> set (map gi_code (ar_insights r)) \<and>
    4 * ar_total_change r < pm_spent (ar_previous r)"
proof -
  obtain r where r: "sample_report = Inr r" "pm_spent (ar_current r) = 1245000" "pm_spent (ar_previous r) = 1000000"
      "map gi_code (ar_insights r) = [''spending_increase'', ''merchant_concentration'']"
    by (rule sample_report_value)
  have "ar_total_change r = pm_spent (ar_current r) - pm_spent (ar_previous r)"
    using analytics_report_Inr [OF r(1)] by blast
  with r show ?thesis by (intro exI [of _ r]) simp
qed

text \<open>
  C9: the comparison report adds up and agrees with the ledger's own report. The contributions of the
  categories partition both months: their current amounts sum to the current spending, their previous
  ones to the previous spending, their changes to the total change, and no category occurs twice. The
  current spending is the \<open>spent\<close> of the financial summary of the same month and currency.
\<close>

theorem analytics_report_adds_up:
  assumes "analytics_report rank tz clock u currency db = Inr r"
  shows "(\<Sum>c\<leftarrow>ar_contributions r. contribution_current c) = pm_spent (ar_current r) \<and>
    (\<Sum>c\<leftarrow>ar_contributions r. contribution_previous c) = pm_spent (ar_previous r) \<and>
    (\<Sum>c\<leftarrow>ar_contributions r. contribution_change c) = ar_total_change r \<and>
    distinct (map (\<lambda>c. (cat_contribution_id c, cat_contribution_name c)) (ar_contributions r)) \<and>
    (\<exists>fs. financial_summary tz clock u currency None db = Inr fs \<and> fs_currency fs = ar_currency r \<and>
       fs_period_start fs = ar_current_start r \<and> fs_spent fs = pm_spent (ar_current r))"
proof -
  from analytics_report_Inr [OF assms] obtain s where rows:
      "ar_current r = period_metrics_of (scope_rows u s (rs_current s) (rs_current s) db)"
      "ar_previous r = period_metrics_of (scope_rows u s (rs_previous s) (rs_previous s) db)"
      "ar_contributions r = category_contributions (scope_rows u s (rs_current s) (rs_current s) db)
        (scope_rows u s (rs_previous s) (rs_previous s) db)"
    unfolding Let_def by blast
  with contributions_total [OF assms] report_and_summary [OF assms] show ?thesis
    by (simp add: spent_of_metrics contributions_add_up contributions_distinct)
qed

lemma analytics_report_adds_up_witness:
  "\<exists>r. sample_report = Inr r \<and> (\<Sum>c\<leftarrow>ar_contributions r. contribution_change c) = 245000"
proof -
  obtain r where r: "sample_report = Inr r" "pm_spent (ar_current r) = 1245000" "pm_spent (ar_previous r) = 1000000"
    by (rule sample_report_value)
  have "ar_total_change r = pm_spent (ar_current r) - pm_spent (ar_previous r)"
    using analytics_report_Inr [OF r(1)] by blast
  with r analytics_report_adds_up [OF r(1)] show ?thesis by (intro exI [of _ r]) simp
qed

text \<open>
  C10: insights are grounded in the owner's own records. With \<open>s\<close> the scope of the report (its currency,
  its months and the owner's local day), every insight cites at least one record; everything it cites is a
  posted spending transaction of the owner in the report's currency, or an unsettled receivable of the owner
  in that currency whose due date lies before that day. What it cites supports what it says: an increase
  cites exactly the spending of the current month and shows the report's change; a large transaction is one
  of at least three expenses of the month, at least twice as large as half of them; a concentration cites
  exactly the month's expenses at one merchant and shows their sum and its share of all expenses; a possible
  recurring payment cites exactly the expenses of one amount at one merchant, at least three, 25 to 35 days
  apart; a forgotten debt cites exactly the receivables that are past their due date.
\<close>

theorem insights_cite_the_owners_records:
  assumes "analytics_report rank tz clock u currency db = Inr r" "i \<in> set (ar_insights r)"
  shows "\<exists>s user. analytics_scope tz clock u currency db = Inr s \<and> ar_currency r = rs_currency s \<and>
    get_user u db = Some user \<and> local_date tz clock (uv_timezone user) = Inr (rs_today s) \<and>
    report_scope tz clock u currency None db = Inr (rs_currency s, rs_current s) \<and>
    (gi_transactions i \<noteq> [] \<or> gi_obligations i \<noteq> []) \<and>
    (\<forall>x \<in> set (gi_transactions i). \<exists>t \<in> set (transactions db). tx_id t = x \<and> tx_user t = u \<and>
       tx_currency t = ar_currency r \<and> tx_status t = POSTED \<and> tx_type t \<in> set spending_types) \<and>
    (\<forall>x \<in> set (gi_obligations i). \<exists>b \<in> set (receivables db). obl_id b = x \<and> obl_user b = u \<and>
       obl_currency b = ar_currency r \<and> (obl_status b = OPEN \<or> obl_status b = PARTIALLY_PAID) \<and>
       (\<exists>d. obl_due b = Some d \<and> d < rs_today s)) \<and>
    supported u s r db i"
proof -
  from analytics_report_Inr [OF assms(1)] obtain s where s: "analytics_scope tz clock u currency db = Inr s" and
    f: "ar_currency r = rs_currency s" and
    i: "ar_insights r = build_insights (scope_rows u s (rs_current s) (rs_current s) db)
      (scope_rows u s (rs_history s) (rs_current s) db) (ar_previous r) (ar_current r)
      (overdue_receivables rank u (rs_currency s) (rs_today s) db) (rs_today s)" and
    m: "ar_current r = period_metrics_of (scope_rows u s (rs_current s) (rs_current s) db)"
      "ar_total_change r = pm_spent (ar_current r) - pm_spent (ar_previous r)"
    unfolding Let_def by metis
  obtain user where user: "get_user u db = Some user" "local_date tz clock (uv_timezone user) = Inr (rs_today s)"
    using s by (auto simp: analytics_scope_def result_simps require_user_Inr)
  have sup: "supported u s r db i"
    using assms(2) m increase_is_supported [of i u s db r] large_is_supported [of i u s db]
      concentration_is_supported [of i u s db] recurring_is_supported [of i u s db] debt_is_supported [of i rank u s db]
    unfolding i build_insights_def Let_def set_append supported_def by blast
  show ?thesis
    using s f user analytics_scope_Inr(1) [OF s] sup supported_owner [OF sup] unfolding f owner_citations_def
    by (intro exI [of _ s] exI [of _ user] conjI) blast+
qed

lemma insights_cite_the_owners_records_witness:
  "\<exists>r i. sample_report = Inr r \<and> i \<in> set (ar_insights r) \<and> gi_code i = ''spending_increase'' \<and>
    (gi_transactions i \<noteq> [] \<or> gi_obligations i \<noteq> [])"
proof -
  obtain r where r: "sample_report = Inr r" "map gi_code (ar_insights r) = [''spending_increase'', ''merchant_concentration'']"
    by (rule sample_report_value)
  then obtain i rest where "ar_insights r = i # rest" "gi_code i = ''spending_increase''" by (cases "ar_insights r") auto
  with insights_cite_the_owners_records [OF r(1), of i] r(1) show ?thesis by (metis list.set_intros(1))
qed

end
