(* ===== verification/Providers.thy ===== *)
theory Providers
  imports Ingestion
begin

text \<open>
  Structured-completion providers: the contract of \<open>ai/contracts.py\<close>, the bounded retries of
  \<open>ai/retrying.py\<close>, the deterministic provider of \<open>ai/mock.py\<close> and the disabled one of
  \<open>ai/factory.py\<close>.

  A provider talks to the outside world: it is a function from a request and the state of that world
  to the new state and a completion or an error. Waiting is recorded as the list of the delays.
\<close>

section \<open>The contract\<close>

record completion_request =
  rq_system :: string
  rq_user :: string
  rq_format :: json
  rq_prompt :: string
  rq_version :: string
  rq_schema :: string

record telemetry =
  tm_provider :: string
  tm_model :: string
  tm_latency :: int
  tm_input :: "int option"
  tm_output :: "int option"
  tm_attempts :: int

record completion =
  cm_data :: json_object
  cm_telemetry :: telemetry

type_synonym 's provider = "completion_request \<Rightarrow> 's \<Rightarrow> 's \<times> completion result"

section \<open>Retries\<close>

definition RETRYABLE :: "string list" where
  "RETRYABLE = [''AI_PROVIDER_RATE_LIMITED'', ''AI_PROVIDER_TIMEOUT'', ''AI_PROVIDER_UNAVAILABLE'']"

fun retryable :: "error \<Rightarrow> bool" where
  "retryable (AIProviderError code) = (code \<in> set RETRYABLE)"
| "retryable _ = False"

record retry_settings =
  rt_attempts :: int
  rt_backoff :: rat

definition mk_retrying :: "int \<Rightarrow> rat \<Rightarrow> retry_settings result" where
  "mk_retrying max_attempts backoff_seconds =
     bindE (ensure (1 \<le> max_attempts \<and> max_attempts \<le> 4) ValueError) (\<lambda>_.
     bindE (ensure (0 \<le> backoff_seconds \<and> backoff_seconds \<le> 10) ValueError) (\<lambda>_.
       Inr \<lparr>rt_attempts = max_attempts, rt_backoff = backoff_seconds\<rparr>))"

definition with_attempts :: "nat \<Rightarrow> completion \<Rightarrow> completion" where
  "with_attempts k c = c\<lparr>cm_telemetry := (cm_telemetry c)\<lparr>tm_attempts := int k\<rparr>\<rparr>"

definition retry_delay_before :: "rat \<Rightarrow> nat \<Rightarrow> rat list" where
  "retry_delay_before backoff k = (let delay = backoff * 2 ^ (k - 1) in if delay = 0 then [] else [delay])"

text \<open>Attempt number \<open>k\<close> with \<open>left\<close> further attempts allowed.\<close>

primrec retry_from ::
  "'s provider \<Rightarrow> rat \<Rightarrow> completion_request \<Rightarrow> nat \<Rightarrow> nat \<Rightarrow> 's \<Rightarrow> 's \<times> rat list \<times> completion result" where
  "retry_from prov backoff req k 0 s =
     (case prov req s of (s1, Inr c) \<Rightarrow> (s1, [], Inr (with_attempts k c)) | (s1, Inl e) \<Rightarrow> (s1, [], Inl e))"
| "retry_from prov backoff req k (Suc left) s =
     (case prov req s of
        (s1, Inr c) \<Rightarrow> (s1, [], Inr (with_attempts k c))
      | (s1, Inl e) \<Rightarrow>
          if retryable e
          then (case retry_from prov backoff req (Suc k) left s1 of
                  (s2, delays, r) \<Rightarrow> (s2, retry_delay_before backoff k @ delays, r))
          else (s1, [], Inl e))" for prov backoff req

definition retrying_complete ::
  "'s provider \<Rightarrow> retry_settings \<Rightarrow> completion_request \<Rightarrow> 's \<Rightarrow> 's \<times> rat list \<times> completion result" where
  "retrying_complete prov rs req s = retry_from prov (rt_backoff rs) req 1 (nat (rt_attempts rs - 1)) s"

definition retrying_provider :: "'s provider \<Rightarrow> retry_settings \<Rightarrow> 's provider" where
  "retrying_provider prov rs req s = (case retrying_complete prov rs req s of (s1, _, r) \<Rightarrow> (s1, r))"

section \<open>Offline providers\<close>

definition mock_telemetry :: telemetry where
  "mock_telemetry = \<lparr>tm_provider = ''mock'', tm_model = ''deterministic-fixture'', tm_latency = 0, tm_input = Some 0,
     tm_output = Some 0, tm_attempts = 1\<rparr>"

text \<open>The state of the mock: the queued responses and the requests it has seen.\<close>

fun mock_complete :: "(json_object list \<times> completion_request list) provider" where
  "mock_complete req ([], seen) = (([], seen @ [req]), Inl (AIProviderError ''MOCK_PROVIDER_EXHAUSTED''))"
| "mock_complete req (d # ds, seen) = ((ds, seen @ [req]), Inr \<lparr>cm_data = d, cm_telemetry = mock_telemetry\<rparr>)"

definition disabled_complete :: "'s provider" where
  "disabled_complete req s = (s, Inl (AIProviderError ''AI_PROVIDER_DISABLED''))"

section \<open>How a provider is called\<close>

text \<open>The states of the world after each of \<open>n\<close> calls that all failed with a retryable error.\<close>

inductive fails :: "'s provider \<Rightarrow> completion_request \<Rightarrow> nat \<Rightarrow> 's \<Rightarrow> 's \<Rightarrow> bool" for prov req where
  none: "fails prov req 0 s s"
| again: "prov req s = (s1, Inl e) \<Longrightarrow> retryable e \<Longrightarrow> fails prov req n s1 s2 \<Longrightarrow> fails prov req (Suc n) s s2"

text \<open>
  The loop ends with the first call that succeeds or fails for good, or with the last one allowed; all
  calls before it failed with a retryable error, and the delays double.
\<close>

lemma retry_from_spec:
  assumes "retry_from prov backoff req k left s = (s', delays, r)"
  shows "\<exists>n s1 r1. n \<le> left \<and> fails prov req n s s1 \<and> prov req s1 = (s', r1) \<and>
    (case r1 of Inr c \<Rightarrow> r = Inr (with_attempts (k + n) c) | Inl e \<Rightarrow> r = Inl e \<and> (retryable e \<longrightarrow> n = left)) \<and>
    delays = concat (map (retry_delay_before backoff) [k..<k + n])"
  using assms
proof (induction left arbitrary: k s delays)
  case 0
  obtain s1 r1 where p: "prov req s = (s1, r1)" by fastforce
  with 0 show ?case by (intro exI [of _ 0] exI [of _ s] exI [of _ r1]) (auto intro: fails.none split: sum.splits)
next
  case (Suc left)
  obtain s1 r1 where p: "prov req s = (s1, r1)" by fastforce
  show ?case
  proof (cases "\<exists>e. r1 = Inl e \<and> retryable e")
    case True
    then obtain e where e: "r1 = Inl e" "retryable e" by blast
    obtain s2 ds r2 where rec: "retry_from prov backoff req (Suc k) left s1 = (s2, ds, r2)" by (metis prod_cases3)
    with Suc.prems p e have q: "retry_from prov backoff req (Suc k) left s1 = (s', ds, r)"
      "delays = retry_delay_before backoff k @ ds" by simp_all
    from Suc.IH [OF q(1)] obtain n s3 r3 where n: "n \<le> left" "fails prov req n s1 s3" "prov req s3 = (s', r3)"
      "case r3 of Inr c \<Rightarrow> r = Inr (with_attempts (Suc k + n) c) | Inl e \<Rightarrow> r = Inl e \<and> (retryable e \<longrightarrow> n = left)"
      "ds = concat (map (retry_delay_before backoff) [Suc k..<Suc k + n])" by blast
    have "[k..<k + Suc n] = k # [Suc k..<Suc k + n]" by (simp add: upt_conv_Cons del: upt_Suc)
    then have "delays = concat (map (retry_delay_before backoff) [k..<k + Suc n])" by (simp add: q(2) n(5) del: upt_Suc)
    moreover have "fails prov req (Suc n) s s3" using p e n(2) by (auto intro: fails.again)
    ultimately show ?thesis using n by (intro exI [of _ "Suc n"] exI [of _ s3] exI [of _ r3]) (auto split: sum.splits)
  next
    case False
    with p Suc.prems show ?thesis
      by (intro exI [of _ 0] exI [of _ s] exI [of _ r1]) (auto intro: fails.none split: sum.splits)
  qed
qed

section \<open>Properties\<close>

text \<open>
  Retries are bounded and only follow transient failures. With accepted settings a request is tried
  at most \<open>max_attempts \<le> 4\<close> times: every try but the last failed with a rate limit, a timeout or an
  unavailable provider; the outcome is that of the last try, stamped with its number when it succeeded;
  a transient error is only reported when all attempts are used up. The delays start at the backoff and
  double, so together they stay below 70 seconds.
\<close>

theorem retries_are_bounded:
  assumes "mk_retrying max_attempts backoff = Inr rs" "retrying_complete prov rs req s = (s', delays, r)"
  shows "\<exists>n s1 r1. int n < max_attempts \<and> n < 4 \<and> fails prov req n s s1 \<and> prov req s1 = (s', r1) \<and>
    (case r1 of Inr c \<Rightarrow> r = Inr (with_attempts (n + 1) c)
     | Inl e \<Rightarrow> r = Inl e \<and> (retryable e \<longrightarrow> int n = max_attempts - 1)) \<and>
    delays = (if backoff = 0 then [] else map (\<lambda>i. backoff * 2 ^ i) [0..<n]) \<and> sum_list delays \<le> 70"
proof -
  from assms(1) have m: "1 \<le> max_attempts" "max_attempts \<le> 4" "0 \<le> backoff" "backoff \<le> 10" and
    rs: "rs = \<lparr>rt_attempts = max_attempts, rt_backoff = backoff\<rparr>"
    by (auto simp: mk_retrying_def result_simps)
  have q: "retry_from prov backoff req 1 (nat (max_attempts - 1)) s = (s', delays, r)"
    using assms(2) by (simp add: retrying_complete_def rs)
  from retry_from_spec [OF q] obtain n s1 r1 where n: "n \<le> nat (max_attempts - 1)" "fails prov req n s s1" "prov req s1 = (s', r1)"
    "case r1 of Inr c \<Rightarrow> r = Inr (with_attempts (1 + n) c) | Inl e \<Rightarrow> r = Inl e \<and> (retryable e \<longrightarrow> n = nat (max_attempts - 1))"
    "delays = concat (map (retry_delay_before backoff) [1..<1 + n])"
    by blast
  have d: "concat (map (retry_delay_before backoff) [1..<1 + k]) = (if backoff = 0 then [] else map (\<lambda>i. backoff * 2 ^ i) [0..<k])" for k
    by (induction k) (auto simp: retry_delay_before_def)
  have n3: "n \<le> 3" using n(1) m by linarith
  then consider "n = 0" | "n = 1" | "n = 2" | "n = 3" by linarith
  then have "sum_list (map (\<lambda>i. backoff * 2 ^ i) [0..<n]) \<le> 70"
    using m by cases (simp_all add: upt_rec)
  moreover have dn: "delays = (if backoff = 0 then [] else map (\<lambda>i. backoff * 2 ^ i) [0..<n])"
    unfolding n(5) by (rule d)
  ultimately have "sum_list delays \<le> 70" by simp
  moreover have "int n < max_attempts" "n < 4" using n(1) m by linarith+
  ultimately show ?thesis using n m
    by (intro exI [of _ n] exI [of _ s1] exI [of _ r1]) (auto simp: dn split: sum.splits)
qed

text \<open>A provider that times out once and then answers.\<close>

definition flaky :: "bool provider" where
  "flaky req answered =
     (True, if answered then Inr \<lparr>cm_data = [], cm_telemetry = mock_telemetry\<rparr> else Inl (AIProviderError ''AI_PROVIDER_TIMEOUT''))"

lemma retries_are_bounded_witness:
  "\<exists>r. retrying_complete flaky \<lparr>rt_attempts = 2, rt_backoff = 1 / 4\<rparr> req False = (True, [1 / 4], Inr r) \<and>
    tm_attempts (cm_telemetry r) = 2 \<and> sum_list [1 / 4 :: rat] \<le> 70"
proof -
  have s: "mk_retrying 2 (1 / 4) = Inr \<lparr>rt_attempts = 2, rt_backoff = 1 / 4\<rparr>"
    by (simp add: mk_retrying_def)
  have "retrying_complete flaky \<lparr>rt_attempts = 2, rt_backoff = 1 / 4\<rparr> req False =
      (True, [1 / 4], Inr (with_attempts 2 \<lparr>cm_data = [], cm_telemetry = mock_telemetry\<rparr>))"
    by (simp add: retrying_complete_def flaky_def retry_delay_before_def RETRYABLE_def numeral_2_eq_2)
  with retries_are_bounded [OF s this] show ?thesis by (simp add: with_attempts_def)
qed

end
