(* ===== verification/Note_Extraction.thy ===== *)
theory Note_Extraction
  imports Providers
begin

text \<open>
  Interpreting one note: \<open>ai/extraction.py\<close> with the constants of \<open>ai/prompts/financial_note_v1.py\<close>.

  Reading the provider's JSON object into typed fields is Pydantic's; it is the parameter
  \<open>xt_fields\<close>, and the JSON schema it generates the parameter \<open>xt_format\<close>. The validators that the
  program writes are defined here, with the fields of theory \<open>Ingestion\<close>. The text of the system
  prompt is passed along and never inspected. Timestamps reach the extractor in UTC, which is how the
  prompt prints them.
\<close>

section \<open>The prompt\<close>

definition PROMPT_NAME :: string where "PROMPT_NAME = ''financial_note_extraction''"
definition PROMPT_VERSION :: string where "PROMPT_VERSION = ''1.0.0''"
definition NOTE_SCHEMA_VERSION :: string where "NOTE_SCHEMA_VERSION = ''financial-note-event/v1''"

definition padded :: "nat \<Rightarrow> int \<Rightarrow> string" where
  "padded width n = (let ds = show_digits n in replicate (width - length ds) (CHR ''0'') @ ds)"

text \<open>\<open>datetime.isoformat\<close> of an instant in UTC: the microseconds are left out when they are zero.\<close>

definition isoformat_utc :: "instant \<Rightarrow> string" where
  "isoformat_utc t =
     (let d = wall_date t; s = t mod DAY_US div 1000000; us = t mod 1000000
      in padded 4 (year d) @ ''-'' @ padded 2 (month d) @ ''-'' @ padded 2 (day d) @ ''T'' @
         padded 2 (s div 3600) @ '':'' @ padded 2 (s div 60 mod 60) @ '':'' @ padded 2 (s mod 60) @
         (if us = 0 then [] else ''.'' @ padded 6 us) @ ''+00:00'')"

definition newline :: string where "newline = [char_of (10 :: nat)]"

definition build_user_prompt :: "string \<Rightarrow> instant \<Rightarrow> string \<Rightarrow> string \<Rightarrow> string" where
  "build_user_prompt note source_timestamp zone default_currency =
     ''TRUSTED_CONTEXT'' @ newline @
     ''source_timestamp='' @ isoformat_utc source_timestamp @ newline @
     ''timezone='' @ zone @ newline @
     ''default_currency='' @ default_currency @ newline @
     ''END_TRUSTED_CONTEXT'' @ newline @ newline @
     ''UNTRUSTED_NOTE'' @ newline @ note @ newline @ ''END_UNTRUSTED_NOTE''"

section \<open>The extracted event\<close>

record extraction_fields =
  xf_kind :: normalized_event_kind
  xf_amount :: "decimal option"
  xf_currency :: "string option"
  xf_description :: string
  xf_occurred_at :: "py_datetime option"
  xf_due_date :: "date option"
  xf_merchant :: "string option"
  xf_counterparty :: "string option"
  xf_recurrence :: "recurrence_rule option"
  xf_next_date :: "date option"
  xf_category_hint :: "string option"
  xf_tags :: "string list"
  xf_confidence :: decimal

record extracted_event =
  ee_kind :: normalized_event_kind
  ee_amount :: "money option"
  ee_currency :: "string option"
  ee_description :: string
  ee_occurred_at :: "instant option"
  ee_due_date :: "date option"
  ee_merchant :: "string option"
  ee_counterparty :: "string option"
  ee_recurrence :: "recurrence_rule option"
  ee_next_date :: "date option"
  ee_category_hint :: "string option"
  ee_tags :: "string list"
  ee_confidence :: int

definition mk_extracted :: "extraction_fields \<Rightarrow> extracted_event result" where
  "mk_extracted f =
     bindE (amount_field (xf_amount f)) (\<lambda>amt.
     bindE (currency_field (xf_currency f)) (\<lambda>cur.
     bindE (required_text 500 (xf_description f)) (\<lambda>desc.
     bindE (aware_instant (xf_occurred_at f)) (\<lambda>ts.
     bindE (optional_text 160 (xf_merchant f)) (\<lambda>mer.
     bindE (optional_text 160 (xf_counterparty f)) (\<lambda>party.
     bindE (optional_text 80 (xf_category_hint f)) (\<lambda>hnt.
     bindE (normalize_tags (xf_tags f)) (\<lambda>tgs.
     bindE (bindE (confidence_field (Some (xf_confidence f))) (require ValueError)) (\<lambda>conf.
     bindE (ensure ((amt = None) = (cur = None)) ValueError) (\<lambda>_.
       Inr \<lparr>ee_kind = xf_kind f, ee_amount = amt, ee_currency = cur, ee_description = desc, ee_occurred_at = ts,
            ee_due_date = xf_due_date f, ee_merchant = mer, ee_counterparty = party,
            ee_recurrence = xf_recurrence f, ee_next_date = xf_next_date f, ee_category_hint = hnt,
            ee_tags = tgs, ee_confidence = conf\<rparr>))))))))))"

section \<open>Review reasons\<close>

definition KINDS_REQUIRING_MONEY :: "normalized_event_kind list" where
  "KINDS_REQUIRING_MONEY = [KIND_EXPENSE, KIND_INCOME, KIND_REFUND, KIND_SHARED_EXPENSE, KIND_RECEIVABLE,
     KIND_PAYABLE, KIND_RECURRING]"

definition review_reasons :: "extracted_event \<Rightarrow> rat \<Rightarrow> string list" where
  "review_reasons e threshold =
     ''AI_REVIEW_REQUIRED'' #
     (if dec_value (ee_confidence e) (-4) < threshold then [''LOW_CONFIDENCE''] else []) @
     (if ee_kind e \<in> set KINDS_REQUIRING_MONEY \<and> ee_amount e = None then [''MISSING_AMOUNT_OR_CURRENCY''] else []) @
     (if ee_occurred_at e = None then [''MISSING_OCCURRED_AT''] else []) @
     (if (ee_kind e = KIND_RECEIVABLE \<or> ee_kind e = KIND_PAYABLE) \<and> ee_counterparty e = None
      then [''MISSING_COUNTERPARTY''] else []) @
     (if ee_kind e = KIND_RECURRING \<and> ee_recurrence e = None then [''MISSING_RECURRENCE_RULE''] else []) @
     (if ee_kind e = KIND_RECURRING \<and> ee_next_date e = None then [''MISSING_NEXT_EXPECTED_DATE''] else [])"

section \<open>The extractor\<close>

record extraction_context =
  xc_timestamp :: py_datetime
  xc_timezone :: string
  xc_currency :: string

record extraction_result =
  xr_event :: extracted_event
  xr_requires_review :: bool
  xr_reasons :: "string list"
  xr_prompt :: string
  xr_version :: string
  xr_schema :: string
  xr_telemetry :: telemetry

record extractor =
  xt_max_chars :: nat
  xt_threshold :: rat
  xt_system :: string
  xt_format :: json
  xt_fields :: "json_object \<Rightarrow> extraction_fields result"

text \<open>The checks before the provider is called; a ledger validation error becomes the given one.\<close>

definition translate :: "string \<Rightarrow> 'a result \<Rightarrow> 'a result" where
  "translate code r = (case r of Inl (LedgerValidationError _ _) \<Rightarrow> Inl (AIOutputError code) | Inl e \<Rightarrow> Inl e | Inr x \<Rightarrow> Inr x)"

definition extraction_request :: "extractor \<Rightarrow> tzdata \<Rightarrow> string \<Rightarrow> extraction_context \<Rightarrow> completion_request result" where
  "extraction_request xt tz note ctx =
     (let normalized_note = strip note in
      bindE (ensure (normalized_note \<noteq> []) (AIOutputError ''EMPTY_FINANCIAL_NOTE'')) (\<lambda>_.
      bindE (ensure (length normalized_note \<le> xt_max_chars xt) (AIOutputError ''FINANCIAL_NOTE_TOO_LONG'')) (\<lambda>_.
      case xc_timestamp ctx of
        Naive _ \<Rightarrow> Inl (AIOutputError ''INVALID_SOURCE_TIMESTAMP'')
      | Aware ts \<Rightarrow>
          bindE (translate ''INVALID_SOURCE_TIMEZONE'' (parse_timezone tz (xc_timezone ctx))) (\<lambda>_.
          bindE (translate ''INVALID_DEFAULT_CURRENCY'' (parse_currency (xc_currency ctx))) (\<lambda>default_currency.
            Inr \<lparr>rq_system = xt_system xt, rq_user = build_user_prompt normalized_note ts (xc_timezone ctx) default_currency,
                 rq_format = xt_format xt, rq_prompt = PROMPT_NAME, rq_version = PROMPT_VERSION,
                 rq_schema = NOTE_SCHEMA_VERSION\<rparr>)))))"

definition validated_event :: "extractor \<Rightarrow> json_object \<Rightarrow> extracted_event result" where
  "validated_event xt data =
     (case bindE (xt_fields xt data) mk_extracted of
        Inl _ \<Rightarrow> Inl (AIOutputError ''AI_OUTPUT_SCHEMA_INVALID'')
      | Inr e \<Rightarrow> Inr e)"

definition result_of :: "extractor \<Rightarrow> completion \<Rightarrow> extraction_result result" where
  "result_of xt c =
     bindE (validated_event xt (cm_data c)) (\<lambda>event.
       Inr \<lparr>xr_event = event, xr_requires_review = True, xr_reasons = review_reasons event (xt_threshold xt),
            xr_prompt = PROMPT_NAME, xr_version = PROMPT_VERSION, xr_schema = NOTE_SCHEMA_VERSION,
            xr_telemetry = cm_telemetry c\<rparr>)"

definition extract_note ::
  "extractor \<Rightarrow> 's provider \<Rightarrow> tzdata \<Rightarrow> string \<Rightarrow> extraction_context \<Rightarrow> 's \<Rightarrow> 's \<times> extraction_result result" where
  "extract_note xt prov tz note ctx s =
     (case extraction_request xt tz note ctx of
        Inl e \<Rightarrow> (s, Inl e)
      | Inr req \<Rightarrow>
          (case prov req s of (s1, Inl e) \<Rightarrow> (s1, Inl e) | (s1, Inr c) \<Rightarrow> (s1, result_of xt c)))"

section \<open>Validation is idempotent\<close>

text \<open>Fields that a validator produced pass it again unchanged.\<close>

definition contract_of :: "extracted_event \<Rightarrow> financial_event result" where
  "contract_of e =
     mk_event (ee_kind e) (map_option stored_decimal (ee_amount e)) (ee_currency e) (ee_description e)
       (map_option Aware (ee_occurred_at e)) (ee_merchant e) (ee_counterparty e) (ee_category_hint e) (ee_tags e) []
       (Some (stored_decimal (ee_confidence e)))"

lemma required_text_again: "required_text k v = Inr t \<Longrightarrow> required_text k t = Inr t"
  by (auto simp: required_text_def Let_def split: if_splits)

lemma optional_text_again: "optional_text k v = Inr t \<Longrightarrow> optional_text k t = Inr t"
  by (auto simp: optional_text_def Let_def split: option.splits if_splits)

lemma aware_instant_again: "aware_instant v = Inr t \<Longrightarrow> aware_instant (map_option Aware t) = Inr t"
  by (auto simp: aware_instant_def split: option.splits py_datetime.splits)

lemma supported_currency_parses: "list_all (\<lambda>c. parse_currency c = Inr c) SUPPORTED_CURRENCIES"
  by code_simp

lemma currency_field_again:
  assumes "currency_field v = Inr c"
  shows "currency_field c = Inr c"
proof (cases c)
  case (Some cur)
  with assms obtain raw where "parse_currency raw = Inr cur" by (auto simp: currency_field_def split: option.splits sum.splits)
  then have "cur \<in> set SUPPORTED_CURRENCIES" by (auto simp: parse_currency_def split: sum.splits if_splits)
  then have "parse_currency cur = Inr cur" using supported_currency_parses by (auto simp: list_all_iff)
  with Some show ?thesis by (simp add: currency_field_def)
qed (simp add: currency_field_def)

lemma first_by_distinct: "distinct (map f (first_by f seen xs)) \<and> f ` set (first_by f seen xs) \<inter> set seen = {}"
  by (induction f seen xs rule: first_by.induct) auto

lemma first_by_subset: "set (first_by f seen xs) \<subseteq> set xs"
  by (induction f seen xs rule: first_by.induct) auto

lemma first_by_id: "distinct (map f xs) \<Longrightarrow> f ` set xs \<inter> set seen = {} \<Longrightarrow> first_by f seen xs = xs"
  by (induction f seen xs rule: first_by.induct) auto

lemma normalize_tags_again:
  assumes "normalize_tags v = Inr ts"
  shows "normalize_tags ts = Inr ts"
proof -
  let ?tags = "filter (\<lambda>t. t \<noteq> []) (map normalize_display_text v)"
  from assms have ts: "ts = first_by casefold [] ?tags" and ok: "\<not> list_ex (\<lambda>t. MAX_TAG_LENGTH < length t) ?tags" "length ts \<le> MAX_TAGS"
    by (auto simp: normalize_tags_def Let_def split: if_splits)
  have sub: "set ts \<subseteq> set ?tags" unfolding ts by (rule first_by_subset)
  then have "map normalize_display_text ts = ts" by (intro map_idI) auto
  moreover have "filter (\<lambda>t. t \<noteq> []) ts = ts" using sub by (intro filter_True) auto
  moreover have "first_by casefold [] ts = ts"
    using first_by_distinct [of casefold "[]" ?tags] unfolding ts by (intro first_by_id) auto
  moreover have "\<not> list_ex (\<lambda>t. MAX_TAG_LENGTH < length t) ts" using sub ok(1) by (auto simp: list_ex_iff)
  ultimately show ?thesis using ok(2) by (simp add: normalize_tags_def Let_def)
qed

lemma four_places_exact:
  assumes "four_places c e"
  shows "\<exists>u. dec_value c e = dec_value u (-4) \<and> c * 10 ^ nat (e + 4) = u * 10 ^ nat (- (e + 4))"
proof -
  obtain u where u: "c * 10 ^ nat (e + 4) = 10 ^ nat (- (e + 4)) * u"
    using assms by (auto simp: four_places_def at_scale_def elim: dvdE)
  have "dec_value c e * 10 ^ 4 = of_int (c * 10 ^ nat (e + 4)) / of_int (10 ^ nat (- (e + 4)))"
    using dec_value_scale [of c e 4] by (simp only: of_nat_numeral)
  also have "\<dots> = of_int u" unfolding u by simp
  finally have "dec_value c e = dec_value u (-4)" by (simp add: dec_value_def at_scale_def field_simps)
  with u show ?thesis by (auto simp: mult.commute)
qed

lemma four_places_stored [simp]: "four_places u (-4)"
  by (simp add: four_places_def at_scale_def)

lemma amount_field_Inr:
  assumes "amount_field v = Inr (Some a)"
  shows "amount_field (Some (stored_decimal a)) = Inr (Some a)" "0 < a" "a < 10 ^ 19"
proof -
  from assms obtain c e where v: "0 < dec_value c e" "dec_value c e < 10 ^ 15" "four_places c e" "a = numeric_19_4 (Dec c e)"
    by (cases v rule: amount_field.cases) (auto simp del: numeric_19_4.simps split: if_splits)
  from four_places_exact [OF v(3)] obtain u where u: "dec_value c e = dec_value u (-4)"
    and n: "c * 10 ^ nat (e + 4) = u * 10 ^ nat (- (e + 4))" by blast
  have "a = half_up (c * 10 ^ nat (e + 4)) (10 ^ nat (- (e + 4)))" unfolding v(4) by (simp add: at_scale_def MONEY_SCALE_def)
  then have a: "a = u" unfolding n by (simp add: half_up_exact)
  then show "amount_field (Some (stored_decimal a)) = Inr (Some a)"
    using v u numeric_stored [of u] by (simp add: stored_decimal_def del: numeric_19_4.simps)
  have "of_int a = dec_value u (-4) * 10 ^ 4" by (simp add: a dec_value_def at_scale_def)
  with v(1,2) u have "(0 :: rat) < of_int a" "(of_int a :: rat) < of_int (10 ^ 19)" by simp_all
  then show "0 < a" "a < 10 ^ 19" by (simp_all only: of_int_less_iff of_int_0_less_iff)
qed

lemma amount_field_again:
  assumes "amount_field v = Inr a"
  shows "amount_field (map_option stored_decimal a) = Inr a"
  using amount_field_Inr(1) assms by (cases a) auto

lemma confidence_field_Inr:
  assumes "confidence_field v = Inr (Some k)"
  shows "confidence_field (Some (stored_decimal k)) = Inr (Some k)" "0 \<le> k" "k \<le> 10000"
proof -
  from assms obtain c e where v: "0 \<le> dec_value c e" "dec_value c e \<le> 1" "four_places c e" "k = quantize_4 (Dec c e)"
    by (cases v rule: confidence_field.cases) (auto simp del: quantize_4.simps split: if_splits)
  from four_places_exact [OF v(3)] obtain u where u: "dec_value c e = dec_value u (-4)"
    and n: "c * 10 ^ nat (e + 4) = u * 10 ^ nat (- (e + 4))" by blast
  have val: "of_int u = dec_value u (-4) * 10 ^ 4" by (simp add: dec_value_def at_scale_def)
  with v u have "(0 :: rat) \<le> of_int u" "(of_int u :: rat) \<le> of_int 10000" by simp_all
  then have b: "0 \<le> u" "u \<le> 10000" by (simp_all only: of_int_le_iff of_int_0_le_iff)
  have h: "half_even_signed (u * m) m = u" if "0 < m" for m :: int
    using that b(1) by (cases "u = 0") (simp_all add: half_even_signed_def half_even_def sgn_if abs_mult)
  have "k = half_even_signed (c * 10 ^ nat (e + 4)) (10 ^ nat (- (e + 4)))" unfolding v(4) by (simp add: at_scale_def)
  then have k: "k = u" unfolding n by (simp add: h)
  with b show "0 \<le> k" "k \<le> 10000" by simp_all
  have "quantize_4 (Dec u (-4)) = u" using h [of 1] by (simp add: at_scale_def)
  then show "confidence_field (Some (stored_decimal k)) = Inr (Some k)"
    using v u by (simp add: stored_decimal_def k del: quantize_4.simps)
qed

lemma payment_identifiers_Nil [simp]: "normalize_payment_identifiers [] = Inr []"
  by (simp add: normalize_payment_identifiers_def)

text \<open>What the validators promise of an accepted answer.\<close>

lemma required_text_Inr: "required_text k v = Inr s \<Longrightarrow> normalize_display_text s = s \<and> s \<noteq> [] \<and> length s \<le> k"
  by (auto simp: required_text_def Let_def split: if_splits)

lemma optional_text_Inr: "optional_text k v = Inr s \<Longrightarrow> case s of None \<Rightarrow> True | Some w \<Rightarrow> length w \<le> k"
  by (auto simp: optional_text_def Let_def split: option.splits if_splits)

lemma display_not_blank:
  assumes "normalize_display_text s = s" "s \<noteq> []"
  shows "not_blank s"
proof -
  from assms normalize_blank_iff [of s] obtain c where "c \<in> set s" "\<not> is_space c" by auto
  then show ?thesis by (rule not_blank_word)
qed

lemma currency_field_Inr: "currency_field v = Inr (Some c) \<Longrightarrow> currency_pattern c"
  by (auto simp: currency_field_def parse_currency_def normalize_currency_code_def Let_def split: option.splits sum.splits if_splits)

lemma mk_extracted_Inr:
  assumes "mk_extracted f = Inr e"
  shows "(ee_amount e = None) = (ee_currency e = None)" "ee_amount e = Some a \<Longrightarrow> 0 < a \<and> a < 10 ^ 19"
    "ee_currency e = Some c \<Longrightarrow> currency_pattern c" "not_blank (ee_description e)" "length (ee_description e) \<le> 500"
    "case ee_merchant e of None \<Rightarrow> True | Some w \<Rightarrow> length w \<le> 160"
    "case ee_counterparty e of None \<Rightarrow> True | Some w \<Rightarrow> length w \<le> 160"
    "case ee_category_hint e of None \<Rightarrow> True | Some w \<Rightarrow> length w \<le> 80"
    "0 \<le> ee_confidence e" "ee_confidence e \<le> 10000"
proof -
  from assms have v: "amount_field (xf_amount f) = Inr (ee_amount e)" "currency_field (xf_currency f) = Inr (ee_currency e)"
    "required_text 500 (xf_description f) = Inr (ee_description e)" "optional_text 160 (xf_merchant f) = Inr (ee_merchant e)"
    "optional_text 160 (xf_counterparty f) = Inr (ee_counterparty e)"
    "optional_text 80 (xf_category_hint f) = Inr (ee_category_hint e)"
    "confidence_field (Some (xf_confidence f)) = Inr (Some (ee_confidence e))"
    and money: "(ee_amount e = None) = (ee_currency e = None)"
    by (auto simp: mk_extracted_def result_simps)
  show "(ee_amount e = None) = (ee_currency e = None)" by (fact money)
  show "0 < a \<and> a < 10 ^ 19" if "ee_amount e = Some a" using amount_field_Inr [of "xf_amount f" a] v(1) that by simp
  show "currency_pattern c" if "ee_currency e = Some c" using currency_field_Inr v(2) that by simp
  show "not_blank (ee_description e)" "length (ee_description e) \<le> 500"
    using required_text_Inr [OF v(3)] display_not_blank by blast+
  show "case ee_merchant e of None \<Rightarrow> True | Some w \<Rightarrow> length w \<le> 160"
    "case ee_counterparty e of None \<Rightarrow> True | Some w \<Rightarrow> length w \<le> 160"
    "case ee_category_hint e of None \<Rightarrow> True | Some w \<Rightarrow> length w \<le> 80"
    using v(4-6) [THEN optional_text_Inr] by simp_all
  show "0 \<le> ee_confidence e" "ee_confidence e \<le> 10000" using confidence_field_Inr(2,3) [OF v(7)] by simp_all
qed

text \<open>The contract that an extracted event becomes when it is approved.\<close>

lemma contract_of_extracted:
  assumes "mk_extracted f = Inr e"
  shows "contract_of e = Inr \<lparr>fe_schema = SCHEMA_VERSION, fe_kind = ee_kind e, fe_amount = ee_amount e,
    fe_currency = ee_currency e, fe_description = ee_description e, fe_occurred_at = ee_occurred_at e,
    fe_merchant = ee_merchant e, fe_counterparty = ee_counterparty e, fe_category_hint = ee_category_hint e,
    fe_tags = ee_tags e, fe_identifiers = [], fe_confidence = Some (ee_confidence e)\<rparr>"
proof -
  from assms obtain conf where
    "amount_field (xf_amount f) = Inr (ee_amount e)" "currency_field (xf_currency f) = Inr (ee_currency e)"
    "required_text 500 (xf_description f) = Inr (ee_description e)"
    "aware_instant (xf_occurred_at f) = Inr (ee_occurred_at e)" "optional_text 160 (xf_merchant f) = Inr (ee_merchant e)"
    "optional_text 160 (xf_counterparty f) = Inr (ee_counterparty e)"
    "optional_text 80 (xf_category_hint f) = Inr (ee_category_hint e)" "normalize_tags (xf_tags f) = Inr (ee_tags e)"
    "confidence_field (Some (xf_confidence f)) = Inr (Some (ee_confidence e))" "(ee_amount e = None) = (ee_currency e = None)"
    by (auto simp: mk_extracted_def result_simps)
  then show ?thesis
    unfolding contract_of_def mk_event_def
    by (simp add: amount_field_again currency_field_again required_text_again optional_text_again aware_instant_again
        normalize_tags_again confidence_field_Inr(1) del: option.map)
qed

end
