(* ===== verification/Proposals.thy ===== *)
theory Proposals
  imports Note_Extraction Ingestion_Service
begin

text \<open>
  The review queue of extracted events: \<open>ai/proposal_dto.py\<close>, \<open>ai/proposal_repository.py\<close> and, of
  \<open>ai/proposal_service.py\<close>, extracting a stored raw event, listing, rejecting and approving a proposal.
  The table is in theory \<open>Reconciliation\<close>.

  Extraction reads in one transaction, calls the provider outside of any, and writes in another one, so
  its model returns the state of the provider, the tables and the outcome. Rejecting and approving are
  one transaction each.
\<close>

section \<open>The repository\<close>

record raw_extraction_context =
  rx_raw :: uuid
  rx_connector :: connector_type
  rx_occurred_at :: "instant option"
  rx_payload :: json_object
  rx_timezone :: string
  rx_currency :: string

record proposal_view =
  pv_id :: uuid
  pv_raw :: uuid
  pv_source :: connector_type
  pv_kind :: normalized_event_kind
  pv_amount :: "money option"
  pv_currency :: "string option"
  pv_description :: string
  pv_occurred_at :: "instant option"
  pv_due_date :: "date option"
  pv_merchant :: "string option"
  pv_counterparty :: "string option"
  pv_recurrence :: "recurrence_rule option"
  pv_next_date :: "date option"
  pv_category_hint :: "string option"
  pv_tags :: "string list"
  pv_confidence :: int
  pv_status :: proposal_status
  pv_reasons :: "string list"
  pv_provider :: string
  pv_model :: string
  pv_version :: string
  pv_created_at :: instant
  pv_target_type :: "string option"
  pv_target :: "uuid option"

text \<open>The connector of a raw event, both visible to the owner.\<close>

definition source_of_raw :: "uuid \<Rightarrow> uuid \<Rightarrow> 'a ingestion_db_scheme \<Rightarrow> (raw_row \<times> connection_row) option" where
  "source_of_raw user_id raw_event_id db =
     Option.bind (select_one (\<lambda>r. raw_id r = raw_event_id \<and> raw_user r = user_id) (raw_events db)) (\<lambda>raw.
     map_option (Pair raw) (select_one (\<lambda>s. scn_id s = raw_connection raw \<and> scn_user s = user_id) (connections db)))"

definition get_extraction_context ::
  "uuid \<Rightarrow> uuid \<Rightarrow> 'a ingestion_db_scheme \<Rightarrow> raw_extraction_context option" where
  "get_extraction_context user_id raw_event_id db =
     Option.bind (source_of_raw user_id raw_event_id db) (\<lambda>(raw, s).
     map_option (\<lambda>u. \<lparr>rx_raw = raw_id raw, rx_connector = scn_type s, rx_occurred_at = raw_occurred_at raw,
          rx_payload = raw_payload raw, rx_timezone = usr_timezone u, rx_currency = usr_default_currency u\<rparr>)
       (select_one (\<lambda>u. usr_id u = raw_user raw) (users db)))"

definition canonical_target :: "proposal_row \<Rightarrow> (string \<times> uuid) option" where
  "canonical_target p =
     (case fp_transaction p of Some i \<Rightarrow> Some (''transaction'', i) | None \<Rightarrow>
     (case fp_receivable p of Some i \<Rightarrow> Some (''receivable'', i) | None \<Rightarrow>
     (case fp_payable p of Some i \<Rightarrow> Some (''payable'', i) | None \<Rightarrow>
     (case fp_recurring p of Some i \<Rightarrow> Some (''recurring_payment'', i) | None \<Rightarrow> None))))"

definition view_of_proposal :: "proposal_row \<Rightarrow> connector_type \<Rightarrow> proposal_view" where
  "view_of_proposal p source =
     \<lparr>pv_id = fp_id p, pv_raw = fp_raw p, pv_source = source, pv_kind = fp_kind p, pv_amount = fp_amount p,
      pv_currency = fp_currency p, pv_description = fp_description p, pv_occurred_at = fp_occurred_at p,
      pv_due_date = fp_due_date p, pv_merchant = fp_merchant p, pv_counterparty = fp_counterparty p,
      pv_recurrence = fp_recurrence p, pv_next_date = fp_next_date p, pv_category_hint = fp_category_hint p,
      pv_tags = fp_tags p, pv_confidence = fp_confidence p, pv_status = fp_status p, pv_reasons = fp_reasons p,
      pv_provider = fp_provider p, pv_model = fp_model p, pv_version = fp_version p,
      pv_created_at = fp_created_at p, pv_target_type = map_option fst (canonical_target p),
      pv_target = map_option snd (canonical_target p)\<rparr>"

text \<open>The inner joins of the queries.\<close>

definition join_source :: "uuid \<Rightarrow> 'a reconciliation_db_scheme \<Rightarrow> proposal_row \<Rightarrow> proposal_view option" where
  "join_source user_id db p =
     map_option (\<lambda>(raw, s). view_of_proposal p (scn_type s)) (source_of_raw user_id (fp_raw p) db)"

definition repo_get_proposal :: "uuid \<Rightarrow> uuid \<Rightarrow> 'a reconciliation_db_scheme \<Rightarrow> proposal_view option" where
  "repo_get_proposal user_id proposal_id db =
     Option.bind (select_one (\<lambda>p. fp_id p = proposal_id \<and> fp_user p = user_id) (proposals db)) (join_source user_id db)"

definition for_prompt :: "uuid \<Rightarrow> string \<Rightarrow> string \<Rightarrow> string \<Rightarrow> proposal_row \<Rightarrow> bool" where
  "for_prompt raw_event_id prompt version schema p \<longleftrightarrow>
     fp_raw p = raw_event_id \<and> fp_prompt p = prompt \<and> fp_version p = version \<and> fp_schema p = schema"

definition existing_for_prompt ::
  "uuid \<Rightarrow> uuid \<Rightarrow> string \<Rightarrow> string \<Rightarrow> string \<Rightarrow> 'a reconciliation_db_scheme \<Rightarrow> proposal_view option" where
  "existing_for_prompt user_id raw_event_id prompt version schema db =
     Option.bind (select_one (\<lambda>p. fp_user p = user_id \<and> for_prompt raw_event_id prompt version schema p) (proposals db))
       (\<lambda>p. repo_get_proposal user_id (fp_id p) db)"

text \<open>The CHECK constraints and the column widths of \<open>models/proposal.py\<close>.\<close>

definition fits :: "nat \<Rightarrow> string option \<Rightarrow> bool" where
  "fits k s = (case s of None \<Rightarrow> True | Some x \<Rightarrow> length x \<le> k)"

definition non_negative :: "int option \<Rightarrow> bool" where
  "non_negative v = (case v of None \<Rightarrow> True | Some n \<Rightarrow> 0 \<le> n)"

definition proposal_checks :: "proposal_row \<Rightarrow> bool" where
  "proposal_checks p \<longleftrightarrow>
     (fp_amount p = None) = (fp_currency p = None) \<and>
     (case fp_amount p of None \<Rightarrow> True | Some a \<Rightarrow> 0 < a \<and> a < 10 ^ 19) \<and>
     (case fp_currency p of None \<Rightarrow> True | Some c \<Rightarrow> currency_pattern c) \<and>
     not_blank (fp_description p) \<and> length (fp_description p) \<le> 500 \<and>
     fits 160 (fp_merchant p) \<and> fits 160 (fp_counterparty p) \<and> fits 80 (fp_category_hint p) \<and>
     0 \<le> fp_confidence p \<and> fp_confidence p \<le> 10000 \<and>
     length (fp_provider p) \<le> 40 \<and> length (fp_model p) \<le> 120 \<and> length (fp_prompt p) \<le> 80 \<and>
     length (fp_version p) \<le> 40 \<and> length (fp_schema p) \<le> 40 \<and>
     0 \<le> fp_latency p \<and> non_negative (fp_input_tokens p) \<and> non_negative (fp_output_tokens p) \<and>
     1 \<le> fp_attempts p \<and> fp_attempts p \<le> 4 \<and> proposal_targets_ok p"

definition proposal_of :: "uuid \<Rightarrow> raw_extraction_context \<Rightarrow> extraction_result \<Rightarrow> uuid \<Rightarrow> instant \<Rightarrow> proposal_row" where
  "proposal_of user_id ctx x new_id now =
     (let e = xr_event x; tm = xr_telemetry x in
      \<lparr>fp_id = new_id, fp_user = user_id, fp_raw = rx_raw ctx, fp_kind = ee_kind e, fp_amount = ee_amount e,
       fp_currency = ee_currency e, fp_description = ee_description e, fp_occurred_at = ee_occurred_at e,
       fp_due_date = ee_due_date e, fp_merchant = ee_merchant e, fp_counterparty = ee_counterparty e,
       fp_recurrence = ee_recurrence e, fp_next_date = ee_next_date e, fp_category_hint = ee_category_hint e,
       fp_tags = ee_tags e, fp_confidence = ee_confidence e, fp_status = PROPOSAL_NEEDS_REVIEW,
       fp_reasons = xr_reasons x, fp_provider = tm_provider tm, fp_model = tm_model tm, fp_prompt = xr_prompt x,
       fp_version = xr_version x, fp_schema = xr_schema x, fp_latency = tm_latency tm,
       fp_input_tokens = tm_input tm, fp_output_tokens = tm_output tm, fp_attempts = tm_attempts tm,
       fp_transaction = None, fp_receivable = None, fp_payable = None, fp_recurring = None,
       fp_created_at = now\<rparr>)"

text \<open>\<open>INSERT ... ON CONFLICT DO NOTHING RETURNING id\<close>.\<close>

definition insert_proposal ::
  "proposal_row \<Rightarrow> 'a reconciliation_db_scheme \<Rightarrow> ('a reconciliation_db_scheme \<times> uuid option) result" where
  "insert_proposal p db =
     (if list_ex (for_prompt (fp_raw p) (fp_prompt p) (fp_version p) (fp_schema p)) (proposals db) then Inr (db, None)
      else bindE (ensure (proposal_checks p \<and> fk_raw db (fp_raw p) (fp_user p)) (IntegrityError ''financial_event_proposals'')) (\<lambda>_.
           bindE (insert_row fp_id p (proposals db)) (\<lambda>rows. Inr (db\<lparr>proposals := rows\<rparr>, Some (fp_id p)))))"

definition create_or_get ::
  "uuid \<Rightarrow> raw_extraction_context \<Rightarrow> extraction_result \<Rightarrow> uuid \<Rightarrow> instant \<Rightarrow> 'a reconciliation_db_scheme \<Rightarrow>
   ('a reconciliation_db_scheme \<times> proposal_view) result" where
  "create_or_get user_id ctx x new_id now db =
     bindE (insert_proposal (proposal_of user_id ctx x new_id now) db) (\<lambda>(db1, inserted).
     bindE (require (RuntimeError ''proposal_upsert'')
              (case inserted of
                 Some i \<Rightarrow> Some i
               | None \<Rightarrow> map_option fp_id (select_one (\<lambda>p. fp_user p = user_id \<and>
                   for_prompt (rx_raw ctx) (xr_prompt x) (xr_version x) (xr_schema x) p) (proposals db1)))) (\<lambda>selected.
     bindE (require (RuntimeError ''proposal_disappeared'') (repo_get_proposal user_id selected db1)) (\<lambda>v.
       Inr (db1, v))))"

definition repo_list_proposals ::
  "uuid \<Rightarrow> proposal_status option \<Rightarrow> 'a reconciliation_db_scheme \<Rightarrow> proposal_view list" where
  "repo_list_proposals user_id status db =
     List.map_filter (join_source user_id db)
       (sort_key (\<lambda>p. (- fp_created_at p, - int (fp_id p)))
         (filter (\<lambda>p. fp_user p = user_id \<and> (case status of None \<Rightarrow> True | Some s \<Rightarrow> fp_status p = s)) (proposals db)))"

definition lock_proposal :: "uuid \<Rightarrow> uuid \<Rightarrow> 'a reconciliation_db_scheme \<Rightarrow> proposal_row option" where
  "lock_proposal user_id proposal_id db = select_one (\<lambda>p. fp_id p = proposal_id \<and> fp_user p = user_id) (proposals db)"

definition source_for_proposal :: "uuid \<Rightarrow> proposal_row \<Rightarrow> 'a reconciliation_db_scheme \<Rightarrow> connection_row result" where
  "source_for_proposal user_id p db =
     require (RuntimeError ''proposal_source_not_visible'') (map_option snd (source_of_raw user_id (fp_raw p) db))"

text \<open>The flush of a changed proposal checks its row again, the foreign keys of its target included.\<close>

definition fk_obligation_target :: "obligation_row list \<Rightarrow> uuid option \<Rightarrow> uuid \<Rightarrow> string option \<Rightarrow> bool" where
  "fk_obligation_target rows t u cur =
     (case (t, cur) of
        (Some i, Some c) \<Rightarrow> list_ex (\<lambda>r. obl_id r = i \<and> obl_user r = u \<and> obl_currency r = c) rows
      | _ \<Rightarrow> True)"

definition fk_recurring_target :: "recurring_row list \<Rightarrow> uuid option \<Rightarrow> uuid \<Rightarrow> bool" where
  "fk_recurring_target rows t u =
     (case t of None \<Rightarrow> True | Some i \<Rightarrow> list_ex (\<lambda>r. rp_id r = i \<and> rp_user r = u) rows)"

definition flush_proposal :: "proposal_row \<Rightarrow> 'a reconciliation_db_scheme \<Rightarrow> 'a reconciliation_db_scheme result" where
  "flush_proposal p db =
     bindE (ensure (proposal_checks p \<and> fk_target db (fp_transaction p) (fp_user p) \<and>
              fk_obligation_target (receivables db) (fp_receivable p) (fp_user p) (fp_currency p) \<and>
              fk_obligation_target (payables db) (fp_payable p) (fp_user p) (fp_currency p) \<and>
              fk_recurring_target (recurring_payments db) (fp_recurring p) (fp_user p))
              (IntegrityError ''financial_event_proposals'')) (\<lambda>_.
       Inr (db\<lparr>proposals := modify_rows (\<lambda>r. fp_id r = fp_id p) (\<lambda>_. p) (proposals db)\<rparr>))"

section \<open>Extracting a raw event\<close>

definition require_pending_proposal :: "proposal_row option \<Rightarrow> proposal_row result" where
  "require_pending_proposal p =
     bindE (require (ProposalReviewError ''PROPOSAL_NOT_FOUND'') p) (\<lambda>p.
     bindE (ensure (fp_status p = PROPOSAL_NEEDS_REVIEW) (ProposalReviewError ''PROPOSAL_ALREADY_REVIEWED'')) (\<lambda>_.
       Inr p))"

definition proposal_now :: "py_datetime \<Rightarrow> instant result" where
  "proposal_now clock =
     (case clock of Naive _ \<Rightarrow> Inl (AIOutputError ''INVALID_PROPOSAL_CLOCK'') | Aware t \<Rightarrow> Inr t)"

definition extraction_text_of :: "raw_extraction_context \<Rightarrow> string result" where
  "extraction_text_of ctx =
     (case map_of (rx_payload ctx) ''extraction_text'' of
        Some (JStr text) \<Rightarrow>
          if strip text \<noteq> [] then Inr text else Inl (ProposalReviewError ''SOURCE_TEXT_NOT_AVAILABLE'')
      | _ \<Rightarrow> Inl (ProposalReviewError ''SOURCE_TEXT_NOT_AVAILABLE''))"

definition source_timestamp_of :: "py_datetime \<Rightarrow> raw_extraction_context \<Rightarrow> instant result" where
  "source_timestamp_of clock ctx =
     (case rx_occurred_at ctx of Some t \<Rightarrow> Inr t | None \<Rightarrow> proposal_now clock)"

fun is_ai_error :: "error \<Rightarrow> bool" where
  "is_ai_error (AIProviderError _) = True"
| "is_ai_error (AIOutputError _) = True"
| "is_ai_error (ProposalReviewError _) = True"
| "is_ai_error _ = False"

fun ai_error_code :: "error \<Rightarrow> string" where
  "ai_error_code (AIProviderError c) = c"
| "ai_error_code (AIOutputError c) = c"
| "ai_error_code (ProposalReviewError c) = c"
| "ai_error_code _ = []"

definition set_error_code ::
  "uuid \<Rightarrow> uuid \<Rightarrow> string option \<Rightarrow> 'a reconciliation_db_scheme \<Rightarrow> 'a reconciliation_db_scheme result" where
  "set_error_code user_id raw_event_id code db =
     bindE (get_processing user_id raw_event_id db) (\<lambda>p. Inr (put_processing (p\<lparr>prc_error := code\<rparr>) db))"

text \<open>\<open>_record_extraction_failure\<close>, a transaction of its own.\<close>

definition record_extraction_failure ::
  "uuid \<Rightarrow> uuid \<Rightarrow> string \<Rightarrow> 'a reconciliation_db_scheme \<Rightarrow> 'a reconciliation_db_scheme \<times> unit result" where
  "record_extraction_failure user_id raw_event_id code =
     atomically (\<lambda>db. bindE (set_error_code user_id raw_event_id (Some code) db) (\<lambda>db1. Inr (db1, ())))"

text \<open>The last transaction: the proposal and the cleared error.\<close>

definition store_extraction ::
  "uuid \<Rightarrow> uuid \<Rightarrow> raw_extraction_context \<Rightarrow> extraction_result \<Rightarrow> uuid \<Rightarrow> instant \<Rightarrow> 'a reconciliation_db_scheme \<Rightarrow>
   ('a reconciliation_db_scheme \<times> proposal_view) result" where
  "store_extraction user_id raw_event_id ctx x new_id now db =
     bindE (create_or_get user_id ctx x new_id now db) (\<lambda>(db1, v).
     bindE (set_error_code user_id raw_event_id None db1) (\<lambda>db2. Inr (db2, v)))"

text \<open>What is read before the provider is called: a stored proposal, or the text and its context.\<close>

definition extraction_input ::
  "py_datetime \<Rightarrow> uuid \<Rightarrow> uuid \<Rightarrow> 'a reconciliation_db_scheme \<Rightarrow>
   (proposal_view + raw_extraction_context \<times> string \<times> instant) result" where
  "extraction_input clock user_id raw_event_id db =
     (case existing_for_prompt user_id raw_event_id PROMPT_NAME PROMPT_VERSION NOTE_SCHEMA_VERSION db of
        Some v \<Rightarrow> Inr (Inl v)
      | None \<Rightarrow>
          bindE (require (ProposalReviewError ''RAW_EVENT_NOT_FOUND'') (get_extraction_context user_id raw_event_id db)) (\<lambda>ctx.
          bindE (extraction_text_of ctx) (\<lambda>text.
          bindE (source_timestamp_of clock ctx) (\<lambda>ts. Inr (Inr (ctx, text, ts))))))"

definition extract_raw_event ::
  "extractor \<Rightarrow> 's provider \<Rightarrow> tzdata \<Rightarrow> py_datetime \<Rightarrow> uuid \<Rightarrow> uuid \<Rightarrow> uuid \<Rightarrow> instant \<Rightarrow> 's \<Rightarrow>
   'a reconciliation_db_scheme \<Rightarrow> 's \<times> 'a reconciliation_db_scheme \<times> proposal_view result" where
  "extract_raw_event xt prov tz clock user_id raw_event_id new_id now s db =
     (case extraction_input clock user_id raw_event_id db of
        Inl e \<Rightarrow> (s, db, Inl e)
      | Inr (Inl v) \<Rightarrow> (s, db, Inr v)
      | Inr (Inr (ctx, text, ts)) \<Rightarrow>
          (case extract_note xt prov tz text
                  \<lparr>xc_timestamp = Aware ts, xc_timezone = rx_timezone ctx, xc_currency = rx_currency ctx\<rparr> s of
             (s1, Inl e) \<Rightarrow>
               if is_ai_error e
               then (s1, and_then (record_extraction_failure user_id raw_event_id (ai_error_code e) db) (\<lambda>_ db1. (db1, Inl e)))
               else (s1, db, Inl e)
           | (s1, Inr x) \<Rightarrow> (s1, atomically (store_extraction user_id raw_event_id ctx x new_id now) db)))"

section \<open>Listing and rejecting\<close>

definition list_proposals ::
  "uuid \<Rightarrow> proposal_status option \<Rightarrow> 'a reconciliation_db_scheme \<Rightarrow> proposal_view list" where
  "list_proposals user_id status db = repo_list_proposals user_id status db"

definition reject_proposal ::
  "uuid \<Rightarrow> uuid \<Rightarrow> 'a reconciliation_db_scheme \<Rightarrow> ('a reconciliation_db_scheme \<times> proposal_view) result" where
  "reject_proposal user_id proposal_id db =
     bindE (require_pending_proposal (lock_proposal user_id proposal_id db)) (\<lambda>p.
     bindE (source_for_proposal user_id p db) (\<lambda>source.
     let p1 = p\<lparr>fp_status := PROPOSAL_REJECTED\<rparr> in
     bindE (set_error_code user_id (fp_raw p) (Some ''USER_REJECTED'') db) (\<lambda>db1.
     bindE (flush_proposal p1 db1) (\<lambda>db2.
       Inr (db2, view_of_proposal p1 (scn_type source))))))"

section \<open>Approving\<close>

record approval_env =
  ap_now :: py_datetime
  ap_event :: uuid
  ap_handoff :: handoff_env
  ap_person :: uuid
  ap_target :: uuid

definition normalized_contract :: "proposal_row \<Rightarrow> financial_event result" where
  "normalized_contract p =
     mk_event (fp_kind p) (map_option stored_decimal (fp_amount p)) (fp_currency p) (fp_description p)
       (map_option Aware (fp_occurred_at p)) (fp_merchant p) (fp_counterparty p) (fp_category_hint p) (fp_tags p) []
       (Some (stored_decimal (fp_confidence p)))"

definition require_money_and_occurred :: "proposal_row \<Rightarrow> (money \<times> string \<times> instant) result" where
  "require_money_and_occurred p =
     (case (fp_amount p, fp_currency p, fp_occurred_at p) of
        (Some a, Some c, Some t) \<Rightarrow> Inr (a, c, t)
      | _ \<Rightarrow> Inl (ProposalReviewError ''PROPOSAL_FINANCIAL_FIELDS_REQUIRED''))"

definition proposal_category ::
  "uuid \<Rightarrow> proposal_row \<Rightarrow> category_assignment option \<Rightarrow> 'a categorization_db_scheme \<Rightarrow> uuid option" where
  "proposal_category user_id p assigned db =
     (case assigned of
        Some a \<Rightarrow> Some (as_category a)
      | None \<Rightarrow> (case fp_category_hint p of None \<Rightarrow> None
                | Some hint \<Rightarrow> find_visible_category_id user_id (normalize_lookup_text hint) db))"

definition proposal_command ::
  "uuid \<Rightarrow> proposal_row \<Rightarrow> money \<Rightarrow> string \<Rightarrow> instant \<Rightarrow> transaction_type \<Rightarrow> 'a categorization_db_scheme \<Rightarrow>
   create_transaction_command result" where
  "proposal_command user_id p amount currency occurred_at ty db =
     (let assigned = classify user_id (fp_description p) (map_option normalize_lookup_text (fp_merchant p)) db;
          category_id = proposal_category user_id p assigned db
      in bindE (parse_create_transaction (format_f amount) currency ty (fp_description p) (Aware occurred_at)
                  POSTED category_id (fp_merchant p) INGESTION (Some (stored_decimal (fp_confidence p)))) (\<lambda>command.
           Inr (with_provenance assigned category_id (Some (fp_confidence p)) command)))"

text \<open>\<open>str(uuid)\<close>: 32 hexadecimal digits in groups of 8, 4, 4, 4 and 12.\<close>

fun hex_digits :: "nat \<Rightarrow> nat \<Rightarrow> string" where
  "hex_digits 0 n = []"
| "hex_digits (Suc k) n = hex_digits k (n div 16) @ [hex_digit (n mod 16)]"

definition uuid_text :: "uuid \<Rightarrow> string" where
  "uuid_text u =
     (let h = hex_digits 32 u
      in take 8 h @ ''-'' @ take 4 (drop 8 h) @ ''-'' @ take 4 (drop 12 h) @ ''-'' @ take 4 (drop 16 h) @ ''-'' @ drop 20 h)"

definition approve_transaction ::
  "policy \<Rightarrow> uuid \<Rightarrow> proposal_row \<Rightarrow> transaction_type \<Rightarrow> normalized_row \<Rightarrow> handoff_env \<Rightarrow> 'a reconciliation_db_scheme \<Rightarrow>
   ('a reconciliation_db_scheme \<times> outcome) result" where
  "approve_transaction pol user_id p ty event env db =
     bindE (require_money_and_occurred p) (\<lambda>(amount, currency, occurred_at).
     bindE (proposal_command user_id p amount currency occurred_at ty db) (\<lambda>command.
       reconcile_transaction pol user_id event command [(''proposalId'', JStr (uuid_text (fp_id p)))] None env db))"

text \<open>The person that the counterparty names, created when the owner does not have it yet.\<close>

definition counterparty_person ::
  "uuid \<Rightarrow> string \<Rightarrow> uuid \<Rightarrow> 'a reconciliation_db_scheme \<Rightarrow> ('a reconciliation_db_scheme \<times> uuid) result" where
  "counterparty_person user_id name new_id db =
     bindE (parse_create_person name) (\<lambda>command.
     bindE (repo_create_person user_id command new_id db) (\<lambda>(db1, created).
     bindE (require (RuntimeError ''person_upsert'')
              (case created of
                 Some person \<Rightarrow> Some person
               | None \<Rightarrow> find_person_by_normalized_name user_id (cp_normalized command) db1)) (\<lambda>person.
       Inr (db1, fst person))))"

definition approve_obligation ::
  "tzdata \<Rightarrow> uuid \<Rightarrow> proposal_row \<Rightarrow> obligation_kind \<Rightarrow> approval_env \<Rightarrow> 'a reconciliation_db_scheme \<Rightarrow>
   ('a reconciliation_db_scheme \<times> uuid) result" where
  "approve_obligation tz user_id p k env db =
     bindE (require_money_and_occurred p) (\<lambda>(amount, currency, occurred_at).
     bindE (require (ProposalReviewError ''PROPOSAL_COUNTERPARTY_REQUIRED'') (fp_counterparty p)) (\<lambda>counterparty.
     bindE (require (ProposalReviewError ''PROFILE_NOT_FOUND'') (owner_timezone user_id db)) (\<lambda>zone_name.
     bindE (counterparty_person user_id counterparty (ap_person env) db) (\<lambda>(db1, person_id).
     bindE (parse_timezone tz zone_name) (\<lambda>zone.
     bindE (parse_create_obligation person_id (format_f amount) currency (fp_description p)
              (wall_date (tz_local tz zone occurred_at)) (fp_due_date p) None) (\<lambda>command.
     bindE (proposal_now (ap_now env)) (\<lambda>now.
     bindE (repo_create_obligation k user_id command (wall_date (tz_local tz zone now)) (ap_target env) db1) (\<lambda>(db2, v).
       Inr (db2, ov_id v)))))))))"

definition approve_recurring ::
  "uuid \<Rightarrow> proposal_row \<Rightarrow> approval_env \<Rightarrow> 'a reconciliation_db_scheme \<Rightarrow> ('a reconciliation_db_scheme \<times> uuid) result" where
  "approve_recurring user_id p env db =
     (case (fp_amount p, fp_currency p, fp_merchant p, fp_recurrence p, fp_next_date p) of
        (Some amount, Some currency, Some merchant, Some rule, Some next_date) \<Rightarrow>
          bindE (parse_create_recurring_payment (format_f amount) currency merchant rule next_date) (\<lambda>command.
          bindE (ensure (user_exists user_id db) (ProposalReviewError ''PROFILE_NOT_FOUND'')) (\<lambda>_.
          bindE (recurring_merchant command (he_merchant (ap_handoff env)) db) (\<lambda>(db1, merchant_id).
          bindE (repo_create_recurring user_id merchant_id command (he_now (ap_handoff env)) (ap_target env) db1) (\<lambda>(db2, v).
            Inr (db2, recurring_view.rv_id v)))))
      | _ \<Rightarrow> Inl (ProposalReviewError ''PROPOSAL_RECURRING_FIELDS_REQUIRED''))"

text \<open>
  The canonical record of a proposal: the tables and the proposal with its target, or \<open>None\<close> for the
  target when the event waits for reconciliation.
\<close>

definition approve_target ::
  "policy \<Rightarrow> tzdata \<Rightarrow> uuid \<Rightarrow> proposal_row \<Rightarrow> normalized_row \<Rightarrow> approval_env \<Rightarrow> 'a reconciliation_db_scheme \<Rightarrow>
   ('a reconciliation_db_scheme \<times> proposal_row option) result" where
  "approve_target pol tz user_id p event env db =
     (case EVENT_TYPES (fp_kind p) of
        Some ty \<Rightarrow>
          bindE (approve_transaction pol user_id p ty event (ap_handoff env) db) (\<lambda>(db1, out).
            if requires_review out then Inr (db1, None)
            else bindE (require (ProposalReviewError ''RECONCILIATION_TARGET_MISSING'') (oc_transaction out)) (\<lambda>t.
              Inr (db1, Some (p\<lparr>fp_transaction := Some t\<rparr>))))
      | None \<Rightarrow>
          (case fp_kind p of
             KIND_RECEIVABLE \<Rightarrow> bindE (approve_obligation tz user_id p RECEIVABLE env db) (\<lambda>(db1, i).
               Inr (db1, Some (p\<lparr>fp_receivable := Some i\<rparr>)))
           | KIND_PAYABLE \<Rightarrow> bindE (approve_obligation tz user_id p PAYABLE env db) (\<lambda>(db1, i).
               Inr (db1, Some (p\<lparr>fp_payable := Some i\<rparr>)))
           | KIND_RECURRING \<Rightarrow> bindE (approve_recurring user_id p env db) (\<lambda>(db1, i).
               Inr (db1, Some (p\<lparr>fp_recurring := Some i\<rparr>)))
           | _ \<Rightarrow> Inl (ProposalReviewError ''PROPOSAL_KIND_NOT_APPROVABLE'')))"

text \<open>The states of the source and of the proposal after that.\<close>

definition settle_proposal ::
  "proposal_row \<Rightarrow> processing_row \<Rightarrow> proposal_row option \<Rightarrow> (proposal_row \<times> processing_row) result" where
  "settle_proposal p q approved =
     (case approved of
        None \<Rightarrow> Inr (p\<lparr>fp_status := PROPOSAL_RECONCILIATION_REVIEW\<rparr>, q\<lparr>prc_error := Some ''POSSIBLE_DUPLICATE''\<rparr>)
      | Some p1 \<Rightarrow>
          bindE (require_state_transition (prc_state q) PROCESSED) (\<lambda>_.
            Inr (p1\<lparr>fp_status := PROPOSAL_APPROVED\<rparr>, q\<lparr>prc_state := PROCESSED, prc_error := None\<rparr>)))"

definition approve_proposal ::
  "policy \<Rightarrow> tzdata \<Rightarrow> uuid \<Rightarrow> uuid \<Rightarrow> approval_env \<Rightarrow> 'a reconciliation_db_scheme \<Rightarrow>
   ('a reconciliation_db_scheme \<times> proposal_view) result" where
  "approve_proposal pol tz user_id proposal_id env db =
     bindE (require_pending_proposal (lock_proposal user_id proposal_id db)) (\<lambda>p.
     bindE (source_for_proposal user_id p db) (\<lambda>source.
     bindE (get_processing user_id (fp_raw p) db) (\<lambda>q.
     bindE (normalized_contract p) (\<lambda>normalized.
     bindE (store_normalized_event user_id (fp_raw p) normalized PROMPT_NAME (fp_version p) (he_now (ap_handoff env))
              (ap_event env) db) (\<lambda>(db1, event).
     bindE (approve_target pol tz user_id p event env db1) (\<lambda>(db2, approved).
     bindE (settle_proposal p q approved) (\<lambda>(p1, q1).
     bindE (flush_proposal p1 (put_processing q1 db2)) (\<lambda>db3.
       Inr (db3, view_of_proposal p1 (scn_type source))))))))))"

end
