(* ===== verification/Connectors.thy ===== *)
theory Connectors
  imports Proposals
begin

text \<open>
  The built-in connectors: \<open>connectors/manual_note.py\<close>, \<open>connectors/mock_receipt.py\<close> and
  \<open>connectors/registry.py\<close>, as values of the record \<open>connector\<close> of theory \<open>Ingestion_Service\<close>.

  All of them hold a tuple of envelopes and resume at an offset. Reading a JSON object into the typed fields
  of a normalized event is Pydantic's and a parameter; the validators are \<open>mk_event\<close>.
\<close>

section \<open>Pages\<close>

text \<open>The integers among the numbers of JSON: no fraction and no exponent.\<close>

definition json_int :: "string \<Rightarrow> int option" where
  "json_int t =
     (let neg = (t \<noteq> [] \<and> hd t = CHR ''-''); ds = (if neg then tl t else t)
      in if ds \<noteq> [] \<and> list_all is_digit ds then Some (if neg then - digits_value ds else digits_value ds) else None)"

text \<open>\<open>cursor.get("offset", 0)\<close>, which must be an \<open>int\<close>; Python's booleans are integers.\<close>

definition cursor_offset :: "json_object \<Rightarrow> int option" where
  "cursor_offset cursor =
     (case map_of cursor ''offset'' of
        None \<Rightarrow> Some 0
      | Some (JBool b) \<Rightarrow> Some (if b then 1 else 0)
      | Some (JNum t) \<Rightarrow> json_int t
      | Some _ \<Rightarrow> None)"

definition offset_cursor :: "nat \<Rightarrow> json_object" where
  "offset_cursor n = [(''offset'', JNum (show_digits (int n)))]"

definition offset_page :: "envelope list \<Rightarrow> json_object \<Rightarrow> (envelope list \<times> json_object) result" where
  "offset_page events cursor =
     bindE (require (ConnectorContentError ''INVALID_CONNECTOR_CURSOR'') (cursor_offset cursor)) (\<lambda>raw_offset.
     bindE (ensure (0 \<le> raw_offset) (ConnectorContentError ''INVALID_CONNECTOR_CURSOR'')) (\<lambda>_.
       Inr (drop (nat raw_offset) events, offset_cursor (length events))))"

section \<open>Manual notes\<close>

definition MAX_MANUAL_NOTE_CHARS :: nat where "MAX_MANUAL_NOTE_CHARS = 8000"

text \<open>Iterating over a JSON value: a list, the characters of a text, the keys of an object.\<close>

fun json_items :: "json \<Rightarrow> (json list) result" where
  "json_items (JList xs) = Inr xs"
| "json_items (JStr s) = Inr (map (\<lambda>c. JStr [c]) s)"
| "json_items (JObj kvs) = Inr (map (\<lambda>kv. JStr (fst kv)) kvs)"
| "json_items _ = Inl TypeError"

fun strings_of :: "json list \<Rightarrow> string list" where
  "strings_of [] = []"
| "strings_of (JStr s # xs) = s # strings_of xs"
| "strings_of (_ # xs) = strings_of xs"

definition normalize_manual_note :: "envelope \<Rightarrow> financial_event result" where
  "normalize_manual_note e =
     bindE (json_items (case map_of (env_payload e) ''labels'' of None \<Rightarrow> JList [] | Some v \<Rightarrow> v)) (\<lambda>items.
       mk_event KIND_UNKNOWN None None
         (case map_of (env_payload e) ''extraction_text'' of Some (JStr note) \<Rightarrow> take 200 note | _ \<Rightarrow> ''Manual financial note'')
         (map_option Aware (env_occurred_at e)) None None None (strings_of items) [] None)"

definition manual_note_connector :: "envelope list \<Rightarrow> connector" where
  "manual_note_connector events =
     \<lparr>cn_descriptor = (MANUAL_NOTE, ''Manual financial notes''), cn_health = (HEALTHY, None),
      cn_fetch = offset_page events, cn_normalize = normalize_manual_note\<rparr>"

text \<open>The loop over the labels: blank ones are skipped, repeated ones dropped, and it stops at the twelfth.\<close>

fun note_labels :: "string list \<Rightarrow> string list \<Rightarrow> string list \<Rightarrow> (string list) result" where
  "note_labels seen kept [] = Inr kept"
| "note_labels seen kept (raw # rest) =
     (let label = normalize_display_text raw in
      if label = [] then note_labels seen kept rest
      else if MAX_TAG_LENGTH < length label then Inl (ConnectorContentError ''INVALID_NOTE_LABEL'')
      else let new = casefold label \<notin> set seen;
               seen' = (if new then casefold label # seen else seen); kept' = (if new then kept @ [label] else kept)
           in if length kept' = MAX_TAGS then Inr kept' else note_labels seen' kept' rest)"

definition create_manual_note_envelope ::
  "string \<Rightarrow> py_datetime \<Rightarrow> uuid \<Rightarrow> string list \<Rightarrow> envelope result" where
  "create_manual_note_envelope note source_timestamp event_id labels =
     (let normalized_note = normalize_display_text note in
      bindE (ensure (normalized_note \<noteq> []) (ConnectorContentError ''EMPTY_FINANCIAL_NOTE'')) (\<lambda>_.
      bindE (ensure (length normalized_note \<le> MAX_MANUAL_NOTE_CHARS) (ConnectorContentError ''FINANCIAL_NOTE_TOO_LONG'')) (\<lambda>_.
      bindE (case source_timestamp of
               Naive _ \<Rightarrow> Inl (ConnectorContentError ''INVALID_SOURCE_TIMESTAMP'') | Aware t \<Rightarrow> Inr t) (\<lambda>_.
      bindE (note_labels [] [] labels) (\<lambda>normalized_labels.
        mk_envelope (Some (''manual:'' @ uuid_text event_id)) ''manual_financial_note'' (Some source_timestamp)
          [(''extraction_text'', JStr normalized_note), (''labels'', JList (map JStr normalized_labels))]
          [(''noteId'', JStr (uuid_text event_id))] (Some (take 500 normalized_note)))))))"

section \<open>Mock receipts\<close>

record event_fields =
  ef_kind :: normalized_event_kind
  ef_amount :: "decimal option"
  ef_currency :: "string option"
  ef_description :: string
  ef_occurred_at :: "py_datetime option"
  ef_merchant :: "string option"
  ef_counterparty :: "string option"
  ef_category_hint :: "string option"
  ef_tags :: "string list"
  ef_identifiers :: "string list"
  ef_confidence :: "decimal option"

definition event_of_fields :: "event_fields \<Rightarrow> financial_event result" where
  "event_of_fields f =
     mk_event (ef_kind f) (ef_amount f) (ef_currency f) (ef_description f) (ef_occurred_at f) (ef_merchant f)
       (ef_counterparty f) (ef_category_hint f) (ef_tags f) (ef_identifiers f) (ef_confidence f)"

text \<open>\<open>NormalizedFinancialEventV1.model_validate\<close>, with the exception that a validation error becomes.\<close>

definition validate_event :: "(json_object \<Rightarrow> event_fields option) \<Rightarrow> (event_fields \<Rightarrow> event_fields) \<Rightarrow> string \<Rightarrow> json_object \<Rightarrow> financial_event result" where
  "validate_event reader adjust code payload =
     (case reader payload of
        None \<Rightarrow> Inl (ConnectorContentError code)
      | Some f \<Rightarrow> (case event_of_fields (adjust f) of Inl _ \<Rightarrow> Inl (ConnectorContentError code) | Inr v \<Rightarrow> Inr v))"

definition normalize_mock_receipt :: "(json_object \<Rightarrow> event_fields option) \<Rightarrow> envelope \<Rightarrow> financial_event result" where
  "normalize_mock_receipt reader e =
     validate_event reader
       (\<lambda>f. if map_of (env_payload e) ''occurred_at'' = None then f\<lparr>ef_occurred_at := map_option Aware (env_occurred_at e)\<rparr> else f)
       ''INVALID_NORMALIZED_EVENT'' (env_payload e)"

definition mock_receipt_connector :: "(json_object \<Rightarrow> event_fields option) \<Rightarrow> envelope list \<Rightarrow> connector" where
  "mock_receipt_connector reader events =
     \<lparr>cn_descriptor = (MOCK_RECEIPT, ''Mock receipts''), cn_health = (HEALTHY, None),
      cn_fetch = offset_page events, cn_normalize = normalize_mock_receipt reader\<rparr>"

section \<open>The registry\<close>

type_synonym registry = "(connector_type \<times> connector) list"

definition register :: "connector \<Rightarrow> registry \<Rightarrow> registry result" where
  "register cn reg =
     (let key = fst (cn_descriptor cn) in
      bindE (ensure (key \<notin> fst ` set reg) (IngestionConflictError ''CONNECTOR_ALREADY_REGISTERED'')) (\<lambda>_.
        Inr (reg @ [(key, cn)])))"

fun register_all :: "connector list \<Rightarrow> registry \<Rightarrow> registry result" where
  "register_all [] reg = Inr reg"
| "register_all (cn # cns) reg = bindE (register cn reg) (register_all cns)"

definition registered :: "connector_type \<Rightarrow> registry \<Rightarrow> connector result" where
  "registered key reg = require (IngestionConflictError ''CONNECTOR_NOT_REGISTERED'') (map_of reg key)"

definition descriptors :: "registry \<Rightarrow> (connector_type \<times> string) list" where
  "descriptors reg = map (\<lambda>(_, cn). cn_descriptor cn) (sort_key (\<lambda>(key, _). connector_type_value key) reg)"

end
