(* ===== verification/Csv_Import.thy ===== *)
theory Csv_Import
  imports Connectors
begin

text \<open>
  The CSV import: \<open>connectors/csv_import.py\<close> with the parts of Python's \<open>csv\<close> and \<open>io\<close> that it uses. A
  document is given as text; \<open>io.StringIO(..., newline="")\<close> splits it after every line ending, and the reader
  of the \<open>excel\<close> dialect is the state machine of the interpreter, which sees every character of a line and
  then its end (\<open>None\<close>). The digest of \<open>hashlib\<close> and Pydantic's reading of a datetime, with the text that its
  JSON dump writes, are parameters. The dictionary of a row's payload is kept in the order of the columns
  below; Python's order is that of a set and only ever read by key.
\<close>

section \<open>The reader of csv\<close>

definition LF :: char where "LF = char_of (10 :: nat)"
definition CR :: char where "CR = char_of (13 :: nat)"
definition QUOTE :: char where "QUOTE = char_of (34 :: nat)"
definition COMMA :: char where "COMMA = char_of (44 :: nat)"

fun lines_of :: "string \<Rightarrow> string \<Rightarrow> string list" where
  "lines_of cur [] = (if cur = [] then [] else [cur])"
| "lines_of cur (c # cs) =
     (if c = LF then (cur @ [c]) # lines_of [] cs
      else if c = CR
      then (case cs of
              [] \<Rightarrow> [cur @ [c]]
            | d # ds \<Rightarrow> if d = LF then (cur @ [c, d]) # lines_of [] ds else (cur @ [c]) # lines_of [] cs)
      else lines_of (cur @ [c]) cs)"

datatype csv_state = START_RECORD | START_FIELD | IN_FIELD | IN_QUOTED_FIELD | QUOTE_IN_QUOTED_FIELD | EAT_CRNL

record csv_reader =
  cr_state :: csv_state
  cr_field :: string
  cr_fields :: "string list"

definition new_record :: csv_reader where
  "new_record = \<lparr>cr_state = START_RECORD, cr_field = [], cr_fields = []\<rparr>"

definition FIELD_LIMIT :: nat where "FIELD_LIMIT = 131072"

definition add_char :: "char \<Rightarrow> csv_reader \<Rightarrow> csv_reader result" where
  "add_char c r = bindE (ensure (length (cr_field r) < FIELD_LIMIT) CsvError) (\<lambda>_. Inr (r\<lparr>cr_field := cr_field r @ [c]\<rparr>))"

definition save_field :: "csv_reader \<Rightarrow> csv_reader" where
  "save_field r = r\<lparr>cr_fields := cr_fields r @ [cr_field r], cr_field := []\<rparr>"

definition end_of_line :: "char option \<Rightarrow> bool" where
  "end_of_line c = (case c of None \<Rightarrow> True | Some x \<Rightarrow> x = LF \<or> x = CR)"

text \<open>\<open>self->state = (c == EOL ? START_RECORD : EAT_CRNL)\<close>\<close>

definition line_done :: "char option \<Rightarrow> csv_reader \<Rightarrow> csv_reader" where
  "line_done c r = r\<lparr>cr_state := (if c = None then START_RECORD else EAT_CRNL)\<rparr>"

definition start_field :: "char option \<Rightarrow> csv_reader \<Rightarrow> csv_reader result" where
  "start_field c r =
     (if end_of_line c then Inr (line_done c (save_field r))
      else if c = Some QUOTE then Inr (r\<lparr>cr_state := IN_QUOTED_FIELD\<rparr>)
      else if c = Some COMMA then Inr ((save_field r)\<lparr>cr_state := START_FIELD\<rparr>)
      else bindE (add_char (the c) r) (\<lambda>r'. Inr (r'\<lparr>cr_state := IN_FIELD\<rparr>)))"

definition process_char :: "char option \<Rightarrow> csv_reader \<Rightarrow> csv_reader result" where
  "process_char c r =
     (case cr_state r of
        START_RECORD \<Rightarrow>
          if c = None then Inr r
          else if end_of_line c then Inr (r\<lparr>cr_state := EAT_CRNL\<rparr>)
          else start_field c r
      | START_FIELD \<Rightarrow> start_field c r
      | IN_FIELD \<Rightarrow>
          if end_of_line c then Inr (line_done c (save_field r))
          else if c = Some COMMA then Inr ((save_field r)\<lparr>cr_state := START_FIELD\<rparr>)
          else add_char (the c) r
      | IN_QUOTED_FIELD \<Rightarrow>
          if c = None then Inr r
          else if c = Some QUOTE then Inr (r\<lparr>cr_state := QUOTE_IN_QUOTED_FIELD\<rparr>)
          else add_char (the c) r
      | QUOTE_IN_QUOTED_FIELD \<Rightarrow>
          if c = Some QUOTE then bindE (add_char QUOTE r) (\<lambda>r'. Inr (r'\<lparr>cr_state := IN_QUOTED_FIELD\<rparr>))
          else if c = Some COMMA then Inr ((save_field r)\<lparr>cr_state := START_FIELD\<rparr>)
          else if end_of_line c then Inr (line_done c (save_field r))
          else bindE (add_char (the c) r) (\<lambda>r'. Inr (r'\<lparr>cr_state := IN_FIELD\<rparr>))
      | EAT_CRNL \<Rightarrow>
          if c = None then Inr (r\<lparr>cr_state := START_RECORD\<rparr>)
          else if end_of_line c then Inr r
          else Inl CsvError)"

fun feed :: "csv_reader \<Rightarrow> char option list \<Rightarrow> csv_reader result" where
  "feed r [] = Inr r"
| "feed r (c # cs) = bindE (process_char c r) (\<lambda>r'. feed r' cs)"

text \<open>\<open>next(reader)\<close>: \<open>None\<close> is \<open>StopIteration\<close>. A record may span lines.\<close>

fun read_record :: "csv_reader \<Rightarrow> string list \<Rightarrow> ((string list \<times> string list) option) result" where
  "read_record r [] =
     (if cr_field r \<noteq> [] \<or> cr_state r = IN_QUOTED_FIELD then Inr (Some (cr_fields (save_field r), [])) else Inr None)"
| "read_record r (l # ls) =
     bindE (feed r (map Some l @ [None])) (\<lambda>r'.
       if cr_state r' = START_RECORD then Inr (Some (cr_fields r', ls)) else read_record r' ls)"

lemma read_record_shorter: "read_record r ls = Inr (Some (row, rest)) \<Longrightarrow> length rest < length ls \<or> ls = [] \<and> rest = []"
  by (induction r ls rule: read_record.induct) (fastforce simp: result_simps split: if_splits)+

lemma new_record_shorter: "read_record new_record ls = Inr (Some (row, rest)) \<Longrightarrow> length rest < length ls"
  using read_record_shorter [of new_record ls row rest] by (cases ls) (auto simp: new_record_def)

lemma bindE_cong [fundef_cong]: "m = m' \<Longrightarrow> (\<And>x. m' = Inr x \<Longrightarrow> f x = f' x) \<Longrightarrow> bindE m f = bindE m' f'"
  by (cases m') auto

text \<open>\<open>DictReader\<close> skips the records without a field.\<close>

function next_row :: "string list \<Rightarrow> ((string list \<times> string list) option) result" where
  "next_row ls =
     bindE (read_record new_record ls) (\<lambda>x.
       case x of
         None \<Rightarrow> Inr None
       | Some (row, rest) \<Rightarrow> if row = [] then next_row rest else Inr (Some (row, rest)))"
  by pat_completeness auto
termination
  by (relation "measure length") (auto dest: new_record_shorter)

declare next_row.simps [simp del]

lemma next_row_shorter: "next_row ls = Inr (Some (row, rest)) \<Longrightarrow> length rest < length ls"
proof (induction ls rule: next_row.induct)
  case (1 ls)
  from 1(2) obtain row' rest' where r: "read_record new_record ls = Inr (Some (row', rest'))"
    "(if row' = [] then next_row rest' else Inr (Some (row', rest'))) = Inr (Some (row, rest))"
    by (subst (asm) next_row.simps) (auto simp: bindE_Inr split: option.splits)
  note s = new_record_shorter [OF r(1)]
  show ?case
  proof (cases "row' = []")
    case True
    with 1(1) [OF r(1) refl refl] r(2) s show ?thesis by simp
  next
    case False
    with r(2) s show ?thesis by simp
  qed
qed

section \<open>Rows\<close>

definition MAX_CSV_DOCUMENT_BYTES :: nat where "MAX_CSV_DOCUMENT_BYTES = 262144"
definition MAX_CSV_ROWS :: nat where "MAX_CSV_ROWS = 1000"

definition REQUIRED_COLUMNS :: "string list" where
  "REQUIRED_COLUMNS = [''event_kind'', ''description'']"

definition ALLOWED_COLUMNS :: "string list" where
  "ALLOWED_COLUMNS =
     [''external_id'', ''event_kind'', ''amount'', ''currency'', ''description'', ''occurred_at'', ''merchant_name'',
      ''counterparty'', ''category_hint'', ''tags'', ''payment_identifiers'', ''confidence'']"

definition plain_columns :: "string list" where
  "plain_columns = [''amount'', ''currency'', ''merchant_name'', ''counterparty'', ''category_hint'', ''confidence'']"

record csv_codec =
  cv_sha256 :: "string \<Rightarrow> string"
  cv_datetime :: "string \<Rightarrow> (py_datetime \<times> string) option"

text \<open>
  The dictionary of a row (\<open>d = dict(zip(fieldnames, row))\<close>, then \<open>None\<close> for the columns without a cell; of a
  repeated column the last one counts) and the normalized values.
\<close>

definition row_cell :: "string list \<Rightarrow> string list \<Rightarrow> string \<Rightarrow> string option" where
  "row_cell columns row key =
     Option.bind (map_of (rev (zip columns (map Some row @ replicate (length columns - length row) None))) key) id"

definition row_value :: "string list \<Rightarrow> string list \<Rightarrow> string \<Rightarrow> string" where
  "row_value columns row key = (case row_cell columns row key of None \<Rightarrow> [] | Some v \<Rightarrow> normalize_display_text v)"

fun split_bar :: "string \<Rightarrow> string \<Rightarrow> string list" where
  "split_bar cur [] = [cur]"
| "split_bar cur (c # cs) = (if c = CHR ''|'' then cur # split_bar [] cs else split_bar (cur @ [c]) cs)"

definition bar_items :: "string \<Rightarrow> string list" where
  "bar_items v = filter (\<lambda>t. t \<noteq> []) (map strip (split_bar [] v))"

definition csv_datetime :: "csv_codec \<Rightarrow> string \<Rightarrow> ((py_datetime \<times> string) option) result" where
  "csv_datetime codec v =
     (if v = [] then Inr None
      else case cv_datetime codec v of
             Some (Aware t, text) \<Rightarrow> Inr (Some (Aware t, text))
           | _ \<Rightarrow> Inl (ConnectorContentError ''CSV_ROW_DATETIME_INVALID''))"

definition row_payload :: "(string \<Rightarrow> string) \<Rightarrow> (py_datetime \<times> string) option \<Rightarrow> json_object" where
  "row_payload v occurred_at =
     [(''event_kind'', JStr (v ''event_kind'')), (''description'', JStr (v ''description''))] @
     map (\<lambda>column. (column, JStr (v column))) (filter (\<lambda>column. v column \<noteq> []) plain_columns) @
     (if v ''tags'' = [] then [] else [(''tags'', JList (map JStr (bar_items (v ''tags''))))]) @
     (if v ''payment_identifiers'' = [] then []
      else [(''payment_identifiers'', JList (map JStr (bar_items (v ''payment_identifiers''))))]) @
     (case occurred_at of None \<Rightarrow> [] | Some (_, text) \<Rightarrow> [(''occurred_at'', JStr text)])"

definition row_envelope :: "csv_codec \<Rightarrow> string list \<Rightarrow> nat \<Rightarrow> string \<Rightarrow> string list \<Rightarrow> envelope result" where
  "row_envelope codec columns row_number file_hash row =
     bindE (ensure (length row \<le> length columns) (ConnectorContentError ''CSV_ROW_COLUMN_MISMATCH'')) (\<lambda>_.
       let v = row_value columns row in
       bindE (ensure (v ''event_kind'' \<noteq> [] \<and> v ''description'' \<noteq> [])
                (ConnectorContentError ''CSV_ROW_REQUIRED_VALUE_MISSING'')) (\<lambda>_.
       bindE (csv_datetime codec (v ''occurred_at'')) (\<lambda>occurred_at.
         mk_envelope (if v ''external_id'' = [] then None else Some (v ''external_id'')) ''csv_financial_event''
           (map_option fst occurred_at) (row_payload v occurred_at)
           [(''fileHash'', JStr file_hash), (''row'', JNum (show_digits (int row_number)))]
           (Some (take 500 (v ''description''))))))"

section \<open>Documents\<close>

function row_envelopes :: "csv_codec \<Rightarrow> string list \<Rightarrow> string \<Rightarrow> nat \<Rightarrow> string list \<Rightarrow> (envelope list) result" where
  "row_envelopes codec columns file_hash n ls =
     bindE (next_row ls) (\<lambda>x.
       case x of
         None \<Rightarrow> Inr []
       | Some (row, rest) \<Rightarrow>
           bindE (ensure (n \<le> MAX_CSV_ROWS + 1) (ConnectorContentError ''CSV_ROW_LIMIT_EXCEEDED'')) (\<lambda>_.
           bindE (row_envelope codec columns n file_hash row) (\<lambda>e.
           bindE (row_envelopes codec columns file_hash (n + 1) rest) (\<lambda>es. Inr (e # es)))))"
  by pat_completeness auto
termination
  by (relation "measure (\<lambda>(_, _, _, _, ls). length ls)") (auto dest: next_row_shorter)

declare row_envelopes.simps [simp del]

text \<open>The exception handler of the loop; the header is read outside of it.\<close>

definition csv_guard :: "'a result \<Rightarrow> 'a result" where
  "csv_guard r = (case r of Inl CsvError \<Rightarrow> Inl (ConnectorContentError ''CSV_DOCUMENT_INVALID'') | _ \<Rightarrow> r)"

definition header_and_rest :: "string list \<Rightarrow> (string list \<times> string list) result" where
  "header_and_rest ls =
     bindE (read_record new_record ls) (\<lambda>x. Inr (case x of None \<Rightarrow> ([], []) | Some y \<Rightarrow> y))"

definition parse_csv_document :: "csv_codec \<Rightarrow> string \<Rightarrow> (envelope list) result" where
  "parse_csv_document codec content =
     bindE (ensure (utf8_length content \<le> MAX_CSV_DOCUMENT_BYTES) (ConnectorContentError ''CSV_DOCUMENT_TOO_LARGE'')) (\<lambda>_.
     bindE (ensure (char_of (0 :: nat) \<notin> set content) (ConnectorContentError ''CSV_DOCUMENT_INVALID'')) (\<lambda>_.
     bindE (header_and_rest (lines_of [] content)) (\<lambda>(columns, rest).
     bindE (ensure (columns \<noteq> [] \<and> [] \<notin> set columns) (ConnectorContentError ''CSV_HEADER_INVALID'')) (\<lambda>_.
     bindE (ensure (set REQUIRED_COLUMNS \<subseteq> set columns) (ConnectorContentError ''CSV_REQUIRED_COLUMNS_MISSING'')) (\<lambda>_.
     bindE (ensure (set columns \<subseteq> set ALLOWED_COLUMNS) (ConnectorContentError ''CSV_COLUMNS_UNSUPPORTED'')) (\<lambda>_.
       csv_guard (row_envelopes codec columns (cv_sha256 codec content) 2 rest)))))))"

section \<open>The connector\<close>

definition normalize_csv :: "(json_object \<Rightarrow> event_fields option) \<Rightarrow> envelope \<Rightarrow> financial_event result" where
  "normalize_csv reader e = validate_event reader id ''CSV_ROW_INVALID'' (env_payload e)"

definition csv_connector :: "(json_object \<Rightarrow> event_fields option) \<Rightarrow> envelope list \<Rightarrow> connector" where
  "csv_connector reader events =
     \<lparr>cn_descriptor = (CSV_IMPORT, ''CSV transaction import''), cn_health = (HEALTHY, None),
      cn_fetch = offset_page events, cn_normalize = normalize_csv reader\<rparr>"

definition csv_from_document :: "csv_codec \<Rightarrow> (json_object \<Rightarrow> event_fields option) \<Rightarrow> string \<Rightarrow> connector result" where
  "csv_from_document codec reader content = bindE (parse_csv_document codec content) (\<lambda>es. Inr (csv_connector reader es))"

end
