(* ===== verification/Csv_Properties.thy ===== *)
theory Csv_Properties
  imports Csv_Import
begin

text \<open>
  What the CSV import promises: a document written with every field in quotes reads back as its rows, whatever
  line endings, commas and quotes the fields hold; and the envelopes of any accepted document are bounded and
  numbered by the rows they come from. The writer below is the reference, \<open>csv.writer\<close> with
  \<open>quoting=csv.QUOTE_ALL\<close>.
\<close>

section \<open>The reference writer\<close>

definition doubled :: "string \<Rightarrow> string" where
  "doubled f = concat (map (\<lambda>c. if c = QUOTE then [QUOTE, QUOTE] else [c]) f)"

fun written_row :: "string list \<Rightarrow> string" where
  "written_row [] = []"
| "written_row [f] = QUOTE # doubled f @ [QUOTE]"
| "written_row (f # g # fs) = QUOTE # doubled f @ [QUOTE, COMMA] @ written_row (g # fs)"

definition written :: "string list list \<Rightarrow> string" where
  "written rows = concat (map (\<lambda>row. written_row row @ [CR, LF]) rows)"

section \<open>Reading what was written\<close>

lemma separators [simp]:
  "QUOTE \<noteq> LF" "QUOTE \<noteq> CR" "COMMA \<noteq> LF" "COMMA \<noteq> CR" "QUOTE \<noteq> COMMA" "CR \<noteq> LF" "COMMA \<noteq> QUOTE" "LF \<noteq> CR"
  "LF \<noteq> QUOTE" "CR \<noteq> QUOTE" "CR \<noteq> COMMA" "LF \<noteq> COMMA"
  by (simp_all add: QUOTE_def LF_def CR_def COMMA_def)

lemma doubled_simps [simp]:
  "doubled [] = []" "doubled (c # f) = (if c = QUOTE then [QUOTE, QUOTE] else [c]) @ doubled f"
  by (simp_all add: doubled_def)

lemma feed_append: "feed r (xs @ ys) = bindE (feed r xs) (\<lambda>r'. feed r' ys)"
  by (induction xs arbitrary: r) (simp_all add: bindE_assoc)

lemma add_char_fits: "length (cr_field r) < FIELD_LIMIT \<Longrightarrow> add_char c r = Inr (r\<lparr>cr_field := cr_field r @ [c]\<rparr>)"
  by (simp add: add_char_def)

lemma quoted_char:
  assumes "cr_state r = IN_QUOTED_FIELD" "length (cr_field r) < FIELD_LIMIT" "c \<noteq> QUOTE"
  shows "process_char (Some c) r = Inr (r\<lparr>cr_field := cr_field r @ [c]\<rparr>)"
  using assms by (simp add: process_char_def add_char_fits)

lemma quoted_quote:
  assumes "cr_state r = IN_QUOTED_FIELD" "length (cr_field r) < FIELD_LIMIT"
  shows "feed r [Some QUOTE, Some QUOTE] = Inr (r\<lparr>cr_field := cr_field r @ [QUOTE]\<rparr>)"
  using assms by (cases r) (simp add: process_char_def add_char_fits)

lemma quoted_end: "cr_state r = IN_QUOTED_FIELD \<Longrightarrow> process_char None r = Inr r"
  by (simp add: process_char_def)

text \<open>A line that ends inside of a quoted field is followed by the next one.\<close>

lemma read_on:
  assumes "feed r0 (map Some l) = Inr r" "cr_state r = IN_QUOTED_FIELD"
  shows "read_record r0 (l # ls) = read_record r ls"
  using assms by (simp add: feed_append quoted_end)

lemma read_quoted_text:
  assumes "feed r0 (map Some cur) = Inr r" "cr_state r = IN_QUOTED_FIELD" "length (cr_field r) + length f \<le> FIELD_LIMIT"
  shows "\<exists>r1 cur1. read_record r0 (lines_of cur (doubled f @ QUOTE # cs)) = read_record r1 (lines_of cur1 (QUOTE # cs)) \<and>
    feed r1 (map Some cur1) = Inr (r\<lparr>cr_field := cr_field r @ f\<rparr>)"
  using assms
proof (induction f arbitrary: r0 cur r rule: length_induct)
  case (1 f)
  show ?case
  proof (cases f)
    case Nil
    with 1(2) show ?thesis by auto
  next
    case (Cons c f')
    let ?r = "r\<lparr>cr_field := cr_field r @ [c]\<rparr>"
    have len: "length (cr_field r) < FIELD_LIMIT" "length (cr_field ?r) + length f' \<le> FIELD_LIMIT"
      using 1(4) by (simp_all add: Cons)
    have st: "cr_state ?r = IN_QUOTED_FIELD" using 1(3) by simp
    have same: "?r\<lparr>cr_field := cr_field ?r @ f'\<rparr> = r\<lparr>cr_field := cr_field r @ f\<rparr>" by (simp add: Cons)
    note ih = 1(1) [rule_format, unfolded Cons]
    note step = ih [of f', simplified, OF _ st len(2), unfolded same [unfolded Cons]]
    consider (quote) "c = QUOTE" | (lf) "c = LF" | (crlf) f'' where "c = CR" "f' = LF # f''"
      | (cr) "c = CR" "\<nexists>f''. f' = LF # f''" | (plain) "c \<notin> {QUOTE, LF, CR}" by blast
    then show ?thesis
    proof cases
      case quote
      have "feed r0 (map Some (cur @ [QUOTE, QUOTE])) = Inr ?r"
        using 1(2) quoted_quote [OF 1(3) len(1)] quote by (simp add: feed_append)
      from step [OF this] show ?thesis using quote by (simp add: Cons)
    next
      case lf
      have f: "feed r0 (map Some (cur @ [LF])) = Inr ?r"
        using 1(2) quoted_char [OF 1(3) len(1), of LF] lf by (simp add: feed_append)
      have "feed ?r (map Some []) = Inr ?r" by simp
      from step [OF this] read_on [OF f st] show ?thesis using lf by (simp add: Cons)
    next
      case crlf
      let ?r2 = "?r\<lparr>cr_field := cr_field ?r @ [LF]\<rparr>"
      have len2: "length (cr_field ?r) < FIELD_LIMIT" "length (cr_field ?r2) + length f'' \<le> FIELD_LIMIT"
        using 1(4) by (simp_all add: Cons crlf)
      have f: "feed r0 (map Some (cur @ [CR, LF])) = Inr ?r2"
        using 1(2) quoted_char [OF 1(3) len(1), of CR] quoted_char [OF st len2(1), of LF] crlf by (simp add: feed_append)
      have st2: "cr_state ?r2 = IN_QUOTED_FIELD" using 1(3) by simp
      have "feed ?r2 (map Some []) = Inr ?r2" by simp
      from ih [OF _ this st2 len2(2)] read_on [OF f st2] show ?thesis using crlf by (simp add: Cons)
    next
      case cr
      have f: "feed r0 (map Some (cur @ [CR])) = Inr ?r"
        using 1(2) quoted_char [OF 1(3) len(1), of CR] cr by (simp add: feed_append)
      have "feed ?r (map Some []) = Inr ?r" by simp
      note rest = step [OF this]
      obtain d ds where "doubled f' @ QUOTE # cs = d # ds" "d \<noteq> LF"
        using cr(2) by (cases f'; cases "hd f' = QUOTE") auto
      then have "lines_of cur (CR # doubled f' @ QUOTE # cs) = (cur @ [CR]) # lines_of [] (doubled f' @ QUOTE # cs)"
        by simp
      with rest read_on [OF f st] cr(1) show ?thesis by (simp add: Cons)
    next
      case plain
      have "feed r0 (map Some (cur @ [c])) = Inr ?r"
        using 1(2) quoted_char [OF 1(3) len(1), of c] plain by (simp add: feed_append)
      from step [OF this] show ?thesis using plain by (simp add: Cons)
    qed
  qed
qed

lemma opening_quote:
  assumes "cr_state r \<in> {START_RECORD, START_FIELD}"
  shows "process_char (Some QUOTE) r = Inr (r\<lparr>cr_state := IN_QUOTED_FIELD\<rparr>)"
  using assms by (auto simp: process_char_def start_field_def end_of_line_def)

lemma closing_comma:
  assumes "cr_state r = IN_QUOTED_FIELD"
  shows "feed r [Some QUOTE, Some COMMA] = Inr ((save_field r)\<lparr>cr_state := START_FIELD\<rparr>)"
  using assms by (cases r) (simp add: process_char_def save_field_def)

lemma closing_line:
  assumes "cr_state r = IN_QUOTED_FIELD"
  shows "feed r [Some QUOTE, Some CR, Some LF, None] = Inr ((save_field r)\<lparr>cr_state := START_RECORD\<rparr>)"
  using assms by (cases r) (simp add: process_char_def save_field_def end_of_line_def line_done_def)

lemma read_written_row:
  assumes "row \<noteq> []" "\<forall>f \<in> set row. length f \<le> FIELD_LIMIT"
    "feed r0 (map Some cur) = Inr r" "cr_state r \<in> {START_RECORD, START_FIELD}" "cr_field r = []"
  shows "read_record r0 (lines_of cur (written_row row @ CR # LF # cs)) = Inr (Some (cr_fields r @ row, lines_of [] cs))"
  using assms
proof (induction row arbitrary: r0 cur r rule: written_row.induct)
  case (2 f)
  have "feed r0 (map Some (cur @ [QUOTE])) = Inr (r\<lparr>cr_state := IN_QUOTED_FIELD\<rparr>)"
    using 2 opening_quote [of r] by (simp add: feed_append)
  from read_quoted_text [OF this, of f "CR # LF # cs"] 2(2,5) obtain r1 cur1 where
    e: "read_record r0 (lines_of (cur @ [QUOTE]) (doubled f @ QUOTE # CR # LF # cs)) =
        read_record r1 (lines_of cur1 (QUOTE # CR # LF # cs))"
    and f: "feed r1 (map Some cur1) = Inr (r\<lparr>cr_state := IN_QUOTED_FIELD, cr_field := f\<rparr>)"
    by auto
  from f closing_line [of "r\<lparr>cr_state := IN_QUOTED_FIELD, cr_field := f\<rparr>"]
  have "feed r1 (map Some (cur1 @ [QUOTE, CR, LF]) @ [None]) =
      Inr ((save_field (r\<lparr>cr_state := IN_QUOTED_FIELD, cr_field := f\<rparr>))\<lparr>cr_state := START_RECORD\<rparr>)"
    by (simp add: feed_append)
  then have "read_record r1 ((cur1 @ [QUOTE, CR, LF]) # lines_of [] cs) = Inr (Some (cr_fields r @ [f], lines_of [] cs))"
    unfolding read_record.simps by (simp add: save_field_def)
  with e show ?case by simp
next
  case (3 f g fs)
  have "feed r0 (map Some (cur @ [QUOTE])) = Inr (r\<lparr>cr_state := IN_QUOTED_FIELD\<rparr>)"
    using 3 opening_quote [of r] by (simp add: feed_append)
  from read_quoted_text [OF this, of f "COMMA # written_row (g # fs) @ CR # LF # cs"] 3(3,6) obtain r1 cur1 where
    e: "read_record r0 (lines_of (cur @ [QUOTE]) (doubled f @ QUOTE # COMMA # written_row (g # fs) @ CR # LF # cs)) =
        read_record r1 (lines_of cur1 (QUOTE # COMMA # written_row (g # fs) @ CR # LF # cs))"
    and f: "feed r1 (map Some cur1) = Inr (r\<lparr>cr_state := IN_QUOTED_FIELD, cr_field := f\<rparr>)"
    by auto
  let ?r = "(save_field (r\<lparr>cr_state := IN_QUOTED_FIELD, cr_field := f\<rparr>))\<lparr>cr_state := START_FIELD\<rparr>"
  have "feed r1 (map Some (cur1 @ [QUOTE, COMMA])) = Inr ?r"
    using f closing_comma [of "r\<lparr>cr_state := IN_QUOTED_FIELD, cr_field := f\<rparr>"] by (simp add: feed_append)
  from 3(1) [OF _ _ this] 3(3) e show ?case by (simp add: save_field_def)
qed simp

lemma next_written_row:
  assumes "row \<noteq> []" "\<forall>f \<in> set row. length f \<le> FIELD_LIMIT"
  shows "read_record new_record (lines_of [] (written (row # rows))) = Inr (Some (row, lines_of [] (written rows)))"
  using read_written_row [OF assms, of new_record "[]" new_record "written rows"]
  by (simp add: new_record_def written_def)

lemma next_row_written:
  assumes "row \<noteq> []" "\<forall>f \<in> set row. length f \<le> FIELD_LIMIT"
  shows "next_row (lines_of [] (written (row # rows))) = Inr (Some (row, lines_of [] (written rows)))"
  unfolding next_row.simps [of "lines_of [] (written (row # rows))"] next_written_row [OF assms] using assms(1) by simp

lemma no_rows_left: "next_row (lines_of [] (written [])) = Inr None"
  by (simp add: next_row.simps written_def new_record_def)

lemma written_envelopes:
  assumes "\<forall>row \<in> set rows. row \<noteq> [] \<and> (\<forall>f \<in> set row. length f \<le> FIELD_LIMIT)" "n + length rows \<le> MAX_CSV_ROWS + 2"
  shows "row_envelopes codec columns h n (lines_of [] (written rows)) =
    mapE (\<lambda>(i, row). row_envelope codec columns i h row) (enumerate n rows)"
  using assms
proof (induction rows arbitrary: n)
  case Nil
  show ?case unfolding row_envelopes.simps [of _ _ _ _ "lines_of [] (written [])"] no_rows_left by simp
next
  case (Cons row rows)
  have "next_row (lines_of [] (written (row # rows))) = Inr (Some (row, lines_of [] (written rows)))"
    using Cons.prems by (intro next_row_written) auto
  moreover have "n \<le> MAX_CSV_ROWS + 1" using Cons.prems by simp
  ultimately show ?case
    unfolding row_envelopes.simps [of _ _ _ _ "lines_of [] (written (row # rows))"] using Cons by (simp add: MAX_CSV_ROWS_def)
qed

text \<open>The handler has nothing to catch in a row: what a row can raise is not an error of the reader.\<close>

lemma mk_envelope_error: "mk_envelope x ty ts p l ex = Inl e \<Longrightarrow> e = ValueError"
  unfolding mk_envelope_def bindE_Inl bindE_Inr optional_text_def required_text_def aware_instant_def Let_def
  by (auto split: option.splits py_datetime.splits if_splits)

lemma csv_datetime_error: "csv_datetime codec v = Inl e \<Longrightarrow> e = ConnectorContentError ''CSV_ROW_DATETIME_INVALID''"
  by (auto simp: csv_datetime_def split: if_splits option.splits py_datetime.splits prod.splits)

lemma row_envelope_error: "row_envelope codec columns i h row = Inl e \<Longrightarrow> e \<noteq> CsvError"
  unfolding row_envelope_def Let_def bindE_Inl ensure_Inl by (auto dest: mk_envelope_error csv_datetime_error)

lemma mapE_Inl: "mapE f xs = Inl e \<Longrightarrow> \<exists>x \<in> set xs. f x = Inl e"
  by (induction xs) (auto simp: bindE_Inl)

lemma csv_guard_rows:
  "csv_guard (mapE (\<lambda>(i, row). row_envelope codec columns i h row) xs) = mapE (\<lambda>(i, row). row_envelope codec columns i h row) xs"
  by (auto simp: csv_guard_def dest: mapE_Inl row_envelope_error split: sum.splits error.splits)

lemma parse_accepted:
  assumes "utf8_length content \<le> MAX_CSV_DOCUMENT_BYTES" "char_of (0 :: nat) \<notin> set content"
    "header_and_rest (lines_of [] content) = Inr (columns, rest)"
    "columns \<noteq> []" "[] \<notin> set columns" "set REQUIRED_COLUMNS \<subseteq> set columns" "set columns \<subseteq> set ALLOWED_COLUMNS"
  shows "parse_csv_document codec content = csv_guard (row_envelopes codec columns (cv_sha256 codec content) 2 rest)"
  using assms by (simp add: parse_csv_document_def)

text \<open>What the envelope of a row keeps of it.\<close>

definition from_row :: "string \<Rightarrow> nat \<Rightarrow> envelope \<Rightarrow> bool" where
  "from_row h i e \<longleftrightarrow> env_event_type e = ''csv_financial_event'' \<and>
     env_locator e = [(''fileHash'', JStr h), (''row'', JNum (show_digits (int i)))] \<and>
     (\<exists>k d. map_of (env_payload e) ''event_kind'' = Some (JStr k) \<and> map_of (env_payload e) ''description'' = Some (JStr d) \<and>
        k \<noteq> [] \<and> d \<noteq> [] \<and> normalize_display_text k = k \<and> normalize_display_text d = d)"

lemma row_value_normalized: "normalize_display_text (row_value columns row key) = row_value columns row key"
  by (cases "row_cell columns row key") (simp add: row_value_def normalize_display_text_def, simp add: row_value_def)

lemma csv_event_type: "normalize_display_text ''csv_financial_event'' = ''csv_financial_event''"
  by code_simp

lemma row_envelope_from_row:
  assumes "row_envelope codec columns i h row = Inr e"
  shows "from_row h i e"
  using assms row_value_normalized [of columns row]
  by (auto simp: row_envelope_def Let_def result_simps mk_envelope_def required_text_def csv_event_type from_row_def row_payload_def
      split: if_splits)

lemma row_envelopes_from_rows:
  assumes "row_envelopes codec columns h n ls = Inr es" "n \<le> MAX_CSV_ROWS + 2"
  shows "n + length es \<le> MAX_CSV_ROWS + 2 \<and> (\<forall>i < length es. from_row h (n + i) (es ! i))"
  using assms
proof (induction codec columns h n ls arbitrary: es rule: row_envelopes.induct)
  case (1 codec columns h n ls)
  from 1(2) obtain x where x: "next_row ls = Inr x" by (subst (asm) row_envelopes.simps) (auto simp: bindE_Inr)
  show ?case
  proof (cases x)
    case None
    with 1(2,3) x show ?thesis by (subst (asm) row_envelopes.simps) simp
  next
    case (Some y)
    obtain row rest where y: "y = (row, rest)" by (cases y)
    from 1(2) x Some y obtain e es' where e: "n \<le> MAX_CSV_ROWS + 1" "row_envelope codec columns n h row = Inr e"
      "row_envelopes codec columns h (n + 1) rest = Inr es'" "es = e # es'"
      by (subst (asm) row_envelopes.simps) (auto simp: result_simps)
    from 1(1) [OF x Some y [symmetric] _ e(2) e(3)] e(1) have ih: "n + 1 + length es' \<le> MAX_CSV_ROWS + 2"
      "\<forall>i < length es'. from_row h (n + 1 + i) (es' ! i)" by (simp_all add: result_simps)
    from ih(2) row_envelope_from_row [OF e(2)] have "\<forall>i < length es. from_row h (n + i) (es ! i)"
      unfolding e(4) by (simp add: All_less_Suc2)
    with ih(1) show ?thesis by (simp add: e(4))
  qed
qed

lemma read_back:
  assumes header: "columns \<noteq> []" "[] \<notin> set columns" "set REQUIRED_COLUMNS \<subseteq> set columns" "set columns \<subseteq> set ALLOWED_COLUMNS"
    and rows: "\<forall>row \<in> set (columns # rows). row \<noteq> [] \<and> (\<forall>f \<in> set row. length f \<le> FIELD_LIMIT)" "length rows \<le> MAX_CSV_ROWS"
    and size: "utf8_length (written (columns # rows)) \<le> MAX_CSV_DOCUMENT_BYTES" "char_of (0 :: nat) \<notin> set (written (columns # rows))"
  shows "parse_csv_document codec (written (columns # rows)) =
    mapE (\<lambda>(i, row). row_envelope codec columns i (cv_sha256 codec (written (columns # rows))) row) (enumerate 2 rows)"
proof -
  let ?doc = "written (columns # rows)"
  have h: "header_and_rest (lines_of [] ?doc) = Inr (columns, lines_of [] (written rows))"
    unfolding header_and_rest_def using next_written_row [of columns rows] rows(1) by simp
  have r: "row_envelopes codec columns (cv_sha256 codec ?doc) 2 (lines_of [] (written rows)) =
      mapE (\<lambda>(i, row). row_envelope codec columns i (cv_sha256 codec ?doc) row) (enumerate 2 rows)"
    using rows by (intro written_envelopes) auto
  show ?thesis
    unfolding parse_accepted [OF size h header] r csv_guard_rows ..
qed


section \<open>A sample document\<close>

definition sample_csv_codec :: csv_codec where
  "sample_csv_codec = \<lparr>cv_sha256 = (\<lambda>_. replicate 64 (CHR ''a'')), cv_datetime = (\<lambda>_. None)\<rparr>"

definition sample_csv :: "string list list" where
  "sample_csv = [[''event_kind'', ''description'', ''amount''], [''expense'', [CHR ''a'', QUOTE, CR, LF, COMMA], ''120''],
     [''income'', ''Salary'', []]]"

lemma sample_csv_checked:
  "utf8_length (written sample_csv) \<le> 200 \<and> char_of (0 :: nat) \<notin> set (written sample_csv) \<and>
   list_all (\<lambda>row. row \<noteq> [] \<and> list_all (\<lambda>f. length f \<le> 20) row) sample_csv \<and> length (tl sample_csv) = 2 \<and>
   hd sample_csv \<noteq> [] \<and> [] \<notin> set (hd sample_csv) \<and> set REQUIRED_COLUMNS \<subseteq> set (hd sample_csv) \<and>
   set (hd sample_csv) \<subseteq> set ALLOWED_COLUMNS"
  by code_simp

lemma sample_csv_fits:
  "utf8_length (written sample_csv) \<le> 200" "char_of (0 :: nat) \<notin> set (written sample_csv)"
  "list_all (\<lambda>row. row \<noteq> [] \<and> list_all (\<lambda>f. length f \<le> 20) row) sample_csv" "length (tl sample_csv) = 2"
  "hd sample_csv \<noteq> []" "[] \<notin> set (hd sample_csv)" "set REQUIRED_COLUMNS \<subseteq> set (hd sample_csv)"
  "set (hd sample_csv) \<subseteq> set ALLOWED_COLUMNS" "hd sample_csv # tl sample_csv = sample_csv"
  using sample_csv_checked by (blast+, simp add: sample_csv_def)

lemma sample_csv_rows:
  "case mapE (\<lambda>(i, row). row_envelope sample_csv_codec (hd sample_csv) i (replicate 64 (CHR ''a'')) row) (enumerate 2 (tl sample_csv)) of
     Inr [a, b] \<Rightarrow> map_of (env_payload a) ''amount'' = Some (JStr ''120'') \<and> map_of (env_payload b) ''amount'' = None
   | _ \<Rightarrow> False"
  by code_simp

lemma sample_csv_imported:
  "\<exists>a b. parse_csv_document sample_csv_codec (written sample_csv) = Inr [a, b]"
proof -
  have "\<forall>row \<in> set (hd sample_csv # tl sample_csv). row \<noteq> [] \<and> (\<forall>f \<in> set row. length f \<le> FIELD_LIMIT)"
    using sample_csv_fits(3) unfolding sample_csv_fits(9) by (fastforce simp: list_all_iff FIELD_LIMIT_def)
  from read_back [OF sample_csv_fits(5-8) this, of sample_csv_codec] sample_csv_fits(1,2,4)
  have "parse_csv_document sample_csv_codec (written sample_csv) =
    mapE (\<lambda>(i, row). row_envelope sample_csv_codec (hd sample_csv) i (replicate 64 (CHR ''a'')) row) (enumerate 2 (tl sample_csv))"
    unfolding sample_csv_fits(9) by (simp add: MAX_CSV_ROWS_def MAX_CSV_DOCUMENT_BYTES_def sample_csv_codec_def)
  with sample_csv_rows show ?thesis by (auto split: sum.splits list.splits)
qed

section \<open>Properties\<close>

text \<open>
  C21: a CSV document whose header and rows are written with every field in quotes is read back exactly: whatever
  quotes, commas and line endings the fields hold, the import yields the envelopes of the rows, in their order and
  numbered from 2, or the error of the first row that has one.
\<close>

theorem written_documents_read_back:
  assumes header: "columns \<noteq> []" "[] \<notin> set columns" "set REQUIRED_COLUMNS \<subseteq> set columns" "set columns \<subseteq> set ALLOWED_COLUMNS"
    and rows: "\<forall>row \<in> set (columns # rows). row \<noteq> [] \<and> (\<forall>f \<in> set row. length f \<le> FIELD_LIMIT)" "length rows \<le> MAX_CSV_ROWS"
    and size: "utf8_length (written (columns # rows)) \<le> MAX_CSV_DOCUMENT_BYTES" "char_of (0 :: nat) \<notin> set (written (columns # rows))"
  shows "parse_csv_document codec (written (columns # rows)) =
    mapE (\<lambda>(i, row). row_envelope codec columns i (cv_sha256 codec (written (columns # rows))) row) (enumerate 2 rows)"
  by (rule read_back) (fact assms)+

lemma written_documents_read_back_witness:
  "\<exists>a b. parse_csv_document sample_csv_codec (written sample_csv) = Inr [a, b] \<and>
    map_of (env_payload a) ''amount'' = Some (JStr ''120'') \<and> map_of (env_payload b) ''amount'' = None"
proof -
  have "\<forall>row \<in> set (hd sample_csv # tl sample_csv). row \<noteq> [] \<and> (\<forall>f \<in> set row. length f \<le> FIELD_LIMIT)"
    using sample_csv_fits(3) unfolding sample_csv_fits(9) by (fastforce simp: list_all_iff FIELD_LIMIT_def)
  from written_documents_read_back [OF sample_csv_fits(5-8) this, of sample_csv_codec] sample_csv_fits(1,2,4)
  have "parse_csv_document sample_csv_codec (written sample_csv) =
    mapE (\<lambda>(i, row). row_envelope sample_csv_codec (hd sample_csv) i (replicate 64 (CHR ''a'')) row) (enumerate 2 (tl sample_csv))"
    unfolding sample_csv_fits(9) by (simp add: MAX_CSV_ROWS_def MAX_CSV_DOCUMENT_BYTES_def sample_csv_codec_def)
  with sample_csv_rows show ?thesis by (auto split: sum.splits list.splits)
qed

text \<open>
  C22: an accepted CSV document is bounded and its rows stay traceable. Whatever the document, if it is accepted,
  it yields at most 1000 envelopes; the envelope of the i-th row names the digest of the document and the row's
  number in it, and carries a nonblank normalized kind and description.
\<close>

theorem imported_rows_are_traceable:
  assumes "parse_csv_document codec content = Inr es"
  shows "length es \<le> MAX_CSV_ROWS \<and> (\<forall>i < length es. from_row (cv_sha256 codec content) (i + 2) (es ! i))"
proof -
  from assms obtain columns rest where "csv_guard (row_envelopes codec columns (cv_sha256 codec content) 2 rest) = Inr es"
    by (auto simp: parse_csv_document_def result_simps split: prod.splits)
  then have "row_envelopes codec columns (cv_sha256 codec content) 2 rest = Inr es"
    by (auto simp: csv_guard_def split: sum.splits error.splits)
  from row_envelopes_from_rows [OF this] show ?thesis by (simp add: add.commute)
qed

lemma imported_rows_are_traceable_witness:
  "\<exists>a b. parse_csv_document sample_csv_codec (written sample_csv) = Inr [a, b] \<and> from_row (replicate 64 (CHR ''a'')) 3 b"
proof -
  obtain a b where ab: "parse_csv_document sample_csv_codec (written sample_csv) = Inr [a, b]" using sample_csv_imported by blast
  from imported_rows_are_traceable [OF ab] have "from_row (replicate 64 (CHR ''a'')) (1 + 2) b"
    unfolding sample_csv_codec_def by (elim conjE allE [of _ 1]) simp
  with ab show ?thesis by (auto simp: numeral_3_eq_3)
qed

end
