(* ===== verification/Keep_Import.thy ===== *)
theory Keep_Import
  imports Connectors
begin

text \<open>
  The import of Google Keep notes: \<open>connectors/google_keep_takeout.py\<close>. What \<open>json.loads\<close> reads from a
  document (an object with distinct keys), the digest of \<open>hashlib\<close> and the instant that
  \<open>datetime.fromtimestamp(int(raw) / 1_000_000)\<close> gives for a JSON value are parameters.
\<close>

definition MAX_KEEP_DOCUMENT_BYTES :: nat where "MAX_KEEP_DOCUMENT_BYTES = 65536"
definition MAX_KEEP_NOTE_CHARS :: nat where "MAX_KEEP_NOTE_CHARS = 8000"

record keep_codec =
  kc_loads :: "string \<Rightarrow> json option"
  kc_sha256 :: "string \<Rightarrow> string"
  kc_instant :: "json \<Rightarrow> instant option"

definition text_of :: "json option \<Rightarrow> string" where
  "text_of v = (case v of Some (JStr s) \<Rightarrow> normalize_display_text s | _ \<Rightarrow> [])"

definition join_lines :: "string list \<Rightarrow> string" where
  "join_lines items = (case items of [] \<Rightarrow> [] | x # xs \<Rightarrow> x @ concat (map (\<lambda>y. newline @ y) xs))"

definition list_item :: "json \<Rightarrow> string option" where
  "list_item raw =
     (case raw of
        JObj item \<Rightarrow>
          let t = text_of (map_of item ''text'')
          in if t = [] then None
             else Some ((if map_of item ''isChecked'' = Some (JBool True) then ''[x]'' else ''[ ]'') @ '' '' @ t)
      | _ \<Rightarrow> None)"

definition list_content_text :: "json option \<Rightarrow> string" where
  "list_content_text v = (case v of Some (JList xs) \<Rightarrow> join_lines (List.map_filter list_item xs) | _ \<Rightarrow> [])"

text \<open>The loop over the labels, which keeps the first of every spelling and stops at the eleventh.\<close>

fun keep_labels :: "string list \<Rightarrow> string list \<Rightarrow> json list \<Rightarrow> string list" where
  "keep_labels seen kept [] = kept"
| "keep_labels seen kept (raw # rest) =
     (let name = (case raw of JObj item \<Rightarrow> text_of (map_of item ''name'') | _ \<Rightarrow> []) in
      if name = [] then keep_labels seen kept rest
      else let label = take MAX_TAG_LENGTH name; new = casefold label \<notin> set seen;
               seen' = (if new then casefold label # seen else seen); kept' = (if new then kept @ [label] else kept)
           in if length kept' = MAX_TAGS - 1 then kept' else keep_labels seen' kept' rest)"

definition labels_of :: "json option \<Rightarrow> string list" where
  "labels_of v = (case v of Some (JList xs) \<Rightarrow> keep_labels [] [] xs | _ \<Rightarrow> [])"

definition keep_timestamp :: "keep_codec \<Rightarrow> json_object \<Rightarrow> instant option" where
  "keep_timestamp codec document =
     (let instant_of = (\<lambda>key. case map_of document key of None \<Rightarrow> None | Some JNull \<Rightarrow> None | Some v \<Rightarrow> kc_instant codec v)
      in case instant_of ''userEditedTimestampUsec'' of Some t \<Rightarrow> Some t | None \<Rightarrow> instant_of ''createdTimestampUsec'')"

definition present :: "string list \<Rightarrow> string list" where
  "present items = filter (\<lambda>t. t \<noteq> []) items"

definition keep_envelope :: "keep_codec \<Rightarrow> string \<Rightarrow> json_object \<Rightarrow> string \<Rightarrow> string \<Rightarrow> envelope result" where
  "keep_envelope codec filename document title note_text =
     (let filename_hash = kc_sha256 codec filename;
          extraction_text = normalize_display_text (join_lines (present [title, note_text])) in
      mk_envelope (Some (''takeout:'' @ filename_hash)) ''google_keep_note''
        (map_option Aware (keep_timestamp codec document))
        [(''title'', JStr title), (''note_text'', JStr note_text),
         (''extraction_text'', JStr (take MAX_KEEP_NOTE_CHARS extraction_text)),
         (''labels'', JList (map JStr (labels_of (map_of document ''labels''))))]
        [(''exportFileHash'', JStr filename_hash)] (Some (take 500 extraction_text)))"

definition parse_keep_takeout_document :: "keep_codec \<Rightarrow> string \<Rightarrow> string \<Rightarrow> (envelope option) result" where
  "parse_keep_takeout_document codec filename content =
     bindE (ensure (utf8_length content \<le> MAX_KEEP_DOCUMENT_BYTES) (ConnectorContentError ''KEEP_DOCUMENT_TOO_LARGE'')) (\<lambda>_.
     bindE (case kc_loads codec content of
              Some (JObj document) \<Rightarrow> Inr document
            | _ \<Rightarrow> Inl (ConnectorContentError ''KEEP_DOCUMENT_INVALID'')) (\<lambda>document.
       if map_of document ''isTrashed'' = Some (JBool True) then Inr None
       else
         let title = text_of (map_of document ''title'');
             text_content = text_of (map_of document ''textContent'');
             list_text = list_content_text (map_of document ''listContent'');
             note_text = take MAX_KEEP_NOTE_CHARS (normalize_display_text (join_lines (present [text_content, list_text])))
         in if title = [] \<and> note_text = [] then Inr None
            else bindE (keep_envelope codec filename document title note_text) (\<lambda>e. Inr (Some e))))"

fun json_texts :: "json option \<Rightarrow> string list" where
  "json_texts (Some (JList xs)) = strings_of xs"
| "json_texts _ = []"

definition normalize_keep :: "envelope \<Rightarrow> financial_event result" where
  "normalize_keep e =
     (let title = text_of (map_of (env_payload e) ''title''); note_text = text_of (map_of (env_payload e) ''note_text'') in
      mk_event KIND_UNKNOWN None None
        (if title \<noteq> [] then title else if note_text \<noteq> [] then take 200 note_text else ''Google Keep financial note'')
        (map_option Aware (env_occurred_at e)) None None None
        (''google-keep'' # json_texts (map_of (env_payload e) ''labels'')) [] None)"

definition keep_connector :: "envelope list \<Rightarrow> connector" where
  "keep_connector events =
     \<lparr>cn_descriptor = (GOOGLE_KEEP_TAKEOUT, ''Google Keep Takeout''), cn_health = (HEALTHY, None),
      cn_fetch = offset_page events, cn_normalize = normalize_keep\<rparr>"

definition keep_from_documents :: "keep_codec \<Rightarrow> (string \<times> string) list \<Rightarrow> connector result" where
  "keep_from_documents codec documents =
     bindE (mapE (\<lambda>(filename, content). parse_keep_takeout_document codec filename content) documents) (\<lambda>es.
       Inr (keep_connector (List.map_filter id es)))"

end
