(* ===== verification/Proposal_Laws.thy ===== *)
theory Proposal_Laws
  imports Proposals Provenance_Steps
begin

text \<open>
  The laws of the review queue. Every committed transaction of the program keeps what a proposal says,
  moves its status only along a table, and leaves the normalized events of the extraction alone; the
  proposals' own operations keep the invariant \<open>review_wf\<close>, in which a waiting proposal is a valid event
  that has not been handed to the ledger yet.
\<close>

section \<open>What the other components leave of the queue\<close>

definition queue_of :: "'a reconciliation_db_scheme \<Rightarrow> proposal_row list \<times> normalized_row list" where
  "queue_of db = (proposals db, normalized_events db)"

lemma queue_of_more: "ledger_db.more db' = ledger_db.more (db :: 'a reconciliation_db_scheme) \<Longrightarrow> queue_of db' = queue_of db"
  using more_tables [of db' db] by (simp add: queue_of_def)

lemma queue_put_processing [simp]: "queue_of (put_processing p db) = queue_of db"
  by (simp add: queue_of_def put_processing_def)

lemma repo_create_queue:
  fixes db :: "'a reconciliation_db_scheme"
  shows "repo_create_transaction u c ids db = Inr (db', v) \<Longrightarrow> queue_of db' = queue_of db"
  using repo_create_transaction_frame [of u c ids db db' v] queue_of_more by blast

lemma add_evidence_queue: "add_evidence u r n t loc ex i db = Inr db' \<Longrightarrow> queue_of db' = queue_of db"
  by (auto simp: add_evidence_Inr queue_of_def)

lemma create_case_queue: "create_case u n r st res ty loc ex ver now ids db = Inr (db', c) \<Longrightarrow> queue_of db' = queue_of db"
  using create_case_Inr(5) [of u n r st res ty loc ex ver now ids db db' c] by (simp add: queue_of_def)

lemma update_case_queue: "update_case c db = Inr db' \<Longrightarrow> queue_of db' = queue_of db"
  by (auto simp: update_case_Inr queue_of_def)

lemma append_action_queue: "append_action u c ty f t now i db = Inr db' \<Longrightarrow> queue_of db' = queue_of db"
  by (auto simp: append_action_Inr queue_of_def)

lemmas queue_frames = repo_create_queue add_evidence_queue create_case_queue update_case_queue append_action_queue

lemma reconcile_queue:
  assumes "reconcile_transaction pol u n command loc ex env db = Inr (db', out)"
  shows "queue_of db' = queue_of db"
proof -
  have "merge_automatically u n ty r loc ex env db = Inr (db', out) \<Longrightarrow> queue_of db' = queue_of db" for ty r
    by (auto simp: merge_automatically_def result_simps dest!: queue_frames)
  moreover have "flag_candidate u n r loc ex env db = Inr (db', out) \<Longrightarrow> queue_of db' = queue_of db" for r
    by (auto simp: flag_candidate_def result_simps dest!: queue_frames)
  moreover have "post_new u n command r loc ex env db = Inr (db', out) \<Longrightarrow> queue_of db' = queue_of db" for r
    by (auto simp: post_new_def result_simps dest!: queue_frames)
  ultimately show ?thesis using assms by (auto simp: reconcile_transaction_def Let_def split: reconciliation_decision.splits)
qed

lemma post_or_queue_review_queue:
  assumes "post_or_queue_review pol u e p n env db = Inr (db', p', tid)"
  shows "queue_of db' = queue_of db"
proof -
  have "post_command pol u e p n c env db = Inr (db', p', tid) \<Longrightarrow> queue_of db' = queue_of db" for c
    by (auto simp: post_command_def result_simps split: if_splits dest!: reconcile_queue)
  with assms show ?thesis
    by (auto simp: post_or_queue_review_def result_simps split: option.splits sum.splits if_splits)
qed

section \<open>Resolved proposals\<close>

text \<open>
  What a step outside the queue may do to a proposal: nothing, or give a proposal that waits for
  reconciliation, or is approved already, another transaction as its target.
\<close>

definition resolved :: "proposal_row \<Rightarrow> proposal_row \<Rightarrow> bool" where
  "resolved p p' \<longleftrightarrow> p' = p \<or>
     ((fp_status p = PROPOSAL_RECONCILIATION_REVIEW \<or> fp_status p = PROPOSAL_APPROVED) \<and>
      (\<exists>t. p' = p\<lparr>fp_status := PROPOSAL_APPROVED, fp_transaction := Some t\<rparr>) \<and> proposal_targets_ok p')"

definition prompt_events :: "'a reconciliation_db_scheme \<Rightarrow> normalized_row list" where
  "prompt_events db = filter (\<lambda>n. nev_key n = PROMPT_NAME) (normalized_events db)"

definition queue_kept :: "'a reconciliation_db_scheme \<Rightarrow> 'a reconciliation_db_scheme \<Rightarrow> bool" where
  "queue_kept db db' \<longleftrightarrow> list_all2 resolved (proposals db) (proposals db') \<and> prompt_events db' = prompt_events db"

lemma resolved_refl [simp]: "resolved p p" "list_all2 resolved ps ps"
  by (simp_all add: resolved_def list_all2_same)

lemma queue_kept_same: "queue_of db' = queue_of db \<Longrightarrow> queue_kept db db'"
  by (auto simp: queue_kept_def queue_of_def prompt_events_def)

lemma queue_kept_update:
  assumes "queue_of db1 = queue_of db" "update_proposal q' db1 = Inr db'" "q \<in> set (proposals db)"
    "distinct (map fp_id (proposals db))" "fp_id q' = fp_id q" "resolved q q'"
  shows "queue_kept db db'"
proof -
  have p: "proposals db' = modify_rows (\<lambda>r. fp_id r = fp_id q') (\<lambda>_. q') (proposals db)" and
    n: "normalized_events db' = normalized_events db"
    using assms(1,2) by (auto simp: update_proposal_def result_simps queue_of_def)
  have "x = q" if "x \<in> set (proposals db)" "fp_id x = fp_id q" for x
    using that assms(3,4) by (metis distinct_map inj_onD)
  then have "list_all2 resolved (proposals db) (proposals db')"
    using assms(5,6) unfolding p modify_rows_def list_all2_map2 by (auto simp: list_all2_same)
  with n show ?thesis by (simp add: queue_kept_def prompt_events_def)
qed

lemma proposal_for_raw_event_Some:
  assumes "proposal_for_raw_event u r db = Some q"
  shows "q \<in> set (proposals db)" "fp_status q = PROPOSAL_RECONCILIATION_REVIEW \<or> fp_status q = PROPOSAL_APPROVED"
  using select_one_SomeD [OF assms [unfolded proposal_for_raw_event_def]] by auto

lemma complete_source_queue:
  assumes "complete_source u c t db1 = Inr db'" "queue_of db1 = queue_of db" "distinct (map fp_id (proposals db))"
  shows "queue_kept db db'"
proof -
  from assms(1) obtain p where
    p: "(case proposal_for_raw_event u (rcs_raw c) (put_processing (p\<lparr>prc_state := PROCESSED, prc_error := None\<rparr>) db1) of
          None \<Rightarrow> Inr (put_processing (p\<lparr>prc_state := PROCESSED, prc_error := None\<rparr>) db1)
        | Some q \<Rightarrow>
            bindE (ensure (fp_status q = PROPOSAL_RECONCILIATION_REVIEW)
                     (ReconciliationConflictError ''RECONCILIATION_PROPOSAL_NOT_REVIEWABLE'')) (\<lambda>_.
              update_proposal (q\<lparr>fp_status := PROPOSAL_APPROVED, fp_transaction := Some t\<rparr>)
                (put_processing (p\<lparr>prc_state := PROCESSED, prc_error := None\<rparr>) db1))) = Inr db'" (is "(case ?q of None \<Rightarrow> Inr ?db | Some q \<Rightarrow> ?f q) = _")
    by (auto simp: complete_source_def Let_def result_simps)
  have same: "queue_of ?db = queue_of db" using assms(2) by simp
  show ?thesis
  proof (cases ?q)
    case None
    with p same show ?thesis by (auto intro: queue_kept_same)
  next
    case (Some q)
    from proposal_for_raw_event_Some(1) [OF Some] same have q: "q \<in> set (proposals db)" by (simp add: queue_of_def)
    from p Some have s: "fp_status q = PROPOSAL_RECONCILIATION_REVIEW"
      "update_proposal (q\<lparr>fp_status := PROPOSAL_APPROVED, fp_transaction := Some t\<rparr>) ?db = Inr db'"
      by (simp_all add: result_simps)
    from s(2) have "proposal_targets_ok (q\<lparr>fp_status := PROPOSAL_APPROVED, fp_transaction := Some t\<rparr>)"
      by (auto simp: update_proposal_def result_simps)
    with s(1) show ?thesis by (intro queue_kept_update [OF same s(2) q assms(3)]) (auto simp: resolved_def)
  qed
qed

lemma unmerge_proposal_queue:
  assumes "(case proposal_for_raw_event u r db1 of None \<Rightarrow> Inr db1
      | Some q \<Rightarrow> update_proposal (q\<lparr>fp_transaction := Some t\<rparr>) db1) = Inr db'"
    "queue_of db1 = queue_of db" "distinct (map fp_id (proposals db))"
  shows "queue_kept db db'"
proof (cases "proposal_for_raw_event u r db1")
  case None
  with assms show ?thesis by (auto intro: queue_kept_same)
next
  case (Some q)
  note Q = proposal_for_raw_event_Some [OF Some]
  from assms(1) Some have up: "update_proposal (q\<lparr>fp_transaction := Some t\<rparr>) db1 = Inr db'" by simp
  then have ok: "proposal_targets_ok (q\<lparr>fp_transaction := Some t\<rparr>)" by (auto simp: update_proposal_def result_simps)
  with Q(2) have a: "fp_status q = PROPOSAL_APPROVED" by (auto simp: proposal_targets_ok_def targets_def List.map_filter_def)
  then have "q\<lparr>fp_transaction := Some t\<rparr> = q\<lparr>fp_status := PROPOSAL_APPROVED, fp_transaction := Some t\<rparr>" by simp
  then have "resolved q (q\<lparr>fp_transaction := Some t\<rparr>)" unfolding resolved_def using a ok by blast
  with Q(1) assms(2) show ?thesis
    by (intro queue_kept_update [OF assms(2) up _ assms(3)]) (simp_all add: queue_of_def)
qed

section \<open>Steps of the other components\<close>

lemma prompt_name_is_no_connector [simp]: "connector_type_value src \<noteq> PROMPT_NAME" "PROMPT_NAME \<noteq> connector_type_value src"
  by (cases src; simp add: PROMPT_NAME_def)+

lemma store_normalized_other:
  assumes "store_normalized_event u r ev (connector_type_value src) ver now i db = Inr (db', n)"
  shows "queue_kept db db' \<and> proposals db' = proposals db"
proof -
  from assms obtain ins where "insert_normalized (normalized_of_event u r ev (connector_type_value src) ver now i) db = Inr (db', ins)"
    by (auto simp: store_normalized_event_def Let_def result_simps)
  from insert_normalized_Inr [OF this] show ?thesis
    by (auto simp: queue_kept_def prompt_events_def normalized_of_event_def)
qed

lemma queue_kept_then: "queue_kept db db1 \<Longrightarrow> queue_of db' = queue_of db1 \<Longrightarrow> queue_kept db db'"
  by (simp add: queue_kept_def queue_of_def prompt_events_def)

lemma process_normalized_queue:
  assumes "process_normalized pol u src e s ev env db = Inr (db', r)"
  shows "queue_kept db db'"
proof -
  from assms obtain p where p: "get_processing u (sre_id s) db = Inr p" by (auto simp: process_normalized_def result_simps)
  show ?thesis
  proof (cases "terminal (prc_state p)")
    case True
    with assms p show ?thesis by (auto simp: process_normalized_def result_simps intro: queue_kept_same)
  next
    case False
    with assms p obtain db1 n p1 db2 p2 tid where
      st: "store_normalized_event u (sre_id s) ev (connector_type_value src) NORMALIZER_VERSION (he_now (ie_handoff env)) (ie_event env) db = Inr (db1, n)"
      and po: "post_or_queue_review pol u e p1 n (ie_handoff env) db1 = Inr (db2, p2, tid)" and db': "db' = put_processing p2 db2"
      by (auto simp: process_normalized_def result_simps)
    from post_or_queue_review_queue [OF po] store_normalized_other [OF st] show ?thesis
      by (auto simp: db' intro: queue_kept_then)
  qed
qed

lemma store_raw_event_queue: "store_raw_event u c e k h pl i db = Inr (db', s) \<Longrightarrow> queue_of db' = queue_of db"
  by (auto simp: store_raw_event_def result_simps queue_of_def insert_processing_def dest!: insert_raw_rows)

lemma correct_transaction_queue:
  fixes db :: "'a reconciliation_db_scheme"
  assumes "correct_transaction u i c now ids db = Inr (db', v)"
  shows "queue_of db' = queue_of db"
proof -
  from assms have "repo_correct u i c now ids db = Inr (db', Some v)" by (simp add: correct_transaction_Inr)
  from repo_correct_Some [OF this] show ?thesis by (auto simp: queue_of_def)
qed

lemma apply_merge_queue:
  assumes "apply_merge u i env db = Inr db'" "distinct (map fp_id (proposals db))"
  shows "queue_kept db db'"
  using assms by (auto simp: apply_merge_def result_simps dest!: queue_frames intro: complete_source_queue)

lemma apply_keep_separate_queue:
  assumes "apply_keep_separate u i env db = Inr db'" "distinct (map fp_id (proposals db))"
  shows "queue_kept db db'"
  using assms by (auto simp: apply_keep_separate_def result_simps dest!: queue_frames intro: complete_source_queue)

lemma move_evidence_queue: "move_evidence x t db = Inr db' \<Longrightarrow> queue_of db' = queue_of db"
  by (auto simp: move_evidence_def result_simps queue_of_def)

lemma apply_unmerge_queue:
  assumes "apply_unmerge u i env db = Inr db'" "distinct (map fp_id (proposals db))"
  shows "queue_kept db db'"
  using assms(1) assms(2)
  by (auto simp: apply_unmerge_def bindE_Inr require_merged_Inr dest!: queue_frames move_evidence_queue
      intro!: unmerge_proposal_queue)

lemma provenance_step_queue:
  assumes "provenance_step db db'" "distinct (map fp_id (proposals db))"
  shows "queue_kept db db'"
  using assms
proof (induction rule: provenance_step.induct)
  case (connected u d k i db db' cv)
  then obtain key where "ensure_connection u d key i db = Inr (db', cv)"
    by (auto simp: ensure_active_connection_def Let_def result_simps)
  from ensure_connection_Inr [OF this] show ?case by (intro queue_kept_same) (auto simp: queue_of_def)
next
  case (received codec u c e i db db' s)
  then obtain k h pl where "store_raw_event u c e k h pl i db = Inr (db', s)" using receive_Inr by blast
  from store_raw_event_queue [OF this] show ?case by (rule queue_kept_same)
next
  case (failed u s code db db' r)
  then show ?case by (auto simp: mark_failed_def result_simps split: if_splits intro!: queue_kept_same)
next
  case (processed pol u src e s ev env db db' r)
  then show ?case by (blast intro: process_normalized_queue)
next
  case (synced u c cursor now db db')
  then show ?case by (intro queue_kept_same) (auto simp: update_connection_cursor_def result_simps queue_of_def)
next
  case (merged u i henv db db' v)
  then show ?case by (auto simp: merge_case_def dest!: with_view_Inr intro: apply_merge_queue)
next
  case (kept_separate u i henv db db' v)
  then show ?case by (auto simp: keep_separate_def dest!: with_view_Inr intro: apply_keep_separate_queue)
next
  case (unmerged u i henv db db' v)
  then show ?case by (auto simp: unmerge_def dest!: with_view_Inr intro: apply_unmerge_queue)
next
  case (booked u tc ids db db' tv)
  then have "repo_create_transaction u (select_category u tc db) ids db = Inr (db', tv)" by (simp add: create_transaction_Inr)
  then show ?case by (intro queue_kept_same repo_create_queue)
next
  case (recategorized u i c now ids db db' cv)
  then show ?case by (intro queue_kept_same correct_transaction_queue)
qed

section \<open>The invariant\<close>

text \<open>The event that a proposal is normalized to.\<close>

definition event_of_proposal :: "proposal_row \<Rightarrow> financial_event" where
  "event_of_proposal p =
     \<lparr>fe_schema = SCHEMA_VERSION, fe_kind = fp_kind p, fe_amount = fp_amount p, fe_currency = fp_currency p,
      fe_description = fp_description p, fe_occurred_at = fp_occurred_at p, fe_merchant = fp_merchant p,
      fe_counterparty = fp_counterparty p, fe_category_hint = fp_category_hint p, fe_tags = fp_tags p,
      fe_identifiers = [], fe_confidence = Some (fp_confidence p)\<rparr>"

definition proposal_ok :: "proposal_row \<Rightarrow> bool" where
  "proposal_ok p \<longleftrightarrow> fp_prompt p = PROMPT_NAME \<and> fp_schema p = NOTE_SCHEMA_VERSION \<and> proposal_checks p \<and>
     normalized_contract p = Inr (event_of_proposal p)"

text \<open>What identifies the extraction that a proposal or a normalized event comes from.\<close>

definition origin :: "proposal_row \<Rightarrow> uuid \<times> string" where
  "origin p = (fp_raw p, fp_version p)"

definition proposals_ok :: "'a reconciliation_db_scheme \<Rightarrow> bool" where
  "proposals_ok db \<longleftrightarrow>
     distinct (map fp_id (proposals db)) \<and> distinct (map origin (proposals db)) \<and>
     (\<forall>p \<in> set (proposals db). proposal_ok p \<and> fk_raw db (fp_raw p) (fp_user p)) \<and>
     (\<forall>n \<in> set (prompt_events db). \<exists>p \<in> set (proposals db). origin p = (nev_raw n, nev_version n) \<and>
        fp_status p \<noteq> PROPOSAL_NEEDS_REVIEW)"

definition review_wf :: "'a reconciliation_db_scheme \<Rightarrow> bool" where
  "review_wf db \<longleftrightarrow> provenance_wf db \<and> proposals_ok db"

lemma resolved_keeps:
  assumes "resolved p p'"
  shows "fp_id p' = fp_id p" "origin p' = origin p" "fp_raw p' = fp_raw p" "fp_user p' = fp_user p"
    "fp_status p' = PROPOSAL_NEEDS_REVIEW \<longleftrightarrow> fp_status p = PROPOSAL_NEEDS_REVIEW" "proposal_ok p \<Longrightarrow> proposal_ok p'"
  using assms
  by (auto simp: resolved_def origin_def proposal_ok_def proposal_checks_def normalized_contract_def event_of_proposal_def)

lemma all2_map: "list_all2 R xs ys \<Longrightarrow> (\<And>x y. R x y \<Longrightarrow> f y = f x) \<Longrightarrow> map f ys = map f xs"
  by (induction rule: list_all2_induct) auto

lemma all2_right: "list_all2 R xs ys \<Longrightarrow> y \<in> set ys \<Longrightarrow> \<exists>x \<in> set xs. R x y"
  by (induction rule: list_all2_induct) auto

lemma all2_left: "list_all2 R xs ys \<Longrightarrow> x \<in> set xs \<Longrightarrow> \<exists>y \<in> set ys. R x y"
  by (induction rule: list_all2_induct) auto

lemma fk_raw_moves: "moves db db' \<Longrightarrow> fk_raw db r u \<Longrightarrow> fk_raw db' r u"
  by (auto simp: moves_def sources_kept_def fk_raw_def)

lemma queue_kept_ok:
  assumes "queue_kept db db'" "moves db db'" "proposals_ok db"
  shows "proposals_ok db'"
proof -
  from assms(1) have r: "list_all2 resolved (proposals db) (proposals db')" and e: "prompt_events db' = prompt_events db"
    by (simp_all add: queue_kept_def)
  have M: "map fp_id (proposals db') = map fp_id (proposals db)" "map origin (proposals db') = map origin (proposals db)"
    using all2_map [OF r] resolved_keeps by blast+
  have "proposal_ok p' \<and> fk_raw db' (fp_raw p') (fp_user p')" if "p' \<in> set (proposals db')" for p'
    using all2_right [OF r that] assms(3) resolved_keeps fk_raw_moves [OF assms(2)] by (auto simp: proposals_ok_def)
  moreover have "\<exists>p' \<in> set (proposals db'). origin p' = (nev_raw n, nev_version n) \<and> fp_status p' \<noteq> PROPOSAL_NEEDS_REVIEW"
    if n: "n \<in> set (prompt_events db')" for n
  proof -
    from n assms(3) e obtain p where p: "p \<in> set (proposals db)" "origin p = (nev_raw n, nev_version n)"
      "fp_status p \<noteq> PROPOSAL_NEEDS_REVIEW" by (auto simp: proposals_ok_def)
    from all2_left [OF r p(1)] obtain p' where "p' \<in> set (proposals db')" "resolved p p'" by blast
    with p resolved_keeps [of p p'] show ?thesis by auto
  qed
  ultimately show ?thesis using assms(3) unfolding proposals_ok_def M by blast
qed

section \<open>Extraction\<close>

lemma extracted_proposal_ok:
  assumes "result_of xt c = Inr x" "proposal_checks (proposal_of u ctx x i now)"
  shows "proposal_ok (proposal_of u ctx x i now)" "fp_version (proposal_of u ctx x i now) = PROMPT_VERSION"
proof -
  from assms(1) obtain e f where x: "xr_event x = e" "xr_prompt x = PROMPT_NAME" "xr_version x = PROMPT_VERSION"
      "xr_schema x = NOTE_SCHEMA_VERSION" and e: "mk_extracted f = Inr e"
    by (auto simp: result_of_def validated_event_def result_simps split: sum.splits)
  let ?p = "proposal_of u ctx x i now"
  have "normalized_contract ?p = contract_of e"
    by (simp add: normalized_contract_def contract_of_def proposal_of_def Let_def x)
  also have "\<dots> = Inr (event_of_proposal ?p)"
    by (simp add: contract_of_extracted [OF e] event_of_proposal_def proposal_of_def Let_def x)
  finally show "proposal_ok ?p" "fp_version ?p = PROMPT_VERSION"
    using assms(2) by (simp_all add: proposal_ok_def proposal_of_def Let_def x)
qed

lemma insert_proposal_Inr:
  assumes "insert_proposal p db = Inr (db', ins)"
  shows "(db' = db \<and> ins = None) \<or>
    (ins = Some (fp_id p) \<and> \<not> list_ex (for_prompt (fp_raw p) (fp_prompt p) (fp_version p) (fp_schema p)) (proposals db) \<and>
     proposal_checks p \<and> fk_raw db (fp_raw p) (fp_user p) \<and> fp_id p \<notin> fp_id ` set (proposals db) \<and>
     db' = db\<lparr>proposals := proposals db @ [p]\<rparr>)"
  using assms by (auto simp: insert_proposal_def result_simps table_simps split: if_splits)

lemma set_error_code_Inr:
  assumes "set_error_code u r code db = Inr db'"
  shows "\<exists>p. get_processing u r db = Inr p \<and> db' = put_processing (p\<lparr>prc_error := code\<rparr>) db"
  using assms by (auto simp: set_error_code_def result_simps)

lemma set_error_code_step:
  assumes "set_error_code u r code db = Inr db'" "review_wf db"
  shows "review_wf db' \<and> moves db db' \<and> queue_of db' = queue_of db"
proof -
  from set_error_code_Inr [OF assms(1)] obtain p where p: "get_processing u r db = Inr p"
    and db': "db' = put_processing (p\<lparr>prc_error := code\<rparr>) db" by blast
  have pw: "provenance_wf db" using assms(2) by (simp add: review_wf_def)
  have s: "provenance_wf db' \<and> moves db db'"
    unfolding db' by (rule put_processing_step [OF get_processing_Inr(1) [OF p] _ _ _ pw]) (auto intro: path.stay)
  have q: "queue_of db' = queue_of db" by (simp add: db')
  from queue_kept_ok [OF queue_kept_same [OF q]] s q assms(2) show ?thesis by (simp add: review_wf_def)
qed

lemma insert_proposal_ok:
  assumes "insert_proposal p db = Inr (db', ins)" "proposal_checks p \<Longrightarrow> proposal_ok p" "proposals_ok db"
  shows "proposals_ok db'"
  using insert_proposal_Inr [OF assms(1)]
proof (elim disjE conjE)
  assume new: "\<not> list_ex (for_prompt (fp_raw p) (fp_prompt p) (fp_version p) (fp_schema p)) (proposals db)" "proposal_checks p"
    "fk_raw db (fp_raw p) (fp_user p)" "fp_id p \<notin> fp_id ` set (proposals db)" and db': "db' = db\<lparr>proposals := proposals db @ [p]\<rparr>"
  note ok = assms(2) [OF new(2)]
  have "origin p \<notin> origin ` set (proposals db)"
  proof
    assume "origin p \<in> origin ` set (proposals db)"
    then obtain q where "q \<in> set (proposals db)" "origin q = origin p" by auto
    moreover from this(1) assms(3) have "proposal_ok q" by (simp add: proposals_ok_def)
    ultimately show False using new(1) ok by (auto simp: list_ex_iff for_prompt_def origin_def proposal_ok_def)
  qed
  with new ok assms(3) show ?thesis by (auto simp: proposals_ok_def db' prompt_events_def fk_raw_def)
qed (use assms(3) in simp)

lemma store_extraction_step:
  assumes "store_extraction u r ctx x i now db = Inr (db', v)" "result_of xt c = Inr x" "review_wf db"
  shows "review_wf db' \<and> moves db db'"
proof -
  from assms(1) obtain db1 ins where ins: "insert_proposal (proposal_of u ctx x i now) db = Inr (db1, ins)"
    and code: "set_error_code u r None db1 = Inr db'"
    by (auto simp: store_extraction_def create_or_get_def result_simps)
  have "proposals_ok db1"
    using insert_proposal_ok [OF ins] extracted_proposal_ok(1) [OF assms(2)] assms(3) by (simp add: review_wf_def)
  moreover obtain ps where "db1 = db\<lparr>proposals := ps\<rparr>" using insert_proposal_Inr [OF ins] by (cases db) auto
  ultimately have "review_wf db1" "sources_of db1 = sources_of db"
    using assms(3) proposals_wf by (auto simp: review_wf_def sources_of_def)
  with set_error_code_step [OF code] moves_sources show ?thesis by blast
qed

end
