(* ===== verification/Proposal_Steps.thy ===== *)
theory Proposal_Steps
  imports Proposal_Laws Obligation_Laws Recurring_Laws
begin

text \<open>
  Deciding a proposal: what rejecting and approving write, that they keep \<open>review_wf\<close>, and the steps of
  the whole pipeline with the review queue, along which the status of a proposal follows its table (an
  instance of the locale \<open>lifecycle\<close>).
\<close>

section \<open>Writing the decision\<close>

lemma lock_proposal_Some:
  assumes "require_pending_proposal (lock_proposal u i db) = Inr p"
  shows "p \<in> set (proposals db)" "fp_id p = i" "fp_user p = u" "fp_status p = PROPOSAL_NEEDS_REVIEW"
    "select_one (\<lambda>p. fp_id p = i \<and> fp_user p = u) (proposals db) = Some p"
  using assms select_one_SomeD [of "\<lambda>p. fp_id p = i \<and> fp_user p = u" "proposals db" p]
  by (auto simp: require_pending_proposal_def lock_proposal_def result_simps)

lemma flush_proposal_Inr:
  assumes "flush_proposal p db = Inr db'"
  shows "proposal_checks p" "db' = db\<lparr>proposals := modify_rows (\<lambda>r. fp_id r = fp_id p) (\<lambda>_. p) (proposals db)\<rparr>"
  using assms by (auto simp: flush_proposal_def result_simps)

text \<open>What a decision changes of the proposal itself: its status and its target.\<close>

definition decides :: "proposal_row \<Rightarrow> proposal_row \<Rightarrow> bool" where
  "decides p p1 \<longleftrightarrow> (\<exists>s t r b c. p1 = p\<lparr>fp_status := s, fp_transaction := t, fp_receivable := r, fp_payable := b,
     fp_recurring := c\<rparr>) \<and> fp_status p1 \<noteq> PROPOSAL_NEEDS_REVIEW"

lemma decides_keeps:
  assumes "decides p p1"
  shows "fp_id p1 = fp_id p" "origin p1 = origin p" "fp_raw p1 = fp_raw p" "fp_user p1 = fp_user p"
    "fp_status p1 \<noteq> PROPOSAL_NEEDS_REVIEW" "proposal_ok p \<Longrightarrow> proposal_checks p1 \<Longrightarrow> proposal_ok p1"
  using assms by (auto simp: decides_def origin_def proposal_ok_def normalized_contract_def event_of_proposal_def)

lemma decision_ok:
  assumes ok: "proposals_ok db" and p: "p \<in> set (proposals db)" and same: "proposals db2 = proposals db"
    and ev: "\<forall>n \<in> set (prompt_events db2). n \<in> set (prompt_events db) \<or> (nev_raw n, nev_version n) = origin p"
    and m: "moves db db2" and d: "decides p p1" and f: "flush_proposal p1 db2 = Inr db'"
  shows "proposals_ok db'" "sources_of db' = sources_of db2" "provenance_wf db2 \<Longrightarrow> provenance_wf db'"
proof -
  note F = flush_proposal_Inr [OF f] and D = decides_keeps [OF d]
  have ps: "proposals db' = modify_rows (\<lambda>r. fp_id r = fp_id p) (\<lambda>_. p1) (proposals db)" using F(2) by (simp add: same D(1))
  have ids: "distinct (map fp_id (proposals db))" "distinct (map origin (proposals db))"
    and rows: "\<forall>q \<in> set (proposals db). proposal_ok q \<and> fk_raw db (fp_raw q) (fp_user q)"
    and evs: "\<forall>n \<in> set (prompt_events db). \<exists>q \<in> set (proposals db). origin q = (nev_raw n, nev_version n) \<and>
        fp_status q \<noteq> PROPOSAL_NEEDS_REVIEW"
    using ok by (simp_all add: proposals_ok_def)
  have S: "set (proposals db') = insert p1 (set (proposals db) - {p})"
    unfolding ps by (rule set_replace_row [OF ids(1) p D(1)])
  have "map fp_id (proposals db') = map fp_id (proposals db)" "map origin (proposals db') = map origin (proposals db)"
    unfolding ps using map_replace_row [OF ids(1) p D(1)] D(1,2) by blast+
  moreover have "proposal_ok q \<and> fk_raw db' (fp_raw q) (fp_user q)" if "q \<in> set (proposals db')" for q
  proof -
    have "fk_raw db' r u = fk_raw db2 r u" for r u by (simp add: F(2) fk_raw_def)
    moreover have "proposal_ok q \<and> fk_raw db (fp_raw q) (fp_user q)"
      using that rows p D F(1) unfolding S by auto
    ultimately show ?thesis using fk_raw_moves [OF m] by blast
  qed
  moreover have "\<exists>q \<in> set (proposals db'). origin q = (nev_raw n, nev_version n) \<and> fp_status q \<noteq> PROPOSAL_NEEDS_REVIEW"
    if n: "n \<in> set (prompt_events db')" for n
  proof -
    have "prompt_events db' = prompt_events db2" by (simp add: F(2) prompt_events_def)
    with n ev consider "n \<in> set (prompt_events db)" | "origin p1 = (nev_raw n, nev_version n)" using D(2) by auto
    then show ?thesis
    proof cases
      case 1
      with evs obtain q where "q \<in> set (proposals db)" "origin q = (nev_raw n, nev_version n)" "fp_status q \<noteq> PROPOSAL_NEEDS_REVIEW"
        by blast
      then show ?thesis unfolding S using D(2,5) by (cases "q = p") auto
    qed (use D(5) S in auto)
  qed
  ultimately show "proposals_ok db'" using ids by (simp add: proposals_ok_def)
  show "sources_of db' = sources_of db2" by (simp add: F(2) sources_of_def)
  show "provenance_wf db2 \<Longrightarrow> provenance_wf db'" unfolding F(2) by (rule proposals_wf)
qed

text \<open>After the decision the proposal is no longer pending.\<close>

lemma select_one_replaced:
  assumes "select_one P rows = Some r" "P r'" "\<And>x. P x \<Longrightarrow> Q x"
  shows "select_one P (modify_rows Q (\<lambda>_. r') rows) = Some r'"
  using assms(1)
proof (induction rows)
  case (Cons x rows)
  then show ?case using assms(2,3) by (cases "P x") auto
qed simp

lemma decided_for_good:
  assumes p: "require_pending_proposal (lock_proposal u i db) = Inr p" and same: "proposals db2 = proposals db"
    and d: "decides p p1" and f: "flush_proposal p1 db2 = Inr db'"
  shows "lock_proposal u i db' = Some p1"
    "require_pending_proposal (lock_proposal u i db') = Inl (ProposalReviewError ''PROPOSAL_ALREADY_REVIEWED'')"
proof -
  note L = lock_proposal_Some [OF p] and F = flush_proposal_Inr [OF f] and D = decides_keeps [OF d]
  show lock: "lock_proposal u i db' = Some p1"
    unfolding lock_proposal_def F(2) same using select_one_replaced [OF L(5)] D L by (simp add: same)
  show "require_pending_proposal (lock_proposal u i db') = Inl (ProposalReviewError ''PROPOSAL_ALREADY_REVIEWED'')"
    using D(5) by (simp add: lock require_pending_proposal_def)
qed

section \<open>Rejecting\<close>

lemma reject_proposal_Inr:
  assumes "reject_proposal u i db = Inr (db', v)"
  shows "\<exists>p src db1. require_pending_proposal (lock_proposal u i db) = Inr p \<and>
    set_error_code u (fp_raw p) (Some ''USER_REJECTED'') db = Inr db1 \<and>
    flush_proposal (p\<lparr>fp_status := PROPOSAL_REJECTED\<rparr>) db1 = Inr db' \<and>
    v = view_of_proposal (p\<lparr>fp_status := PROPOSAL_REJECTED\<rparr>) src"
  using assms by (auto simp: reject_proposal_def Let_def result_simps)

lemma decides_reject [simp]: "decides p (p\<lparr>fp_status := PROPOSAL_REJECTED\<rparr>)"
  unfolding decides_def
  by (intro conjI exI [of _ PROPOSAL_REJECTED] exI [of _ "fp_transaction p"] exI [of _ "fp_receivable p"]
      exI [of _ "fp_payable p"] exI [of _ "fp_recurring p"]) simp_all

lemma reject_proposal_step:
  assumes "reject_proposal u i db = Inr (db', v)" "review_wf db"
  shows "review_wf db' \<and> moves db db'"
proof -
  from reject_proposal_Inr [OF assms(1)] obtain p db1 where
    p: "require_pending_proposal (lock_proposal u i db) = Inr p"
    and e: "set_error_code u (fp_raw p) (Some ''USER_REJECTED'') db = Inr db1"
    and f: "flush_proposal (p\<lparr>fp_status := PROPOSAL_REJECTED\<rparr>) db1 = Inr db'" by blast
  note E = set_error_code_step [OF e assms(2)]
  have same: "proposals db1 = proposals db" "prompt_events db1 = prompt_events db"
    using E by (simp_all add: queue_of_def prompt_events_def)
  have ok: "proposals_ok db" "provenance_wf db1" using assms(2) E by (simp_all add: review_wf_def)
  have "\<forall>n \<in> set (prompt_events db1). n \<in> set (prompt_events db) \<or> (nev_raw n, nev_version n) = origin p" using same by simp
  note D = decision_ok [OF ok(1) lock_proposal_Some(1) [OF p] same(1) this _ decides_reject f]
  have "moves db db'" using moves_trans [OF _ moves_same] E D(2) by blast
  with D ok(2) E show ?thesis by (simp add: review_wf_def)
qed

section \<open>Approving: the normalized event\<close>

lemma not_blank_names [simp]: "PROMPT_NAME \<noteq> []" "SCHEMA_VERSION \<noteq> []"
  by (simp_all add: PROMPT_NAME_def SCHEMA_VERSION_def)

text \<open>A pending proposal has no normalized event yet, so the stored one is its own.\<close>

lemma store_own_event:
  assumes st: "store_normalized_event u (fp_raw p) (event_of_proposal p) PROMPT_NAME (fp_version p) now i db = Inr (db1, n)"
    and ok: "proposals_ok db" and p: "p \<in> set (proposals db)" "fp_status p = PROPOSAL_NEEDS_REVIEW"
  shows "n = normalized_of_event u (fp_raw p) (event_of_proposal p) PROMPT_NAME (fp_version p) now i"
    "prompt_events db1 = prompt_events db @ [n]" "proposals db1 = proposals db"
proof -
  let ?n = "normalized_of_event u (fp_raw p) (event_of_proposal p) PROMPT_NAME (fp_version p) now i"
  from st obtain ins sel where ins: "insert_normalized ?n db = Inr (db1, ins)"
    and sel: "(case ins of Some i \<Rightarrow> Some i | None \<Rightarrow> map_option nev_id
        (select_one (\<lambda>x. nev_user x = u \<and> same_contract ?n x) (normalized_events db1))) = Some sel"
    and n: "select_one (\<lambda>x. nev_id x = sel \<and> nev_user x = u) (normalized_events db1) = Some n"
    by (auto simp: store_normalized_event_def Let_def result_simps)
  have "\<not> list_ex (same_contract ?n) (normalized_events db)"
  proof
    assume "list_ex (same_contract ?n) (normalized_events db)"
    then obtain x where x: "x \<in> set (normalized_events db)" "nev_raw x = fp_raw p" "nev_version x = fp_version p" "nev_key x = PROMPT_NAME"
      by (auto simp: list_ex_iff same_contract_def normalized_of_event_def)
    then have "x \<in> set (prompt_events db)" by (simp add: prompt_events_def)
    with ok x obtain q where q: "q \<in> set (proposals db)" "origin q = origin p" "fp_status q \<noteq> PROPOSAL_NEEDS_REVIEW"
      by (auto simp: proposals_ok_def origin_def)
    moreover have "inj_on origin (set (proposals db))" using ok by (simp add: proposals_ok_def distinct_map)
    ultimately have "q = p" using p(1) by (auto dest: inj_onD)
    with q(3) p(2) show False by simp
  qed
  then have I: "ins = Some (nev_id ?n)" "nev_id ?n \<notin> nev_id ` set (normalized_events db)"
      "db1 = db\<lparr>normalized_events := normalized_events db @ [?n]\<rparr>"
    using ins by (auto simp: insert_normalized_def result_simps table_simps)
  have "select_one (\<lambda>x. nev_id x = nev_id ?n \<and> nev_user x = u) (normalized_events db) = None"
    unfolding select_one_None using I(2) by (metis image_eqI)
  with n sel I(1,3) have "n = ?n" by (simp add: select_one_append normalized_of_event_def)
  then show "n = ?n" "prompt_events db1 = prompt_events db @ [n]" "proposals db1 = proposals db"
    by (simp_all add: I(3) prompt_events_def normalized_of_event_def)
qed

section \<open>Approving: the canonical record\<close>

text \<open>What a proposal is booked as: a record of the owner with the proposal's own values.\<close>

definition booked :: "uuid \<Rightarrow> proposal_row \<Rightarrow> proposal_row \<Rightarrow> 'a reconciliation_db_scheme \<Rightarrow> bool" where
  "booked u p p1 db \<longleftrightarrow>
     (\<exists>t \<in> set (transactions db). p1 = p\<lparr>fp_transaction := Some (tx_id t)\<rparr> \<and> tx_user t = u \<and>
        fp_amount p = Some (tx_amount t) \<and> fp_currency p = Some (tx_currency t) \<and>
        EVENT_TYPES (fp_kind p) = Some (tx_type t) \<and> tx_status t = POSTED) \<or>
     (\<exists>r \<in> set (receivables db). p1 = p\<lparr>fp_receivable := Some (obl_id r)\<rparr> \<and> fp_kind p = KIND_RECEIVABLE \<and> obl_user r = u \<and>
        fp_amount p = Some (obl_amount r) \<and> fp_currency p = Some (obl_currency r) \<and> obl_due r = fp_due_date p \<and> obl_status r = OPEN) \<or>
     (\<exists>r \<in> set (payables db). p1 = p\<lparr>fp_payable := Some (obl_id r)\<rparr> \<and> fp_kind p = KIND_PAYABLE \<and> obl_user r = u \<and>
        fp_amount p = Some (obl_amount r) \<and> fp_currency p = Some (obl_currency r) \<and> obl_due r = fp_due_date p \<and> obl_status r = OPEN) \<or>
     (\<exists>r \<in> set (recurring_payments db). p1 = p\<lparr>fp_recurring := Some (rp_id r)\<rparr> \<and> fp_kind p = KIND_RECURRING \<and> rp_user r = u \<and>
        fp_amount p = Some (rp_amount r) \<and> fp_currency p = Some (rp_currency r) \<and> fp_recurrence p = Some (rp_rule r) \<and>
        fp_next_date p = Some (rp_next r) \<and> rp_status r = RECURRING_ACTIVE)"

definition records_of ::
  "'a reconciliation_db_scheme \<Rightarrow> transaction_row list \<times> obligation_row list \<times> obligation_row list \<times> recurring_row list" where
  "records_of db = (transactions db, receivables db, payables db, recurring_payments db)"

lemma booked_frame: "records_of db' = records_of db \<Longrightarrow> booked u p p1 db' = booked u p p1 db"
  by (simp add: booked_def records_of_def)

lemma proposal_values:
  assumes "proposal_ok p"
  shows "fp_amount p = Some a \<Longrightarrow> 0 < a \<and> a < 10 ^ 19" "fp_currency p = Some c \<Longrightarrow> currency_pattern c"
    "fp_merchant p \<noteq> Some []"
proof -
  from assms have c: "proposal_checks p" and n: "normalized_contract p = Inr (event_of_proposal p)"
    by (simp_all add: proposal_ok_def)
  show "fp_amount p = Some a \<Longrightarrow> 0 < a \<and> a < 10 ^ 19" "fp_currency p = Some c \<Longrightarrow> currency_pattern c"
    using c by (auto simp: proposal_checks_def)
  from n have "optional_text 160 (fp_merchant p) = Inr (fp_merchant p)"
    by (auto simp: normalized_contract_def mk_event_def event_of_proposal_def result_simps)
  then show "fp_merchant p \<noteq> Some []" by (auto simp: optional_text_def normalize_display_text_def)
qed

lemma proposal_command_event:
  assumes "fp_merchant p \<noteq> Some []"
    "n = normalized_of_event u r (event_of_proposal p) k v now i"
  shows "proposal_command u p a c t ty db = event_command u n a c t ty db"
proof -
  have "event_merchant_key n = map_option normalize_lookup_text (fp_merchant p)"
    using assms by (auto simp: event_merchant_key_def normalized_of_event_def event_of_proposal_def split: option.split)
  moreover have "proposal_category u p as db = event_category u n as db" for as
    by (cases as) (simp_all add: proposal_category_def event_category_def assms(2) normalized_of_event_def event_of_proposal_def)
  moreover have "nev_description n = fp_description p" "nev_merchant n = fp_merchant p"
    "nev_confidence n = Some (fp_confidence p)"
    by (simp_all add: assms(2) normalized_of_event_def event_of_proposal_def)
  ultimately show ?thesis
    by (simp add: proposal_command_def event_command_def model_confidence_def stored_decimal_def)
qed

text \<open>The transaction of an outcome has the value of its event.\<close>

lemma reconcile_target:
  assumes run: "reconcile_transaction pol u n command loc ex env db = Inr (db', out)" and wf: "provenance_wf db"
    and n: "n \<in> set (normalized_events db)" "nev_user n = u" "nev_amount n = Some a" "nev_currency n = Some cur"
      "EVENT_TYPES (nev_kind n) = Some ty"
    and command: "event_command u n a cur t ty db = Inr command"
  shows "case oc_transaction out of
      None \<Rightarrow> records_of db' = records_of db
    | Some i \<Rightarrow> \<exists>x \<in> set (transactions db'). tx_id x = i \<and> same_value n x"
proof -
  have "normalized_checks n" using wf n(1) by (auto simp: provenance_wf_def source_wf_def list_all_iff)
  then have val: "0 < a" "a < 10 ^ 19" "currency_pattern cur" using n by (simp_all add: normalized_checks_def)
  have "learned_ok db" using wf by (simp add: provenance_wf_def categorization_wf_def)
  then have ty: "ct_type command = ty" by (rule event_command_facts(3) [OF command _ val])
  have ev: "add_evidence u' r' n' t' loc' ex' i' d = Inr d' \<Longrightarrow> records_of d' = records_of d" for u' r' n' t' loc' ex' i' d d'
    by (auto simp: add_evidence_Inr records_of_def)
  have cs: "create_case u' n' r' st res act loc' ex' ver now ids d = Inr (d', c) \<Longrightarrow> records_of d' = records_of d"
    for u' n' r' st res act loc' ex' ver now ids d d' c
    using create_case_Inr(5) [of u' n' r' st res act loc' ex' ver now ids d d' c] by (simp add: records_of_def)
  have tx: "records_of d' = records_of d \<Longrightarrow> transactions d' = transactions d" for d d' by (simp add: records_of_def)
  have "\<exists>i. oc_transaction out = Some i \<and> (\<exists>x \<in> set (transactions db'). tx_id x = i \<and> same_value n x)"
    if "merge_automatically u n ty r loc ex env db = Inr (db', out)" for r
  proof -
    from that obtain i x z where "lock_transaction u i db = Inr x" "validate_candidate x n ty = Inr z" "oc_transaction out = Some (tx_id x)"
      "records_of db' = records_of db"
      by (auto simp: merge_automatically_def result_simps dest!: ev cs)
    with validated_candidate [OF this(1,2) n(2,5)] tx [OF this(4)] show ?thesis by auto
  qed
  moreover have "oc_transaction out = None \<and> records_of db' = records_of db"
    if "flag_candidate u n r loc ex env db = Inr (db', out)" for r
    using that by (auto simp: flag_candidate_def result_simps dest!: cs)
  moreover have "\<exists>i. oc_transaction out = Some i \<and> (\<exists>x \<in> set (transactions db'). tx_id x = i \<and> same_value n x)"
    if "post_new u n command r loc ex env db = Inr (db', out)" for r
  proof -
    from that obtain db1 v where post: "repo_create_transaction u command (ledger_ids env) db = Inr (db1, v)"
      and rest: "records_of db' = records_of db1" "oc_transaction out = Some (tv_id v)"
      by (auto simp: post_new_def result_simps dest!: ev cs)
    from post_event(2) [OF wf n(1,3-5), unfolded n(2), OF command post] obtain x where
      "posted db db1 x" "tx_id x = tv_id v" "same_value n x" by blast
    with post_event_keeps(1) [OF this(1)] tx [OF rest(1)] rest(2) show ?thesis by auto
  qed
  ultimately show ?thesis
    using run by (fastforce simp: reconcile_transaction_def Let_def ty split: reconciliation_decision.splits)
qed

lemma approve_transaction_step:
  assumes run: "approve_transaction pol u p ty n env db = Inr (db', out)" and wf: "provenance_wf db" and ok: "proposal_ok p"
    and n: "n \<in> set (normalized_events db)" "n = normalized_of_event u r (event_of_proposal p) k v now i"
    and kind: "EVENT_TYPES (fp_kind p) = Some ty"
  shows "provenance_wf db' \<and> sources_of db' = sources_of db \<and> queue_of db' = queue_of db"
    "case oc_transaction out of None \<Rightarrow> records_of db' = records_of db | Some j \<Rightarrow> booked u p (p\<lparr>fp_transaction := Some j\<rparr>) db'"
    "requires_review out \<longleftrightarrow> oc_transaction out = None"
proof -
  from run obtain a c t command where m: "fp_amount p = Some a" "fp_currency p = Some c" "fp_occurred_at p = Some t"
    and pc: "proposal_command u p a c t ty db = Inr command"
    and rec: "reconcile_transaction pol u n command [(''proposalId'', JStr (uuid_text (fp_id p)))] None env db = Inr (db', out)"
    by (auto simp: approve_transaction_def require_money_and_occurred_def result_simps split: option.splits)
  have f: "nev_user n = u" "nev_amount n = Some a" "nev_currency n = Some c" "EVENT_TYPES (nev_kind n) = Some ty"
    using m kind by (simp_all add: n(2) normalized_of_event_def event_of_proposal_def)
  from pc have command: "event_command u n a c t ty db = Inr command"
    by (simp add: proposal_command_event [OF proposal_values(3) [OF ok] n(2)])
  show "provenance_wf db' \<and> sources_of db' = sources_of db \<and> queue_of db' = queue_of db"
    "requires_review out \<longleftrightarrow> oc_transaction out = None"
    using reconcile_wf [OF rec wf n(1) f command] reconcile_queue [OF rec] by simp_all
  show "case oc_transaction out of None \<Rightarrow> records_of db' = records_of db | Some j \<Rightarrow> booked u p (p\<lparr>fp_transaction := Some j\<rparr>) db'"
  proof (cases "oc_transaction out")
    case None
    with reconcile_target [OF rec wf n(1) f command] show ?thesis by simp
  next
    case (Some j)
    with reconcile_target [OF rec wf n(1) f command] obtain x where x: "x \<in> set (transactions db')" "tx_id x = j" "same_value n x"
      by auto
    from x(3) have "tx_user x = u \<and> fp_amount p = Some (tx_amount x) \<and> fp_currency p = Some (tx_currency x) \<and>
        EVENT_TYPES (fp_kind p) = Some (tx_type x) \<and> tx_status x = POSTED"
      by (simp add: same_value_def n(2) normalized_of_event_def event_of_proposal_def)
    with x Some show ?thesis by (auto simp: booked_def)
  qed
qed

text \<open>Obligations and recurring payments.\<close>

lemma stored_amount_parses: "parse_amount (format_f a) = Inr d \<Longrightarrow> 0 < a \<Longrightarrow> numeric_19_4 d = a"
  using parse_amount_of_stored [of a d] by simp

lemma stored_currency_parses: "parse_currency c = Inr c' \<Longrightarrow> currency_pattern c \<Longrightarrow> c' = c"
  by (auto simp: parse_currency_def dest: normalize_pattern split: sum.splits if_splits)

lemma ledger_kept_other:
  fixes db db' :: "'a reconciliation_db_scheme"
  assumes "users db' = users db" "categories db' = categories db" "merchants db' = merchants db" "transactions db' = transactions db"
    "category_rules db' = category_rules db" "merchant_maps db' = merchant_maps db" "corrections db' = corrections db"
    "connections db' = connections db" "raw_events db' = raw_events db" "processing db' = processing db"
    "normalized_events db' = normalized_events db" "evidence db' = evidence db" "cases db' = cases db" "actions db' = actions db"
    "proposals db' = proposals db" "provenance_wf db"
  shows "provenance_wf db' \<and> sources_of db' = sources_of db \<and> queue_of db' = queue_of db"
proof -
  have "ledger_kept db db'" using assms by (auto simp: ledger_kept_def)
  moreover have "categorization_wf db'" using categorization_wf_frame [of db' db] assms by (simp add: provenance_wf_def)
  ultimately show ?thesis using ledger_kept_wf assms by (auto simp: sources_of_def queue_of_def)
qed

lemma counterparty_person_people:
  assumes "counterparty_person u name i db = Inr (db', person)"
  shows "\<exists>ps. db' = db\<lparr>people := ps\<rparr>"
proof -
  from assms obtain c created where r: "repo_create_person u c i db = Inr (db', created)"
    by (auto simp: counterparty_person_def result_simps)
  show ?thesis
  proof (cases "(u, cp_normalized c) \<in> set (map (\<lambda>p. (per_user p, per_normalized p)) (people db))")
    case True
    with r have "db' = db" by (simp add: repo_create_person_def)
    then show ?thesis by (intro exI [of _ "people db"]) simp
  next
    case False
    with r show ?thesis by (auto simp: repo_create_person_def result_simps table_simps)
  qed
qed

lemma repo_create_obligation_Inr:
  assumes "repo_create_obligation k u c as_of i db = Inr (db', v)"
  shows "db' = put_obligations k (obligations_of k db @ [obligation_of u c i]) db"
    "\<exists>r \<in> set (obligations_of k db'). obl_id r = ov_id v \<and> r = obligation_of u c i"
proof -
  show d: "db' = put_obligations k (obligations_of k db @ [obligation_of u c i]) db"
    using assms by (auto simp: repo_create_obligation_def Let_def result_simps table_simps)
  from assms obtain r where "lock_obligation k u i db' = Some r" "project_obligation k as_of db' r = Some v"
    by (auto simp: repo_create_obligation_def Let_def result_simps repo_get_obligation_def split: bind_splits)
  then have "ov_id v = i" by (auto simp: lock_obligation_def project_obligation_def obligation_view_def Let_def dest: select_one_SomeD)
  moreover have "obligation_of u c i \<in> set (obligations_of k db')" unfolding d by (cases k) simp_all
  ultimately show "\<exists>r \<in> set (obligations_of k db'). obl_id r = ov_id v \<and> r = obligation_of u c i"
    by (auto simp: obligation_of_def)
qed

definition with_obligation :: "obligation_kind \<Rightarrow> proposal_row \<Rightarrow> uuid \<Rightarrow> proposal_row" where
  "with_obligation k p i = (case k of RECEIVABLE \<Rightarrow> p\<lparr>fp_receivable := Some i\<rparr> | PAYABLE \<Rightarrow> p\<lparr>fp_payable := Some i\<rparr>)"

lemma approve_obligation_step:
  assumes run: "approve_obligation tz u p k env db = Inr (db', j)" and wf: "provenance_wf db" and ok: "proposal_ok p"
    and kind: "fp_kind p = (case k of RECEIVABLE \<Rightarrow> KIND_RECEIVABLE | PAYABLE \<Rightarrow> KIND_PAYABLE)"
  shows "provenance_wf db' \<and> sources_of db' = sources_of db \<and> queue_of db' = queue_of db" "booked u p (with_obligation k p j) db'"
proof -
  from run obtain a c t name zone db1 person command v as_of where
    m: "fp_amount p = Some a" "fp_currency p = Some c" and
    cp: "counterparty_person u name (ap_person env) db = Inr (db1, person)" and
    pc: "parse_create_obligation person (format_f a) c (fp_description p) (wall_date (tz_local tz zone t)) (fp_due_date p) None = Inr command" and
    cr: "repo_create_obligation k u command as_of (ap_target env) db1 = Inr (db', v)" and j: "j = ov_id v"
    by (auto simp: approve_obligation_def require_money_and_occurred_def result_simps split: option.splits)
  note C = repo_create_obligation_Inr [OF cr]
  from counterparty_person_people [OF cp] C(1) show "provenance_wf db' \<and> sources_of db' = sources_of db \<and> queue_of db' = queue_of db"
    by (intro ledger_kept_other [OF _ _ _ _ _ _ _ _ _ _ _ _ _ _ _ wf]; cases k) auto
  note V = proposal_values(1) [OF ok m(1)] proposal_values(2) [OF ok m(2)]
  have "numeric_19_4 (co_amount command) = a" "co_currency command = c" "co_due command = fp_due_date p"
    using pc V by (auto simp: parse_create_obligation_def obligation_amount_Inr result_simps
        dest: stored_amount_parses stored_currency_parses simp del: numeric_19_4.simps)
  then have "obl_user (obligation_of u command (ap_target env)) = u \<and> obl_amount (obligation_of u command (ap_target env)) = a \<and>
      obl_currency (obligation_of u command (ap_target env)) = c \<and> obl_due (obligation_of u command (ap_target env)) = fp_due_date p \<and>
      obl_status (obligation_of u command (ap_target env)) = OPEN"
    by (simp add: obligation_of_def)
  with C(2) obtain r where r: "r \<in> set (obligations_of k db')" "obl_id r = j" "obl_user r = u" "obl_amount r = a" "obl_currency r = c"
      "obl_due r = fp_due_date p" "obl_status r = OPEN" unfolding j by blast
  then show "booked u p (with_obligation k p j) db'"
    using m kind by (cases k) (auto simp: booked_def with_obligation_def)
qed

lemma recurring_amount_parse: "recurring_amount raw = parse_amount raw"
  by (simp add: recurring_amount_def parse_amount_def)

lemma approve_recurring_step:
  assumes run: "approve_recurring u p env db = Inr (db', j)" and wf: "provenance_wf db" and ok: "proposal_ok p"
    and kind: "fp_kind p = KIND_RECURRING"
  shows "provenance_wf db' \<and> sources_of db' = sources_of db \<and> queue_of db' = queue_of db"
    "booked u p (p\<lparr>fp_recurring := Some j\<rparr>) db'"
proof -
  from run obtain a c name rule nxt command db1 m v where
    f: "fp_amount p = Some a" "fp_currency p = Some c" "fp_recurrence p = Some rule" "fp_next_date p = Some nxt" and
    pc: "parse_create_recurring_payment (format_f a) c name rule nxt = Inr command" and
    up: "upsert_merchant (cr_merchant_name command) (cr_normalized command) (he_merchant (ap_handoff env)) db = Inr (db1, m)" and
    cr: "repo_create_recurring u m command (he_now (ap_handoff env)) (ap_target env) db1 = Inr (db', v)" and j: "j = recurring_view.rv_id v"
    by (auto simp: approve_recurring_def recurring_merchant_def result_simps split: option.splits)
  let ?r = "recurring_of u m command (he_now (ap_handoff env)) (ap_target env)"
  from cr have d: "db' = db1\<lparr>recurring_payments := recurring_payments db1 @ [?r]\<rparr>"
    by (auto simp: repo_create_recurring_def Let_def result_simps table_simps recurring_of_def)
  have cw: "categorization_wf db" using wf by (simp add: provenance_wf_def)
  have lw: "ledger_wf db1" using upsert_merchant_wf [OF up] cw by (simp add: categorization_wf_def)
  note F = upsert_merchant_frame [OF up]
  have M: "queue_of db1 = queue_of db" "connections db1 = connections db" "raw_events db1 = raw_events db"
      "processing db1 = processing db" "normalized_events db1 = normalized_events db" "evidence db1 = evidence db" "cases db1 = cases db"
      "actions db1 = actions db" "proposals db1 = proposals db"
    using more_tables [of db1 db] queue_of_more [of db1 db] F by simp_all
  have lk: "ledger_kept db db'" using F M by (auto simp: ledger_kept_def d)
  have "categorization_wf db'"
    using lw cw F learned_ok_frame [of db1 db] by (simp add: categorization_wf_def [of db1] categorization_wf_def [of db] d)
  from ledger_kept_wf [OF lk wf this] show "provenance_wf db' \<and> sources_of db' = sources_of db \<and> queue_of db' = queue_of db"
    using F M by (simp add: sources_of_def queue_of_def d)
  from cr have "project_payment u (ap_target env) db' = Some v"
    by (auto simp: repo_create_recurring_def Let_def result_simps require_projection_def)
  then obtain y where "select_one (\<lambda>r. rp_user r = u \<and> rp_id r = ap_target env) (recurring_payments db') = Some y"
    "join_merchant db' y = Some v" by (auto simp: project_payment_def split: bind_splits)
  with select_one_SomeD [OF this(1)] have v: "recurring_view.rv_id v = ap_target env"
    by (auto simp: join_merchant_def view_from_row_def)
  note V = proposal_values(1) [OF ok f(1)] proposal_values(2) [OF ok f(2)]
  have "numeric_19_4 (cr_amount command) = a" "cr_currency command = c" "cr_rule command = rule" "cr_next command = nxt"
    using pc V by (auto simp: parse_create_recurring_payment_def recurring_amount_parse Let_def result_simps
        dest: stored_amount_parses stored_currency_parses simp del: numeric_19_4.simps)
  then show "booked u p (p\<lparr>fp_recurring := Some j\<rparr>) db'"
    using f kind v by (auto simp: booked_def d j recurring_of_def)
qed

section \<open>Approving: the whole transaction\<close>

text \<open>What is decided about a proposal: a record is booked, or the event waits for reconciliation.\<close>

lemma approve_target_step:
  assumes run: "approve_target pol tz u p n env db = Inr (db', approved)" and wf: "provenance_wf db" and ok: "proposal_ok p"
    and n: "n \<in> set (normalized_events db)" "n = normalized_of_event u r (event_of_proposal p) k v now i"
  shows "provenance_wf db' \<and> sources_of db' = sources_of db \<and> queue_of db' = queue_of db"
    "case approved of None \<Rightarrow> records_of db' = records_of db | Some p1 \<Rightarrow> booked u p p1 db'"
proof -
  have "(provenance_wf db' \<and> sources_of db' = sources_of db \<and> queue_of db' = queue_of db) \<and>
    (case approved of None \<Rightarrow> records_of db' = records_of db | Some p1 \<Rightarrow> booked u p p1 db')"
  proof (cases "EVENT_TYPES (fp_kind p)")
    case (Some ty)
    with run obtain db1 out where a: "approve_transaction pol u p ty n (ap_handoff env) db = Inr (db1, out)" and
      rest: "(if requires_review out then Inr (db1, None)
            else bindE (require (ProposalReviewError ''RECONCILIATION_TARGET_MISSING'') (oc_transaction out)) (\<lambda>t.
              Inr (db1, Some (p\<lparr>fp_transaction := Some t\<rparr>)))) = Inr (db', approved)"
      by (auto simp: approve_target_def result_simps)
    note A = approve_transaction_step [OF a wf ok n Some]
    have "db1 = db' \<and> approved = map_option (\<lambda>t. p\<lparr>fp_transaction := Some t\<rparr>) (oc_transaction out)"
      using rest A(3) by (cases "oc_transaction out") (auto simp: result_simps split: if_splits)
    with A(1,2) show ?thesis by (cases "oc_transaction out") auto
  next
    case None
    consider (receivable) j where "fp_kind p = KIND_RECEIVABLE" "approve_obligation tz u p RECEIVABLE env db = Inr (db', j)"
          "approved = Some (p\<lparr>fp_receivable := Some j\<rparr>)"
      | (payable) j where "fp_kind p = KIND_PAYABLE" "approve_obligation tz u p PAYABLE env db = Inr (db', j)"
          "approved = Some (p\<lparr>fp_payable := Some j\<rparr>)"
      | (recurring) j where "fp_kind p = KIND_RECURRING" "approve_recurring u p env db = Inr (db', j)"
          "approved = Some (p\<lparr>fp_recurring := Some j\<rparr>)"
      using run None by (auto simp: approve_target_def result_simps split: normalized_event_kind.splits)
    then show ?thesis
    proof cases
      case receivable
      with approve_obligation_step [OF receivable(2) wf ok] show ?thesis by (simp add: with_obligation_def)
    next
      case payable
      with approve_obligation_step [OF payable(2) wf ok] show ?thesis by (simp add: with_obligation_def)
    next
      case recurring
      with approve_recurring_step [OF recurring(2) wf ok] show ?thesis by simp
    qed
  qed
  then show "provenance_wf db' \<and> sources_of db' = sources_of db \<and> queue_of db' = queue_of db"
    "case approved of None \<Rightarrow> records_of db' = records_of db | Some p1 \<Rightarrow> booked u p p1 db'" by blast+
qed

lemma settle_proposal_Inr:
  assumes "settle_proposal p q approved = Inr (p1, q1)"
  shows "prc_raw q1 = prc_raw q \<and> prc_user q1 = prc_user q \<and> path raw_edges (prc_state q) (prc_state q1)"
    "p1 = (case approved of None \<Rightarrow> p\<lparr>fp_status := PROPOSAL_RECONCILIATION_REVIEW\<rparr> | Some p' \<Rightarrow> p'\<lparr>fp_status := PROPOSAL_APPROVED\<rparr>)"
  using assms by (auto simp: settle_proposal_def require_state_transition_def result_simps
      intro: path.stay path_edge split: option.splits)

lemma booked_fields:
  assumes "booked u p p1 db"
  shows "\<exists>t r b c. p1 = p\<lparr>fp_transaction := t, fp_receivable := r, fp_payable := b, fp_recurring := c\<rparr>"
proof -
  have "p1 = p\<lparr>fp_transaction := fp_transaction p1, fp_receivable := fp_receivable p1, fp_payable := fp_payable p1,
      fp_recurring := fp_recurring p1\<rparr>"
    using assms unfolding booked_def by (elim disjE bexE conjE) (simp_all only:, simp_all)
  then show ?thesis by blast
qed

text \<open>An approval, taken apart: the decision about the proposal and what was booked for it.\<close>

lemma approve_proposal_step:
  assumes run: "approve_proposal pol tz u i env db = Inr (db', v)" and wf: "review_wf db"
  shows "\<exists>p p1 src db2. require_pending_proposal (lock_proposal u i db) = Inr p \<and> decides p p1 \<and> proposals db2 = proposals db \<and>
    flush_proposal p1 db2 = Inr db' \<and> v = view_of_proposal p1 src \<and> review_wf db' \<and> moves db db' \<and>
    (fp_status p1 = PROPOSAL_RECONCILIATION_REVIEW \<and> p1 = p\<lparr>fp_status := PROPOSAL_RECONCILIATION_REVIEW\<rparr> \<and> records_of db' = records_of db \<or>
     (\<exists>p2. p1 = p2\<lparr>fp_status := PROPOSAL_APPROVED\<rparr> \<and> booked u p p2 db'))"
proof -
  from run obtain p src q ev db1 n db2 approved p1 q1 where
    p: "require_pending_proposal (lock_proposal u i db) = Inr p" and
    q: "get_processing u (fp_raw p) db = Inr q" and ev: "normalized_contract p = Inr ev" and
    st: "store_normalized_event u (fp_raw p) ev PROMPT_NAME (fp_version p) (he_now (ap_handoff env)) (ap_event env) db = Inr (db1, n)" and
    tg: "approve_target pol tz u p n env db1 = Inr (db2, approved)" and
    se: "settle_proposal p q approved = Inr (p1, q1)" and fl: "flush_proposal p1 (put_processing q1 db2) = Inr db'" and
    v: "v = view_of_proposal p1 src"
    by (auto simp: approve_proposal_def result_simps)
  have pw: "provenance_wf db" and po: "proposals_ok db" using wf by (simp_all add: review_wf_def)
  note L = lock_proposal_Some [OF p]
  have ok: "proposal_ok p" using L(1) po by (simp add: proposals_ok_def)
  then have e: "ev = event_of_proposal p" using ev by (simp add: proposal_ok_def)
  note S = store_own_event [OF st [unfolded e] po L(1,4)]
  note N = store_normalized_event_Inr [OF st processing_facts(2) [OF pw]]
  obtain ns where d1: "db1 = db\<lparr>normalized_events := ns\<rparr>" using N(5) by blast
  have pw1: "provenance_wf db1" by (rule source_change [OF pw N(4)]) (use N(6) in \<open>simp_all add: d1\<close>)
  note T = approve_target_step [OF tg pw1 ok N(1) S(1)]
  note Q = settle_proposal_Inr [OF se] and G = get_processing_Inr [OF q]
  have so: "sources_of db2 = sources_of db" "queue_of db2 = queue_of db1" "provenance_wf db2"
    using T(1) by (simp_all add: d1 sources_of_def)
  then have "q \<in> set (processing db2)" using G(1) by (simp add: sources_of_def)
  from put_processing_step [OF this _ _ _ so(3), of q1] Q(1)
  have pp: "provenance_wf (put_processing q1 db2)" "moves db2 (put_processing q1 db2)" by simp_all
  have mv: "moves db (put_processing q1 db2)" using moves_sources [OF so(1) pp(2)] .
  have same: "proposals (put_processing q1 db2) = proposals db" using so(2) S(3) by (simp add: queue_of_def put_processing_def)
  have "prompt_events (put_processing q1 db2) = prompt_events db @ [n]"
    using so(2) S(2) by (simp add: queue_of_def put_processing_def prompt_events_def)
  moreover have "(nev_raw n, nev_version n) = origin p" by (simp add: S(1) normalized_of_event_def origin_def)
  ultimately have evs: "\<forall>x \<in> set (prompt_events (put_processing q1 db2)). x \<in> set (prompt_events db) \<or> (nev_raw x, nev_version x) = origin p"
    by auto
  have rec: "records_of db' = records_of db2" using flush_proposal_Inr(2) [OF fl] by (simp add: records_of_def put_processing_def)
  have "decides p p1 \<and> (fp_status p1 = PROPOSAL_RECONCILIATION_REVIEW \<and> p1 = p\<lparr>fp_status := PROPOSAL_RECONCILIATION_REVIEW\<rparr> \<and> records_of db' = records_of db \<or>
     (\<exists>p2. p1 = p2\<lparr>fp_status := PROPOSAL_APPROVED\<rparr> \<and> booked u p p2 db'))"
  proof (cases approved)
    case None
    then have p1: "p1 = p\<lparr>fp_status := PROPOSAL_RECONCILIATION_REVIEW\<rparr>" using Q(2) by simp
    have "decides p p1" unfolding decides_def p1
      by (intro conjI exI [of _ PROPOSAL_RECONCILIATION_REVIEW] exI [of _ "fp_transaction p"] exI [of _ "fp_receivable p"]
          exI [of _ "fp_payable p"] exI [of _ "fp_recurring p"]) simp_all
    moreover have "records_of db' = records_of db" using T(2) None rec by (simp add: d1 records_of_def)
    ultimately show ?thesis using p1 by simp
  next
    case (Some p2)
    then have p1: "p1 = p2\<lparr>fp_status := PROPOSAL_APPROVED\<rparr>" and b: "booked u p p2 db2" using Q(2) T(2) by simp_all
    from booked_fields [OF b] obtain t r b' c where "p2 = p\<lparr>fp_transaction := t, fp_receivable := r, fp_payable := b', fp_recurring := c\<rparr>"
      by blast
    then have "decides p p1" unfolding decides_def p1 by (intro conjI exI [of _ PROPOSAL_APPROVED] exI [of _ t] exI [of _ r]
          exI [of _ b'] exI [of _ c]) simp_all
    with p1 b booked_frame [OF rec] show ?thesis by blast
  qed
  moreover from this decision_ok [OF po L(1) same evs mv _ fl] pp(1) have "review_wf db'" "sources_of db' = sources_of (put_processing q1 db2)"
    by (simp_all add: review_wf_def)
  moreover from this(2) mv moves_trans moves_same have "moves db db'" by blast
  ultimately show ?thesis using p same fl v by blast
qed

end
