(* ===== verification/Proposal_Properties.thy ===== *)
theory Proposal_Properties
  imports Proposal_Steps Provenance_Properties
begin

text \<open>
  The pipeline with its review queue as a step relation, and the properties of the queue: what a model
  answers is valid once it passed the validators, nothing is booked without an approval, an approval
  books the proposal's own values, and no step of any component reopens a decided proposal.
\<close>

section \<open>The steps of the pipeline\<close>

inductive review_step :: "'a reconciliation_db_scheme \<Rightarrow> 'a reconciliation_db_scheme \<Rightarrow> bool" where
  piped: "provenance_step db db' \<Longrightarrow> review_step db db'"
| unreadable: "set_error_code u r code db = Inr db' \<Longrightarrow> review_step db db'"
| extracted: "result_of xt c = Inr x \<Longrightarrow> store_extraction u r ctx x i now db = Inr (db', v) \<Longrightarrow> review_step db db'"
| rejected: "reject_proposal u i db = Inr (db', v) \<Longrightarrow> review_step db db'"
| approved: "approve_proposal pol tz u i env db = Inr (db', v) \<Longrightarrow> review_step db db'"

fun proposal_edges :: "proposal_status \<Rightarrow> proposal_status set" where
  "proposal_edges PROPOSAL_NEEDS_REVIEW = {PROPOSAL_RECONCILIATION_REVIEW, PROPOSAL_APPROVED, PROPOSAL_REJECTED}"
| "proposal_edges PROPOSAL_RECONCILIATION_REVIEW = {PROPOSAL_APPROVED}"
| "proposal_edges _ = {}"

definition status_of_proposal :: "'a reconciliation_db_scheme \<Rightarrow> uuid \<Rightarrow> proposal_status option" where
  "status_of_proposal db i = map_option fp_status (select_one (\<lambda>p. fp_id p = i) (proposals db))"

definition proposals_advance :: "'a reconciliation_db_scheme \<Rightarrow> 'a reconciliation_db_scheme \<Rightarrow> bool" where
  "proposals_advance db db' \<longleftrightarrow>
     (\<forall>i s. status_of_proposal db i = Some s \<longrightarrow> (\<exists>s'. status_of_proposal db' i = Some s' \<and> path proposal_edges s s'))"

lemma select_one_all2:
  assumes "list_all2 R xs ys" "\<And>x y. R x y \<Longrightarrow> P y = P x" "select_one P xs = Some x"
  shows "\<exists>y. select_one P ys = Some y \<and> R x y"
  using assms by (induction rule: list_all2_induct) (auto split: if_splits)

lemma resolved_path: "resolved p p' \<Longrightarrow> path proposal_edges (fp_status p) (fp_status p')"
  by (auto simp: resolved_def intro: path.stay path_edge)

lemma queue_kept_advance:
  assumes "queue_kept db db'"
  shows "proposals_advance db db'"
proof -
  from assms have r: "list_all2 resolved (proposals db) (proposals db')" by (simp add: queue_kept_def)
  have "\<exists>s'. status_of_proposal db' i = Some s' \<and> path proposal_edges s s'" if s: "status_of_proposal db i = Some s" for i s
  proof -
    from s obtain p where p: "select_one (\<lambda>p. fp_id p = i) (proposals db) = Some p" "s = fp_status p"
      by (auto simp: status_of_proposal_def)
    from select_one_all2 [OF r _ p(1)] resolved_keeps(1) obtain p' where
      "select_one (\<lambda>p. fp_id p = i) (proposals db') = Some p'" "resolved p p'" by metis
    with p(2) resolved_path show ?thesis by (auto simp: status_of_proposal_def)
  qed
  then show ?thesis by (simp add: proposals_advance_def)
qed

lemma decision_advance:
  assumes p: "p \<in> set (proposals db)" "fp_status p = PROPOSAL_NEEDS_REVIEW" and ids: "distinct (map fp_id (proposals db))"
    and same: "proposals db2 = proposals db" and f: "flush_proposal p1 db2 = Inr db'" and d: "decides p p1"
  shows "proposals_advance db db'"
proof -
  have ps: "proposals db' = modify_rows (\<lambda>r. fp_id r = fp_id p) (\<lambda>_. p1) (proposals db)"
    using flush_proposal_Inr(2) [OF f] decides_keeps(1) [OF d] by (simp add: same)
  have e: "path proposal_edges PROPOSAL_NEEDS_REVIEW (fp_status p1)"
    using decides_keeps(5) [OF d] by (intro path_edge) (cases "fp_status p1"; simp)
  have u: "x = p" if "x \<in> set (proposals db)" "fp_id x = fp_id p" for x using that ids p(1) by (metis distinct_map inj_onD)
  have "\<exists>s'. status_of_proposal db' i = Some s' \<and> path proposal_edges s s'" if s: "status_of_proposal db i = Some s" for i s
  proof -
    from s obtain q where q: "select_one (\<lambda>p. fp_id p = i) (proposals db) = Some q" "s = fp_status q"
      by (auto simp: status_of_proposal_def)
    have "select_one (\<lambda>p. fp_id p = i) (proposals db') = map_option (\<lambda>r. if fp_id r = fp_id p then p1 else r)
        (select_one (\<lambda>p. fp_id p = i) (proposals db))"
      unfolding ps by (rule select_one_modify_rows) (simp add: decides_keeps(1) [OF d])
    with q p e u [of q] select_one_SomeD [OF q(1)] show ?thesis
      by (auto simp: status_of_proposal_def intro: path.stay)
  qed
  then show ?thesis by (simp add: proposals_advance_def)
qed

lemma store_extraction_advance:
  assumes "store_extraction u r ctx x i now db = Inr (db', v)"
  shows "proposals_advance db db'"
proof -
  from assms obtain db1 ins where ins: "insert_proposal (proposal_of u ctx x i now) db = Inr (db1, ins)"
    and code: "set_error_code u r None db1 = Inr db'"
    by (auto simp: store_extraction_def create_or_get_def result_simps)
  have "proposals db' = proposals db1" using set_error_code_Inr [OF code] by (auto simp: put_processing_def)
  moreover have "\<exists>ps. proposals db1 = proposals db @ ps" using insert_proposal_Inr [OF ins] by auto
  ultimately show ?thesis
    by (auto simp: proposals_advance_def status_of_proposal_def select_one_append intro: path.stay)
qed

lemma review_step_keeps:
  assumes "review_step db db'" "review_wf db"
  shows "review_wf db' \<and> moves db db' \<and> proposals_advance db db'"
  using assms
proof (induction rule: review_step.induct)
  case (piped db db')
  then have ids: "distinct (map fp_id (proposals db))" by (simp add: review_wf_def proposals_ok_def)
  note k = provenance_step_queue [OF piped(1) ids]
  from provenance_step_keeps [OF piped(1)] piped(2) queue_kept_ok [OF k] queue_kept_advance [OF k] show ?case
    by (simp add: review_wf_def)
next
  case (unreadable u r code db db')
  from set_error_code_step [OF unreadable] queue_kept_advance [OF queue_kept_same] show ?case by blast
next
  case (extracted xt c x u r ctx i now db db' v)
  from store_extraction_step [OF extracted(2,1,3)] store_extraction_advance [OF extracted(2)] show ?case by simp
next
  case (rejected u i db db' v)
  then have ids: "distinct (map fp_id (proposals db))" by (simp add: review_wf_def proposals_ok_def)
  from reject_proposal_Inr [OF rejected(1)] obtain p db1 where
    p: "require_pending_proposal (lock_proposal u i db) = Inr p" and e: "set_error_code u (fp_raw p) (Some ''USER_REJECTED'') db = Inr db1"
    and f: "flush_proposal (p\<lparr>fp_status := PROPOSAL_REJECTED\<rparr>) db1 = Inr db'" by blast
  note L = lock_proposal_Some [OF p]
  have "proposals db1 = proposals db" using set_error_code_step [OF e rejected(2)] by (simp add: queue_of_def)
  from decision_advance [OF L(1,4) ids this f decides_reject] reject_proposal_step [OF rejected] show ?case by simp
next
  case (approved pol tz u i env db db' v)
  then have ids: "distinct (map fp_id (proposals db))" by (simp add: review_wf_def proposals_ok_def)
  from approve_proposal_step [OF approved] obtain p p1 db2 where
    p: "require_pending_proposal (lock_proposal u i db) = Inr p" and r: "decides p p1" "proposals db2 = proposals db"
    "flush_proposal p1 db2 = Inr db'" "review_wf db'" "moves db db'" by blast
  note L = lock_proposal_Some [OF p]
  from decision_advance [OF L(1,4) ids r(2,3,1)] r(4,5) show ?case by simp
qed

interpretation proposal_life: lifecycle review_wf review_step status_of_proposal proposal_edges
  using review_step_keeps by unfold_locales (auto simp: proposals_advance_def)

interpretation reviewed_raw: lifecycle review_wf review_step status_of_raw raw_edges
  using review_step_keeps by unfold_locales (auto simp: moves_def advances_def)

section \<open>What an extraction leaves\<close>

lemma targets_Nil:
  "targets p = [] \<longleftrightarrow> fp_transaction p = None \<and> fp_receivable p = None \<and> fp_payable p = None \<and> fp_recurring p = None"
  by (cases "fp_transaction p"; cases "fp_receivable p"; cases "fp_payable p"; cases "fp_recurring p")
    (simp_all add: targets_def List.map_filter_def)

lemma repo_get_frame:
  "proposals db' = proposals db \<Longrightarrow> raw_events db' = raw_events db \<Longrightarrow> connections db' = connections db \<Longrightarrow>
    repo_get_proposal u i db' = repo_get_proposal u i db"
  unfolding repo_get_proposal_def join_source_def source_of_raw_def by presburger

lemma create_or_get_result:
  assumes "create_or_get u ctx x i now db = Inr (db1, v)" "result_of xt c = Inr x" "rx_raw ctx = r"
  shows "existing_for_prompt u r PROMPT_NAME PROMPT_VERSION NOTE_SCHEMA_VERSION db1 = Some v"
    "db1 = db \<or> (\<exists>p. db1 = db\<lparr>proposals := proposals db @ [p]\<rparr> \<and> fp_id p = i \<and> fp_user p = u \<and> fp_raw p = r \<and>
       fp_status p = PROPOSAL_NEEDS_REVIEW \<and> targets p = [])"
proof -
  let ?p = "proposal_of u ctx x i now"
  have x: "xr_prompt x = PROMPT_NAME" "xr_version x = PROMPT_VERSION" "xr_schema x = NOTE_SCHEMA_VERSION"
    using assms(2) by (auto simp: result_of_def result_simps)
  have P: "fp_id ?p = i" "fp_user ?p = u" "fp_raw ?p = r" "fp_status ?p = PROPOSAL_NEEDS_REVIEW" "targets ?p = []"
    "for_prompt r PROMPT_NAME PROMPT_VERSION NOTE_SCHEMA_VERSION ?p"
    "fp_prompt ?p = PROMPT_NAME" "fp_version ?p = PROMPT_VERSION" "fp_schema ?p = NOTE_SCHEMA_VERSION"
    by (simp_all add: proposal_of_def Let_def x assms(3) targets_def List.map_filter_def for_prompt_def)
  from assms(1) obtain ins sel where ins: "insert_proposal ?p db = Inr (db1, ins)" and
    sel: "(case ins of Some i \<Rightarrow> Some i | None \<Rightarrow> map_option fp_id (select_one (\<lambda>p. fp_user p = u \<and>
       for_prompt r PROMPT_NAME PROMPT_VERSION NOTE_SCHEMA_VERSION p) (proposals db1))) = Some sel" and
    get: "repo_get_proposal u sel db1 = Some v"
    unfolding create_or_get_def x assms(3) by (auto simp: result_simps)
  show "db1 = db \<or> (\<exists>p. db1 = db\<lparr>proposals := proposals db @ [p]\<rparr> \<and> fp_id p = i \<and> fp_user p = u \<and> fp_raw p = r \<and>
       fp_status p = PROPOSAL_NEEDS_REVIEW \<and> targets p = [])"
    using insert_proposal_Inr [OF ins] P by blast
  show "existing_for_prompt u r PROMPT_NAME PROMPT_VERSION NOTE_SCHEMA_VERSION db1 = Some v"
  proof (cases ins)
    case None
    with sel get show ?thesis by (auto simp: existing_for_prompt_def)
  next
    case (Some k)
    from insert_proposal_Inr [OF ins] Some have new: "k = i" "db1 = db\<lparr>proposals := proposals db @ [?p]\<rparr>"
      "\<not> list_ex (for_prompt r PROMPT_NAME PROMPT_VERSION NOTE_SCHEMA_VERSION) (proposals db)"
      by (simp_all add: P)
    have "select_one (\<lambda>p. fp_user p = u \<and> for_prompt r PROMPT_NAME PROMPT_VERSION NOTE_SCHEMA_VERSION p) (proposals db) = None"
      using new(3) by (auto simp: select_one_None list_ex_iff)
    then have "select_one (\<lambda>p. fp_user p = u \<and> for_prompt r PROMPT_NAME PROMPT_VERSION NOTE_SCHEMA_VERSION p) (proposals db1) = Some ?p"
      using P by (simp add: new(2) select_one_append)
    with sel get Some new(1) P show ?thesis by (simp add: existing_for_prompt_def)
  qed
qed

lemma existing_frame:
  assumes "proposals db' = proposals db" "raw_events db' = raw_events db" "connections db' = connections db"
  shows "existing_for_prompt u r a b c db' = existing_for_prompt u r a b c db"
proof -
  have "repo_get_proposal u i db' = repo_get_proposal u i db" for i by (rule repo_get_frame) (fact assms)+
  then show ?thesis by (simp add: existing_for_prompt_def assms(1))
qed

lemma extract_existing:
  "existing_for_prompt u r PROMPT_NAME PROMPT_VERSION NOTE_SCHEMA_VERSION db = Some v \<Longrightarrow>
    extract_raw_event xt prov tz clock u r i now s db = (s, db, Inr v)"
  by (simp add: extract_raw_event_def extraction_input_def)

lemma processing_same [simp]: "\<exists>ps. db = db\<lparr>processing := ps\<rparr>" for db :: "'a reconciliation_db_scheme"
  by (rule exI [of _ "processing db"]) simp

lemma set_error_code_frame:
  "set_error_code u r code db = Inr db' \<Longrightarrow> \<exists>ps. db' = db\<lparr>processing := ps\<rparr>" for db db' :: "'a reconciliation_db_scheme"
  by (auto simp: put_processing_def dest!: set_error_code_Inr)

lemma record_extraction_failure_frame:
  "record_extraction_failure u r code db = (db', out) \<Longrightarrow> \<exists>ps. db' = db\<lparr>processing := ps\<rparr>" for db db' :: "'a reconciliation_db_scheme"
  by (auto simp: record_extraction_failure_def atomically_def result_simps split: sum.splits dest!: set_error_code_frame)

lemma store_extraction_result:
  assumes "store_extraction u r ctx x i now db = Inr (db', v)" "result_of xt c = Inr x" "rx_raw ctx = r"
  shows "existing_for_prompt u r PROMPT_NAME PROMPT_VERSION NOTE_SCHEMA_VERSION db' = Some v"
    "records_of db' = records_of db \<and> normalized_events db' = normalized_events db \<and> evidence db' = evidence db \<and>
     cases db' = cases db \<and>
     (proposals db' = proposals db \<or> (\<exists>p. proposals db' = proposals db @ [p] \<and> fp_id p = i \<and> fp_user p = u \<and> fp_raw p = r \<and>
       fp_status p = PROPOSAL_NEEDS_REVIEW \<and> targets p = []))"
proof -
  from assms(1) obtain db1 where g: "create_or_get u ctx x i now db = Inr (db1, v)" and e: "set_error_code u r None db1 = Inr db'"
    by (auto simp: store_extraction_def result_simps)
  from set_error_code_frame [OF e] obtain ps where d: "db' = db1\<lparr>processing := ps\<rparr>" by blast
  note G = create_or_get_result [OF g assms(2,3)]
  show "existing_for_prompt u r PROMPT_NAME PROMPT_VERSION NOTE_SCHEMA_VERSION db' = Some v"
    using G(1) existing_frame [of db' db1] by (simp add: d)
  show "records_of db' = records_of db \<and> normalized_events db' = normalized_events db \<and> evidence db' = evidence db \<and>
     cases db' = cases db \<and>
     (proposals db' = proposals db \<or> (\<exists>p. proposals db' = proposals db @ [p] \<and> fp_id p = i \<and> fp_user p = u \<and> fp_raw p = r \<and>
       fp_status p = PROPOSAL_NEEDS_REVIEW \<and> targets p = []))"
    using G(2) by (auto simp: d records_of_def)
qed

lemma extract_raw_event_result:
  assumes "extract_raw_event xt prov tz clock u r i now s db = (s', db', res)"
  shows "records_of db' = records_of db \<and> normalized_events db' = normalized_events db \<and> evidence db' = evidence db \<and>
    cases db' = cases db \<and>
    (proposals db' = proposals db \<or> (\<exists>p. proposals db' = proposals db @ [p] \<and> fp_id p = i \<and> fp_user p = u \<and> fp_raw p = r \<and>
       fp_status p = PROPOSAL_NEEDS_REVIEW \<and> targets p = [])) \<and>
    (\<forall>v. res = Inr v \<longrightarrow> extract_raw_event xt2 prov2 tz2 clock2 u r i2 now2 s2 db' = (s2, db', Inr v))"
proof -
  show ?thesis
  proof (cases "extraction_input clock u r db")
    case (Inl e)
    with assms show ?thesis by (auto simp: extract_raw_event_def)
  next
    case (Inr inp)
    show ?thesis
    proof (cases inp)
      case (Inl v)
      with Inr have "existing_for_prompt u r PROMPT_NAME PROMPT_VERSION NOTE_SCHEMA_VERSION db = Some v"
        by (auto simp: extraction_input_def result_simps split: option.splits)
      note once = extract_existing [OF this]
      have "s' = s" "db' = db" "res = Inr v" using assms by (simp_all add: once)
      then show ?thesis by (simp add: once)
    next
      case Inr3: (Inr y)
      obtain ctx body ts where y: "y = (ctx, body, ts)" by (metis prod_cases3)
      have ctx: "rx_raw ctx = r"
        using Inr Inr3 y by (auto simp: extraction_input_def result_simps get_extraction_context_def source_of_raw_def
            split: option.splits bind_splits dest: select_one_SomeD)
      obtain s1 out where out: "extract_note xt prov tz body
          \<lparr>xc_timestamp = Aware ts, xc_timezone = rx_timezone ctx, xc_currency = rx_currency ctx\<rparr> s = (s1, out)" by fastforce
      show ?thesis
      proof (cases out)
        case (Inl e)
        obtain db1 out1 where rec: "record_extraction_failure u r (ai_error_code e) db = (db1, out1)" by fastforce
        from record_extraction_failure_frame [OF rec] obtain ps where d: "db1 = db\<lparr>processing := ps\<rparr>" by blast
        have "(db' = db \<or> db' = db1) \<and> (\<forall>v. res \<noteq> Inr v)"
          using assms Inr Inr3 y out Inl rec by (auto simp: extract_raw_event_def and_then_def split: if_splits sum.splits)
        then have "\<forall>v. res \<noteq> Inr v" "\<exists>ps. db' = db\<lparr>processing := ps\<rparr>" using d by auto
        then show ?thesis by (auto simp: records_of_def)
      next
        case Inr2: (Inr x)
        have res: "\<exists>c. result_of xt c = Inr x"
          using out Inr2 by (auto simp: extract_note_def split: sum.splits prod.splits)
        from assms Inr Inr3 y out Inr2 have st: "atomically (store_extraction u r ctx x i now) db = (db', res)"
          by (simp add: extract_raw_event_def)
        show ?thesis
        proof (cases "store_extraction u r ctx x i now db")
          case (Inl e)
          with st show ?thesis by (auto simp: atomically_def)
        next
          case Inr4: (Inr w)
          obtain v where w: "w = (db', v)" "res = Inr v" using st Inr4 by (cases w) (simp add: atomically_def)
          from res obtain c where c: "result_of xt c = Inr x" by blast
          note G = store_extraction_result [OF Inr4 [unfolded w(1)] c ctx]
          from G(2) extract_existing [OF G(1)] w(2) show ?thesis by simp
        qed
      qed
    qed
  qed
qed

section \<open>A sample proposal\<close>

text \<open>A note about money lent to a friend, waiting for extraction.\<close>

definition sample_note_db :: reconciliation_db where
  "sample_note_db = sample_inbox
     \<lparr>connections := [\<lparr>scn_id = 50, scn_user = 1, scn_type = MANUAL_NOTE, scn_key = ''manual'', scn_display = ''Notes'',
        scn_status = CONN_ACTIVE, scn_cursor = [], scn_synced_at = None, scn_error = None\<rparr>],
      raw_events := [\<lparr>raw_id = 60, raw_user = 1, raw_connection = 50, raw_identity = ''external:manual:1'',
        raw_external = Some ''manual:1'', raw_hash = replicate 64 (CHR ''a''), raw_type = ''manual_financial_note'',
        raw_occurred_at = Some 1778500000000000, raw_payload = [(''extraction_text'', JStr ''Lent Asha 300 rupees'')]\<rparr>],
      processing := [\<lparr>prc_raw = 60, prc_user = 1, prc_state = NEEDS_REVIEW, prc_attempts = 1,
        prc_error = Some ''REVIEW_REQUIRED''\<rparr>]\<rparr>"

definition sample_fields :: extraction_fields where
  "sample_fields =
     \<lparr>xf_kind = KIND_RECEIVABLE, xf_amount = Some (Dec 300 0), xf_currency = Some ''inr'', xf_description = ''Lent  to Asha'',
      xf_occurred_at = Some (Aware 1778500000000000), xf_due_date = None, xf_merchant = None, xf_counterparty = Some ''Asha'',
      xf_recurrence = None, xf_next_date = None, xf_category_hint = None, xf_tags = [], xf_confidence = Dec 9 (-1)\<rparr>"

definition sample_extractor :: extractor where
  "sample_extractor =
     \<lparr>xt_max_chars = 8000, xt_threshold = 85 / 100, xt_system = [], xt_format = JObj [], xt_fields = (\<lambda>_. Inr sample_fields)\<rparr>"

definition sample_proposal :: proposal_row where
  "sample_proposal =
     \<lparr>fp_id = 80, fp_user = 1, fp_raw = 60, fp_kind = KIND_RECEIVABLE, fp_amount = Some 3000000, fp_currency = Some ''INR'',
      fp_description = ''Lent to Asha'', fp_occurred_at = Some 1778500000000000, fp_due_date = None, fp_merchant = None,
      fp_counterparty = Some ''Asha'', fp_recurrence = None, fp_next_date = None, fp_category_hint = None, fp_tags = [],
      fp_confidence = 9000, fp_status = PROPOSAL_NEEDS_REVIEW, fp_reasons = [''AI_REVIEW_REQUIRED''], fp_provider = ''mock'',
      fp_model = ''deterministic-fixture'', fp_prompt = PROMPT_NAME, fp_version = PROMPT_VERSION, fp_schema = NOTE_SCHEMA_VERSION,
      fp_latency = 0, fp_input_tokens = Some 0, fp_output_tokens = Some 0, fp_attempts = 1, fp_transaction = None,
      fp_receivable = None, fp_payable = None, fp_recurring = None, fp_created_at = 1778600000000000\<rparr>"

definition sample_queue_db :: reconciliation_db where
  "sample_queue_db = sample_note_db
     \<lparr>processing := [\<lparr>prc_raw = 60, prc_user = 1, prc_state = NEEDS_REVIEW, prc_attempts = 1, prc_error = None\<rparr>],
      proposals := [sample_proposal]\<rparr>"

definition sample_approval :: approval_env where
  "sample_approval =
     \<lparr>ap_now = Aware 1778600000000000, ap_event = 81, ap_handoff =
       \<lparr>he_now = 1778600000000000, he_rank = int, he_merchant = 82, he_transaction = 83, he_evidence = 84, he_case = 85, he_action = 86\<rparr>,
      ap_person = 87, ap_target = 88\<rparr>"

abbreviation extract_sample ::
  "reconciliation_db \<Rightarrow> (json_object list \<times> completion_request list) \<times> reconciliation_db \<times> proposal_view result" where
  "extract_sample \<equiv> extract_raw_event sample_extractor mock_complete sample_zone (Aware 1778600000000000) 1 60 80 1778600000000000
     ([[]], [])"

lemma sample_extraction:
  "case extract_sample sample_note_db of (s, db, Inl _) \<Rightarrow> False | (s, db, Inr v) \<Rightarrow>
     proposals db = [sample_proposal] \<and> processing db = processing sample_queue_db \<and> pv_id v = 80 \<and> length (snd s) = 1"
  by code_simp

lemma sample_approved:
  "case approve_proposal default_policy sample_zone 1 80 sample_approval sample_queue_db of Inl _ \<Rightarrow> False | Inr (db, v) \<Rightarrow>
     pv_status v = PROPOSAL_APPROVED \<and> pv_target v = Some 88"
  by code_simp

lemma sample_proposals_wf: "review_wf sample_queue_db"
proof -
  have "normalized_contract sample_proposal = Inr (event_of_proposal sample_proposal)" by code_simp
  moreover have "proposal_checks sample_proposal" by code_simp
  ultimately have "proposals_ok sample_queue_db"
    by (simp add: proposals_ok_def proposal_ok_def sample_queue_db_def sample_note_db_def sample_inbox_def fk_raw_def
        prompt_events_def sample_proposal_def)
  moreover have "provenance_wf sample_queue_db"
    by (rule source_change [OF sample_inbox_wf])
      (simp_all add: sample_queue_db_def sample_note_db_def sample_inbox_def source_wf_def fk_connection_def fk_raw_def)
  ultimately show ?thesis by (simp add: review_wf_def)
qed

section \<open>Properties\<close>

text \<open>
  C14: what passes the validation of a model's answer is well typed everywhere it goes. Whatever JSON the
  provider returned, if it is accepted, and the telemetry fits its columns, then the proposal made of it
  satisfies every constraint of its table, and normalizing it later neither fails nor changes a field:
  the normalized event has the proposal's own values and satisfies the constraints of its table too.
\<close>

theorem accepted_answers_are_valid:
  assumes "result_of xt c = Inr x" "tm = cm_telemetry c"
    and "length (tm_provider tm) \<le> 40" "length (tm_model tm) \<le> 120" "0 \<le> tm_latency tm" "non_negative (tm_input tm)"
      "non_negative (tm_output tm)" "1 \<le> tm_attempts tm" "tm_attempts tm \<le> 4"
  shows "proposal_checks (proposal_of u ctx x i now) \<and>
    normalized_contract (proposal_of u ctx x i now) = Inr (event_of_proposal (proposal_of u ctx x i now)) \<and>
    normalized_checks (normalized_of_event u r (event_of_proposal (proposal_of u ctx x i now)) PROMPT_NAME PROMPT_VERSION later j)"
proof -
  let ?p = "proposal_of u ctx x i now"
  from assms(1) obtain e f where x: "xr_event x = e" "xr_prompt x = PROMPT_NAME" "xr_version x = PROMPT_VERSION"
      "xr_schema x = NOTE_SCHEMA_VERSION" "xr_telemetry x = cm_telemetry c" and e: "mk_extracted f = Inr e"
    by (auto simp: result_of_def validated_event_def result_simps split: sum.splits)
  note E = mk_extracted_Inr [OF e]
  have checks: "proposal_checks ?p"
    using E assms(2-) by (auto split: option.splits simp: fits_def proposal_checks_def proposal_of_def Let_def x proposal_targets_ok_def targets_def
        List.map_filter_def PROMPT_NAME_def PROMPT_VERSION_def NOTE_SCHEMA_VERSION_def)
  moreover from extracted_proposal_ok(1) [OF assms(1) checks] have "normalized_contract ?p = Inr (event_of_proposal ?p)"
    by (simp add: proposal_ok_def)
  moreover have "normalized_checks (normalized_of_event u r (event_of_proposal ?p) PROMPT_NAME PROMPT_VERSION later j)"
    using checks by (simp add: proposal_checks_def normalized_checks_def normalized_of_event_def event_of_proposal_def
        PROMPT_NAME_def PROMPT_VERSION_def SCHEMA_VERSION_def not_blank_def)
  ultimately show ?thesis by blast
qed

lemma accepted_answers_are_valid_witness:
  "\<exists>x. result_of sample_extractor \<lparr>cm_data = [], cm_telemetry = mock_telemetry\<rparr> = Inr x \<and>
    proposal_checks (proposal_of 1 \<lparr>rx_raw = 60, rx_connector = MANUAL_NOTE, rx_occurred_at = None, rx_payload = [],
      rx_timezone = ''UTC'', rx_currency = ''INR''\<rparr> x 80 0)"
proof -
  have "case result_of sample_extractor \<lparr>cm_data = [], cm_telemetry = mock_telemetry\<rparr> of Inl _ \<Rightarrow> False | Inr _ \<Rightarrow> True" by code_simp
  then obtain x where x: "result_of sample_extractor \<lparr>cm_data = [], cm_telemetry = mock_telemetry\<rparr> = Inr x"
    by (cases "result_of sample_extractor \<lparr>cm_data = [], cm_telemetry = mock_telemetry\<rparr>") simp_all
  with accepted_answers_are_valid [OF x refl, of 1 _ 80 0 60 0 81] show ?thesis
    by (auto simp: mock_telemetry_def non_negative_def)
qed

text \<open>
  C12: nothing is booked without an approval, and a note is interpreted once. Extracting a raw event, however
  the provider behaves, leaves every ledger record, normalized event, evidence and case as it was and at
  most adds one pending proposal; a second extraction of the same event, at any later time and with any
  provider, returns the same proposal without asking the provider or changing anything. Rejecting writes no
  record either.
\<close>

theorem nothing_is_booked_without_approval:
  assumes "extract_raw_event xt prov tz clock u r i now s db = (s', db', res)"
  shows "records_of db' = records_of db \<and> normalized_events db' = normalized_events db \<and> evidence db' = evidence db \<and>
    cases db' = cases db \<and>
    (proposals db' = proposals db \<or> (\<exists>p. proposals db' = proposals db @ [p] \<and> fp_id p = i \<and> fp_user p = u \<and> fp_raw p = r \<and>
       fp_status p = PROPOSAL_NEEDS_REVIEW \<and> targets p = [])) \<and>
    (\<forall>v. res = Inr v \<longrightarrow> extract_raw_event xt2 prov2 tz2 clock2 u r i2 now2 s2 db' = (s2, db', Inr v)) \<and>
    (\<forall>k db2 v. reject_proposal u k db = Inr (db2, v) \<longrightarrow> records_of db2 = records_of db)"
proof -
  have "records_of db2 = records_of db" if "reject_proposal u k db = Inr (db2, v)" for k db2 v
    using reject_proposal_Inr [OF that] by (auto dest!: set_error_code_Inr flush_proposal_Inr(2) simp: records_of_def put_processing_def)
  with extract_raw_event_result [OF assms, where ?prov2.0 = prov2 and ?s2.0 = s2] show ?thesis by blast
qed

lemma nothing_is_booked_without_approval_witness:
  "\<exists>s db v. extract_sample sample_note_db = (s, db, Inr v) \<and> length (snd s) = 1 \<and>
    extract_raw_event sample_extractor mock_complete sample_zone (Aware 0) 1 60 90 0 s db = (s, db, Inr v)"
proof -
  obtain s db v where e: "extract_sample sample_note_db = (s, db, Inr v)" "length (snd s) = 1"
    using sample_extraction by (cases "extract_sample sample_note_db") (auto split: sum.splits)
  from nothing_is_booked_without_approval [OF e(1), of sample_extractor mock_complete sample_zone "Aware 0" 90 0 s] e
  show ?thesis by blast
qed

text \<open>
  C11: an approval books exactly what the proposal says. When approving succeeds, the proposal was pending
  and belonged to the user. Either it is approved now and names one record of the user that is in the
  tables with the proposal's amount and currency (a posted transaction of its type, an open receivable or
  payable with its due date, or an active recurring payment with its rule and date), or it waits for
  reconciliation, and then no ledger record was written. In both cases it can be neither approved nor
  rejected again.
\<close>

theorem approval_books_the_proposal:
  assumes "review_wf db" "approve_proposal pol tz u i env db = Inr (db', v)"
  shows "\<exists>p. p \<in> set (proposals db) \<and> fp_id p = i \<and> fp_user p = u \<and> fp_status p = PROPOSAL_NEEDS_REVIEW \<and>
    (pv_status v = PROPOSAL_APPROVED \<and> (\<exists>p2 k j. booked u p p2 db' \<and> pv_target_type v = Some k \<and> pv_target v = Some j \<and>
        canonical_target p2 = Some (k, j)) \<or>
     pv_status v = PROPOSAL_RECONCILIATION_REVIEW \<and> pv_target v = None \<and> records_of db' = records_of db) \<and>
    approve_proposal pol2 tz2 u i env2 db' = Inl (ProposalReviewError ''PROPOSAL_ALREADY_REVIEWED'') \<and>
    reject_proposal u i db' = Inl (ProposalReviewError ''PROPOSAL_ALREADY_REVIEWED'')"
proof -
  from approve_proposal_step [OF assms(2,1)] obtain p p1 src db2 where
    p: "require_pending_proposal (lock_proposal u i db) = Inr p" and d: "decides p p1" "proposals db2 = proposals db"
    "flush_proposal p1 db2 = Inr db'" and v: "v = view_of_proposal p1 src" and
    out: "fp_status p1 = PROPOSAL_RECONCILIATION_REVIEW \<and> p1 = p\<lparr>fp_status := PROPOSAL_RECONCILIATION_REVIEW\<rparr> \<and> records_of db' = records_of db \<or>
     (\<exists>p2. p1 = p2\<lparr>fp_status := PROPOSAL_APPROVED\<rparr> \<and> booked u p p2 db')" by blast
  note L = lock_proposal_Some [OF p]
  have "proposal_targets_ok p" using L(1) assms(1) by (simp add: review_wf_def proposals_ok_def proposal_ok_def proposal_checks_def)
  with L(4) have none: "fp_transaction p = None" "fp_receivable p = None" "fp_payable p = None" "fp_recurring p = None"
    by (simp_all add: proposal_targets_ok_def targets_Nil)
  have booked_target: "canonical_target p2 \<noteq> None" if "booked u p p2 db'" for p2
    using that none unfolding booked_def by (elim disjE bexE conjE) (simp_all add: canonical_target_def)
  have "pv_status v = PROPOSAL_APPROVED \<and> (\<exists>p2 k j. booked u p p2 db' \<and> pv_target_type v = Some k \<and> pv_target v = Some j \<and>
        canonical_target p2 = Some (k, j))" if "p1 = p2\<lparr>fp_status := PROPOSAL_APPROVED\<rparr>" "booked u p p2 db'" for p2
  proof -
    from booked_target [OF that(2)] obtain k j where "canonical_target p2 = Some (k, j)"
      by (cases "canonical_target p2") auto
    moreover from this have "canonical_target p1 = Some (k, j)" by (simp add: that(1) canonical_target_def cong: option.case_cong)
    ultimately show ?thesis using that by (auto simp: v view_of_proposal_def)
  qed
  moreover have "pv_status v = PROPOSAL_RECONCILIATION_REVIEW \<and> pv_target v = None"
    if "p1 = p\<lparr>fp_status := PROPOSAL_RECONCILIATION_REVIEW\<rparr>"
    using that none by (simp add: v view_of_proposal_def canonical_target_def)
  moreover note out decided_for_good(2) [OF p d(2,1,3)]
  ultimately show ?thesis using L
    by (intro exI [of _ p]) (auto simp: approve_proposal_def reject_proposal_def)
qed

lemma approval_books_the_proposal_witness:
  "\<exists>db v p2. approve_proposal default_policy sample_zone 1 80 sample_approval sample_queue_db = Inr (db, v) \<and>
    booked 1 sample_proposal p2 db \<and> pv_target v = Some 88"
proof -
  obtain db v where a: "approve_proposal default_policy sample_zone 1 80 sample_approval sample_queue_db = Inr (db, v)"
    "pv_status v = PROPOSAL_APPROVED" "pv_target v = Some 88"
    using sample_approved by (cases "approve_proposal default_policy sample_zone 1 80 sample_approval sample_queue_db") auto
  from approval_books_the_proposal [OF sample_proposals_wf a(1), where ?env2.0 = sample_approval and ?pol2.0 = default_policy and ?tz2.0 = sample_zone]
    a(2) obtain p p2 where
    "p \<in> set (proposals sample_queue_db)" "booked 1 p p2 db" by auto
  moreover from this(1) have "p = sample_proposal" by (simp add: sample_queue_db_def)
  ultimately show ?thesis using a by blast
qed

text \<open>
  C13: the review queue stays consistent through any interleaving. In every sequence of committed steps,
  deliveries, reviews of duplicates, bookings, corrections, extractions, rejections and approvals, the
  tables keep \<open>review_wf\<close> and a proposal's status only moves along its table; a rejected or approved
  proposal keeps its status for good.
\<close>

theorem proposals_are_decided_once:
  assumes "review_wf db" "reaches review_step db db'"
  shows "review_wf db' \<and>
    (\<forall>i s. status_of_proposal db i = Some s \<longrightarrow> (\<exists>s'. status_of_proposal db' i = Some s' \<and> path proposal_edges s s')) \<and>
    (\<forall>i. status_of_proposal db i = Some PROPOSAL_REJECTED \<longrightarrow> status_of_proposal db' i = Some PROPOSAL_REJECTED) \<and>
    (\<forall>i. status_of_proposal db i = Some PROPOSAL_APPROVED \<longrightarrow> status_of_proposal db' i = Some PROPOSAL_APPROVED)"
  using proposal_life.reaches_wf [OF assms(2,1)] proposal_life.reaches_path [OF assms(2,1)]
    proposal_life.final_stays [OF assms(2,1)] by auto

lemma proposals_are_decided_once_witness:
  "\<exists>db. reaches review_step sample_queue_db db \<and> review_wf db \<and> status_of_proposal sample_queue_db 80 = Some PROPOSAL_NEEDS_REVIEW \<and>
    (\<exists>s. status_of_proposal db 80 = Some s)"
proof -
  obtain db v where a: "approve_proposal default_policy sample_zone 1 80 sample_approval sample_queue_db = Inr (db, v)"
    using sample_approved by (cases "approve_proposal default_policy sample_zone 1 80 sample_approval sample_queue_db") auto
  have r: "reaches review_step sample_queue_db db" by (rule reaches_step [of review_step, OF review_step.approved [OF a]])
  have s: "status_of_proposal sample_queue_db 80 = Some PROPOSAL_NEEDS_REVIEW" by code_simp
  from proposals_are_decided_once [OF sample_proposals_wf r] r s show ?thesis by blast
qed

end
