(* ===== verification/Submissions.thy ===== *)
theory Submissions
  imports Keep_Import Proposal_Properties
begin

text \<open>
  Submitting a note, of \<open>ai/proposal_service.py\<close>: the connector of the source creates the envelope, ingestion
  stores it and the extraction queues its proposal. Three transactions and a provider call follow one another, so
  the model returns the provider, the tables and the outcome at every point where an exception can leave.
\<close>

section \<open>Submitting\<close>

record submission_env =
  sv_connection :: uuid
  sv_ingest :: ingest_env
  sv_clock :: py_datetime
  sv_proposal :: uuid
  sv_now :: instant

definition submit_envelope ::
  "policy \<Rightarrow> envelope_codec \<Rightarrow> extractor \<Rightarrow> 's provider \<Rightarrow> tzdata \<Rightarrow> uuid \<Rightarrow> connector \<Rightarrow> envelope \<Rightarrow> string \<Rightarrow>
   submission_env \<Rightarrow> 's \<Rightarrow> 'a reconciliation_db_scheme \<Rightarrow> 's \<times> 'a reconciliation_db_scheme \<times> proposal_view result" where
  "submit_envelope pol codec xt prov tz user_id cn e key env s db =
     (case ingest_envelope pol codec user_id cn e key (sv_connection env) (sv_ingest env) db of
        (db1, Inl err) \<Rightarrow> (s, db1, Inl err)
      | (db1, Inr ingested) \<Rightarrow>
          extract_raw_event xt prov tz (sv_clock env) user_id (ir_raw ingested) (sv_proposal env) (sv_now env) s db1)"

definition submit_manual_note ::
  "policy \<Rightarrow> envelope_codec \<Rightarrow> extractor \<Rightarrow> 's provider \<Rightarrow> tzdata \<Rightarrow> uuid \<Rightarrow> string \<Rightarrow> py_datetime \<Rightarrow> uuid \<Rightarrow>
   string list \<Rightarrow> submission_env \<Rightarrow> 's \<Rightarrow> 'a reconciliation_db_scheme \<Rightarrow>
   's \<times> 'a reconciliation_db_scheme \<times> proposal_view result" where
  "submit_manual_note pol codec xt prov tz user_id note source_timestamp client_request_id labels env s db =
     (case create_manual_note_envelope note source_timestamp client_request_id labels of
        Inl err \<Rightarrow> (s, db, Inl err)
      | Inr e \<Rightarrow> submit_envelope pol codec xt prov tz user_id (manual_note_connector []) e ''default'' env s db)"

text \<open>A document without a note in it submits nothing.\<close>

definition submit_google_keep_document ::
  "policy \<Rightarrow> envelope_codec \<Rightarrow> keep_codec \<Rightarrow> extractor \<Rightarrow> 's provider \<Rightarrow> tzdata \<Rightarrow> uuid \<Rightarrow> string \<Rightarrow> string \<Rightarrow>
   submission_env \<Rightarrow> 's \<Rightarrow> 'a reconciliation_db_scheme \<Rightarrow>
   's \<times> 'a reconciliation_db_scheme \<times> (proposal_view option) result" where
  "submit_google_keep_document pol codec keep xt prov tz user_id filename content env s db =
     (case bindE (keep_from_documents keep [(filename, content)]) (\<lambda>cn. bindE (cn_fetch cn []) (\<lambda>b. Inr (cn, b))) of
        Inl err \<Rightarrow> (s, db, Inl err)
      | Inr (cn, [], _) \<Rightarrow> (s, db, Inr None)
      | Inr (cn, e # _, _) \<Rightarrow>
          (case submit_envelope pol codec xt prov tz user_id cn e ''takeout'' env s db of
             (s1, db1, r) \<Rightarrow> (s1, db1, bindE r (\<lambda>v. Inr (Some v)))))"

section \<open>The labels of a note\<close>

definition label_ok :: "string \<Rightarrow> bool" where
  "label_ok l \<longleftrightarrow> l \<noteq> [] \<and> normalize_display_text l = l \<and> length l \<le> MAX_TAG_LENGTH"

definition labels_ok :: "string list \<Rightarrow> bool" where
  "labels_ok ls \<longleftrightarrow> list_all label_ok ls \<and> distinct (map casefold ls) \<and> length ls \<le> MAX_TAGS"

lemma note_labels_ok:
  assumes "note_labels seen kept raw = Inr ls" "labels_ok kept" "length kept < MAX_TAGS" "set seen = casefold ` set kept"
  shows "labels_ok ls"
  using assms
proof (induction seen kept raw rule: note_labels.induct)
  case (2 seen kept raw rest)
  let ?l = "normalize_display_text raw"
  consider (blank) "?l = []" | (long) "?l \<noteq> []" "MAX_TAG_LENGTH < length ?l"
    | (seen) "label_ok ?l" "casefold ?l \<in> set seen" | (new) "label_ok ?l" "casefold ?l \<notin> set seen"
    by (cases "?l = []"; cases "MAX_TAG_LENGTH < length ?l"; cases "casefold ?l \<in> set seen") (auto simp: label_ok_def)
  then show ?case
  proof cases
    case blank
    with 2 show ?thesis by simp
  next
    case long
    with 2(3) show ?thesis by simp
  next
    case seen
    then have "note_labels seen kept rest = Inr ls" using 2(3,5) by (simp add: label_ok_def Let_def)
    from 2(2) [OF refl _ _ refl refl refl] seen 2(4-6) this show ?thesis by (simp add: label_ok_def)
  next
    case new
    have ok: "labels_ok (kept @ [?l])" using new 2(4-6) by (auto simp: labels_ok_def)
    show ?thesis
    proof (cases "length (kept @ [?l]) = MAX_TAGS")
      case True
      with 2(3) new ok show ?thesis by (simp add: label_ok_def Let_def)
    next
      case False
      then have "note_labels (casefold ?l # seen) (kept @ [?l]) rest = Inr ls"
        using 2(3) new by (simp add: label_ok_def Let_def)
      with 2(2) [OF refl _ _ refl refl refl] new ok False 2(5,6) show ?thesis by (simp add: label_ok_def)
    qed
  qed
qed simp

lemma labels_are_tags: "labels_ok ls \<Longrightarrow> normalize_tags ls = Inr ls"
proof -
  assume ok: "labels_ok ls"
  then have m: "map normalize_display_text ls = ls" and f: "filter (\<lambda>t. t \<noteq> []) ls = ls"
    and lens: "\<not> list_ex (\<lambda>t. MAX_TAG_LENGTH < length t) ls" "\<not> MAX_TAGS < length ls"
    by (auto simp: labels_ok_def label_ok_def list_all_iff list_ex_iff map_idI)
  have "first_by casefold [] ls = ls" using ok by (intro first_by_id) (simp_all add: labels_ok_def)
  with lens show ?thesis by (simp add: normalize_tags_def m f Let_def)
qed

lemma strings_of_JStr [simp]: "strings_of (map JStr xs) = xs"
  by (induction xs) simp_all

lemma normalized_prefix:
  assumes "normalize_display_text v \<noteq> []" "0 < n" "n \<le> limit"
  shows "required_text limit (take n (normalize_display_text v)) = Inr (normalize_display_text (take n (normalize_display_text v)))"
proof -
  let ?t = "take n (normalize_display_text v)"
  have "hd (normalize_display_text v) \<in> set ?t" using assms(1,2) by (cases "normalize_display_text v"; cases n) simp_all
  then have "normalize_display_text ?t \<noteq> []" using normalized_starts [OF assms(1)] normalize_blank_iff [of ?t] by blast
  moreover have "length (normalize_display_text ?t) \<le> limit" using length_normalize [of ?t] assms(3) by simp
  ultimately show ?thesis by (simp add: required_text_def)
qed

section \<open>A normalized delivery is settled\<close>

lemma post_or_queue_review_settles:
  assumes "post_or_queue_review pol u e p n env db = Inr (db', p', t)"
  shows "terminal (prc_state p')"
proof -
  have q: "queue_review p code = Inr p2 \<Longrightarrow> prc_state p2 = NEEDS_REVIEW" for code p2
    by (auto simp: queue_review_def result_simps)
  have "post_command pol u e p n c env db = Inr (db', p', t) \<Longrightarrow> terminal (prc_state p')" for c
    by (auto simp: post_command_def result_simps terminal_def split: if_splits dest: q)
  with assms show ?thesis
    by (auto simp: post_or_queue_review_def result_simps terminal_def split: option.splits sum.splits if_splits dest: q)
qed

lemma process_normalized_settles: "process_normalized pol u src e s ev env db = Inr (db', r) \<Longrightarrow> terminal (ir_state r)"
  by (auto simp: process_normalized_def result_simps replay_of_def split: if_splits dest: post_or_queue_review_settles)

lemma delivery_settles:
  assumes run: "ingest_for_connection pol codec u c cn e env db = (db', Inr r)"
    and ok: "\<And>code. cn_normalize cn e \<noteq> Inl (ConnectorContentError code)"
  shows "terminal (ir_state r)"
proof -
  obtain db1 out where m: "atomically (receive_raw_event codec u (cnv_id c) e (ie_raw env)) db = (db1, out)" by fastforce
  from run obtain stored where out: "out = Inr stored" by (cases out) (simp_all add: ingest_for_connection_def m and_then_def)
  note run = run [unfolded ingest_for_connection_def m out and_then_def prod.case sum.case]
  from run obtain x where x: "terminal_result u stored db1 = Inr x" by (cases "terminal_result u stored db1") simp_all
  show ?thesis
  proof (cases x)
    case (Some r')
    with run x have "r = r'" by simp
    with Some x show ?thesis by (auto simp: terminal_result_def result_simps replay_of_def split: if_splits)
  next
    case None
    show ?thesis
    proof (cases "cn_normalize cn e")
      case (Inl err)
      with ok have "err \<noteq> ConnectorContentError code" for code by blast
      then have "\<nexists>code. err = ConnectorContentError code" by blast
      with run x None Inl show ?thesis by (cases err) simp_all
    next
      case (Inr ev)
      with run x None show ?thesis by (auto simp: atomically_Inr_iff dest: process_normalized_settles)
    qed
  qed
qed

lemma ingest_settles:
  assumes "ingest_envelope pol codec u cn e key i env db = (db', Inr r)" "\<And>code. cn_normalize cn e \<noteq> Inl (ConnectorContentError code)"
  shows "terminal (ir_state r)"
proof -
  from assms(1) obtain c db1 where "ingest_for_connection pol codec u c cn e env db1 = (db', Inr r)"
    by (auto simp: ingest_envelope_def and_then_Inr)
  from delivery_settles [OF this assms(2)] show ?thesis .
qed

section \<open>Submitted notes\<close>

lemma review_reaches: "reaches review_step db db' \<Longrightarrow> review_wf db \<Longrightarrow> review_wf db' \<and> moves db db'"
proof (induction rule: reaches.induct)
  case (more db db1 db2)
  then show ?case using review_step_keeps moves_trans by blast
qed (simp add: moves_same)

lemma extract_reaches:
  assumes "extract_raw_event xt prov tz clock u r i now s db = (s', db', Inr v)"
  shows "reaches review_step db db'"
proof (cases "extraction_input clock u r db")
  case (Inl e)
  with assms show ?thesis by (simp add: extract_raw_event_def)
next
  case (Inr inp)
  show ?thesis
  proof (cases inp)
    case (Inl w)
    with Inr assms show ?thesis by (simp add: extract_raw_event_def reaches.none)
  next
    case Inr2: (Inr y)
    obtain ctx body ts where y: "y = (ctx, body, ts)" by (metis prod_cases3)
    obtain s1 out where out: "extract_note xt prov tz body
        \<lparr>xc_timestamp = Aware ts, xc_timezone = rx_timezone ctx, xc_currency = rx_currency ctx\<rparr> s = (s1, out)" by fastforce
    show ?thesis
    proof (cases out)
      case (Inl e)
      with assms Inr Inr2 y out show ?thesis
        by (auto simp: extract_raw_event_def and_then_def split: if_splits sum.splits prod.splits)
    next
      case Inr3: (Inr x)
      then obtain c where c: "result_of xt c = Inr x" using out by (auto simp: extract_note_def split: sum.splits prod.splits)
      from assms Inr Inr2 y out Inr3 have "store_extraction u r ctx x i now db = Inr (db', v)"
        by (simp add: extract_raw_event_def atomically_Inr_iff)
      from reaches_step [of review_step, OF review_step.extracted [OF c this]] show ?thesis .
    qed
  qed
qed

lemma created_note:
  assumes "create_manual_note_envelope note ts request labels = Inr e"
  shows "\<exists>ls t. labels_ok ls \<and> ts = Aware t \<and> normalize_display_text note \<noteq> [] \<and> length (normalize_display_text note) \<le> MAX_MANUAL_NOTE_CHARS \<and>
    env_payload e = [(''extraction_text'', JStr (normalize_display_text note)), (''labels'', JList (map JStr ls))] \<and>
    env_occurred_at e = Some t \<and> env_external_id e = Some (normalize_display_text (''manual:'' @ uuid_text request))"
proof -
  from assms obtain ls t where a: "note_labels [] [] labels = Inr ls" "ts = Aware t" "normalize_display_text note \<noteq> []"
      "length (normalize_display_text note) \<le> MAX_MANUAL_NOTE_CHARS" and
    m: "mk_envelope (Some (''manual:'' @ uuid_text request)) ''manual_financial_note'' (Some ts)
          [(''extraction_text'', JStr (normalize_display_text note)), (''labels'', JList (map JStr ls))]
          [(''noteId'', JStr (uuid_text request))] (Some (take 500 (normalize_display_text note))) = Inr e"
    by (auto simp: create_manual_note_envelope_def Let_def result_simps split: py_datetime.splits)
  have "labels_ok ls" using note_labels_ok [OF a(1)] by (simp add: labels_ok_def MAX_TAGS_def)
  moreover have "normalize_display_text (''manual:'' @ uuid_text request) \<noteq> []"
    unfolding normalize_blank_iff by (simp add: is_space_def)
  moreover have "env_payload e = [(''extraction_text'', JStr (normalize_display_text note)), (''labels'', JList (map JStr ls))]"
    "env_occurred_at e = Some t"
    using m a(2) by (auto simp: mk_envelope_def result_simps aware_instant_def)
  ultimately show ?thesis using a m by (auto simp: mk_envelope_def result_simps optional_text_def Let_def split: if_splits)
qed

lemma created_note_normalizes:
  assumes "create_manual_note_envelope note ts request labels = Inr e"
  shows "\<exists>ev. normalize_manual_note e = Inr ev \<and> fe_kind ev = KIND_UNKNOWN \<and> fe_amount ev = None \<and> labels_ok (fe_tags ev) \<and>
    fe_occurred_at ev = env_occurred_at e"
proof -
  from created_note [OF assms] obtain ls t where n: "labels_ok ls" "normalize_display_text note \<noteq> []"
    "env_payload e = [(''extraction_text'', JStr (normalize_display_text note)), (''labels'', JList (map JStr ls))]"
    "env_occurred_at e = Some t" by blast
  have "normalize_payment_identifiers [] = Inr []" by (simp add: normalize_payment_identifiers_def)
  with n normalized_prefix [OF n(2), of 200 500] labels_are_tags [OF n(1)] show ?thesis
    by (simp add: normalize_manual_note_def mk_event_def currency_field_def optional_text_def aware_instant_def)
qed

section \<open>Properties\<close>

text \<open>
  C23: a note that the connector accepts always becomes a valid event. Whatever text, timestamp and labels are
  submitted, if an envelope is made, it carries the normalized text within its bound and labels that pass the
  event's validators, and it normalizes to an event of unknown kind without an amount, so that nothing can be
  posted from it, at the submitted instant.
\<close>

theorem accepted_notes_are_events:
  assumes "create_manual_note_envelope note ts request labels = Inr e"
  shows "\<exists>ls ev. map_of (env_payload e) ''extraction_text'' = Some (JStr (normalize_display_text note)) \<and>
    normalize_display_text note \<noteq> [] \<and> length (normalize_display_text note) \<le> MAX_MANUAL_NOTE_CHARS \<and>
    map_of (env_payload e) ''labels'' = Some (JList (map JStr ls)) \<and> normalize_tags ls = Inr ls \<and>
    normalize_manual_note e = Inr ev \<and> fe_kind ev = KIND_UNKNOWN \<and> fe_amount ev = None \<and> fe_tags ev = ls \<and>
    map_option Aware (fe_occurred_at ev) = Some ts"
proof -
  from created_note [OF assms] obtain ls t where n: "labels_ok ls" "ts = Aware t" "normalize_display_text note \<noteq> []"
    "length (normalize_display_text note) \<le> MAX_MANUAL_NOTE_CHARS"
    "env_payload e = [(''extraction_text'', JStr (normalize_display_text note)), (''labels'', JList (map JStr ls))]"
    "env_occurred_at e = Some t" by blast
  from created_note_normalizes [OF assms] obtain ev where ev: "normalize_manual_note e = Inr ev" "fe_kind ev = KIND_UNKNOWN"
    "fe_amount ev = None" "fe_occurred_at ev = env_occurred_at e" by blast
  have "fe_tags ev = ls" using ev(1) n(5) labels_are_tags [OF n(1)]
    by (auto simp: normalize_manual_note_def mk_event_def result_simps)
  with n ev labels_are_tags [OF n(1)] show ?thesis by simp
qed

lemma accepted_notes_are_events_witness:
  "\<exists>e ev. create_manual_note_envelope ''Lent  Asha 300'' (Aware 5) 1 [''cash'', '''', ''Cash'', ''friends''] = Inr e \<and>
    normalize_manual_note e = Inr ev \<and> fe_kind ev = KIND_UNKNOWN \<and> fe_occurred_at ev = Some 5"
proof -
  have "case create_manual_note_envelope ''Lent  Asha 300'' (Aware 5) 1 [''cash'', '''', ''Cash'', ''friends''] of
      Inl _ \<Rightarrow> False | Inr _ \<Rightarrow> True" by code_simp
  then obtain e where e: "create_manual_note_envelope ''Lent  Asha 300'' (Aware 5) 1 [''cash'', '''', ''Cash'', ''friends''] = Inr e"
    by (cases "create_manual_note_envelope ''Lent  Asha 300'' (Aware 5) 1 [''cash'', '''', ''Cash'', ''friends'']") simp_all
  from accepted_notes_are_events [OF e] show ?thesis using e by auto
qed

text \<open>
  C19: a note is submitted once. When submitting returned a proposal, submitting the same request again, with any
  policy, provider, clock and fresh identifiers, returns the same proposal, asks no provider and changes
  nothing: the stored delivery is recognised by its identity and content, its settled event is not processed
  again, and the proposal of the prompt is found.
\<close>

theorem notes_are_submitted_once:
  assumes wf: "review_wf db"
    and run: "submit_manual_note pol codec xt prov tz u note ts request labels env s db = (s1, db1, Inr v)"
  shows "submit_manual_note pol' codec xt' prov' tz' u note ts request labels env' s2 db1 = (s2, db1, Inr v)"
proof -
  let ?cn = "manual_note_connector []"
  from run obtain e where e: "create_manual_note_envelope note ts request labels = Inr e"
    by (cases "create_manual_note_envelope note ts request labels") (simp_all add: submit_manual_note_def)
  have sub: "submit_envelope pol codec xt prov tz u ?cn e ''default'' env s db = (s1, db1, Inr v)"
    using run e by (simp add: submit_manual_note_def)
  from sub obtain db0 r where i: "ingest_envelope pol codec u ?cn e ''default'' (sv_connection env) (sv_ingest env) db = (db0, Inr r)"
    and x: "extract_raw_event xt prov tz (sv_clock env) u (ir_raw r) (sv_proposal env) (sv_now env) s db0 = (s1, db1, Inr v)"
    by (auto simp: submit_envelope_def split: prod.splits sum.splits)
  have pwf: "provenance_wf db" using wf by (simp add: review_wf_def)
  have settled: "terminal (ir_state r)"
    using created_note_normalizes [OF e] by (intro ingest_settles [OF i]) (auto simp: manual_note_connector_def)
  have "reaches provenance_step db db0"
    using ingest_envelope_reaches [of db pol codec u ?cn e "''default''" "sv_connection env" "sv_ingest env"] i by simp
  from reaches_mono [OF this review_step.piped] have "reaches review_step db db0" .
  from reviewed_raw.reaches_wf [OF this wf] have wf0: "review_wf db0" .
  from review_reaches [OF extract_reaches [OF x] wf0] have wf1: "review_wf db1" and m: "moves db0 db1" by simp_all
  have "provenance_wf db1" using wf1 by (simp add: review_wf_def)
  from redelivery_after [OF pwf i settled m this refl] obtain r' where
    "ingest_envelope pol' codec u ?cn e ''default'' (sv_connection env') (sv_ingest env') db1 = (db1, Inr r')" "ir_raw r' = ir_raw r"
    by blast
  moreover have "extract_raw_event xt' prov' tz' (sv_clock env') u (ir_raw r) (sv_proposal env') (sv_now env') s2 db1 = (s2, db1, Inr v)"
    using extract_raw_event_result [OF x, where ?xt2.0 = xt' and ?prov2.0 = prov' and ?tz2.0 = tz' and ?clock2.0 = "sv_clock env'"
        and ?i2.0 = "sv_proposal env'" and ?now2.0 = "sv_now env'" and ?s2.0 = s2] by simp
  ultimately show ?thesis by (simp add: submit_manual_note_def e submit_envelope_def)
qed

definition sample_submission :: submission_env where
  "sample_submission = \<lparr>sv_connection = 50, sv_ingest = sample_ingest_env, sv_clock = Aware 1778600000000000, sv_proposal = 80,
     sv_now = 1778600000000000\<rparr>"

abbreviation submit_sample ::
  "json_object list \<times> completion_request list \<Rightarrow> reconciliation_db \<Rightarrow>
   (json_object list \<times> completion_request list) \<times> reconciliation_db \<times> proposal_view result" where
  "submit_sample \<equiv> submit_manual_note default_policy sample_envelope_codec sample_extractor mock_complete sample_zone 1
     ''Lent Asha 300 rupees'' (Aware 1778500000000000) 7 [''friends''] sample_submission"

lemma sample_inbox_reviewable: "review_wf sample_inbox"
proof -
  have "proposals_ok sample_inbox" by (simp add: proposals_ok_def sample_inbox_def prompt_events_def)
  then show ?thesis using sample_inbox_wf by (simp add: review_wf_def)
qed

definition sample_note_envelope :: envelope where
  "sample_note_envelope =
     \<lparr>env_external_id = Some ''manual:00000000-0000-0000-0000-000000000007'', env_event_type = ''manual_financial_note'',
      env_occurred_at = Some 1778500000000000,
      env_payload = [(''extraction_text'', JStr ''Lent Asha 300 rupees''), (''labels'', JList [JStr ''friends''])],
      env_locator = [(''noteId'', JStr ''00000000-0000-0000-0000-000000000007'')],
      env_excerpt = Some ''Lent Asha 300 rupees''\<rparr>"

lemma sample_created:
  "create_manual_note_envelope ''Lent Asha 300 rupees'' (Aware 1778500000000000) 7 [''friends''] = Inr sample_note_envelope"
  by code_simp

definition sample_connected_db :: reconciliation_db where
  "sample_connected_db = sample_inbox
     \<lparr>connections := [\<lparr>scn_id = 50, scn_user = 1, scn_type = MANUAL_NOTE, scn_key = ''default'',
        scn_display = ''Manual financial notes'', scn_status = CONN_ACTIVE, scn_cursor = [], scn_synced_at = None,
        scn_error = None\<rparr>]\<rparr>"

definition sample_received_db :: reconciliation_db where
  "sample_received_db = sample_connected_db
     \<lparr>raw_events := [\<lparr>raw_id = 60, raw_user = 1, raw_connection = 50,
        raw_identity = ''external:manual:00000000-0000-0000-0000-000000000007'',
        raw_external = Some ''manual:00000000-0000-0000-0000-000000000007'', raw_hash = replicate 64 (CHR ''a''),
        raw_type = ''manual_financial_note'', raw_occurred_at = Some 1778500000000000,
        raw_payload = [(''extraction_text'', JStr ''Lent Asha 300 rupees''), (''labels'', JList [JStr ''friends''])]\<rparr>],
      processing := [\<lparr>prc_raw = 60, prc_user = 1, prc_state = RECEIVED, prc_attempts = 0, prc_error = None\<rparr>]\<rparr>"

definition sample_stored_db :: reconciliation_db where
  "sample_stored_db = sample_received_db
     \<lparr>processing := [\<lparr>prc_raw = 60, prc_user = 1, prc_state = NEEDS_REVIEW, prc_attempts = 1,
        prc_error = Some ''REVIEW_REQUIRED''\<rparr>],
      normalized_events := [\<lparr>nev_id = 61, nev_user = 1, nev_raw = 60, nev_schema = SCHEMA_VERSION, nev_key = ''manual_note'',
        nev_version = ''1'', nev_kind = KIND_UNKNOWN, nev_amount = None, nev_currency = None,
        nev_description = ''Lent Asha 300 rupees'', nev_occurred_at = Some 1778500000000000, nev_merchant = None,
        nev_counterparty = None, nev_category_hint = None, nev_tags = [''friends''], nev_identifiers = [],
        nev_confidence = None, nev_created_at = 1778600000000000\<rparr>]\<rparr>"

definition sample_note_event :: financial_event where
  "sample_note_event =
     \<lparr>fe_schema = SCHEMA_VERSION, fe_kind = KIND_UNKNOWN, fe_amount = None, fe_currency = None,
      fe_description = ''Lent Asha 300 rupees'', fe_occurred_at = Some 1778500000000000, fe_merchant = None,
      fe_counterparty = None, fe_category_hint = None, fe_tags = [''friends''], fe_identifiers = [], fe_confidence = None\<rparr>"

abbreviation sample_view :: connection_view where
  "sample_view \<equiv> \<lparr>cnv_id = 50, cnv_type = MANUAL_NOTE, cnv_key = ''default'', cnv_display = ''Manual financial notes'',
     cnv_status = CONN_ACTIVE, cnv_cursor = []\<rparr>"

abbreviation sample_raw :: stored_raw_event where
  "sample_raw \<equiv> \<lparr>sre_id = 60, sre_created = True, sre_hash = replicate 64 (CHR ''a'')\<rparr>"

lemma sample_pipeline:
  "ensure_active_connection 1 (MANUAL_NOTE, ''Manual financial notes'') ''default'' 50 sample_inbox = Inr (sample_connected_db, sample_view) \<and>
   receive_raw_event sample_envelope_codec 1 50 sample_note_envelope 60 sample_connected_db = Inr (sample_received_db, sample_raw) \<and>
   terminal_result 1 sample_raw sample_received_db = Inr None \<and>
   normalize_manual_note sample_note_envelope = Inr sample_note_event \<and>
   process_normalized default_policy 1 MANUAL_NOTE sample_note_envelope sample_raw sample_note_event sample_ingest_env sample_received_db =
     Inr (sample_stored_db, \<lparr>ir_raw = 60, ir_event = Some 61, ir_transaction = None, ir_state = NEEDS_REVIEW,
       ir_replayed = False, ir_error = Some ''REVIEW_REQUIRED''\<rparr>)"
  by code_simp

lemma sample_stored:
  "ingest_envelope default_policy sample_envelope_codec 1 (manual_note_connector []) sample_note_envelope ''default''
     (sv_connection sample_submission) (sv_ingest sample_submission) sample_inbox =
   (sample_stored_db, Inr \<lparr>ir_raw = 60, ir_event = Some 61, ir_transaction = None, ir_state = NEEDS_REVIEW,
      ir_replayed = False, ir_error = Some ''REVIEW_REQUIRED''\<rparr>)"
proof -
  have "ie_raw sample_ingest_env = 60" by (simp add: sample_ingest_env_def)
  then show ?thesis
    using sample_pipeline
    by (simp add: ingest_envelope_def ingest_for_connection_def and_then_def atomically_def manual_note_connector_def sample_submission_def)
qed

lemma sample_extracted:
  "case extract_sample sample_stored_db of (s, db, Inl _) \<Rightarrow> False | (s, db, Inr v) \<Rightarrow> pv_id v = 80 \<and> length (snd s) = 1"
  by code_simp

lemma sample_submitted:
  "case submit_sample ([[]], []) sample_inbox of (s, db, Inl _) \<Rightarrow> False | (s, db, Inr v) \<Rightarrow> pv_id v = 80 \<and> length (snd s) = 1"
  using sample_extracted unfolding submit_manual_note_def sample_created submit_envelope_def sum.case sample_stored
  by (simp add: sample_submission_def)

lemma notes_are_submitted_once_witness:
  "\<exists>s db v. submit_sample ([[]], []) sample_inbox = (s, db, Inr v) \<and> pv_id v = 80 \<and> submit_sample ([], []) db = (([], []), db, Inr v)"
proof -
  obtain s db v where e: "submit_sample ([[]], []) sample_inbox = (s, db, Inr v)" "pv_id v = 80"
    using sample_submitted by (cases "submit_sample ([[]], []) sample_inbox") (auto split: sum.splits)
  from notes_are_submitted_once [OF sample_inbox_reviewable e(1), of default_policy sample_extractor mock_complete sample_zone
      sample_submission "([], [])"] e show ?thesis by blast
qed

end
