(* ===== verification/Import_Properties.thy ===== *)
theory Import_Properties
  imports Csv_Properties Submissions
begin

text \<open>
  Resuming an import. Every built-in connector holds a finite list of envelopes; the locale states what the page
  loop of \<open>ingestion/service.py\<close> relies on, and that a completed synchronization leaves nothing to fetch is
  proved in it once and for all.
\<close>

section \<open>Sources that run out\<close>

locale finite_source =
  fixes cn :: connector
    and ending :: json_object
  assumes healthy: "fst (cn_health cn) = HEALTHY"
    and pages_end: "cn_fetch cn c = Inr (es, c') \<Longrightarrow> c' = ending"
    and nothing_after: "cn_fetch cn ending = Inr ([], ending)"

lemma list_ex_modify_rows: "(\<And>r. P (f r) = P r) \<Longrightarrow> list_ex P (modify_rows Q f rows) = list_ex P rows"
  by (induction rows) auto

lemma cursor_saved:
  assumes at: "connection_at u (fst d) (normalize_display_text key) db = Some (c, CONN_ACTIVE)"
    and put: "update_connection_cursor u c cur t db = Inr db1" and wf: "source_wf db1"
    and ok: "normalize_display_text key \<noteq> []" "length (normalize_display_text key) \<le> 128" "get_user u db \<noteq> None"
  shows "\<exists>v. ensure_active_connection u d key i db1 = Inr (db1, v) \<and> cnv_id v = c \<and> cnv_cursor v = cur"
proof -
  let ?P = "\<lambda>r. scn_user r = u \<and> scn_type r = fst d \<and> scn_key r = normalize_display_text key"
  let ?f = "\<lambda>r. r\<lparr>scn_cursor := cur, scn_synced_at := Some t, scn_error := None\<rparr>"
  from put have db1: "db1 = db\<lparr>connections := modify_rows (\<lambda>r. scn_id r = c \<and> scn_user r = u) ?f (connections db)\<rparr>"
    by (auto simp: update_connection_cursor_def result_simps)
  from at obtain r where r: "select_one ?P (connections db) = Some r" "scn_id r = c" "scn_status r = CONN_ACTIVE"
    by (auto simp: connection_at_def)
  have u: "scn_user r = u" using select_one_SomeD [OF r(1)] by simp
  have s1: "select_one ?P (connections db1) = Some (?f r)"
    unfolding db1 using select_one_modify_rows [of "\<lambda>r. scn_id r = c \<and> scn_user r = u" ?P ?f "connections db"] r u by simp
  have "select_one (\<lambda>x. scn_id x = c \<and> scn_user x = u) (connections db1) = Some (?f r)"
    using wf r(2) u select_one_SomeD [OF s1] by (intro select_one_unique [where key = scn_id]) (auto simp: source_wf_def)
  moreover have "get_user u db1 = get_user u db" by (simp add: db1 get_user_def)
  ultimately show ?thesis using s1 r ok
    by (simp add: ensure_active_connection_def ensure_connection_def get_connection_def Let_def)
qed

context finite_source
begin

lemma synced_twice:
  assumes wf: "provenance_wf db" and run: "sync_connector pol codec u cn key i envs t db = (db1, Inr (c, rs))"
  shows "sync_connector pol' codec' u cn key i' envs' t' db1 =
    (db1\<lparr>connections := modify_rows (\<lambda>r. scn_id r = c \<and> scn_user r = u)
       (\<lambda>r. r\<lparr>scn_cursor := ending, scn_synced_at := Some t', scn_error := None\<rparr>) (connections db1)\<rparr>, Inr (c, []))"
proof -
  from run obtain db0 v where v: "ensure_active_connection u (cn_descriptor cn) key i db = Inr (db0, v)"
    by (auto simp: sync_connector_def and_then_Inr atomically_snd)
  have m0: "atomically (ensure_active_connection u (cn_descriptor cn) key i) db = (db0, Inr v)"
    using v by (simp add: atomically_def)
  obtain es where f: "cn_fetch cn (cnv_cursor v) = Inr (es, ending)"
  proof (cases "cn_fetch cn (cnv_cursor v)")
    case (Inl e)
    with run show ?thesis by (simp add: sync_connector_def m0 and_then_def healthy)
  next
    case (Inr x)
    with that pages_end [of "cnv_cursor v" "fst x" "snd x"] show ?thesis by (cases x) simp
  qed
  obtain db2 rs' where a: "ingest_all pol codec u v cn (zip es (map envs [0..<length es])) db0 = (db2, Inr rs')"
    using run by (cases "ingest_all pol codec u v cn (zip es (map envs [0..<length es])) db0")
      (auto simp: sync_connector_def m0 and_then_def healthy f split: sum.splits)
  have c: "c = cnv_id v" "rs' = rs" and put: "update_connection_cursor u c ending t db2 = Inr db1"
    using run by (auto simp: sync_connector_def m0 and_then_def healthy f a atomically_Inr_iff result_simps split: sum.splits prod.splits)
  from ensure_active_connection_wf [OF v wf] have wf0: "provenance_wf db0" by simp
  note at = ensure_active_connection_at [OF v processing_facts(2) [OF wf]]
  have "reaches provenance_step db0 db2" using ingest_all_reaches [of db0 pol codec u v cn "zip es (map envs [0..<length es])"] a by simp
  from provenance_reaches [OF this wf0] have wf2: "provenance_wf db2" and m: "moves db0 db2" by simp_all
  from provenance_step_keeps [OF provenance_step.synced [OF put] wf2] have wf1: "provenance_wf db1" and m1: "moves db2 db1" by simp_all
  from at m have at2: "connection_at u (fst (cn_descriptor cn)) (normalize_display_text key) db2 = Some (c, CONN_ACTIVE)"
    "get_user u db2 \<noteq> None" using c by (simp_all add: moves_def sources_kept_def get_user_def)
  from cursor_saved [OF at2(1) put processing_facts(2) [OF wf1] _ _ at2(2)] at(2) obtain w where
    w: "ensure_active_connection u (cn_descriptor cn) key i' db1 = Inr (db1, w)" "cnv_id w = c" "cnv_cursor w = ending" by blast
  have "list_ex (\<lambda>r. scn_id r = c \<and> scn_user r = u) (connections db1)"
    using put by (auto simp: update_connection_cursor_def result_simps list_ex_modify_rows)
  then have "update_connection_cursor u c ending t' db1 = Inr (db1\<lparr>connections := modify_rows (\<lambda>r. scn_id r = c \<and> scn_user r = u)
       (\<lambda>r. r\<lparr>scn_cursor := ending, scn_synced_at := Some t', scn_error := None\<rparr>) (connections db1)\<rparr>)"
    by (simp add: update_connection_cursor_def)
  with w show ?thesis
    by (simp add: sync_connector_def and_then_def atomically_def healthy nothing_after)
qed

end

section \<open>The built-in connectors are such sources\<close>

lemma json_int_digits: "json_int (show_digits (int n)) = Some (int n)"
proof -
  have f: "list_all is_digit (show_digits (int n))" "digits_value (show_digits (int n)) = int n" "show_digits (int n) \<noteq> []"
    using show_digits_facts [of "int n"] by simp_all
  then have "hd (show_digits (int n)) \<noteq> CHR ''-''" by (cases "show_digits (int n)") (auto simp: is_digit_def)
  with f show ?thesis by (simp add: json_int_def)
qed

lemma offset_page_facts:
  "offset_page es c = Inr (xs, c') \<Longrightarrow> c' = offset_cursor (length es)"
  "offset_page es (offset_cursor (length es)) = Inr ([], offset_cursor (length es))"
  "offset_page es [] = Inr (es, offset_cursor (length es))"
  by (auto simp: offset_page_def result_simps cursor_offset_def offset_cursor_def json_int_digits)

interpretation manual_notes: finite_source "manual_note_connector es" "offset_cursor (length es)" for es
  by unfold_locales (auto simp: manual_note_connector_def offset_page_facts)

interpretation mock_receipts: finite_source "mock_receipt_connector reader es" "offset_cursor (length es)" for reader es
  by unfold_locales (auto simp: mock_receipt_connector_def offset_page_facts)

interpretation csv_imports: finite_source "csv_connector reader es" "offset_cursor (length es)" for reader es
  by unfold_locales (auto simp: csv_connector_def offset_page_facts)

interpretation keep_exports: finite_source "keep_connector es" "offset_cursor (length es)" for es
  by unfold_locales (auto simp: keep_connector_def offset_page_facts)

section \<open>Properties\<close>

text \<open>
  C20: an import is complete after one synchronization. Once synchronizing a built-in connector has returned,
  whatever cursor it started from, synchronizing it again receives nothing: it returns the same connection and
  no result, and changes only the time of the last synchronization of that connection, so no event is
  delivered twice and no record is written.
\<close>

theorem second_sync_receives_nothing:
  assumes "provenance_wf db"
    and "cn \<in> {manual_note_connector es, mock_receipt_connector reader es, csv_connector reader es, keep_connector es}"
    and "sync_connector pol codec u cn key i envs t db = (db1, Inr (c, rs))"
  shows "sync_connector pol' codec' u cn key i' envs' t' db1 =
    (db1\<lparr>connections := modify_rows (\<lambda>r. scn_id r = c \<and> scn_user r = u)
       (\<lambda>r. r\<lparr>scn_cursor := offset_cursor (length es), scn_synced_at := Some t', scn_error := None\<rparr>) (connections db1)\<rparr>,
     Inr (c, []))"
proof -
  from assms(2) consider "cn = manual_note_connector es" | "cn = mock_receipt_connector reader es"
    | "cn = csv_connector reader es" | "cn = keep_connector es" by blast
  then show ?thesis
  proof cases
    case 1
    show ?thesis using assms(3) unfolding 1 by (rule manual_notes.synced_twice [OF assms(1)])
  next
    case 2
    show ?thesis using assms(3) unfolding 2 by (rule mock_receipts.synced_twice [OF assms(1)])
  next
    case 3
    show ?thesis using assms(3) unfolding 3 by (rule csv_imports.synced_twice [OF assms(1)])
  next
    case 4
    show ?thesis using assms(3) unfolding 4 by (rule keep_exports.synced_twice [OF assms(1)])
  qed
qed

abbreviation sync_sample :: "reconciliation_db \<Rightarrow> reconciliation_db \<times> (uuid \<times> ingestion_result list) result" where
  "sync_sample \<equiv> sync_connector default_policy sample_envelope_codec 1 (manual_note_connector [sample_note_envelope]) ''notes'' 50
     (\<lambda>_. sample_ingest_env) 1778600000000000"

lemma sample_synced: "case sync_sample sample_inbox of (db, Inl _) \<Rightarrow> False | (db, Inr (c, rs)) \<Rightarrow> c = 50 \<and> length rs = 1"
  by code_simp

lemma second_sync_receives_nothing_witness:
  "\<exists>db rs. sync_sample sample_inbox = (db, Inr (50, rs)) \<and> length rs = 1 \<and> snd (sync_sample db) = Inr (50, [])"
proof -
  obtain db rs where r: "sync_sample sample_inbox = (db, Inr (50, rs))" "length rs = 1"
    using sample_synced by (cases "sync_sample sample_inbox") (auto split: sum.splits)
  from second_sync_receives_nothing [OF sample_inbox_wf _ r(1), of "[sample_note_envelope]" "\<lambda>_. None" default_policy
      sample_envelope_codec 50 "\<lambda>_. sample_ingest_env" 1778600000000000]
  have "snd (sync_sample db) = Inr (50, [])" by simp
  with r show ?thesis by blast
qed

end
