(* ===== verification/Agent_Routing.thy ===== *)
theory Agent_Routing
  imports Text_Normalization Decimals
begin

text \<open>
  The routing of a question to a tool: \<open>agent/routing.py\<close> and the enumeration of \<open>agent/contracts.py\<close>.

  The regular expressions only use words between boundaries and digits. \<open>search\<close> is \<open>re.search\<close> for a
  pattern that starts with \<open>\b\<close> before a word character: it tries every position whose left neighbour is no
  word character. Texts are ASCII, where \<open>re.IGNORECASE\<close> compares lower case.
\<close>

section \<open>Tools\<close>

datatype tool_name =
    TOOL_SUMMARY | TOOL_TRANSACTIONS | TOOL_COMPARE | TOOL_RECEIVABLES | TOOL_RELATIONSHIP | TOOL_RECURRING
  | TOOL_TRANSACTION | TOOL_UNSUPPORTED

primrec tool_value :: "tool_name \<Rightarrow> string" where
  "tool_value TOOL_SUMMARY = ''get_financial_summary''"
| "tool_value TOOL_TRANSACTIONS = ''get_transactions''"
| "tool_value TOOL_COMPARE = ''compare_periods''"
| "tool_value TOOL_RECEIVABLES = ''get_outstanding_receivables''"
| "tool_value TOOL_RELATIONSHIP = ''get_person_financial_relationship''"
| "tool_value TOOL_RECURRING = ''get_upcoming_recurring''"
| "tool_value TOOL_TRANSACTION = ''get_transaction_detail''"
| "tool_value TOOL_UNSUPPORTED = ''unsupported''"

definition all_tools :: "tool_name list" where
  "all_tools = [TOOL_SUMMARY, TOOL_TRANSACTIONS, TOOL_COMPARE, TOOL_RECEIVABLES, TOOL_RELATIONSHIP, TOOL_RECURRING,
     TOOL_TRANSACTION, TOOL_UNSUPPORTED]"

section \<open>Searching words\<close>

definition word_char :: "char \<Rightarrow> bool" where
  "word_char c = (let n = (of_char c :: nat) in is_digit c \<or> 65 \<le> n \<and> n \<le> 90 \<or> 97 \<le> n \<and> n \<le> 122 \<or> n = 95)"

definition starts_word :: "string \<Rightarrow> bool" where
  "starts_word s = (case s of [] \<Rightarrow> False | c # _ \<Rightarrow> word_char c)"

fun search :: "(string \<Rightarrow> bool) \<Rightarrow> bool \<Rightarrow> string \<Rightarrow> bool" where
  "search p inside [] = False"
| "search p inside (c # cs) = (\<not> inside \<and> p (c # cs) \<or> search p (word_char c) cs)"

text \<open>\<open>(w1|w2|...)\b\<close> at this position.\<close>

definition word_here :: "string list \<Rightarrow> string \<Rightarrow> bool" where
  "word_here ws s = list_ex (\<lambda>w. take (length w) s = w \<and> \<not> starts_word (drop (length w) s)) ws"

definition has_word :: "string list \<Rightarrow> string \<Rightarrow> bool" where
  "has_word ws s = search (word_here ws) False s"

fun contains :: "string \<Rightarrow> string \<Rightarrow> bool" where
  "contains w [] = (w = [])"
| "contains w (c # cs) = (take (length w) (c # cs) = w \<or> contains w cs)"

text \<open>\<open>str.replace(w, "")\<close>.\<close>

function remove_all :: "string \<Rightarrow> string \<Rightarrow> string" where
  "remove_all w [] = []"
| "remove_all w (c # cs) =
     (if w \<noteq> [] \<and> take (length w) (c # cs) = w then remove_all w (drop (length w) (c # cs)) else c # remove_all w cs)"
  by pat_completeness auto
termination
  by (relation "measure (length \<circ> snd)") auto

section \<open>The expressions\<close>

definition DENIED :: "string list" where
  "DENIED = [''delete'', ''update'', ''insert'', ''drop'', ''execute'', ''transfer'', ''send'', ''pay'', ''settle'',
     ''cancel'', ''approve'', ''create'', ''write'', ''ignore'', ''override'', ''system'', ''prompt'', ''sql'', ''http'',
     ''https'', ''another'', ''other user'', ''all users'', ''owner_id'', ''user_id'']"

definition PERIOD_WORDS :: "string list" where
  "PERIOD_WORDS = [''yesterday'', ''today'', ''last week'', ''last year'', ''this year'', ''last month'', ''january'',
     ''february'', ''march'', ''april'', ''may'', ''june'', ''july'', ''august'', ''september'', ''october'',
     ''november'', ''december'']"

text \<open>\<open>\d{4}[-/]\d{1,2}\<close> and \<open>20\d{2}\b\<close> at this position.\<close>

definition date_here :: "string \<Rightarrow> bool" where
  "date_here s =
     (6 \<le> length s \<and> list_all is_digit (take 4 s) \<and> (s ! 4 = CHR ''-'' \<or> s ! 4 = CHR ''/'') \<and> is_digit (s ! 5))"

definition year_here :: "string \<Rightarrow> bool" where
  "year_here s = (4 \<le> length s \<and> take 2 s = ''20'' \<and> is_digit (s ! 2) \<and> is_digit (s ! 3) \<and> \<not> starts_word (drop 4 s))"

definition mentions_period :: "string \<Rightarrow> bool" where
  "mentions_period s = search (\<lambda>t. word_here PERIOD_WORDS t \<or> date_here t \<or> year_here t) False s"

definition blocked :: "string \<Rightarrow> bool" where
  "blocked question = has_word DENIED (casefold question)"

definition route :: "string \<Rightarrow> tool_name" where
  "route question =
     (let text = casefold question;
          comparison = has_word [''why'', ''compare'', ''more'', ''less'', ''changed'', ''difference''] text
      in if mentions_period text \<and>
            \<not> (comparison \<and> contains ''last month'' text \<and> \<not> mentions_period (remove_all ''last month'' text))
         then TOOL_UNSUPPORTED
         else if has_word [''relationship'', ''person''] text then TOOL_RELATIONSHIP
         else if has_word [''detail'', ''evidence''] text \<and> contains ''transaction'' text then TOOL_TRANSACTION
         else if has_word [''recurring'', ''subscription'', ''upcoming''] text then TOOL_RECURRING
         else if has_word [''receivable'', ''receivables'', ''owed'', ''owes''] text then TOOL_RECEIVABLES
         else if comparison \<and> has_word [''spend'', ''spent'', ''spending'', ''month'', ''periods''] text then TOOL_COMPARE
         else if has_word [''transactions'', ''activity''] text then TOOL_TRANSACTIONS
         else if has_word [''summary'', ''spent'', ''spend'', ''spending'', ''income'', ''balance''] text then TOOL_SUMMARY
         else TOOL_UNSUPPORTED)"

definition unsupported_period :: "string \<Rightarrow> bool" where
  "unsupported_period question = (mentions_period (casefold question) \<and> route question = TOOL_UNSUPPORTED)"

section \<open>Facts about searching\<close>

lemma search_append: "search p inside s \<Longrightarrow> (\<And>t. p t \<Longrightarrow> p (t @ post)) \<Longrightarrow> search p inside (s @ post)"
proof (induction p inside s rule: search.induct)
  case (2 p inside c cs)
  then show ?case by (metis append_Cons search.simps(2))
qed simp

lemma search_prepend:
  assumes "search p False s" "pre = [] \<or> \<not> word_char (last pre)"
  shows "search p inside' (pre @ s) \<or> pre = []"
  using assms
proof (induction pre arbitrary: inside')
  case (Cons c pre)
  show ?case
  proof (cases "pre = []")
    case True
    with Cons.prems show ?thesis by simp
  next
    case False
    with Cons.prems Cons.IH [of "word_char c"] show ?thesis by simp
  qed
qed simp

lemma search_inside:
  assumes "search p False s" "\<And>t. p t \<Longrightarrow> p (t @ post)" "pre = [] \<or> \<not> word_char (last pre)"
  shows "search p False (pre @ s @ post)"
  using search_prepend [OF search_append [OF assms(1,2)] assms(3)] search_append [OF assms(1,2)] by (cases "pre = []") auto

lemma take_append_eq: "take (length w) t = w \<Longrightarrow> take (length w) (t @ post) = w"
  by (metis append_take_drop_id append_assoc append_eq_conv_conj)

lemma word_here_append:
  assumes "word_here ws t" "\<not> starts_word post"
  shows "word_here ws (t @ post)"
proof -
  from assms(1) obtain w where w: "w \<in> set ws" "take (length w) t = w" "\<not> starts_word (drop (length w) t)"
    by (auto simp: word_here_def list_ex_iff)
  have "length w \<le> length t" using w(2) by (metis length_take min.cobounded1)
  then have "\<not> starts_word (drop (length w) (t @ post))"
    using w(3) assms(2) by (cases "drop (length w) t") (simp_all add: starts_word_def)
  with w(1) take_append_eq [OF w(2)] show ?thesis by (auto simp: word_here_def list_ex_iff)
qed

lemma word_char_lower: "word_char (ascii_lower c) = word_char c"
  by (auto simp: word_char_def ascii_lower_def Let_def is_digit_def)

lemma starts_word_casefold: "starts_word (casefold s) = starts_word s"
  by (cases s) (simp_all add: starts_word_def casefold_def word_char_lower)

text \<open>A denied word cannot be hidden by what stands around it.\<close>

lemma blocked_embedded:
  assumes "blocked q" "pre = [] \<or> \<not> word_char (last pre)" "\<not> starts_word post"
  shows "blocked (pre @ q @ post)"
proof -
  have "search (word_here DENIED) False (casefold pre @ casefold q @ casefold post)"
  proof (rule search_inside)
    show "search (word_here DENIED) False (casefold q)" using assms(1) by (simp add: blocked_def has_word_def)
    show "casefold pre = [] \<or> \<not> word_char (last (casefold pre))"
      using assms(2) by (cases "pre = []") (simp_all add: casefold_def last_map word_char_lower)
  qed (rule word_here_append, assumption, simp add: assms(3) starts_word_casefold)
  then show ?thesis by (simp add: blocked_def has_word_def casefold_def)
qed

end
