(* ===== verification/Agent_Properties.thy ===== *)
theory Agent_Properties
  imports Agent
begin

text \<open>
  What the question service guarantees: it answers only for the owner that every call authorizes again, it
  cites only records of that owner, its comparison adds up, its answers are bounded, and a question with a
  denied word calls nothing at all.
\<close>

section \<open>Facts are numbers\<close>

lemma mapE_set: "mapE f xs = Inr ys \<Longrightarrow> y \<in> set ys \<Longrightarrow> \<exists>x \<in> set xs. f x = Inr y"
  by (induction xs arbitrary: ys) (auto simp: result_simps)

lemma mapE_error: "mapE f xs = Inl e \<Longrightarrow> \<exists>x \<in> set xs. f x = Inl e"
  by (induction xs) (auto simp: result_simps)

lemma mapE_map: "mapE f xs = Inr ys \<Longrightarrow> (\<And>x y. x \<in> set xs \<Longrightarrow> f x = Inr y \<Longrightarrow> g y = h x) \<Longrightarrow> map g ys = map h xs"
  by (induction xs arbitrary: ys) (auto simp: result_simps)

lemma strip_no_space: "list_all (\<lambda>c. \<not> is_space c) s \<Longrightarrow> strip s = s"
  by (simp add: strip_def list_all_iff dropWhile_eq_self_iff) (metis dropWhile_eq_self_iff hd_in_set rev_rev_ident set_rev)

lemma value_pattern_split:
  assumes "value_pattern s"
  obtains neg whole frac where "s = (if neg then ''-'' else []) @ whole @ frac" "digits1 whole"
    "frac = [] \<or> (\<exists>ds. frac = CHR ''.'' # ds \<and> digits1 ds)"
proof -
  let ?neg = "s \<noteq> [] \<and> hd s = CHR ''-''"
  let ?t = "if ?neg then tl s else s"
  let ?rest = "dropWhile (\<lambda>c. c \<noteq> CHR ''.'') ?t"
  have "s = (if ?neg then ''-'' else []) @ takeWhile (\<lambda>c. c \<noteq> CHR ''.'') ?t @ ?rest" by (cases s) auto
  moreover have "?rest = [] \<or> (\<exists>ds. ?rest = CHR ''.'' # ds \<and> digits1 ds)"
  proof (cases ?rest)
    case (Cons c ds)
    then have "c = CHR ''.''" using hd_dropWhile [of "\<lambda>c. c \<noteq> CHR ''.''" ?t] by force
    moreover have "?rest = [] \<or> digits1 (tl ?rest)" using assms unfolding value_pattern_def Let_def by blast
    ultimately show ?thesis unfolding Cons by simp
  qed simp
  moreover have "digits1 (takeWhile (\<lambda>c. c \<noteq> CHR ''.'') ?t)" using assms by (simp add: value_pattern_def Let_def)
  ultimately show ?thesis using that [of ?neg] by blast
qed

lemma digit_chars:
  assumes "is_digit c"
  shows "plain_char c" "c \<noteq> CHR ''.''" "c \<noteq> CHR ''-''" "c \<noteq> CHR ''_''" "ascii_lower c = c" "c \<noteq> CHR ''i''" "c \<noteq> CHR ''s''" "c \<noteq> CHR ''n''"
proof -
  show p: "plain_char c" using assms by (simp add: plain_char_def)
  show "c \<noteq> CHR ''.''" using assms by (auto simp: is_digit_def)
  show "c \<noteq> CHR ''-''" "c \<noteq> CHR ''_''" "ascii_lower c = c" "c \<noteq> CHR ''i''" "c \<noteq> CHR ''s''" "c \<noteq> CHR ''n''"
    by (fact plain_char_facts [OF p])+
qed

lemma value_pattern_parses:
  assumes "value_pattern s"
  shows "\<exists>c e. parse_decimal s = Some (Dec c e)"
proof -
  from assms obtain neg whole frac where s: "s = (if neg then ''-'' else []) @ whole @ frac" and w: "digits1 whole"
    and f: "frac = [] \<or> (\<exists>ds. frac = CHR ''.'' # ds \<and> digits1 ds)" by (rule value_pattern_split)
  let ?t = "whole @ frac"
  obtain d ds where d: "whole = d # ds" "is_digit d" using w by (cases whole) (auto simp: digits1_def)
  have plain: "\<not> is_space c \<and> c \<noteq> CHR ''_''" if "c \<in> set s" for c
  proof -
    from that s w f have "c = CHR ''-'' \<or> is_digit c \<or> c = CHR ''.''" by (auto simp: digits1_def list_all_iff split: if_splits)
    then show ?thesis using digit_chars(1) plain_char_facts(1,2) [of c] by (auto simp: is_space_def plain_char_def)
  qed
  have strip: "strip s = s" by (rule strip_no_space) (simp add: list_all_iff plain)
  have nound: "filter (\<lambda>c. c \<noteq> CHR ''_'') s = s" by (rule filter_True) (simp add: plain)
  have sign: "parse_sign s = (neg, ?t)" using d(1) digit_chars [OF d(2)] plain_char_facts(4) [OF digit_chars(1) [OF d(2)]] by (simp add: s)
  have "casefold ?t = d # casefold (ds @ frac)" using d(1) digit_chars(5) [OF d(2)] by (simp add: casefold_def)
  then have noinf: "casefold ?t \<noteq> ''inf''" "casefold ?t \<noteq> ''infinity''" "\<not> is_nan_literal ?t"
    using digit_chars(6,7,8) [OF d(2)] by (auto simp: is_nan_literal_def Let_def)
  have digits: "takeWhile is_digit ?t = whole" "dropWhile is_digit ?t = frac"
    using w f by (auto simp: digits1_def list_all_iff takeWhile_append dropWhile_append is_digit_def)
  have "parse_number ?t \<noteq> None"
  proof (cases "frac = []")
    case True
    have td: "takeWhile is_digit whole = whole" "dropWhile is_digit whole = []"
      using w by (simp_all add: digits1_def list_all_iff takeWhile_eq_all_conv)
    show ?thesis using w unfolding parse_number_def True append_Nil2 td Let_def by (simp add: digits1_def)
  next
    case False
    with f obtain es where e: "frac = CHR ''.'' # es" "list_all is_digit es" by (auto simp: digits1_def)
    then have td: "takeWhile is_digit es = es" "dropWhile is_digit es = []" by (auto simp: list_all_iff takeWhile_eq_all_conv)
    show ?thesis using w unfolding parse_number_def digits Let_def by (simp add: e(1) td digits1_def del: takeWhile_eq_all_conv)
  qed
  then show ?thesis using strip nound sign noinf by (auto simp: parse_decimal_def Let_def)
qed

lemma mk_fact_Inr: "mk_fact l v cur i k = Inr f \<longleftrightarrow> length l \<le> 160 \<and> length v \<le> 100 \<and> value_pattern v \<and>
    f = \<lparr>fa_label = l, fa_value = v, fa_currency = cur, fa_record = i, fa_kind = k\<rparr>"
  by (auto simp: mk_fact_def result_simps)

lemma mk_fact_Inl: "mk_fact l v cur i k = Inl e \<Longrightarrow> e = ValueError"
  by (auto simp: mk_fact_def result_simps)

lemma invoke_Inr: "invoke env owner f calls = Inr (n, r) \<longleftrightarrow> n = calls + 1 \<and> n \<le> 3 \<and> ag_authorize env n = Inr owner \<and>
    \<not> ag_expired env n \<and> f (ag_tz env) (Aware (ag_clock env n)) (ag_tables env n) = Inr r"
  by (auto simp: invoke_def Let_def result_simps)

lemma fact_numbers:
  assumes "tool_facts env q owner tool = Inr (p, fs, b)" "f \<in> set fs"
  shows "value_pattern (fa_value f) \<and> length (fa_value f) \<le> 100 \<and> length (fa_label f) \<le> 160"
  using assms
  by (auto simp: tool_facts_def summary_facts_def compare_facts_def transaction_facts_def receivable_facts_def
      relationship_facts_def recurring_facts_def result_simps mk_fact_Inr contribution_fact_def transaction_fact_def
      obligation_fact_def Let_def split: tool_name.splits dest!: mapE_set)

section \<open>Records that facts cite\<close>

text \<open>The record behind a fact: the owner's own row with the value that is shown, in the tables its call saw.\<close>

definition cites :: "('a recurring_db_scheme) agent_env \<Rightarrow> uuid \<Rightarrow> fact \<Rightarrow> bool" where
  "cites env owner f \<longleftrightarrow>
     (fa_kind f = Some ''transaction'' \<longrightarrow> (\<exists>t \<in> set (transactions (ag_tables env 1)). tx_user t = owner \<and>
        fa_record f = Some (tx_id t) \<and> fa_value f = format_f (tx_amount t) \<and> fa_currency f = Some (tx_currency t))) \<and>
     (fa_kind f = Some ''category'' \<and> fa_record f \<noteq> None \<longrightarrow>
        (\<exists>t \<in> set (transactions (ag_tables env 1)). tx_user t = owner \<and> tx_category t = fa_record f)) \<and>
     (fa_kind f = Some ''receivable'' \<longrightarrow> (\<exists>r \<in> set (receivables (ag_tables env 1)). obl_user r = owner \<and>
        fa_record f = Some (obl_id r) \<and> fa_currency f = Some (obl_currency r))) \<and>
     (fa_kind f = Some ''payable'' \<longrightarrow> (\<exists>r \<in> set (payables (ag_tables env 2)). obl_user r = owner \<and>
        fa_record f = Some (obl_id r) \<and> fa_currency f = Some (obl_currency r)))"

lemma listed_obligation:
  "v \<in> set (repo_list_obligations k u as_of db) \<Longrightarrow>
    \<exists>r \<in> set (obligations_of k db). obl_user r = u \<and> ov_id v = obl_id r \<and> ov_kind v = k \<and> ov_currency v = obl_currency r"
  by (auto simp: repo_list_obligations_def List.map_filter_def project_obligation_def obligation_view_def Let_def)

lemma listed_transaction:
  "v \<in> set (map snd (pg_edges page)) \<Longrightarrow> list_transactions u n after db = Inr page \<Longrightarrow>
    \<exists>t \<in> set (transactions db). tx_user t = u \<and> v = transaction_view db t"
  by (auto simp: list_transactions_def result_simps Let_def repo_list_transactions_def dest!: in_set_takeD) blast

lemma contribution_category:
  assumes "c \<in> set (category_contributions current previous)"
  shows "\<exists>t \<in> set (current @ previous). an_category t = cat_contribution_id c"
  using assms by (auto simp: category_contributions_def Let_def category_key_def)

lemma transaction_cites:
  assumes "transaction_fact (transaction_view (ag_tables env 1) t) = Inr f" "t \<in> set (transactions (ag_tables env 1))" "tx_user t = owner"
  shows "cites env owner f"
  using assms by (auto simp: transaction_fact_def mk_fact_Inr cites_def transaction_view_def)

lemma scope_rows_owner:
  assumes "x \<in> set (analytics_transactions u cur a b db)"
  shows "\<exists>t \<in> set (transactions db). tx_user t = u \<and> tx_category t = an_category x"
  using assms by (auto simp: analytics_transactions_set spending_rows_def posted_in_def analytics_of_def)

lemma report_category_owner:
  assumes "analytics_report rank tz clock u currency db = Inr r" "c \<in> set (ar_contributions r)"
  shows "\<exists>t \<in> set (transactions db). tx_user t = u \<and> tx_category t = cat_contribution_id c"
proof -
  from analytics_report_Inr [OF assms(1)] obtain s :: analytics_scope where "ar_contributions r = category_contributions
      (analytics_transactions u (rs_currency s) (mp_start_utc (rs_current s)) (mp_end_utc (rs_current s)) db)
      (analytics_transactions u (rs_currency s) (mp_start_utc (rs_previous s)) (mp_end_utc (rs_previous s)) db)"
    unfolding Let_def by blast
  with contribution_category [of c] assms(2) obtain x where
    "x \<in> set (analytics_transactions u (rs_currency s) (mp_start_utc (rs_current s)) (mp_end_utc (rs_current s)) db) \<or>
     x \<in> set (analytics_transactions u (rs_currency s) (mp_start_utc (rs_previous s)) (mp_end_utc (rs_previous s)) db)"
    "an_category x = cat_contribution_id c" by auto
  with scope_rows_owner show ?thesis by metis
qed

lemma plain_cites: "fa_kind f = None \<Longrightarrow> cites env owner f"
  by (simp add: cites_def)

lemma compare_cites:
  assumes "analytics_report rank tz clock owner currency (ag_tables env 1) = Inr r" "compare_facts r = Inr (p, fs, b)" "f \<in> set fs"
  shows "cites env owner f"
proof -
  from assms(2,3) consider "fa_kind f = None" | cs where "mapE (contribution_fact (ar_currency r)) (take (MAX_FACTS - 5) (ar_contributions r)) = Inr cs"
      "f \<in> set cs"
    by (auto simp: compare_facts_def result_simps mk_fact_Inr)
  then show ?thesis
  proof cases
    case 1
    then show ?thesis by (rule plain_cites)
  next
    case 2
    from mapE_set [OF 2] obtain c where c: "c \<in> set (ar_contributions r)" "contribution_fact (ar_currency r) c = Inr f"
      by (auto dest: in_set_takeD)
    then have "fa_kind f = Some ''category''" "fa_record f = cat_contribution_id c"
      by (auto simp: contribution_fact_def result_simps mk_fact_Inr)
    with report_category_owner [OF assms(1) c(1)] show ?thesis by (simp add: cites_def)
  qed
qed

lemma obligation_cites:
  assumes "list_obligations k tz clock owner (ag_tables env n) = Inr vs" "v \<in> set vs" "obligation_fact v = Inr f"
    "n = (if k = RECEIVABLE then 1 else 2)"
  shows "cites env owner f"
proof -
  from assms(1,2) listed_obligation obtain r where r: "r \<in> set (obligations_of k (ag_tables env n))" "obl_user r = owner"
    "ov_id v = obl_id r" "ov_kind v = k" "ov_currency v = obl_currency r" by (auto simp: list_obligations_def result_simps) blast
  with assms(3,4) show ?thesis by (cases k) (auto simp: obligation_fact_def mk_fact_Inr cites_def)
qed

lemma relationship_rows:
  "relationship_facts person currency rs ps = Inr (p, fs, b) \<Longrightarrow> f \<in> set fs \<Longrightarrow>
    \<exists>v. (v \<in> set rs \<or> v \<in> set ps) \<and> obligation_fact v = Inr f"
  unfolding relationship_facts_def Let_def bindE_Inr by (auto dest!: mapE_set in_set_takeD) blast+

lemma tool_facts_cite:
  assumes "tool_facts env q owner tool = Inr (p, fs, b)" "f \<in> set fs"
  shows "cites env owner f"
proof (cases tool)
  case TOOL_COMPARE
  with assms compare_cites [of "ag_rank env" "ag_tz env" "Aware (ag_clock env 1)" owner "qn_currency q" env] show ?thesis
    by (auto simp: tool_facts_def result_simps invoke_Inr)
next
  case TOOL_TRANSACTION
  with assms obtain t where "t \<in> set (transactions (ag_tables env 1))" "tx_user t = owner"
    "transaction_fact (transaction_view (ag_tables env 1) t) = Inr f"
    by (auto simp: tool_facts_def result_simps invoke_Inr transaction_facts_def get_transaction_def repo_get_transaction_def
        split: if_splits dest!: select_one_SomeD)
  with transaction_cites show ?thesis by blast
next
  case TOOL_TRANSACTIONS
  with assms obtain page c v where page: "list_transactions owner 20 None (ag_tables env 1) = Inr page"
    "(c, v) \<in> set (pg_edges page)" "transaction_fact v = Inr f"
    by (auto simp: tool_facts_def result_simps invoke_Inr transaction_facts_def dest!: mapE_set)
  then have "v \<in> set (map snd (pg_edges page))" by force
  from listed_transaction [OF this page(1)] page(3) transaction_cites show ?thesis by blast
next
  case TOOL_RELATIONSHIP
  with assms obtain rs ps where l0: "list_receivables (ag_tz env) (Aware (ag_clock env 1)) owner (ag_tables env 1) = Inr rs"
    "list_payables (ag_tz env) (Aware (ag_clock env 2)) owner (ag_tables env 2) = Inr ps"
    "relationship_facts (qn_person q) (qn_currency q) rs ps = Inr (p, fs, b)"
    by (auto simp: tool_facts_def result_simps invoke_Inr numeral_2_eq_2)
  from relationship_rows [OF l0(3) assms(2)] obtain v where "v \<in> set rs \<or> v \<in> set ps" "obligation_fact v = Inr f" by blast
  with l0(1,2) show ?thesis
    using obligation_cites [of RECEIVABLE _ _ owner env 1] obligation_cites [of PAYABLE _ _ owner env 2]
    by (auto simp: list_receivables_def list_payables_def)
qed (use assms in \<open>auto simp: tool_facts_def result_simps summary_facts_def receivable_facts_def recurring_facts_def mk_fact_Inr
      plain_cites dest!: mapE_set\<close>)

lemma answer_with_Inr:
  assumes "answer_with env q owner tool mode = Inr r" "qr_status r = ANSWERED"
  shows "tool \<noteq> TOOL_UNSUPPORTED \<and> (\<exists>f. tool_facts env q owner tool = Inr f \<and> checked_answer (ag_dump_length env) mode tool f = Inr r)"
  using assms by (auto simp: answer_with_def failure_def result_simps split: if_splits)

lemma ask_question_Inr:
  assumes "ask_question env prov q owner s = (s', Inr r)" "qr_status r = ANSWERED"
  shows "\<not> ag_busy env \<and> \<not> blocked (qn_question q) \<and> (\<exists>tool mode. answer_with env q owner tool mode = Inr r)"
  using assms
  by (auto simp: ask_question_def run_question_def failure_def Let_def split: if_splits prod.splits sum.splits)

lemma finite_value_iff: "finite_value f \<longleftrightarrow> (\<exists>c e. parse_decimal (fa_value f) = Some (Dec c e))"
  by (auto simp: finite_value_def split: option.splits decimal.splits)

lemma checked_answer_Inr:
  "checked_answer len mode tool f = Inr r \<longleftrightarrow> r = answer_of mode tool f \<and> length (qr_facts r) \<le> MAX_FACTS \<and>
    list_all finite_value (qr_facts r) \<and> length (qr_answer r) \<le> 12000 \<and> len r \<le> 16000"
  by (auto simp: checked_answer_def Let_def result_simps)

lemma answer_of_simps [simp]:
  "qr_facts (answer_of mode tool (p, fs, b)) = fs" "qr_status (answer_of mode tool f) = ANSWERED"
  "qr_truncated (answer_of mode tool (p, fs, b)) = b" "qr_tool (answer_of mode tool f) = tool"
  by (simp_all add: answer_of_def Let_def split: prod.split)

lemma first_call_authorized:
  "tool_facts env q owner tool = Inr f \<Longrightarrow> tool \<noteq> TOOL_UNSUPPORTED \<Longrightarrow> ag_authorize env 1 = Inr owner"
  by (cases tool) (auto simp: tool_facts_def result_simps invoke_Inr)

lemma contribution_consistent:
  assumes "analytics_report rank tz clock u currency db = Inr r" "c \<in> set (ar_contributions r)"
  shows "contribution_current c - contribution_previous c = contribution_change c"
proof -
  from analytics_report_Inr [OF assms(1)] obtain s where
    "ar_contributions r = category_contributions (scope_rows u s (rs_current s) (rs_current s) db)
        (scope_rows u s (rs_previous s) (rs_previous s) db)"
    unfolding Let_def by blast
  with assms(2) contributions_change show ?thesis by fastforce
qed

lemma report_metrics:
  assumes "analytics_report rank tz clock u currency db = Inr r"
  shows "pm_spent (ar_current r) - pm_spent (ar_previous r) = ar_total_change r \<and>
    int (pm_count (ar_current r)) - int (pm_count (ar_previous r)) = ar_count_change r \<and>
    pm_average (ar_current r) - pm_average (ar_previous r) = ar_average_change r"
  using assms by (auto simp: analytics_report_def result_simps Let_def)

section \<open>A sample question\<close>

definition sample_tables :: recurring_db where
  "sample_tables =
     \<lparr>users = sample_users, categories = sample_categories, merchants = sample_merchants,
      transactions = transactions sample_report_db, category_rules = [], merchant_maps = [], corrections = [],
      people = [], receivables = [], payables = [], settlements = [], recurring_payments = []\<rparr>"

definition sample_agent :: "recurring_db agent_env" where
  "sample_agent =
     \<lparr>ag_tz = sample_zone, ag_rank = int, ag_tables = (\<lambda>_. sample_tables), ag_clock = (\<lambda>_. 1778600000000000),
      ag_authorize = (\<lambda>_. Inr 1), ag_expired = (\<lambda>_. False), ag_choice_expired = False, ag_busy = False, ag_dump_length = (\<lambda>r. 500),
      ag_schema = JNull\<rparr>"

definition sample_question :: "string \<Rightarrow> question_request" where
  "sample_question s = \<lparr>qn_question = s, qn_currency = None, qn_person = None, qn_transaction = None\<rparr>"

abbreviation compare_sample :: "unit \<times> question_result result" where
  "compare_sample \<equiv> ask_question sample_agent None (sample_question ''spend less'') 1 ()"

lemma sample_comparison:
  obtains r where "compare_sample = ((), Inr r)" "qr_status r = ANSWERED" "qr_tool r = TOOL_COMPARE" "\<not> qr_truncated r"
    "map fa_value (take 3 (qr_facts r)) = [''124.5000'', ''100.0000'', ''24.5000'']"
proof -
  have "case compare_sample of (_, Inl _) \<Rightarrow> False | (_, Inr r) \<Rightarrow> qr_status r = ANSWERED \<and> qr_tool r = TOOL_COMPARE \<and>
      \<not> qr_truncated r \<and> map fa_value (take 3 (qr_facts r)) = [''124.5000'', ''100.0000'', ''24.5000'']" by code_simp
  moreover obtain u res where c: "compare_sample = (u, res)" by (rule prod.exhaust)
  ultimately have v: "case res of Inl _ \<Rightarrow> False | Inr r \<Rightarrow> qr_status r = ANSWERED \<and> qr_tool r = TOOL_COMPARE \<and>
      \<not> qr_truncated r \<and> map fa_value (take 3 (qr_facts r)) = [''124.5000'', ''100.0000'', ''24.5000'']" by (simp only: prod.case)
  show ?thesis
  proof (cases res)
    case (Inl e)
    with v show ?thesis by (simp only: sum.case)
  next
    case (Inr r)
    have g: "qr_status r = ANSWERED \<and> qr_tool r = TOOL_COMPARE \<and> \<not> qr_truncated r \<and>
        map fa_value (take 3 (qr_facts r)) = [''124.5000'', ''100.0000'', ''24.5000'']"
      using v unfolding Inr sum.case .
    have f: "compare_sample = ((), Inr r)" unfolding c Inr by simp
    show ?thesis using g by (elim conjE) (rule that [OF f])
  qed
qed

section \<open>Properties\<close>

text \<open>
  C15: an answer is the owner's alone. If a question is answered, the service was not busy, no denied word
  occurred, the first call was authorized for the owner, and every fact that names a record cites one of the
  owner's rows in the tables its call saw: a transaction with exactly the shown amount and currency, a
  category that the owner used, a receivable or payable of the owner. A session that is by then another
  user's gets no answer.
\<close>

theorem answers_cite_the_owner:
  assumes "ask_question env prov q owner s = (s', Inr r)" "qr_status r = ANSWERED"
  shows "\<not> ag_busy env \<and> \<not> blocked (qn_question q) \<and> ag_authorize env 1 = Inr owner \<and> (\<forall>f \<in> set (qr_facts r). cites env owner f)"
proof -
  from ask_question_Inr [OF assms] obtain tool mode where a: "\<not> ag_busy env" "\<not> blocked (qn_question q)"
    "answer_with env q owner tool mode = Inr r" by blast
  from answer_with_Inr [OF a(3) assms(2)] obtain p fs b where t: "tool \<noteq> TOOL_UNSUPPORTED"
    "tool_facts env q owner tool = Inr (p, fs, b)" "checked_answer (ag_dump_length env) mode tool (p, fs, b) = Inr r"
    by (metis prod_cases3)
  have "qr_facts r = fs" using t(3) by (auto simp: checked_answer_Inr)
  with a(1,2) first_call_authorized [OF t(2,1)] tool_facts_cite [OF t(2)] show ?thesis by blast
qed

lemma answers_cite_the_owner_witness:
  "\<exists>r. compare_sample = ((), Inr r) \<and> ag_authorize sample_agent 1 = Inr 1 \<and> (\<forall>f \<in> set (qr_facts r). cites sample_agent 1 f)"
proof -
  obtain r where r: "compare_sample = ((), Inr r)" "qr_status r = ANSWERED" by (rule sample_comparison)
  from answers_cite_the_owner [OF r] r(1) show ?thesis by blast
qed

text \<open>
  C16: the comparison of two months adds up and never trips its own consistency checks. Over any tables in
  which the report can be made, the facts are not refused by the arithmetic guard; the first fact is the
  spending of the ledger's financial summary of the month, the third is its difference from the second, and
  the changes shown for the categories sum to it unless the answer is marked truncated.
\<close>

theorem comparison_adds_up:
  assumes "analytics_report rank tz clock owner currency db = Inr rep"
  shows "compare_facts rep \<noteq> Inl AgentLimitError \<and>
    (\<forall>p fs truncated. compare_facts rep = Inr (p, fs, truncated) \<longrightarrow>
       (\<exists>summary. financial_summary tz clock owner currency None db = Inr summary \<and>
          map fa_value (take 3 fs) = map format_f [fs_spent summary, pm_spent (ar_previous rep),
            fs_spent summary - pm_spent (ar_previous rep)] \<and>
          (\<exists>changes. map fa_value (drop 5 fs) = map format_f changes \<and>
             (\<not> truncated \<longrightarrow> sum_list changes = fs_spent summary - pm_spent (ar_previous rep)))))"
proof -
  note m = report_metrics [OF assms] and total = contributions_total [OF assms]
  have cons: "contribution_current c - contribution_previous c = contribution_change c" if "c \<in> set (ar_contributions rep)" for c
    by (rule contribution_consistent [OF assms that])
  have "mapE (contribution_fact cur) (take n (ar_contributions rep)) \<noteq> Inl AgentLimitError" for cur n
  proof
    assume "mapE (contribution_fact cur) (take n (ar_contributions rep)) = Inl AgentLimitError"
    from mapE_error [OF this] obtain c where "c \<in> set (ar_contributions rep)" "contribution_fact cur c = Inl AgentLimitError"
      by (auto dest: in_set_takeD)
    with cons show False by (auto simp: contribution_fact_def result_simps dest: mk_fact_Inl)
  qed
  then have guard: "compare_facts rep \<noteq> Inl AgentLimitError"
    using m by (auto simp: compare_facts_def result_simps dest: mk_fact_Inl)
  obtain sm where sm: "financial_summary tz clock owner currency None db = Inr sm" "fs_spent sm = pm_spent (ar_current rep)"
    using report_and_summary [OF assms] by blast
  have "map fa_value (take 3 fs) = map format_f [fs_spent sm, pm_spent (ar_previous rep), fs_spent sm - pm_spent (ar_previous rep)] \<and>
      (\<exists>changes. map fa_value (drop 5 fs) = map format_f changes \<and>
         (\<not> truncated \<longrightarrow> sum_list changes = fs_spent sm - pm_spent (ar_previous rep)))"
    if f: "compare_facts rep = Inr (p, fs, truncated)" for p fs truncated
  proof -
    let ?shown = "take (MAX_FACTS - 5) (ar_contributions rep)"
    from f m obtain a b c d e cs where fs: "fs = [a, b, c, d, e] @ cs" and v: "fa_value a = format_f (pm_spent (ar_current rep))"
      "fa_value b = format_f (pm_spent (ar_previous rep))" "fa_value c = format_f (ar_total_change rep)"
      and cs: "mapE (contribution_fact (ar_currency rep)) ?shown = Inr cs"
      and t: "truncated = (MAX_FACTS - 5 < length (ar_contributions rep))"
      by (auto simp: compare_facts_def result_simps mk_fact_Inr)
    have "map fa_value cs = map (\<lambda>c. format_f (contribution_change c)) ?shown"
      using cs by (rule mapE_map) (auto simp: contribution_fact_def result_simps mk_fact_Inr)
    then have "map fa_value (drop 5 fs) = map format_f (map contribution_change ?shown)" by (simp add: fs comp_def)
    moreover have "\<not> truncated \<longrightarrow> sum_list (map contribution_change ?shown) = fs_spent sm - pm_spent (ar_previous rep)"
      using total m by (simp add: t sm(2))
    ultimately show ?thesis using m by (intro conjI exI [of _ "map contribution_change ?shown"]) (simp_all add: fs v sm(2) eval_nat_numeral)
  qed
  with guard sm(1) show ?thesis by blast
qed

lemma comparison_adds_up_witness:
  "\<exists>rep. sample_report = Inr rep \<and> compare_facts rep \<noteq> Inl AgentLimitError"
proof -
  obtain rep where rep: "sample_report = Inr rep" by (rule sample_report_value)
  from comparison_adds_up [OF rep] rep show ?thesis by blast
qed

text \<open>
  C17: every outcome is bounded. A question never ends in the time limit or in the agent's own limits, which
  become the answer that no partial result is shown. Whatever is returned has at most 30 facts and 12000
  characters of text; an answered question also has at most 16000 bytes of JSON, and each of its values is a
  finite decimal literal, so the final check of the values never refuses what the tools returned.
\<close>

theorem answers_are_bounded:
  assumes "ask_question env prov q owner s = (s', out)"
  shows "out \<noteq> Inl TimeoutError \<and> out \<noteq> Inl AgentLimitError \<and>
    (\<forall>r. out = Inr r \<longrightarrow> length (qr_facts r) \<le> 30 \<and> length (qr_answer r) \<le> 12000 \<and>
       (qr_status r = ANSWERED \<longrightarrow> ag_dump_length env r \<le> 16000 \<and>
          (\<forall>f \<in> set (qr_facts r). \<exists>c e. parse_decimal (fa_value f) = Some (Dec c e)))) \<and>
    (\<forall>tool p fs b. tool_facts env q owner tool = Inr (p, fs, b) \<longrightarrow> list_all finite_value fs)"
proof -
  have finite: "list_all finite_value fs" if "tool_facts env q owner tool = Inr (p, fs, b)" for tool p fs b
    using fact_numbers [OF that] value_pattern_parses by (fastforce simp: list_all_iff finite_value_def)
  have bounded: "length (qr_facts r) \<le> 30 \<and> length (qr_answer r) \<le> 12000 \<and> (qr_status r = ANSWERED \<longrightarrow>
      ag_dump_length env r \<le> 16000 \<and> (\<forall>f \<in> set (qr_facts r). \<exists>c e. parse_decimal (fa_value f) = Some (Dec c e)))"
    if "answer_with env q owner tool mode = Inr r" for tool mode r
  proof (cases "qr_status r = ANSWERED")
    case True
    with answer_with_Inr [OF that] obtain f where "checked_answer (ag_dump_length env) mode tool f = Inr r" by blast
    then show ?thesis
      by (auto simp: checked_answer_Inr MAX_FACTS_def list_all_iff finite_value_iff)
  next
    case False
    with that show ?thesis
      by (auto simp: answer_with_def failure_def not_understood_def result_simps checked_answer_Inr split: if_splits)
  qed
  have "out \<noteq> Inl TimeoutError \<and> out \<noteq> Inl AgentLimitError"
    using assms by (auto simp: ask_question_def split: if_splits prod.splits sum.splits)
  moreover have "length (qr_facts r) \<le> 30 \<and> length (qr_answer r) \<le> 12000 \<and> (qr_status r = ANSWERED \<longrightarrow>
      ag_dump_length env r \<le> 16000 \<and> (\<forall>f \<in> set (qr_facts r). \<exists>c e. parse_decimal (fa_value f) = Some (Dec c e)))"
    if "out = Inr r" for r
  proof (cases "\<exists>tool mode. answer_with env q owner tool mode = Inr r")
    case True
    with bounded show ?thesis by blast
  next
    case False
    with assms that have "\<exists>status text. r = failure status TOOL_UNSUPPORTED text \<and> status \<noteq> ANSWERED \<and> length text \<le> 12000"
      by (auto simp: ask_question_def run_question_def Let_def split: if_splits prod.splits sum.splits intro!: exI)
    then show ?thesis by (auto simp: failure_def)
  qed
  ultimately show ?thesis using finite by blast
qed

lemma answers_are_bounded_witness:
  "\<exists>r. compare_sample = ((), Inr r) \<and> length (qr_facts r) \<le> 30"
proof -
  obtain r where r: "compare_sample = ((), Inr r)" by (rule sample_comparison)
  from answers_are_bounded [OF r] r show ?thesis by blast
qed

text \<open>
  C18: a denied word stops a question, whatever surrounds it. If one occurs as a word anywhere in the question,
  in any case, then neither the provider nor a tool is called: the outcome is the same for all tables,
  authorizations and providers, and the state of the outside world is unchanged.
\<close>

theorem denied_questions_call_nothing:
  assumes "w \<in> set DENIED" "casefold v = w" "qn_question q = pre @ v @ post" "pre = [] \<or> \<not> word_char (last pre)" "\<not> starts_word post"
  shows "ask_question env prov q owner s =
    (s, Inr (if ag_busy env then failure BUSY TOOL_UNSUPPORTED ''Agent capacity is busy.''
             else failure UNSUPPORTED_QUESTION TOOL_UNSUPPORTED
                    ''Only allowlisted, read-only questions about your own ledger are supported.''))"
proof -
  have "list_all (\<lambda>w. search (word_here DENIED) False w) DENIED" by code_simp
  with assms(1,2) have "blocked v" by (auto simp: blocked_def has_word_def list_all_iff)
  from blocked_embedded [OF this assms(4,5)] show ?thesis by (simp add: ask_question_def run_question_def assms(3))
qed

lemma denied_questions_call_nothing_witness:
  "ask_question sample_agent None (sample_question ''Summary, then DROP it'') 1 () =
    ((), Inr (failure UNSUPPORTED_QUESTION TOOL_UNSUPPORTED
                ''Only allowlisted, read-only questions about your own ledger are supported.''))"
proof -
  have "\<not> ag_busy sample_agent" by (simp add: sample_agent_def)
  moreover have "ask_question sample_agent None (sample_question ''Summary, then DROP it'') 1 () =
      ((), Inr (if ag_busy sample_agent then failure BUSY TOOL_UNSUPPORTED ''Agent capacity is busy.''
             else failure UNSUPPORTED_QUESTION TOOL_UNSUPPORTED
                    ''Only allowlisted, read-only questions about your own ledger are supported.''))"
  proof (rule denied_questions_call_nothing [where w = "''drop''" and v = "''DROP''"])
    show "''drop'' \<in> set DENIED" by (simp add: DENIED_def)
    show "casefold ''DROP'' = ''drop''" by code_simp
    show "qn_question (sample_question ''Summary, then DROP it'') = ''Summary, then '' @ ''DROP'' @ '' it''"
      by (simp add: sample_question_def)
    show "''Summary, then '' = [] \<or> \<not> word_char (last ''Summary, then '')" by code_simp
    show "\<not> starts_word '' it''" by code_simp
  qed
  ultimately show ?thesis by simp
qed

end
