(* ===== verification/Spec2Isabelle.thy ===== *)
theory Spec2Isabelle
  imports Enums Obligation_Contract Recurring_Properties Job_Properties Provenance_Properties Reviews Analytics Import_Properties Agent_Properties
begin

text \<open>
  Expensea's API (\<open>src/apps/api/app\<close>) is a multi-tenant personal ledger: users record
  transactions, categorize them, keep receivables and payables with their settlements, schedule
  recurring payments, and feed the ledger from sources through a replay-safe ingestion pipeline that
  detects duplicates; a PostgreSQL-backed queue runs the extraction of notes. This development models
  the deterministic core of that program and proves its contracts.

  \<^bold>\<open>How code and model correspond.\<close> The database is a record of tables, and every component extends
  it: \<open>ledger_db\<close>, \<open>categorization_db\<close>, \<open>obligation_db\<close>, \<open>recurring_db\<close>, then \<open>job_db\<close> and, beside
  it, \<open>ingestion_db\<close> and \<open>reconciliation_db\<close>. A SQLAlchemy model is a row record with its CHECK,
  UNIQUE and FOREIGN KEY constraints written out at the insert; a repository method is a query or an
  update of the tables; a service method is a function to \<open>error + (tables \<times> value)\<close>, so a raised
  exception leaves the old tables (\<open>Prelude.atomically\<close>). Fresh UUIDs, clocks, random jitter, the
  collation of names, the time zone database and the order of unordered queries are arguments.
  UUIDs are natural numbers (which order like the column), instants microseconds, amounts
  ten-thousandths of a unit as \<open>NUMERIC(19, 4)\<close> stores them, Python integers unbounded integers.

  \<^bold>\<open>Theories.\<close>
  \<^item> \<open>Prelude\<close>: results, tables, and the collections \<open>result_simps\<close> and \<open>table_simps\<close>; \<open>Enums\<close>:
    \<open>domain/enums.py\<close>; \<open>Lifecycle\<close>: the contract of a status that moves along a table of edges, a locale
    that recurring payments, jobs and raw events interpret.
  \<^item> \<open>Text_Normalization\<close>, \<open>Decimals\<close>: \<open>domain/normalization.py\<close>, \<open>domain/money.py\<close> on Python's 28-digit
    decimals; which amounts are accepted and that storing them loses nothing.
  \<^item> \<open>Calendar\<close>: \<open>ledger/periods.py\<close> and the recurrence step; months, local midnights, advancing dates.
  \<^item> \<open>Ledger_Store\<close>, \<open>Categorization\<close>, \<open>Keyset\<close>, \<open>Ledger_Service\<close>: \<open>ledger/commands.py\<close>,
    \<open>ledger/repository.py\<close>, \<open>categorization/*\<close>, \<open>ledger/service.py\<close>, \<open>ledger/pagination.py\<close>; the store
    invariant, tenant isolation, complete and ordered pages, reports that agree with each other.
    \<open>Keyset\<close> states keyset pagination once as a locale.
  \<^item> \<open>Obligations\<close>, \<open>Obligation_Laws\<close>, \<open>Obligation_Contract\<close>: \<open>ledger/obligation_*.py\<close>; the locale
    \<open>account_ledger\<close> is the abstract account (owed, settled, status) that receivables and payables refine.
  \<^item> \<open>Recurring\<close>, \<open>Recurring_Laws\<close>, \<open>Recurring_Properties\<close>: \<open>ledger/recurring_*.py\<close>.
  \<^item> \<open>Analytics\<close>: \<open>analytics/*\<close>; the month comparison agrees with the ledger's reports, and insights
    cite only records of the owner.
  \<^item> \<open>Jobs\<close>, \<open>Job_Laws\<close>, \<open>Job_Properties\<close>: \<open>jobs/*\<close>; leases, bounds, retries, idempotent admission.
  \<^item> \<open>Ingestion\<close>, \<open>Ingestion_Service\<close>: \<open>connectors/contracts.py\<close>, \<open>ingestion/*\<close>, \<open>models/ingestion.py\<close>.
  \<^item> \<open>Similarity\<close>, \<open>Duplicate_Scoring\<close>, \<open>Reconciliation\<close>, \<open>Reconciliation_Service\<close>: \<open>reconciliation/*\<close>,
    with \<open>difflib.SequenceMatcher\<close> written out; scores stay in range and decisions follow the policy.
  \<^item> \<open>Providers\<close>, \<open>Note_Extraction\<close>, \<open>Proposals\<close>: \<open>ai/*\<close>; bounded retries around a provider, the
    validation of what a model answers, and the review queue of proposals. A provider is a function on
    the state of the outside world.
  \<^item> \<open>Agent_Routing\<close>, \<open>Agent\<close>, \<open>Agent_Properties\<close>: \<open>agent/*\<close>, the read-only questions over the ledger, the
    analytics, the obligations and the recurring payments: answers cite only the owner's records, the
    comparison adds up, denied questions call nothing.
  \<^item> \<open>Proposal_Laws\<close>, \<open>Proposal_Steps\<close>, \<open>Proposal_Properties\<close>: the review queue on top of the pipeline;
    \<open>review_wf\<close> is the invariant, \<open>review_step\<close> one committed transaction. Nothing is booked without an
    approval, an approval books the proposal's own values, a decision is final.
  \<^item> \<open>Connectors\<close>, \<open>Csv_Import\<close>, \<open>Keep_Import\<close>: the built-in sources of \<open>connectors/*\<close>, with the state machine of
    Python's \<open>csv\<close> reader; \<open>Csv_Properties\<close>: written documents read back, rows stay traceable.
  \<^item> \<open>Submissions\<close>, \<open>Import_Properties\<close>: submitting a note end to end, and the locale \<open>finite_source\<close> that all
    built-in connectors interpret; notes are submitted once, a completed import has nothing left.
  \<^item> \<open>Provenance_Laws\<close>, \<open>Provenance_Steps\<close>, \<open>Deliveries\<close>, \<open>Provenance_Properties\<close>,
    \<open>Reviews\<close>: ingestion, review and
    ledger together. \<open>provenance_wf\<close> is their invariant, \<open>provenance_step\<close> one committed transaction, and
    deliveries and connector pages are sequences of steps; evidence has the value of its event,
    processing states follow their table, a repeated delivery changes nothing,
    and a pending case can always be kept separate.

  \<^bold>\<open>Bounds.\<close> No definition that models code uses fuel: every loop is structural or has a proved measure.
  The one bounded definition is the client of the paginated timeline, \<open>Ledger_Service.follow_pages\<close>, and its
  theorem gives the exact result with one page more than there are transactions. Texts are
  ASCII (Python's \<open>casefold\<close> and \<open>split\<close> agree with the definitions there); 32-bit counters of the
  database are unbounded here.

  \<^bold>\<open>Not modelled.\<close> The GraphQL and HTTP surface, OAuth and sessions, logging, configuration and
  telemetry (glue and I/O around the services); the migrations (they repeat the models' constraints as
  data definition); the connections router and the Gmail connector; the Ollama transport and the text of the system prompt (external
  services); seeds and evaluation scripts; the web client (TypeScript). What is computed by
  third-party code (Pydantic's JSON text of an envelope and reading of an object, the JSON decoder, SHA-256) is a parameter.
\<close>

end
